(* ===== verification/OrderedMap.thy ===== *)
theory OrderedMap
  imports Prelude
begin

text \<open>
  \<^verbatim>\<open>std::map\<close> with a comparator.  The code keys its routing tables, header lists, cookie
  lists and application table by comparators of its own (ignore-case, descending), so a map
  is modelled as what iteration over it shows: the list of its entries in comparator order.
  The locale \<open>strict_weak_order\<close> is the \<^emph>\<open>Compare\<close> requirement the standard puts on the
  comparator; its lemmas are the laws a client of \<^verbatim>\<open>std::map\<close> uses, and they are interpreted
  on the lexicographical comparisons the code passes.
\<close>

type_synonym ('k, 'v) omap = "('k \<times> 'v) list"

definition omap_sorted :: "('k \<Rightarrow> 'k \<Rightarrow> bool) \<Rightarrow> ('k, 'v) omap \<Rightarrow> bool" where
  "omap_sorted lt m \<longleftrightarrow> sorted_wrt (\<lambda>p q. lt (fst p) (fst q)) m"

text \<open>\<^verbatim>\<open>lower_bound\<close>: the entries from the first key not less than \<open>k\<close> on.\<close>

definition omap_lower_bound :: "('k \<Rightarrow> 'k \<Rightarrow> bool) \<Rightarrow> ('k, 'v) omap \<Rightarrow> 'k \<Rightarrow> ('k, 'v) omap" where
  "omap_lower_bound lt m k = dropWhile (\<lambda>p. lt (fst p) k) m"

definition omap_find :: "('k \<Rightarrow> 'k \<Rightarrow> bool) \<Rightarrow> ('k, 'v) omap \<Rightarrow> 'k \<Rightarrow> 'v option" where
  "omap_find lt m k =
     (case omap_lower_bound lt m k of
        [] \<Rightarrow> None
      | (k', v) # _ \<Rightarrow> if lt k k' then None else Some v)"

text \<open>\<^verbatim>\<open>insert\<close> keeps an entry whose key is equivalent; \<^verbatim>\<open>operator[]\<close> followed by an assignment,
  or an assignment through the iterator of \<^verbatim>\<open>find\<close>, replaces its value and keeps its key.\<close>

fun omap_insert :: "('k \<Rightarrow> 'k \<Rightarrow> bool) \<Rightarrow> ('k, 'v) omap \<Rightarrow> 'k \<Rightarrow> 'v \<Rightarrow> ('k, 'v) omap" where
  "omap_insert lt [] k v = [(k, v)]"
| "omap_insert lt ((k', v') # m) k v =
     (if lt k' k then (k', v') # omap_insert lt m k v
      else if lt k k' then (k, v) # (k', v') # m
      else (k', v') # m)"

fun omap_put :: "('k \<Rightarrow> 'k \<Rightarrow> bool) \<Rightarrow> ('k, 'v) omap \<Rightarrow> 'k \<Rightarrow> 'v \<Rightarrow> ('k, 'v) omap" where
  "omap_put lt [] k v = [(k, v)]"
| "omap_put lt ((k', v') # m) k v =
     (if lt k' k then (k', v') # omap_put lt m k v
      else if lt k k' then (k, v) # (k', v') # m
      else (k', v) # m)"

fun omap_erase :: "('k \<Rightarrow> 'k \<Rightarrow> bool) \<Rightarrow> ('k, 'v) omap \<Rightarrow> 'k \<Rightarrow> ('k, 'v) omap" where
  "omap_erase lt [] k = []"
| "omap_erase lt ((k', v') # m) k =
     (if lt k' k then (k', v') # omap_erase lt m k
      else if lt k k' then (k', v') # m
      else m)"

lemma omap_sorted_Nil [simp]: "omap_sorted lt []"
  by (simp add: omap_sorted_def)

lemma omap_sorted_Cons [simp]:
  "omap_sorted lt ((k, v) # m) \<longleftrightarrow> (\<forall>p \<in> set m. lt k (fst p)) \<and> omap_sorted lt m"
  by (simp add: omap_sorted_def)

lemma omap_find_Nil [simp]: "omap_find lt [] k = None"
  by (simp add: omap_find_def omap_lower_bound_def)

lemma omap_find_Cons [simp]:
  "omap_find lt ((k', v') # m) k =
     (if lt k' k then omap_find lt m k else if lt k k' then None else Some v')"
  by (simp add: omap_find_def omap_lower_bound_def)

lemma omap_put_same [simp]:
  "omap_find lt m k = None \<Longrightarrow> omap_put lt m k v = omap_insert lt m k v"
  by (induction m) (auto split: if_splits)

lemma set_omap_insert: "set (omap_insert lt m k v) \<subseteq> insert (k, v) (set m)"
  by (induction lt m k v rule: omap_insert.induct) auto

lemma fst_omap_put: "fst ` set (omap_put lt m k v) \<subseteq> insert k (fst ` set m)"
  by (induction lt m k v rule: omap_put.induct) auto

lemma set_omap_erase: "set (omap_erase lt m k) \<subseteq> set m"
  by (induction lt m k rule: omap_erase.induct) auto

section \<open>The comparator contract\<close>

locale strict_weak_order =
  fixes lt :: "'k \<Rightarrow> 'k \<Rightarrow> bool"
  assumes irrefl: "\<not> lt a a"
    and trans: "lt a b \<Longrightarrow> lt b c \<Longrightarrow> lt a c"
    and negtrans: "lt a c \<Longrightarrow> lt a b \<or> lt b c"
begin

lemma asym: "lt a b \<Longrightarrow> \<not> lt b a"
  using irrefl trans by blast

lemma sorted_insert: "omap_sorted lt m \<Longrightarrow> omap_sorted lt (omap_insert lt m k v)"
proof (induction m)
  case (Cons p m)
  obtain k' v' where p: "p = (k', v')" by (cases p)
  have m: "omap_sorted lt m" and above: "\<forall>q \<in> set m. lt k' (fst q)"
    using Cons.prems unfolding p by simp_all
  have "lt k' k \<Longrightarrow> \<forall>q \<in> set (omap_insert lt m k v). lt k' (fst q)"
    using set_omap_insert [of lt m k v] above by auto
  moreover have "lt k k' \<Longrightarrow> \<forall>q \<in> set m. lt k (fst q)"
    using above by (blast intro: trans)
  ultimately show ?case
    using Cons.IH [OF m] m above unfolding p by simp
qed simp

lemma sorted_put: "omap_sorted lt m \<Longrightarrow> omap_sorted lt (omap_put lt m k v)"
proof (induction m)
  case (Cons p m)
  obtain k' v' where p: "p = (k', v')" by (cases p)
  have m: "omap_sorted lt m" and above: "\<forall>q \<in> set m. lt k' (fst q)"
    using Cons.prems unfolding p by simp_all
  have "lt k' k \<Longrightarrow> \<forall>q \<in> set (omap_put lt m k v). lt k' (fst q)"
    using fst_omap_put [of lt m k v] above by fastforce
  moreover have "lt k k' \<Longrightarrow> \<forall>q \<in> set m. lt k (fst q)"
    using above by (blast intro: trans)
  ultimately show ?case
    using Cons.IH [OF m] m above unfolding p by simp
qed simp

lemma sorted_erase: "omap_sorted lt m \<Longrightarrow> omap_sorted lt (omap_erase lt m k)"
proof (induction m)
  case (Cons p m)
  then show ?case
    using set_omap_erase [of lt m k] by (cases p) auto
qed simp

text \<open>What \<^verbatim>\<open>find\<close> means: the value stored under the one key equivalent to the argument.\<close>

lemma find_iff:
  "omap_sorted lt m \<Longrightarrow>
   omap_find lt m k = Some v \<longleftrightarrow> (\<exists>k'. (k', v) \<in> set m \<and> \<not> lt k k' \<and> \<not> lt k' k)"
proof (induction m)
  case (Cons p m)
  obtain k' v' where p: "p = (k', v')" by (cases p)
  have above: "lt k' (fst q)" if "q \<in> set m" for q
    using Cons.prems that unfolding p by simp
  have m: "omap_sorted lt m" using Cons.prems unfolding p by simp
  show ?case
  proof (cases "lt k' k")
    case True
    with Cons.IH [OF m] show ?thesis unfolding p by auto
  next
    case F1: False
    have greater: "lt k (fst q)" if "q \<in> set m" for q
      using negtrans [OF above [OF that], of k] F1 by blast
    then show ?thesis
      using F1 unfolding p by (force simp: irrefl)
  qed
qed simp

lemma find_None_iff:
  "omap_sorted lt m \<Longrightarrow>
   omap_find lt m k = None \<longleftrightarrow> (\<forall>p \<in> set m. lt k (fst p) \<or> lt (fst p) k)"
  using find_iff [of m k] by (cases "omap_find lt m k") fastforce+

lemma find_equiv:
  assumes "\<not> lt a b" "\<not> lt b a"
  shows "omap_find lt m a = omap_find lt m b"
proof (induction m)
  case (Cons p m)
  obtain k v where "p = (k, v)" by (cases p)
  moreover have "lt k a \<longleftrightarrow> lt k b" "lt a k \<longleftrightarrow> lt b k"
    using assms negtrans by blast+
  ultimately show ?case using Cons.IH by simp
qed simp

lemma find_insert_equiv:
  assumes "omap_sorted lt m" "\<not> lt k j" "\<not> lt j k"
  shows "omap_find lt (omap_insert lt m k v) j =
           (case omap_find lt m j of None \<Rightarrow> Some v | Some w \<Rightarrow> Some w)"
proof -
  have "omap_find lt (omap_insert lt m k v) k =
           (case omap_find lt m k of None \<Rightarrow> Some v | Some w \<Rightarrow> Some w)"
    using assms(1)
  proof (induction m)
    case (Cons p m)
    then show ?case by (cases p) (auto simp: irrefl split: option.splits)
  qed (simp add: irrefl)
  then show ?thesis using find_equiv [OF assms(2,3)] by metis
qed

lemma find_insert_other:
  assumes "omap_sorted lt m" "lt k j \<or> lt j k"
  shows "omap_find lt (omap_insert lt m k v) j = omap_find lt m j"
  using assms(1)
proof (induction m)
  case (Cons p m)
  obtain k' v' where p: "p = (k', v')" by (cases p)
  have "lt k k' \<Longrightarrow> \<not> lt k j \<Longrightarrow> lt j k \<and> lt j k' \<and> \<not> lt k' j"
    using assms(2) by (blast dest: asym intro: trans)
  with Cons assms(2) show ?case unfolding p by auto
qed (use assms(2) asym in auto)

lemma find_put_equiv:
  assumes "omap_sorted lt m" "\<not> lt k j" "\<not> lt j k"
  shows "omap_find lt (omap_put lt m k v) j = Some v"
proof -
  have "omap_find lt (omap_put lt m k v) k = Some v"
    using assms(1)
  proof (induction m)
    case (Cons p m)
    then show ?case by (cases p) (auto simp: irrefl)
  qed (simp add: irrefl)
  then show ?thesis using find_equiv [OF assms(2,3)] by metis
qed

lemma find_put_other:
  assumes "omap_sorted lt m" "lt k j \<or> lt j k"
  shows "omap_find lt (omap_put lt m k v) j = omap_find lt m j"
  using assms(1)
proof (induction m)
  case (Cons p m)
  obtain k' v' where p: "p = (k', v')" by (cases p)
  have "\<not> lt k' k \<Longrightarrow> \<not> lt k k' \<Longrightarrow> (lt k' j \<longleftrightarrow> lt k j) \<and> (lt j k' \<longleftrightarrow> lt j k)"
    using negtrans by blast
  moreover have "lt k k' \<Longrightarrow> \<not> lt k j \<Longrightarrow> lt j k \<and> lt j k' \<and> \<not> lt k' j"
    using assms(2) by (blast dest: asym intro: trans)
  ultimately show ?case using Cons assms(2) unfolding p by auto
qed (use assms(2) asym in auto)

lemma set_erase: "omap_sorted lt m \<Longrightarrow> set (omap_erase lt m k) = {p \<in> set m. lt k (fst p) \<or> lt (fst p) k}"
proof (induction m)
  case (Cons p m)
  obtain k' v' where p: "p = (k', v')" by (cases p)
  have above: "lt k' (fst q)" if "q \<in> set m" for q
    using Cons.prems that unfolding p by simp
  have "\<not> lt k' k \<Longrightarrow> q \<in> set m \<Longrightarrow> lt k (fst q)" for q
    using negtrans [OF above, of q k] by blast
  then show ?case using Cons unfolding p by (auto simp: irrefl)
qed simp

lemma find_erase:
  assumes "omap_sorted lt m"
  shows "omap_find lt (omap_erase lt m k) j = (if \<not> lt k j \<and> \<not> lt j k then None else omap_find lt m j)"
proof -
  have equiv: "(lt k a \<longleftrightarrow> lt k j) \<and> (lt a k \<longleftrightarrow> lt j k)" if "\<not> lt j a" "\<not> lt a j" for a
    using that negtrans by blast
  have "omap_find lt (omap_erase lt m k) j = Some v \<longleftrightarrow>
      \<not> (\<not> lt k j \<and> \<not> lt j k) \<and> omap_find lt m j = Some v" for v
    unfolding find_iff [OF assms] find_iff [OF sorted_erase [OF assms]] set_erase [OF assms]
    using equiv by auto
  then show ?thesis by (metis option.exhaust)
qed

text \<open>\<^verbatim>\<open>lower_bound\<close> splits a map at the argument.\<close>

lemma sorted_fold_insert:
  "omap_sorted lt m \<Longrightarrow> omap_sorted lt (foldl (\<lambda>m (k, v). omap_insert lt m k v) m kvs)"
  by (induction kvs arbitrary: m) (auto simp: sorted_insert)

text \<open>Of several insertions of equivalent keys the first stays.\<close>

lemma find_fold_insert:
  "omap_sorted lt m \<Longrightarrow>
   omap_find lt (foldl (\<lambda>m (k, v). omap_insert lt m k v) m kvs) j
     = (case omap_find lt m j of
          Some w \<Rightarrow> Some w
        | None \<Rightarrow> map_option snd (find (\<lambda>(k, v). \<not> lt k j \<and> \<not> lt j k) kvs))"
proof (induction kvs arbitrary: m)
  case Nil
  then show ?case by (simp split: option.splits)
next
  case (Cons kv kvs)
  obtain k v where kv: "kv = (k, v)" by (cases kv)
  have s: "omap_sorted lt (omap_insert lt m k v)"
    by (rule sorted_insert [OF Cons.prems])
  have f: "omap_find lt (omap_insert lt m k v) j =
      (if \<not> lt k j \<and> \<not> lt j k then case omap_find lt m j of None \<Rightarrow> Some v | Some w \<Rightarrow> Some w
       else omap_find lt m j)"
    using find_insert_equiv [OF Cons.prems] find_insert_other [OF Cons.prems] by auto
  show ?case
    using Cons.IH [OF s] unfolding kv by (auto simp: f split: option.splits)
qed

text \<open>Of several assignments to equivalent keys the last stays.\<close>

lemma sorted_fold_put:
  "omap_sorted lt m \<Longrightarrow> omap_sorted lt (foldl (\<lambda>m (k, v). omap_put lt m k v) m kvs)"
  by (induction kvs arbitrary: m) (auto simp: sorted_put)

lemma find_fold_put:
  "omap_sorted lt m \<Longrightarrow>
   omap_find lt (foldl (\<lambda>m (k, v). omap_put lt m k v) m kvs) j
     = (case find (\<lambda>(k, v). \<not> lt k j \<and> \<not> lt j k) (rev kvs) of
          Some kv \<Rightarrow> Some (snd kv)
        | None \<Rightarrow> omap_find lt m j)"
proof (induction kvs rule: rev_induct)
  case (snoc kv kvs)
  obtain k v where kv: "kv = (k, v)" by (cases kv)
  show ?case
    using snoc find_put_equiv [OF sorted_fold_put [OF snoc.prems]] find_put_other [OF sorted_fold_put [OF snoc.prems]]
    by (auto simp: kv)
qed simp

lemma lower_bound_above:
  "omap_sorted lt m \<Longrightarrow> p \<in> set (omap_lower_bound lt m k) \<Longrightarrow> \<not> lt (fst p) k"
proof (induction m)
  case (Cons q m)
  obtain k' v' where q: "q = (k', v')" by (cases q)
  show ?case
  proof (cases "lt k' k")
    case True
    with Cons show ?thesis unfolding q by (simp add: omap_lower_bound_def)
  next
    case False
    with Cons.prems have "p = (k', v') \<or> lt k' (fst p)"
      unfolding q by (auto simp: omap_lower_bound_def)
    with False show ?thesis by (auto dest: trans)
  qed
qed (simp add: omap_lower_bound_def)

lemma not_in_lower_bound:
  "p \<in> set m \<Longrightarrow> p \<notin> set (omap_lower_bound lt m k) \<Longrightarrow> lt (fst p) k"
  unfolding omap_lower_bound_def
  by (metis Un_iff set_append set_takeWhileD takeWhile_dropWhile_id)

end

text \<open>The same comparator with its arguments swapped (\<^verbatim>\<open>CompareDESC\<close>) meets the contract too.\<close>

sublocale strict_weak_order \<subseteq> desc: strict_weak_order "\<lambda>a b. lt b a"
  by unfold_locales (use irrefl trans negtrans in blast)+

section \<open>Lexicographical comparison\<close>

text \<open>\<^verbatim>\<open>std::lexicographical_compare\<close> with elements compared through a key.\<close>

fun lex_less :: "('a \<Rightarrow> 'o::linorder) \<Rightarrow> 'a list \<Rightarrow> 'a list \<Rightarrow> bool" where
  "lex_less key xs [] = False"
| "lex_less key [] (y # ys) = True"
| "lex_less key (x # xs) (y # ys) =
     (if key x < key y then True else if key y < key x then False else lex_less key xs ys)"

lemma lex_less_Nil_left [simp]: "lex_less key [] ys \<longleftrightarrow> ys \<noteq> []"
  by (cases ys) auto

lemma lex_less_irrefl: "\<not> lex_less key xs xs"
  by (induction xs) auto

lemma lex_less_negtrans: "lex_less key a c \<Longrightarrow> lex_less key a b \<or> lex_less key b c"
proof (induction key a c arbitrary: b rule: lex_less.induct)
  case (2 key y ys)
  then show ?case by (cases b) auto
next
  case (3 key x xs y ys)
  then show ?case by (cases b) (auto split: if_splits)
qed auto

lemma lex_less_trans: "lex_less key a b \<Longrightarrow> lex_less key b c \<Longrightarrow> lex_less key a c"
proof (induction key a b arbitrary: c rule: lex_less.induct)
  case (2 key y ys)
  then show ?case by (cases c) auto
next
  case (3 key x xs y ys)
  then show ?case by (cases c) (auto split: if_splits)
qed auto

interpretation lex: strict_weak_order "lex_less key" for key
  by unfold_locales (blast intro: lex_less_trans dest: lex_less_negtrans notE [OF lex_less_irrefl])+

lemma lex_less_equiv_iff:
  "\<not> lex_less key a b \<and> \<not> lex_less key b a \<longleftrightarrow> map key a = map key b"
  by (induction key a b rule: lex_less.induct) auto

lemma lex_less_prefix: "lex_less key p (p @ x # xs)"
  by (induction p) auto

text \<open>\<^verbatim>\<open>operator<\<close> of \<^verbatim>\<open>std::string\<close> compares bytes as unsigned.\<close>

definition str_less :: "string \<Rightarrow> string \<Rightarrow> bool" where
  "str_less = lex_less code"

interpretation strs: strict_weak_order str_less
  unfolding str_less_def by unfold_locales

lemma str_less_total: "\<not> str_less a b \<and> \<not> str_less b a \<longleftrightarrow> a = b"
proof -
  have "map code a = map code b \<longleftrightarrow> a = b"
    by (rule inj_map_eq_map) (rule inj_of_char)
  then show ?thesis unfolding str_less_def by (simp add: lex_less_equiv_iff)
qed

section \<open>Keys that are equivalent only when equal\<close>

text \<open>Under such a comparator a map is a finite map, and its operations are those of one.\<close>

locale strict_total_order = strict_weak_order +
  assumes total: "\<not> lt a b \<Longrightarrow> \<not> lt b a \<Longrightarrow> a = b"
begin

lemma map_insert:
  "omap_sorted lt m \<Longrightarrow> omap_find lt (omap_insert lt m k v) =
     (if omap_find lt m k = None then (omap_find lt m)(k \<mapsto> v) else omap_find lt m)"
proof
  fix j
  assume m: "omap_sorted lt m"
  show "omap_find lt (omap_insert lt m k v) j =
     (if omap_find lt m k = None then (omap_find lt m)(k \<mapsto> v) else omap_find lt m) j"
  proof (cases "j = k")
    case True
    then show ?thesis using find_insert_equiv [OF m, of k k v] irrefl by (auto split: option.splits)
  next
    case False
    then show ?thesis using find_insert_other [OF m, of k j v] total by auto
  qed
qed

lemma map_put: "omap_sorted lt m \<Longrightarrow> omap_find lt (omap_put lt m k v) = (omap_find lt m)(k \<mapsto> v)"
proof
  fix j
  assume m: "omap_sorted lt m"
  show "omap_find lt (omap_put lt m k v) j = ((omap_find lt m)(k \<mapsto> v)) j"
    using find_put_equiv [OF m, of k k v] find_put_other [OF m, of k j v] irrefl total by (cases "j = k") auto
qed

lemma map_erase: "omap_sorted lt m \<Longrightarrow> omap_find lt (omap_erase lt m k) = (omap_find lt m)(k := None)"
  using find_erase irrefl total by (intro ext) (auto simp: find_erase)

lemma find_in: "omap_sorted lt m \<Longrightarrow> omap_find lt m k = Some v \<longleftrightarrow> (k, v) \<in> set m"
  using find_iff [of m k v] irrefl total by metis

end

interpretation strm: strict_total_order str_less
  by unfold_locales (simp add: str_less_total [THEN iffD1])

end
