(* ===== verification/StringUtil.thy ===== *)
theory StringUtil
  imports OrderedMap
begin

text \<open>
  \<^verbatim>\<open>src/utilities/string_utilities.cpp\<close>: case-insensitive comparison, trimming, splitting,
  replacement and hexadecimal numerals.  Most of these functions delegate to Boost's string
  algorithms, which are not part of the repository: they are the fields of the record
  \<open>boost_algo\<close>, an argument of every definition that reaches them, and \<open>boost_laws\<close> states
  what their documentation promises in the classic locale the program runs in.
  \<open>boost_classic\<close> is a concrete instance that shows the laws can hold.
\<close>

section \<open>The Boost string algorithms as a parameter\<close>

record boost_algo =
  b_istarts_with :: "string \<Rightarrow> string \<Rightarrow> bool"
  b_starts_with :: "string \<Rightarrow> string \<Rightarrow> bool"
  b_iends_with :: "string \<Rightarrow> string \<Rightarrow> bool"
  b_ends_with :: "string \<Rightarrow> string \<Rightarrow> bool"
  b_iequals :: "string \<Rightarrow> string \<Rightarrow> bool"
  b_ilexicographical_compare :: "string \<Rightarrow> string \<Rightarrow> bool"
  b_replace_all_copy :: "string \<Rightarrow> string \<Rightarrow> string \<Rightarrow> string"
  b_split_any_of :: "string \<Rightarrow> string \<Rightarrow> string list"
  b_trim :: "string \<Rightarrow> string"
  b_trim_left :: "string \<Rightarrow> string"
  b_trim_right :: "string \<Rightarrow> string"

text \<open>\<^verbatim>\<open>std::toupper\<close> and \<^verbatim>\<open>std::isspace\<close> in the classic locale.\<close>

definition std_toupper :: "char \<Rightarrow> char" where
  "std_toupper c = (if 97 \<le> code c \<and> code c \<le> 122 then char_of (code c - 32) else c)"

definition std_isspace :: "char \<Rightarrow> bool" where
  "std_isspace c \<longleftrightarrow> code c = 32 \<or> (9 \<le> code c \<and> code c \<le> 13)"

definition upper :: "string \<Rightarrow> string" where
  "upper s = map std_toupper s"

fun split_at :: "(char \<Rightarrow> bool) \<Rightarrow> string \<Rightarrow> string list" where
  "split_at p [] = [[]]"
| "split_at p (c # s) =
     (if p c then [] # split_at p s
      else (case split_at p s of [] \<Rightarrow> [[c]] | w # ws \<Rightarrow> (c # w) # ws))"

function replace_sub :: "string \<Rightarrow> string \<Rightarrow> string \<Rightarrow> string" where
  "replace_sub [] bef aft = []"
| "replace_sub (c # s) bef aft =
     (if bef \<noteq> [] \<and> is_prefix bef (c # s) then aft @ replace_sub (drop (length bef) (c # s)) bef aft
      else c # replace_sub s bef aft)"
  by pat_completeness auto
termination
  by (relation "measure (\<lambda>(s, bef, aft). length s)") (auto simp: neq_Nil_conv)

definition boost_laws :: "boost_algo \<Rightarrow> bool" where
  "boost_laws B \<longleftrightarrow>
     (\<forall>m s. b_istarts_with B m s \<longleftrightarrow> (\<exists>p t. m = p @ t \<and> upper p = upper s)) \<and>
     (\<forall>m s. b_starts_with B m s \<longleftrightarrow> (\<exists>t. m = s @ t)) \<and>
     (\<forall>m s. b_iends_with B m s \<longleftrightarrow> (\<exists>t p. m = t @ p \<and> upper p = upper s)) \<and>
     (\<forall>m s. b_ends_with B m s \<longleftrightarrow> (\<exists>t. m = t @ s)) \<and>
     (\<forall>s t. b_iequals B s t \<longleftrightarrow> upper s = upper t) \<and>
     (\<forall>s t. b_ilexicographical_compare B s t \<longleftrightarrow> lex_less (\<lambda>c. schar (std_toupper c)) s t) \<and>
     (\<forall>m b a. b_replace_all_copy B m b a = replace_sub m b a) \<and>
     (\<forall>m cs. b_split_any_of B m cs = split_at (\<lambda>c. c \<in> set cs) m) \<and>
     (\<forall>s. b_trim_left B s = dropWhile std_isspace s) \<and>
     (\<forall>s. b_trim_right B s = rev (dropWhile std_isspace (rev s))) \<and>
     (\<forall>s. b_trim B s = dropWhile std_isspace (rev (dropWhile std_isspace (rev s))))"

definition boost_classic :: boost_algo where
  "boost_classic =
     \<lparr> b_istarts_with = (\<lambda>m s. is_prefix (upper s) (upper m)),
       b_starts_with = (\<lambda>m s. is_prefix s m),
       b_iends_with = (\<lambda>m s. is_prefix (rev (upper s)) (rev (upper m))),
       b_ends_with = (\<lambda>m s. is_prefix (rev s) (rev m)),
       b_iequals = (\<lambda>s t. upper s = upper t),
       b_ilexicographical_compare = lex_less (\<lambda>c. schar (std_toupper c)),
       b_replace_all_copy = replace_sub,
       b_split_any_of = (\<lambda>m cs. split_at (\<lambda>c. c \<in> set cs) m),
       b_trim = (\<lambda>s. dropWhile std_isspace (rev (dropWhile std_isspace (rev s)))),
       b_trim_left = dropWhile std_isspace,
       b_trim_right = (\<lambda>s. rev (dropWhile std_isspace (rev s))) \<rparr>"

lemma upper_append [simp]: "upper (s @ t) = upper s @ upper t"
  by (simp add: upper_def)

lemma upper_Nil_iff [simp]: "upper s = [] \<longleftrightarrow> s = []" "upper [] = []"
  by (simp_all add: upper_def)

lemma length_upper [simp]: "length (upper s) = length s"
  by (simp add: upper_def)

lemma upper_split: "upper m = a @ b \<Longrightarrow> \<exists>p t. m = p @ t \<and> upper p = a \<and> upper t = b"
  unfolding upper_def by (metis map_eq_append_conv)

lemma boost_classic_laws: "boost_laws boost_classic"
proof -
  have "is_prefix (upper s) (upper m) \<longleftrightarrow> (\<exists>p t. m = p @ t \<and> upper p = upper s)" for m s
    using upper_split by (fastforce simp: is_prefix_iff)
  moreover have "is_prefix (rev s) (rev m) \<longleftrightarrow> (\<exists>t. m = t @ s)" for m s :: string
    unfolding is_prefix_iff by (metis rev_append rev_rev_ident)
  moreover have "is_prefix (rev (upper s)) (rev (upper m)) \<longleftrightarrow> (\<exists>t p. m = t @ p \<and> upper p = upper s)"
    for m s
  proof -
    have "is_prefix (rev (upper s)) (rev (upper m)) \<longleftrightarrow> (\<exists>t. upper m = t @ upper s)"
      unfolding is_prefix_iff by (metis rev_append rev_rev_ident)
    then show ?thesis using upper_split by fastforce
  qed
  ultimately show ?thesis
    by (auto simp: boost_laws_def boost_classic_def is_prefix_iff)
qed

section \<open>The wrappers of the library\<close>

definition iStartsWith :: "boost_algo \<Rightarrow> string \<Rightarrow> string \<Rightarrow> bool" where
  "iStartsWith B m s = b_istarts_with B m s"

definition StartsWith :: "boost_algo \<Rightarrow> string \<Rightarrow> string \<Rightarrow> bool" where
  "StartsWith B m s = b_starts_with B m s"

definition iEndsWith :: "boost_algo \<Rightarrow> string \<Rightarrow> string \<Rightarrow> bool" where
  "iEndsWith B m s = b_iends_with B m s"

definition EndsWith :: "boost_algo \<Rightarrow> string \<Rightarrow> string \<Rightarrow> bool" where
  "EndsWith B m s = b_ends_with B m s"

definition iEquals :: "boost_algo \<Rightarrow> string \<Rightarrow> string \<Rightarrow> bool" where
  "iEquals B l r = b_iequals B l r"

definition iLess :: "boost_algo \<Rightarrow> string \<Rightarrow> string \<Rightarrow> bool" where
  "iLess B l r = b_ilexicographical_compare B l r"

definition IgnoreCaseCompare :: "boost_algo \<Rightarrow> string \<Rightarrow> string \<Rightarrow> bool" where
  "IgnoreCaseCompare B l r = iLess B l r"

definition IgnoreCaseCompareDESC :: "boost_algo \<Rightarrow> string \<Rightarrow> string \<Rightarrow> bool" where
  "IgnoreCaseCompareDESC B l r = IgnoreCaseCompare B r l"

definition CompareDESC :: "string \<Rightarrow> string \<Rightarrow> bool" where
  "CompareDESC l r = str_less r l"

definition ReplaceAll :: "boost_algo \<Rightarrow> string \<Rightarrow> string \<Rightarrow> string \<Rightarrow> string" where
  "ReplaceAll B m bef aft = b_replace_all_copy B m bef aft"

definition Trim :: "boost_algo \<Rightarrow> string \<Rightarrow> string" where
  "Trim B m = b_trim B m"

definition TrimCopy :: "boost_algo \<Rightarrow> string \<Rightarrow> string" where
  "TrimCopy B m = b_trim B m"

definition TrimLeft :: "boost_algo \<Rightarrow> string \<Rightarrow> string" where
  "TrimLeft B m = b_trim_left B m"

definition TrimLeftCopy :: "boost_algo \<Rightarrow> string \<Rightarrow> string" where
  "TrimLeftCopy B m = b_trim B m"

definition TrimRight :: "boost_algo \<Rightarrow> string \<Rightarrow> string" where
  "TrimRight B m = b_trim_right B m"

definition TrimRightCopy :: "boost_algo \<Rightarrow> string \<Rightarrow> string" where
  "TrimRightCopy B m = b_trim_right B m"

datatype TrimOptions = keep_space | trim_all | trim_left | trim_right

fun TrimOnOptions :: "boost_algo \<Rightarrow> string \<Rightarrow> TrimOptions \<Rightarrow> string" where
  "TrimOnOptions B m trim_all = Trim B m"
| "TrimOnOptions B m trim_left = TrimLeft B m"
| "TrimOnOptions B m trim_right = TrimRight B m"
| "TrimOnOptions B m keep_space = m"

definition TrimOnOptionsCopy :: "boost_algo \<Rightarrow> string \<Rightarrow> TrimOptions \<Rightarrow> string" where
  "TrimOnOptionsCopy B m opt =
     (if opt = keep_space then m
      else let mcopy = m in TrimOnOptions B mcopy opt)"

definition Split :: "boost_algo \<Rightarrow> string \<Rightarrow> char \<Rightarrow> TrimOptions \<Rightarrow> string list" where
  "Split B m c opt =
     (let parts = b_split_any_of B m [c]
      in if opt \<noteq> keep_space then map (\<lambda>part. TrimOnOptions B part opt) parts else parts)"

text \<open>
  \<^verbatim>\<open>std::getline\<close> on a string stream: the unread text with the \<^verbatim>\<open>eofbit\<close> and the \<^verbatim>\<open>failbit\<close>.
\<close>

record istream =
  unread :: string
  eofbit :: bool
  failbit :: bool

definition std_getline :: "istream \<Rightarrow> istream \<times> string" where
  "std_getline ss =
     (if eofbit ss \<or> failbit ss then (ss\<lparr>failbit := True\<rparr>, [])
      else let line = takeWhile (\<lambda>c. c \<noteq> CHR 0x0A) (unread ss);
               rest = drop (length line) (unread ss)
           in (case rest of
                 [] \<Rightarrow> (ss\<lparr>unread := [], eofbit := True, failbit := (line = [])\<rparr>, line)
               | _ # rest' \<Rightarrow> (ss\<lparr>unread := rest'\<rparr>, line)))"

lemma std_getline_progress:
  "\<not> failbit ss \<Longrightarrow>
   length (unread (fst (std_getline ss))) + (if eofbit (fst (std_getline ss)) then 0 else 1)
     + (if failbit (fst (std_getline ss)) then 0 else 1)
   < length (unread ss) + (if eofbit ss then 0 else 1) + (1::nat)"
proof -
  have "dropWhile P xs = y # ys \<Longrightarrow> length ys < length xs" for P and xs ys :: string and y
    using length_dropWhile_le [of P xs] by simp
  then show "\<not> failbit ss \<Longrightarrow> ?thesis"
    by (auto simp: std_getline_def Let_def dropWhile_eq_drop [symmetric] split: list.splits)
qed

function SplitByLine_loop :: "boost_algo \<Rightarrow> TrimOptions \<Rightarrow> istream \<Rightarrow> string list" where
  "SplitByLine_loop B opt ss =
     (if failbit ss then []
      else let (ss', line) = std_getline ss
           in TrimOnOptions B line opt # SplitByLine_loop B opt ss')"
  by pat_completeness auto
termination
proof (relation "measure (\<lambda>(B, opt, ss). length (unread ss) + (if eofbit ss then 0 else 1)
                                        + (if failbit ss then 0 else 1))", goal_cases)
  case (2 B opt ss x ss' line)
  then have "fst (std_getline ss) = ss'" by (metis fst_conv)
  with 2 std_getline_progress [of ss] show ?case by simp
qed simp

declare SplitByLine_loop.simps [simp del]

definition SplitByLine :: "boost_algo \<Rightarrow> string \<Rightarrow> TrimOptions \<Rightarrow> string list" where
  "SplitByLine B m opt = SplitByLine_loop B opt \<lparr>unread = m, eofbit = False, failbit = False\<rparr>"

section \<open>Hexadecimal numerals\<close>

fun hex_remainders :: "nat \<Rightarrow> string" where
  "hex_remainders q =
     (let remainder = q mod 16;
          q' = q div 16;
          c = (if remainder < 10 then char_of (48 + remainder) else char_of (65 + remainder - 10))
      in c # (if q' > 0 then hex_remainders q' else []))"

declare hex_remainders.simps [simp del]

definition DecIntToHexStr :: "nat \<Rightarrow> string" where
  "DecIntToHexStr num = rev (hex_remainders num)"

fun hex_value_from :: "nat \<Rightarrow> string \<Rightarrow> nat" where
  "hex_value_from a [] = a"
| "hex_value_from a (c # cs) =
     hex_value_from (16 * a + (if code c < 58 then code c - 48 else code c - 55)) cs"

lemma hex_value_from_append: "hex_value_from a (s @ t) = hex_value_from (hex_value_from a s) t"
  by (induction s arbitrary: a) auto

text \<open>Reading the numeral back gives the number, for every number.\<close>

lemma hex_value_DecIntToHexStr: "hex_value_from 0 (DecIntToHexStr n) = n"
proof (induction n rule: hex_remainders.induct)
  case (1 n)
  define c :: char where
    "c = (if n mod 16 < 10 then char_of (48 + n mod 16) else char_of (65 + n mod 16 - 10))"
  have "n mod 16 < 16" by simp
  then have c: "(if code c < 58 then code c - 48 else code c - 55) = n mod 16"
    unfolding c_def by (auto simp del: mod_less_divisor)
  have step: "DecIntToHexStr n = (if n div 16 > 0 then DecIntToHexStr (n div 16) else []) @ [c]"
    unfolding DecIntToHexStr_def c_def by (subst hex_remainders.simps) (simp add: Let_def)
  show ?case
  proof (cases "n div 16 > 0")
    case True
    then have "hex_value_from 0 (DecIntToHexStr (n div 16)) = n div 16"
      using "1" by simp
    with True c show ?thesis
      unfolding step by (simp add: hex_value_from_append)
  next
    case False
    then have "n mod 16 = n" by simp
    with False c show ?thesis unfolding step by (simp split: if_splits)
  qed
qed

end
