(* ===== verification/HttpUtil.thy ===== *)
theory HttpUtil
  imports StringUtil
begin

text \<open>
  \<^verbatim>\<open>src/utilities/http_utilities.cpp\<close>: percent-encoding and the two parsers of
  \<open>key=value\<close> lists (query strings and plain-text form bodies).  The lemmas show that
  decoding inverts encoding on every byte string and that parsing a query built from
  encoded pairs gives back exactly those pairs.
\<close>

section \<open>Percent encoding\<close>

definition IsUrlEncoded :: "string \<Rightarrow> bool" where
  "IsUrlEncoded value = list_ex (\<lambda>c. c = CHR ''%'' \<or> c = CHR ''+'') value"

definition hex_digt :: string where
  "hex_digt = ''0123456789ABCDEF''"

definition url_unreserved :: "char \<Rightarrow> bool" where
  "url_unreserved ch \<longleftrightarrow>
     (48 \<le> code ch \<and> code ch \<le> 57) \<or> (65 \<le> code ch \<and> code ch \<le> 90) \<or>
     (97 \<le> code ch \<and> code ch \<le> 122) \<or>
     ch = CHR ''-'' \<or> ch = CHR ''_'' \<or> ch = CHR ''!'' \<or> ch = CHR 0x27 \<or> ch = CHR ''('' \<or>
     ch = CHR '')'' \<or> ch = CHR ''*'' \<or> ch = CHR ''~'' \<or> ch = CHR ''.''"

fun UrlEncode :: "string \<Rightarrow> string" where
  "UrlEncode [] = []"
| "UrlEncode (ch # value) =
     (if url_unreserved ch then [ch]
      else [CHR ''%'', hex_digt ! drop_bit 4 (code ch), hex_digt ! take_bit 4 (code ch)])
     @ UrlEncode value"

text \<open>\<^verbatim>\<open>std::strtol(s, nullptr, 16)\<close>: leading space, a sign, an optional \<^verbatim>\<open>0x\<close>, then hexadecimal digits.\<close>

definition is_hex :: "char \<Rightarrow> bool" where
  "is_hex c \<longleftrightarrow> (48 \<le> code c \<and> code c \<le> 57) \<or> (65 \<le> code c \<and> code c \<le> 70) \<or>
                 (97 \<le> code c \<and> code c \<le> 102)"

definition hex_val :: "char \<Rightarrow> nat" where
  "hex_val c = (if code c \<le> 57 then code c - 48 else if code c \<le> 70 then code c - 55 else code c - 87)"

definition strtol16 :: "string \<Rightarrow> int" where
  "strtol16 s =
     (let s1 = dropWhile std_isspace s;
          neg = (s1 \<noteq> [] \<and> hd s1 = CHR ''-'');
          s2 = (if s1 \<noteq> [] \<and> (hd s1 = CHR ''-'' \<or> hd s1 = CHR ''+'') then tl s1 else s1);
          s3 = (case s2 of
                  z # x # d # r \<Rightarrow>
                    if z = CHR ''0'' \<and> (x = CHR ''x'' \<or> x = CHR ''X'') \<and> is_hex d then d # r else s2
                | _ \<Rightarrow> s2);
          v = foldl (\<lambda>a c. 16 * a + int (hex_val c)) 0 (takeWhile is_hex s3)
      in if neg then - v else v)"

fun UrlDecode :: "string \<Rightarrow> string" where
  "UrlDecode [] = []"
| "UrlDecode (ch # value) =
     (if ch = CHR ''%'' \<and> 2 \<le> length value then
        (let hex = take 2 value;
             dec = char_of (nat (strtol16 hex mod 256))
         in dec # UrlDecode (drop 2 value))
      else if ch = CHR ''+'' then CHR '' '' # UrlDecode value
      else ch # UrlDecode value)"

definition UrlDecodeIfEncoded :: "string \<Rightarrow> string" where
  "UrlDecodeIfEncoded value = (if IsUrlEncoded value then UrlDecode value else value)"

subsection \<open>Decoding inverts encoding\<close>

lemma hex_digt_facts:
  assumes "n < 16"
  shows "is_hex (hex_digt ! n)" "hex_val (hex_digt ! n) = n"
    "\<not> std_isspace (hex_digt ! n)" "hex_digt ! n \<noteq> CHR ''-''" "hex_digt ! n \<noteq> CHR ''+''"
    "hex_digt ! n \<noteq> CHR ''&''" "hex_digt ! n \<noteq> CHR ''=''" "hex_digt ! n \<noteq> CHR ''%''"
proof -
  have "list_all (\<lambda>n. is_hex (hex_digt ! n) \<and> hex_val (hex_digt ! n) = n \<and>
      \<not> std_isspace (hex_digt ! n) \<and> hex_digt ! n \<noteq> CHR ''-'' \<and> hex_digt ! n \<noteq> CHR ''+'' \<and>
      hex_digt ! n \<noteq> CHR ''&'' \<and> hex_digt ! n \<noteq> CHR ''='' \<and> hex_digt ! n \<noteq> CHR ''%'') [0..<16]"
    by code_simp
  with assms show "is_hex (hex_digt ! n)" "hex_val (hex_digt ! n) = n"
    "\<not> std_isspace (hex_digt ! n)" "hex_digt ! n \<noteq> CHR ''-''" "hex_digt ! n \<noteq> CHR ''+''"
    "hex_digt ! n \<noteq> CHR ''&''" "hex_digt ! n \<noteq> CHR ''=''" "hex_digt ! n \<noteq> CHR ''%''"
    by (simp_all add: list_all_iff)
qed

lemma strtol16_two_digits:
  assumes "a < 16" "b < 16"
  shows "strtol16 [hex_digt ! a, hex_digt ! b] = int (16 * a + b)"
  using hex_digt_facts [OF assms(1)] hex_digt_facts [OF assms(2)]
  by (simp add: strtol16_def Let_def)

lemma nibble_bounds: "drop_bit 4 (code c) < 16" "take_bit 4 (code c) < 16"
proof -
  have "code c < 16 * 16" by simp
  then show "drop_bit 4 (code c) < 16"
    using less_mult_imp_div_less [of "code c" 16 16] by (simp add: drop_bit_eq_div)
  show "take_bit 4 (code c) < 16" by (simp add: take_bit_eq_mod)
qed

lemma UrlDecode_escaped:
  "UrlDecode ([CHR ''%'', hex_digt ! drop_bit 4 (code c), hex_digt ! take_bit 4 (code c)] @ t)
     = c # UrlDecode t"
proof -
  have "16 * drop_bit 4 (code c) + take_bit 4 (code c) = code c"
    by (simp add: drop_bit_eq_div take_bit_eq_mod)
  then have "strtol16 [hex_digt ! drop_bit 4 (code c), hex_digt ! take_bit 4 (code c)] = int (code c)"
    using strtol16_two_digits [OF nibble_bounds] by simp
  moreover have "nat (int (code c) mod 256) = code c"
    using code_less_256 [of c] by simp
  ultimately show ?thesis by (simp add: Let_def)
qed

lemma url_unreserved_not_special:
  "url_unreserved c \<Longrightarrow> c \<noteq> CHR ''%'' \<and> c \<noteq> CHR ''+'' \<and> c \<noteq> CHR ''&'' \<and> c \<noteq> CHR ''='' \<and> \<not> std_isspace c"
  by (auto simp: url_unreserved_def std_isspace_def)

lemma UrlDecode_UrlEncode_append: "UrlDecode (UrlEncode s @ t) = s @ UrlDecode t"
proof (induction s)
  case (Cons c s)
  show ?case
  proof (cases "url_unreserved c")
    case True
    with Cons show ?thesis by (simp add: url_unreserved_not_special)
  next
    case False
    have "UrlDecode (UrlEncode (c # s) @ t) =
        UrlDecode ([CHR ''%'', hex_digt ! drop_bit 4 (code c), hex_digt ! take_bit 4 (code c)]
          @ UrlEncode s @ t)"
      using False by simp
    also have "\<dots> = c # UrlDecode (UrlEncode s @ t)" by (rule UrlDecode_escaped)
    finally show ?thesis using Cons by simp
  qed
qed simp

lemma UrlDecode_UrlEncode_id: "UrlDecode (UrlEncode s) = s"
  using UrlDecode_UrlEncode_append [of s "[]"] by simp

lemma UrlDecode_plain: "\<not> IsUrlEncoded s \<Longrightarrow> UrlDecode s = s"
  by (induction s) (auto simp: IsUrlEncoded_def)

lemma UrlDecodeIfEncoded_eq: "UrlDecodeIfEncoded s = UrlDecode s"
  by (simp add: UrlDecodeIfEncoded_def UrlDecode_plain)

definition query_safe :: "char \<Rightarrow> bool" where
  "query_safe c \<longleftrightarrow> c \<noteq> CHR ''&'' \<and> c \<noteq> CHR ''='' \<and> c \<noteq> CHR ''+'' \<and> \<not> std_isspace c"

lemma query_safe_hex: "n < 16 \<Longrightarrow> query_safe (hex_digt ! n)"
  using hex_digt_facts by (simp add: query_safe_def)

lemma query_safe_percent: "query_safe CHR ''%''"
  by (simp add: query_safe_def std_isspace_def)

lemma query_safe_unreserved: "url_unreserved c \<Longrightarrow> query_safe c"
  using url_unreserved_not_special by (simp add: query_safe_def)

lemma UrlEncode_query_safe: "list_all query_safe (UrlEncode s)"
proof (induction s)
  case (Cons c s)
  then show ?case
    by (cases "url_unreserved c")
      (simp_all add: query_safe_unreserved query_safe_percent query_safe_hex nibble_bounds)
qed simp

lemma UrlEncode_chars:
  "c \<in> set (UrlEncode s) \<Longrightarrow> c \<noteq> CHR ''&'' \<and> c \<noteq> CHR ''='' \<and> c \<noteq> CHR ''+'' \<and> \<not> std_isspace c"
  using UrlEncode_query_safe [of s] unfolding list_all_iff query_safe_def by blast

text \<open>(C13) Percent-decoding inverts percent-encoding on every byte string: with or without the
  shortcut for strings that carry no escape, the original bytes come back.\<close>

theorem url_roundtrip: "UrlDecode (UrlEncode s) = s \<and> UrlDecodeIfEncoded (UrlEncode s) = s"
  by (simp add: UrlDecodeIfEncoded_eq UrlDecode_UrlEncode_id)

section \<open>Lists of key=value pairs\<close>

text \<open>One turn of the loop over the parts; \<open>dec\<close> is what each side is put through.\<close>

definition insert_kv ::
  "(string \<Rightarrow> string) \<Rightarrow> string list \<Rightarrow> (string, string) omap \<Rightarrow> (string, string) omap" where
  "insert_kv dec kv result =
     (if length kv = 2 then omap_insert str_less result (dec (kv ! 0)) (dec (kv ! 1))
      else if length kv = 1 then omap_insert str_less result (dec (kv ! 0)) []
      else result)"

definition ParseQueryParameters :: "boost_algo \<Rightarrow> string \<Rightarrow> (string, string) omap" where
  "ParseQueryParameters B query =
     foldl (\<lambda>result kvpart.
              insert_kv (\<lambda>x. UrlDecodeIfEncoded (TrimCopy B x))
                (Split B kvpart CHR ''='' keep_space) result)
       [] (Split B query CHR ''&'' keep_space)"

definition ParsePlainTextFormData :: "boost_algo \<Rightarrow> string \<Rightarrow> (string, string) omap" where
  "ParsePlainTextFormData B body =
     foldl (\<lambda>result kvpart0.
              let kvpart = Trim B kvpart0
              in if kvpart = [] then result
                 else insert_kv (TrimCopy B) (Split B kvpart CHR ''='' keep_space) result)
       [] (SplitByLine B body keep_space)"

subsection \<open>Parsing what was built\<close>

fun build_query :: "(string \<times> string) list \<Rightarrow> string" where
  "build_query [] = []"
| "build_query [(k, v)] = UrlEncode k @ CHR ''='' # UrlEncode v"
| "build_query ((k, v) # kvs) = UrlEncode k @ CHR ''='' # UrlEncode v @ CHR ''&'' # build_query kvs"

lemma split_at_none: "\<forall>c \<in> set w. \<not> p c \<Longrightarrow> split_at p w = [w]"
  by (induction w) auto

lemma split_at_sep: "\<forall>c \<in> set w. \<not> p c \<Longrightarrow> p d \<Longrightarrow> split_at p (w @ d # s) = w # split_at p s"
  by (induction w) auto

lemma Split_none:
  "boost_laws B \<Longrightarrow> d \<notin> set w \<Longrightarrow> Split B w d keep_space = [w]"
  unfolding Split_def boost_laws_def by (auto intro!: split_at_none)

lemma Split_sep:
  "boost_laws B \<Longrightarrow> d \<notin> set w \<Longrightarrow> Split B (w @ d # s) d keep_space = w # Split B s d keep_space"
  unfolding Split_def boost_laws_def by (auto intro!: split_at_sep)

lemma TrimCopy_id:
  assumes "boost_laws B" "\<forall>c \<in> set w. \<not> std_isspace c"
  shows "TrimCopy B w = w"
proof -
  have "dropWhile std_isspace (rev w) = rev w" "dropWhile std_isspace w = w"
    using assms(2) by (simp_all add: dropWhile_eq_self_iff) (metis hd_in_set rev_is_Nil_conv set_rev)+
  with assms(1) show ?thesis by (simp add: TrimCopy_def boost_laws_def)
qed

lemma Split_build_query:
  assumes "boost_laws B" "kvs \<noteq> []"
  shows "Split B (build_query kvs) CHR ''&'' keep_space
           = map (\<lambda>(k, v). UrlEncode k @ CHR ''='' # UrlEncode v) kvs"
  using assms(2)
proof (induction kvs rule: build_query.induct)
  case (2 k v)
  have "CHR ''&'' \<notin> set (UrlEncode k @ CHR ''='' # UrlEncode v)"
    by (auto dest: UrlEncode_chars)
  then show ?case using Split_none [OF assms(1)] by simp
next
  case (3 k v kv kvs)
  have "CHR ''&'' \<notin> set (UrlEncode k @ CHR ''='' # UrlEncode v)"
    by (auto dest: UrlEncode_chars)
  from Split_sep [OF assms(1) this] 3 show ?case by simp
qed simp

lemma Split_kv:
  assumes "boost_laws B"
  shows "Split B (UrlEncode k @ CHR ''='' # UrlEncode v) CHR ''='' keep_space = [UrlEncode k, UrlEncode v]"
proof -
  have "CHR ''='' \<notin> set (UrlEncode s)" for s
    using UrlEncode_chars by blast
  then show ?thesis by (simp add: Split_sep [OF assms] Split_none [OF assms])
qed

lemma find_str_less: "map_option snd (find (\<lambda>(k, v). \<not> str_less k j \<and> \<not> str_less j k) kvs) = map_of kvs j"
  by (induction kvs) (auto simp: str_less_total split_def)

text \<open>(C14) Parsing a query string built from percent-encoded pairs gives back those pairs: a
  key maps to the value of its first pair, every other key is absent, whatever bytes keys
  and values hold.\<close>

theorem query_parameters_roundtrip:
  assumes "boost_laws B" "kvs \<noteq> []"
  shows "omap_find str_less (ParseQueryParameters B (build_query kvs)) k = map_of kvs k"
proof -
  have t: "UrlDecodeIfEncoded (TrimCopy B (UrlEncode s)) = s" for s
    using UrlEncode_chars by (subst TrimCopy_id [OF assms(1)])
      (auto simp: UrlDecodeIfEncoded_eq UrlDecode_UrlEncode_id)
  have "foldl (\<lambda>m (k, v). insert_kv (\<lambda>x. UrlDecodeIfEncoded (TrimCopy B x))
            (Split B (UrlEncode k @ CHR ''='' # UrlEncode v) CHR ''='' keep_space) m) m kvs
      = foldl (\<lambda>m (k, v). omap_insert str_less m k v) m kvs" for m
    by (induction kvs arbitrary: m) (auto simp: Split_kv [OF assms(1)] insert_kv_def t)
  then have "ParseQueryParameters B (build_query kvs)
      = foldl (\<lambda>m (k, v). omap_insert str_less m k v) [] kvs"
    by (simp add: ParseQueryParameters_def Split_build_query [OF assms] foldl_map split_def)
  then show ?thesis by (simp add: strs.find_fold_insert find_str_less)
qed

theorem query_parameters_roundtrip_witness:
  "omap_find str_less (ParseQueryParameters boost_classic
     (build_query [(''name'', ''a b&c''), (''x=1'', ''%'')])) ''x=1'' = Some ''%''"
  using query_parameters_roundtrip [OF boost_classic_laws,
      of "[(''name'', ''a b&c''), (''x=1'', ''%'')]" "''x=1''"] by simp

text \<open>A part with more than one \<open>=\<close> is dropped: a value that holds a bare \<open>=\<close> is lost.\<close>

lemma query_part_with_two_equals:
  "ParseQueryParameters boost_classic ''a=b=c&d=e'' = [(''d'', ''e'')]"
  by code_simp

end
