(* ===== verification/Base64.thy ===== *)
theory Base64
  imports Prelude
begin

text \<open>
  \<^verbatim>\<open>src/utilities/base64_utilities.cpp\<close>.  The encoder writes through a pointer into a
  string sized by \<open>encoded_size\<close>, the decoder into one sized by \<open>decoded_size\<close>; a write past the
  end of the destination is the error value \<open>BufferOverflow\<close>.  The lemmas show that decoding
  inverts encoding, that encoding fills its destination exactly, and for which inputs the
  decoder stays inside its destination.
\<close>

datatype mem_error = BufferOverflow

definition b64_alphabet :: string where
  "b64_alphabet = ''ABCDEFGHIJKLMNOPQRSTUVWXYZabcdefghijklmnopqrstuvwxyz0123456789+/''"

definition b64_inverse :: "int list" where
  "b64_inverse =
     replicate 16 (-1) @
     replicate 16 (-1) @
     [-1, -1, -1, -1, -1, -1, -1, -1, -1, -1, -1, 62, -1, -1, -1, 63,
      52, 53, 54, 55, 56, 57, 58, 59, 60, 61, -1, -1, -1, -1, -1, -1,
      -1,  0,  1,  2,  3,  4,  5,  6,  7,  8,  9, 10, 11, 12, 13, 14,
      15, 16, 17, 18, 19, 20, 21, 22, 23, 24, 25, -1, -1, -1, -1, -1,
      -1, 26, 27, 28, 29, 30, 31, 32, 33, 34, 35, 36, 37, 38, 39, 40,
      41, 42, 43, 44, 45, 46, 47, 48, 49, 50, 51, -1, -1, -1, -1, -1] @
     replicate 128 (-1)"

definition encoded_size :: "nat \<Rightarrow> nat" where
  "encoded_size n = 4 * ((n + 2) div 3)"

definition decoded_size :: "nat \<Rightarrow> nat" where
  "decoded_size n = n div 4 * 3"

section \<open>Encoding\<close>

definition b64_tab :: "byte \<Rightarrow> char" where
  "b64_tab i = b64_alphabet ! unat i"

text \<open>The characters written to \<^verbatim>\<open>out\<close>: one turn of the loop per three bytes, then the switch.\<close>

fun b64_encode :: "byte list \<Rightarrow> string" where
  "b64_encode (in0 # in1 # in2 # rest) =
     [b64_tab (drop_bit 2 (in0 AND 0xfc)),
      b64_tab (push_bit 4 (in0 AND 0x03) + drop_bit 4 (in1 AND 0xf0)),
      b64_tab (drop_bit 6 (in2 AND 0xc0) + push_bit 2 (in1 AND 0x0f)),
      b64_tab (in2 AND 0x3f)] @ b64_encode rest"
| "b64_encode [in0, in1] =
     [b64_tab (drop_bit 2 (in0 AND 0xfc)),
      b64_tab (push_bit 4 (in0 AND 0x03) + drop_bit 4 (in1 AND 0xf0)),
      b64_tab (push_bit 2 (in1 AND 0x0f)),
      CHR ''='']"
| "b64_encode [in0] =
     [b64_tab (drop_bit 2 (in0 AND 0xfc)),
      b64_tab (push_bit 4 (in0 AND 0x03)),
      CHR ''='', CHR ''='']"
| "b64_encode [] = []"

definition base64_encode :: "byte list \<Rightarrow> mem_error + string" where
  "base64_encode data =
     (let out = b64_encode data
      in if length out \<le> encoded_size (length data) then Inr out else Inl BufferOverflow)"

definition Base64Encode :: "string \<Rightarrow> mem_error + string" where
  "Base64Encode value = base64_encode (map byte_of_char value)"

section \<open>Decoding\<close>

definition b64_c3 :: "byte list \<Rightarrow> byte list" where
  "b64_c3 c4 =
     [push_bit 2 (c4 ! 0) + drop_bit 4 (c4 ! 1 AND 0x30),
      push_bit 4 (c4 ! 1 AND 0xf) + drop_bit 2 (c4 ! 2 AND 0x3c),
      push_bit 6 (c4 ! 2 AND 0x3) + c4 ! 3]"

text \<open>
  The loop with the first \<open>i\<close> entries of \<open>c4\<close>, the bytes written so far and the number of
  characters read; the loop stops at the end, at \<open>=\<close> and at a character outside the alphabet.
\<close>

fun b64_decode_loop :: "byte list \<Rightarrow> byte list \<Rightarrow> nat \<Rightarrow> byte list \<Rightarrow> byte list \<times> byte list \<times> nat" where
  "b64_decode_loop c4 out rd [] = (c4, out, rd)"
| "b64_decode_loop c4 out rd (x # rest) =
     (if x = byte_of_char CHR ''='' then (c4, out, rd)
      else let v = b64_inverse ! unat x
           in if v = -1 then (c4, out, rd)
              else let c4' = c4 @ [word_of_int v]
                   in if length c4' = 4 then b64_decode_loop [] (out @ b64_c3 c4') (Suc rd) rest
                      else b64_decode_loop c4' out (Suc rd) rest)"

text \<open>The bytes of the incomplete last group: only \<open>i - 1\<close> of them are written, and those read
  entries of \<open>c4\<close> that have been set, so the padding here is never seen.\<close>

definition b64_decode :: "byte list \<Rightarrow> byte list \<times> nat" where
  "b64_decode src =
     (let (c4, out, rd) = b64_decode_loop [] [] 0 src;
          i = length c4
      in (if i \<noteq> 0 then out @ take (i - 1) (b64_c3 (c4 @ replicate (4 - i) 0)) else out, rd))"

definition base64_decode :: "string \<Rightarrow> mem_error + byte list" where
  "base64_decode data =
     (let (out, rd) = b64_decode (map byte_of_char data)
      in if length out \<le> decoded_size (length data) then Inr out else Inl BufferOverflow)"

definition Base64Decode :: "string \<Rightarrow> mem_error + byte list" where
  "Base64Decode base64 = base64_decode base64"

section \<open>The sextets\<close>

text \<open>The four sextets of a group of three bytes; a short group reads the missing bytes as zero.\<close>

definition sx0 :: "byte \<Rightarrow> byte" where "sx0 a = drop_bit 2 (a AND 0xfc)"
definition sx1 :: "byte \<Rightarrow> byte \<Rightarrow> byte" where
  "sx1 a b = push_bit 4 (a AND 0x03) + drop_bit 4 (b AND 0xf0)"
definition sx2 :: "byte \<Rightarrow> byte \<Rightarrow> byte" where
  "sx2 b c = drop_bit 6 (c AND 0xc0) + push_bit 2 (b AND 0x0f)"
definition sx3 :: "byte \<Rightarrow> byte" where "sx3 c = c AND 0x3f"

lemma b64_encode_sextets:
  "b64_encode (a # b # c # rest) =
     b64_tab (sx0 a) # b64_tab (sx1 a b) # b64_tab (sx2 b c) # b64_tab (sx3 c) # b64_encode rest"
  "b64_encode [a, b] = [b64_tab (sx0 a), b64_tab (sx1 a b), b64_tab (sx2 b 0), CHR ''='']"
  "b64_encode [a] = [b64_tab (sx0 a), b64_tab (sx1 a 0), CHR ''='', CHR ''='']"
  unfolding sx0_def sx1_def sx2_def sx3_def by simp_all

declare b64_encode.simps(1-3) [simp del]

lemma sx_or:
  "sx1 a b = push_bit 4 (a AND 0x03) OR drop_bit 4 (b AND 0xf0)"
  "sx2 b c = drop_bit 6 (c AND 0xc0) OR push_bit 2 (b AND 0x0f)"
  unfolding sx1_def sx2_def
  by (rule disjunctive_add_eq_or, rule byte_eqI, simp_all add: byte_bits)+

lemma c3_or:
  "push_bit 2 (sx0 a) + drop_bit 4 (s AND 0x30) = push_bit 2 (sx0 a) OR drop_bit 4 (s AND 0x30)"
  "push_bit 4 (s AND 0xf) + drop_bit 2 (t AND 0x3c) = push_bit 4 (s AND 0xf) OR drop_bit 2 (t AND 0x3c)"
  "push_bit 6 (t AND 0x3) + sx3 c = push_bit 6 (t AND 0x3) OR sx3 c"
  unfolding sx0_def sx3_def
  by (rule disjunctive_add_eq_or, rule byte_eqI, simp_all add: byte_bits)+

lemma b64_c3_list:
  "b64_c3 [s, t, u, v] =
     [push_bit 2 s + drop_bit 4 (t AND 0x30), push_bit 4 (t AND 0xf) + drop_bit 2 (u AND 0x3c),
      push_bit 6 (u AND 0x3) + v]"
  by (simp add: b64_c3_def)

lemma c3_bytes:
  "push_bit 2 (sx0 a) + drop_bit 4 (sx1 a b AND 0x30) = a"
  "push_bit 4 (sx1 a b AND 0xf) + drop_bit 2 (sx2 b c AND 0x3c) = b"
  "push_bit 6 (sx2 b c AND 0x3) + sx3 c = c"
  unfolding c3_or unfolding sx_or sx0_def sx3_def by (rule byte_eqI, simp_all add: byte_bits)+

lemma c3_of_sextets: "b64_c3 [sx0 a, sx1 a b, sx2 b c, sx3 c] = [a, b, c]"
  by (simp only: b64_c3_list c3_bytes)

lemma c3_of_two: "take 2 (b64_c3 [sx0 a, sx1 a b, sx2 b 0, 0]) = [a, b]"
proof -
  have "take 2 [x, y, z] = [x, y]" for x y z :: byte by simp
  then show ?thesis by (simp only: b64_c3_list c3_bytes)
qed

lemma c3_of_one: "take 1 (b64_c3 [sx0 a, sx1 a 0, 0, 0]) = [a]"
  by (simp only: b64_c3_list c3_bytes One_nat_def take_Suc_Cons take_0)

definition sextet :: "byte \<Rightarrow> bool" where
  "sextet s \<longleftrightarrow> unat s < 64"

lemma sextetI: "take_bit 6 s = s \<Longrightarrow> sextet s"
  using unat_take_bit_less [of 6 s] by (simp add: sextet_def)

lemma sextets [simp]: "sextet (sx0 a)" "sextet (sx1 a b)" "sextet (sx2 b c)" "sextet (sx3 c)"
  unfolding sx_or sx0_def sx3_def by (rule sextetI, rule byte_eqI, simp_all add: byte_bits)+

lemma alphabet_inverse:
  assumes "n < 64"
  shows "b64_inverse ! code (b64_alphabet ! n) = int n" "b64_alphabet ! n \<noteq> CHR ''=''"
proof -
  have "list_all (\<lambda>n. b64_inverse ! code (b64_alphabet ! n) = int n \<and> b64_alphabet ! n \<noteq> CHR ''='') [0..<64]"
    by code_simp
  with assms show "b64_inverse ! code (b64_alphabet ! n) = int n" "b64_alphabet ! n \<noteq> CHR ''=''"
    by (simp_all add: list_all_iff)
qed

lemma decode_loop_tab [simp]:
  assumes "sextet s"
  shows "b64_decode_loop c4 out rd (byte_of_char (b64_tab s) # rest) =
     (if length c4 = 3 then b64_decode_loop [] (out @ b64_c3 (c4 @ [s])) (Suc rd) rest
      else b64_decode_loop (c4 @ [s]) out (Suc rd) rest)"
proof -
  have "b64_inverse ! code (b64_tab s) = int (unat s)" "b64_tab s \<noteq> CHR ''=''"
    using alphabet_inverse assms by (simp_all add: b64_tab_def sextet_def)
  moreover have "word_of_int (int (unat s)) = s" by simp
  moreover have "int (unat s) \<noteq> -1" by linarith
  ultimately show ?thesis by (simp del: of_nat_unat)
qed

lemma decode_loop_pad [simp]:
  "b64_decode_loop c4 out rd (byte_of_char CHR ''='' # rest) = (c4, out, rd)"
  by simp

declare b64_decode_loop.simps(2) [simp del]

definition b64_finish :: "byte list \<times> byte list \<times> nat \<Rightarrow> byte list" where
  "b64_finish r = (let (c4, out, rd) = r; i = length c4
                   in if i \<noteq> 0 then out @ take (i - 1) (b64_c3 (c4 @ replicate (4 - i) 0)) else out)"

lemma b64_decode_fst: "fst (b64_decode src) = b64_finish (b64_decode_loop [] [] 0 src)"
  by (simp add: b64_decode_def b64_finish_def Let_def split: prod.splits)

lemma decode_encode_loop:
  "b64_finish (b64_decode_loop [] out rd (map byte_of_char (b64_encode bs))) = out @ bs"
proof (induction bs arbitrary: out rd rule: b64_encode.induct)
  case (1 a b c rest)
  then show ?case by (simp add: b64_encode_sextets c3_of_sextets)
next
  case (2 a b)
  then show ?case
    using c3_of_two [of a b] by (simp add: b64_encode_sextets b64_finish_def numeral_2_eq_2)
next
  case (3 a)
  then show ?case
    using c3_of_one [of a] by (simp add: b64_encode_sextets b64_finish_def numeral_2_eq_2)
next
  case 4
  show ?case by (simp add: b64_finish_def)
qed

section \<open>Sizes\<close>

lemma length_b64_encode: "length (b64_encode bs) = encoded_size (length bs)"
proof (induction bs rule: b64_encode.induct)
  case (1 a b c rest)
  have "(Suc (Suc (Suc (length rest))) + 2) div 3 = Suc ((length rest + 2) div 3)" by presburger
  with 1 show ?case by (simp add: encoded_size_def b64_encode_sextets)
qed (simp_all add: encoded_size_def b64_encode_sextets)

lemma length_b64_c3 [simp]: "length (b64_c3 c4) = 3"
  by (simp add: b64_c3_def)

lemma decode_loop_stop:
  "x = byte_of_char CHR ''='' \<or> b64_inverse ! unat x = -1 \<Longrightarrow>
   b64_decode_loop c4 out rd (x # rest) = (c4, out, rd)"
  by (auto simp: b64_decode_loop.simps(2) Let_def)

lemma decode_loop_go:
  "\<not> (x = byte_of_char CHR ''='' \<or> b64_inverse ! unat x = -1) \<Longrightarrow>
   b64_decode_loop c4 out rd (x # rest) =
     (let c4' = c4 @ [word_of_int (b64_inverse ! unat x)]
      in if length c4' = 4 then b64_decode_loop [] (out @ b64_c3 c4') (Suc rd) rest
         else b64_decode_loop c4' out (Suc rd) rest)"
  by (simp add: b64_decode_loop.simps(2) Let_def)

text \<open>The bytes written are three for every four characters read in whole groups.\<close>

definition decode_balance :: "byte list \<Rightarrow> byte list \<Rightarrow> nat \<Rightarrow> bool" where
  "decode_balance c4 out rd \<longleftrightarrow>
     length c4 < 4 \<and> (\<exists>k. length out = 3 * k \<and> rd = 4 * k + length c4)"

lemma decode_loop_balance:
  assumes "decode_balance c4 out rd" "b64_decode_loop c4 out rd src = (c4', out', rd')"
  shows "decode_balance c4' out' rd' \<and> rd' \<le> rd + length src"
  using assms
proof (induction src arbitrary: c4 out rd)
  case (Cons x rest)
  show ?case
  proof (cases "x = byte_of_char CHR ''='' \<or> b64_inverse ! unat x = -1")
    case True
    with Cons.prems show ?thesis by (auto simp: decode_loop_stop)
  next
    case go: False
    define w :: byte where "w = word_of_int (b64_inverse ! unat x)"
    show ?thesis
    proof (cases "length c4 = 3")
      case True
      from Cons.prems(1) True obtain k where "length out = 3 * k" "rd = 4 * k + 3"
        by (auto simp: decode_balance_def)
      then have "decode_balance [] (out @ b64_c3 (c4 @ [w])) (Suc rd)"
        by (auto simp: decode_balance_def intro!: exI [of _ "Suc k"])
      moreover have "b64_decode_loop [] (out @ b64_c3 (c4 @ [w])) (Suc rd) rest = (c4', out', rd')"
        using Cons.prems(2) go True by (simp add: decode_loop_go Let_def w_def)
      ultimately have "decode_balance c4' out' rd' \<and> rd' \<le> Suc rd + length rest" by (rule Cons.IH)
      then show ?thesis by simp
    next
      case False
      with Cons.prems(1) have "decode_balance (c4 @ [w]) out (Suc rd)"
        by (auto simp: decode_balance_def)
      moreover have "b64_decode_loop (c4 @ [w]) out (Suc rd) rest = (c4', out', rd')"
        using Cons.prems(2) go False by (simp add: decode_loop_go Let_def w_def)
      ultimately have "decode_balance c4' out' rd' \<and> rd' \<le> Suc rd + length rest" by (rule Cons.IH)
      then show ?thesis by simp
    qed
  qed
qed simp

text \<open>(C15) Decoding what was encoded gives the original bytes, for every byte string; neither
  routine writes outside the destination it sized.\<close>

theorem base64_roundtrip:
  "\<exists>t. Base64Encode s = Inr t \<and> length t = encoded_size (length s) \<and>
       Base64Decode t = Inr (map byte_of_char s)"
proof -
  let ?bs = "map byte_of_char s" let ?t = "b64_encode ?bs"
  have "fst (b64_decode (map byte_of_char ?t)) = ?bs"
    by (simp add: b64_decode_fst decode_encode_loop)
  moreover have "length s \<le> decoded_size (length ?t)"
    by (simp add: length_b64_encode decoded_size_def encoded_size_def)
  ultimately have "base64_decode ?t = Inr ?bs"
    by (simp add: base64_decode_def split_def)
  then show ?thesis
    by (simp add: Base64Encode_def base64_encode_def Base64Decode_def length_b64_encode)
qed

text \<open>The decoder stays inside its destination whenever the input length is a multiple of
  four, the precondition its comment names; without it the code writes past the end (the
  three characters of \<open>QUI\<close>, unpadded, make it write two bytes into an empty string).\<close>

theorem base64_decode_bounds:
  "(length data mod 4 = 0 \<longrightarrow> (\<exists>bs. Base64Decode data = Inr bs \<and> 4 * length bs \<le> 3 * length data)) \<and>
   Base64Decode ''QUI'' = Inl BufferOverflow"
proof -
  obtain c4 out rd where r: "b64_decode_loop [] [] 0 (map byte_of_char data) = (c4, out, rd)"
    by (metis prod_cases3)
  have "decode_balance [] [] 0" by (simp add: decode_balance_def)
  from decode_loop_balance [OF this r] obtain k where
    k: "length c4 < 4" "length out = 3 * k" "rd = 4 * k + length c4" "rd \<le> length data"
    by (auto simp: decode_balance_def)
  have len: "length (fst (b64_decode (map byte_of_char data)))
      = 3 * k + (if length c4 = 0 then 0 else length c4 - 1)"
    using k(1,2) by (auto simp: b64_decode_def r Let_def)
  have "Base64Decode data = Inr (fst (b64_decode (map byte_of_char data))) \<and>
      4 * length (fst (b64_decode (map byte_of_char data))) \<le> 3 * length data"
    if m: "length data mod 4 = 0"
  proof -
    from m obtain q where q: "length data = 4 * q" by (metis mod_0_imp_dvd dvdE)
    have "3 * k + (if length c4 = 0 then 0 else length c4 - 1) \<le> 3 * q"
      using k q by (auto split: if_splits)
    with len q show ?thesis
      by (simp add: Base64Decode_def base64_decode_def decoded_size_def split_def)
  qed
  moreover have "Base64Decode ''QUI'' = Inl BufferOverflow" by code_simp
  ultimately show ?thesis by auto
qed

theorem base64_decode_bounds_witness:
  "\<exists>bs. Base64Decode ''QUJD'' = Inr bs \<and> 4 * length bs \<le> 3 * length ''QUJD''"
proof -
  have "length ''QUJD'' mod 4 = 0" by simp
  with base64_decode_bounds [of "''QUJD''"] show ?thesis by blast
qed

end
