(* ===== verification/WsFrame.thy ===== *)
theory WsFrame
  imports Prelude
begin

text \<open>
  \<^verbatim>\<open>src/websocket/frame_websocket.cpp\<close> and its header: building one WebSocket frame and the
  incremental parser of a byte stream.  The parser is the record \<open>FrameParser\<close>; its five steps,
  \<open>reset\<close> and the loop of \<open>Parse\<close> are one definition each, in the order of the code.  Calls of
  the message callback are collected in the order they happen.  The lengths and the masking key
  the parser receives are only ever copied and read byte by byte, so those fields of the header
  are kept as their bytes.
\<close>

section \<open>Frame types and the builder\<close>

type_synonym FrameType = byte

definition e_continuation :: FrameType where "e_continuation = 0x00"
definition e_text :: FrameType where "e_text = 0x01"
definition e_binary :: FrameType where "e_binary = 0x02"
definition e_connection_close :: FrameType where "e_connection_close = 0x08"
definition e_ping :: FrameType where "e_ping = 0x09"
definition e_pong :: FrameType where "e_pong = 0x0a"

record FrameBuilder =
  fb_FIN :: byte
  fb_OPCODE :: FrameType
  fb_MASK :: byte
  fb_MASKING_KEY :: u32

definition new_FrameBuilder :: FrameBuilder where
  "new_FrameBuilder = \<lparr>fb_FIN = 0, fb_OPCODE = e_continuation, fb_MASK = 0, fb_MASKING_KEY = 0\<rparr>"

definition ResetMaskingKey :: "FrameBuilder \<Rightarrow> FrameBuilder" where
  "ResetMaskingKey b = b\<lparr>fb_MASK := 0x00\<rparr>"

definition SetMaskingKey :: "u32 \<Rightarrow> FrameBuilder \<Rightarrow> FrameBuilder" where
  "SetMaskingKey key b = b\<lparr>fb_MASK := 0x80, fb_MASKING_KEY := key\<rparr>"

definition SetFIN :: "bool \<Rightarrow> FrameBuilder \<Rightarrow> FrameBuilder" where
  "SetFIN val b = b\<lparr>fb_FIN := (if val then 0x80 else 0)\<rparr>"

definition SetFrameType :: "FrameType \<Rightarrow> FrameBuilder \<Rightarrow> FrameBuilder" where
  "SetFrameType type b = b\<lparr>fb_OPCODE := type\<rparr>"

text \<open>\<^verbatim>\<open>static_cast<unsigned char>((len >> k) & 0xff)\<close>.\<close>

definition len_byte :: "nat \<Rightarrow> nat \<Rightarrow> byte" where
  "len_byte len k = word_of_nat (take_bit 8 (drop_bit k len))"

definition key_bytes :: "u32 \<Rightarrow> byte list" where
  "key_bytes k = [ucast (drop_bit 24 k AND 0xff), ucast (drop_bit 16 k AND 0xff),
                  ucast (drop_bit 8 k AND 0xff), ucast (k AND 0xff)]"

text \<open>The exclusive-or loop of both directions: byte \<open>i\<close> of a run against \<open>mask[i % 4]\<close>.\<close>

fun mask_from :: "nat \<Rightarrow> byte list \<Rightarrow> byte list \<Rightarrow> byte list" where
  "mask_from i mk [] = []"
| "mask_from i mk (d # ds) = (d XOR mk ! (i mod 4)) # mask_from (Suc i) mk ds"

text \<open>
  \<open>Build\<close> of a non-null buffer; for an empty one the null-pointer overload gives the same frame.
  The counter of the masking loop has 32 bits, so with \<open>2 ^ 32\<close> bytes or more that loop does
  not end: \<open>None\<close>.
\<close>

definition Build :: "FrameBuilder \<Rightarrow> byte list \<Rightarrow> byte list option" where
  "Build b data =
     (let len = length data;
          byte0 = fb_FIN b OR fb_OPCODE b;
          mask_bit = (if len \<noteq> 0 then fb_MASK b else 0);
          head =
            (if len \<le> 125 then [byte0, mask_bit OR word_of_nat len]
             else if len \<le> 65535 then [byte0, mask_bit OR 126, len_byte len 8, len_byte len 0]
             else [byte0, mask_bit OR 127, len_byte len 56, len_byte len 48, len_byte len 40,
                   len_byte len 32, len_byte len 24, len_byte len 16, len_byte len 8, len_byte len 0])
      in if len = 0 then Some head
         else if fb_MASK b \<noteq> 0 then
           (if len < 2 ^ 32
            then Some (head @ key_bytes (fb_MASKING_KEY b) @ mask_from 0 (key_bytes (fb_MASKING_KEY b)) data)
            else None)
         else Some (head @ data))"

definition frame_size :: "FrameBuilder \<Rightarrow> nat \<Rightarrow> nat" where
  "frame_size b len =
     (let externded_payload_len = (if len \<le> 125 then 0 else if len \<le> 65535 then 2 else 8);
          mask_key_len = (if len \<noteq> 0 \<and> fb_MASK b \<noteq> 0 then 4 else 0)
      in 2 + externded_payload_len + mask_key_len + len)"

lemma length_mask_from [simp]: "length (mask_from i mk ds) = length ds"
  by (induction i mk ds rule: mask_from.induct) auto

lemma length_key_bytes [simp]: "length (key_bytes k) = 4"
  by (simp add: key_bytes_def)

lemma length_Build: "Build b data = Some f \<Longrightarrow> length f = frame_size b (length data)"
  by (auto simp: Build_def frame_size_def Let_def split: if_splits)

section \<open>The parser\<close>

datatype parser_step = e_fixed_header | e_payload_len | e_extened_payload_len | e_masking_key
  | e_payload_data

record FrameHeader =
  FIN :: byte
  RSV1 :: byte
  RSV2 :: byte
  RSV3 :: byte
  OPCODE :: FrameType
  MASK :: byte
  PAYLOAD_LEN :: byte
  EXT_PAYLOAD_LEN_16 :: "byte list"
  EXT_PAYLOAD_LEN_64 :: "byte list"
  PAYLOAD_REALY_LEN :: u64
  MASKING_KEY :: "byte list"

record FrameParser =
  parser_step :: parser_step
  payload_len_offset :: nat
  masking_key_pos :: nat
  payload :: "byte list"
  frame_header :: FrameHeader

text \<open>A call of the message callback: the payload, the frame type and whether it is the last frame.\<close>

type_synonym ws_msg = "byte list \<times> FrameType \<times> bool"

definition zero_header :: FrameHeader where
  "zero_header = \<lparr>FIN = 0, RSV1 = 0, RSV2 = 0, RSV3 = 0, OPCODE = 0, MASK = 0, PAYLOAD_LEN = 0,
     EXT_PAYLOAD_LEN_16 = replicate 2 0, EXT_PAYLOAD_LEN_64 = replicate 8 0,
     PAYLOAD_REALY_LEN = 0, MASKING_KEY = replicate 4 0\<rparr>"

definition reset_parser :: FrameParser where
  "reset_parser = \<lparr>parser_step = e_fixed_header, payload_len_offset = 0, masking_key_pos = 0,
     payload = [], frame_header = zero_header\<rparr>"

definition parse_fixed_header :: "FrameParser \<Rightarrow> byte list \<Rightarrow> FrameParser \<times> nat" where
  "parse_fixed_header p ptr =
     (p\<lparr>frame_header := zero_header\<lparr>FIN := ptr ! 0 AND 0xf0, RSV1 := ptr ! 0 AND 0x40,
          RSV2 := ptr ! 0 AND 0x20, RSV3 := ptr ! 0 AND 0x10, OPCODE := ptr ! 0 AND 0x0f\<rparr>,
        payload_len_offset := 0, parser_step := e_payload_len\<rparr>, 1)"

definition parse_payload_len :: "FrameParser \<Rightarrow> byte list \<Rightarrow> FrameParser \<times> nat \<times> ws_msg list" where
  "parse_payload_len p ptr =
     (let h1 = (frame_header p)\<lparr>MASK := ptr ! 0 AND 0x80, PAYLOAD_LEN := ptr ! 0 AND 0x7f\<rparr>;
          p1 = p\<lparr>frame_header := h1\<rparr>;
          p2 = (if PAYLOAD_LEN h1 \<le> 125 then
                  p1\<lparr>frame_header := h1\<lparr>PAYLOAD_REALY_LEN := ucast (PAYLOAD_LEN h1)\<rparr>,
                     parser_step := (if MASK h1 \<noteq> 0 then e_masking_key else e_payload_data)\<rparr>
                else p1\<lparr>parser_step := e_extened_payload_len\<rparr>)
      in if PAYLOAD_LEN h1 = 0 then (reset_parser, 1, [([], OPCODE h1, FIN h1 \<noteq> 0)])
         else (p2, 1, []))"

text \<open>A \<^verbatim>\<open>memcpy\<close> to the start of a field overwrites its first bytes.\<close>

definition memcpy_front :: "byte list \<Rightarrow> byte list \<Rightarrow> nat \<Rightarrow> byte list" where
  "memcpy_front dst src n = take n src @ drop n dst"

fun be_value :: "byte list \<Rightarrow> u64" where
  "be_value [] = 0"
| "be_value (x # xs) = push_bit (8 * length xs) (ucast x) OR be_value xs"

definition decode_extened_payload_len :: "FrameParser \<Rightarrow> FrameParser" where
  "decode_extened_payload_len p =
     (let h = frame_header p;
          h1 = (if PAYLOAD_LEN h = 126 then h\<lparr>PAYLOAD_REALY_LEN := be_value (EXT_PAYLOAD_LEN_16 h)\<rparr>
                else if PAYLOAD_LEN h = 127 then h\<lparr>PAYLOAD_REALY_LEN := be_value (EXT_PAYLOAD_LEN_64 h)\<rparr>
                else h)
      in p\<lparr>frame_header := h1,
           parser_step := (if MASK h1 \<noteq> 0 then e_masking_key else e_payload_data)\<rparr>)"

definition parse_extened_payload_len :: "FrameParser \<Rightarrow> byte list \<Rightarrow> FrameParser \<times> nat" where
  "parse_extened_payload_len p ptr =
     (let h = frame_header p in
      if PAYLOAD_LEN h = 126 then
        (let min_len = min (2 - payload_len_offset p) (length ptr);
             p1 = p\<lparr>frame_header := h\<lparr>EXT_PAYLOAD_LEN_16 :=
                      memcpy_front (EXT_PAYLOAD_LEN_16 h) ptr min_len\<rparr>,
                    payload_len_offset := payload_len_offset p + min_len\<rparr>
         in (if payload_len_offset p1 = 2 then decode_extened_payload_len p1 else p1, min_len))
      else if PAYLOAD_LEN h = 127 then
        (let min_len = min (8 - payload_len_offset p) (length ptr);
             p1 = p\<lparr>frame_header := h\<lparr>EXT_PAYLOAD_LEN_64 :=
                      memcpy_front (EXT_PAYLOAD_LEN_64 h) ptr min_len\<rparr>,
                    payload_len_offset := payload_len_offset p + min_len\<rparr>
         in (if payload_len_offset p1 = 8 then decode_extened_payload_len p1 else p1, min_len))
      else (p, 0))"

definition parse_masking_key :: "FrameParser \<Rightarrow> byte list \<Rightarrow> FrameParser \<times> nat" where
  "parse_masking_key p ptr =
     (let n = min (4 - masking_key_pos p) (length ptr)
      in if parser_step p = e_masking_key then
           (let h = frame_header p;
                pos = masking_key_pos p + n
            in (p\<lparr>frame_header := h\<lparr>MASKING_KEY := memcpy_front (MASKING_KEY h) ptr n\<rparr>,
                  masking_key_pos := pos,
                  parser_step := (if pos = 4 then e_payload_data else parser_step p)\<rparr>, n))
         else (p, n))"

text \<open>
  \<open>alloc n\<close> says whether \<^verbatim>\<open>std::string::reserve(n)\<close> succeeds; where it does not, it throws.
  The remaining length is computed on the low 32 bits.
\<close>

definition parse_payload ::
  "(nat \<Rightarrow> bool) \<Rightarrow> FrameParser \<Rightarrow> byte list \<Rightarrow> (FrameParser \<times> nat \<times> ws_msg list) option" where
  "parse_payload alloc p data =
     (let h = frame_header p in
      if payload p = [] \<and> PAYLOAD_REALY_LEN h > 0 \<and> \<not> alloc (unat (PAYLOAD_REALY_LEN h)) then None
      else
        let remain = (ucast (PAYLOAD_REALY_LEN h) :: u32) - word_of_nat (length (payload p));
            min_len = min (unat remain) (length data);
            payload' = payload p @ (if MASK h \<noteq> 0 then mask_from 0 (MASKING_KEY h) (take min_len data)
                                    else take min_len data)
        in if length payload' = unat (PAYLOAD_REALY_LEN h)
           then Some (reset_parser, min_len, [(payload', OPCODE h, FIN h \<noteq> 0)])
           else Some (p\<lparr>payload := payload'\<rparr>, min_len, []))"

text \<open>
  One turn of the loop of \<open>Parse\<close>: the five guarded steps over the unread bytes.  The state of
  the loop is the parser, the unread bytes and the messages delivered so far; \<open>Inl\<close> is the
  exception, with what had been done when it was thrown.
\<close>

type_synonym parse_state = "FrameParser \<times> byte list \<times> ws_msg list"

definition body_header :: "parse_state \<Rightarrow> parse_state" where
  "body_header s =
     (case s of (p, rest, out) \<Rightarrow>
        if parser_step p = e_fixed_header \<and> rest \<noteq> []
        then (let (p', n) = parse_fixed_header p rest in (p', drop n rest, out)) else s)"

definition body_len :: "parse_state \<Rightarrow> parse_state" where
  "body_len s =
     (case s of (p, rest, out) \<Rightarrow>
        if parser_step p = e_payload_len \<and> rest \<noteq> []
        then (let (p', n, ms) = parse_payload_len p rest in (p', drop n rest, out @ ms)) else s)"

definition body_ext :: "parse_state \<Rightarrow> parse_state" where
  "body_ext s =
     (case s of (p, rest, out) \<Rightarrow>
        if parser_step p = e_extened_payload_len \<and> rest \<noteq> []
        then (let (p', n) = parse_extened_payload_len p rest in (p', drop n rest, out)) else s)"

definition body_key :: "parse_state \<Rightarrow> parse_state" where
  "body_key s =
     (case s of (p, rest, out) \<Rightarrow>
        if parser_step p = e_masking_key \<and> rest \<noteq> []
        then (let (p', n) = parse_masking_key p rest in (p', drop n rest, out)) else s)"

definition body_payload :: "(nat \<Rightarrow> bool) \<Rightarrow> parse_state \<Rightarrow> parse_state + parse_state" where
  "body_payload alloc s =
     (case s of (p, rest, out) \<Rightarrow>
        if parser_step p = e_payload_data \<and> rest \<noteq> []
        then (case parse_payload alloc p rest of
                None \<Rightarrow> Inl s
              | Some (p', n, ms) \<Rightarrow> Inr (p', drop n rest, out @ ms))
        else Inr s)"

definition parse_body :: "(nat \<Rightarrow> bool) \<Rightarrow> parse_state \<Rightarrow> parse_state + parse_state" where
  "parse_body alloc s = body_payload alloc (body_key (body_ext (body_len (body_header s))))"

text \<open>
  \<open>Parse\<close>: the do-while loop with fuel (\<open>None\<close>: not finished).  The result is the pair the
  code returns, here just its flag, the parser left behind and the messages delivered.
\<close>

fun parse_loop :: "(nat \<Rightarrow> bool) \<Rightarrow> nat \<Rightarrow> parse_state \<Rightarrow> (bool \<times> FrameParser \<times> ws_msg list) option" where
  "parse_loop alloc 0 s = None"
| "parse_loop alloc (Suc fuel) s =
     (case parse_body alloc s of
        Inl (p, rest, out) \<Rightarrow> Some (False, p, out)
      | Inr (p, rest, out) \<Rightarrow>
          if rest = [] then Some (True, p, out) else parse_loop alloc fuel (p, rest, out))"

definition Parse ::
  "(nat \<Rightarrow> bool) \<Rightarrow> nat \<Rightarrow> FrameParser \<Rightarrow> byte list \<Rightarrow> (bool \<times> FrameParser \<times> ws_msg list) option" where
  "Parse alloc fuel p data = parse_loop alloc fuel (p, data, [])"

section \<open>Big-endian lengths\<close>

fun be_nat :: "byte list \<Rightarrow> nat" where
  "be_nat [] = 0"
| "be_nat (x # xs) = unat x * 256 ^ length xs + be_nat xs"

definition be_bytes :: "nat \<Rightarrow> nat \<Rightarrow> byte list" where
  "be_bytes m n = map (\<lambda>i. len_byte n (8 * i)) (rev [0..<m])"

lemma length_be_bytes [simp]: "length (be_bytes m n) = m"
  by (simp add: be_bytes_def)

lemma be_bytes_Suc: "be_bytes (Suc m) n = len_byte n (8 * m) # be_bytes m n"
  by (simp add: be_bytes_def)

lemma be_bytes_2: "be_bytes 2 n = [len_byte n 8, len_byte n 0]"
  by (simp add: be_bytes_Suc numeral_2_eq_2) (simp add: be_bytes_def)

lemma be_bytes_8: "be_bytes 8 n = [len_byte n 56, len_byte n 48, len_byte n 40, len_byte n 32,
    len_byte n 24, len_byte n 16, len_byte n 8, len_byte n 0]"
  by (simp add: be_bytes_def upt_rec)

lemma unat_len_byte: "unat (len_byte n k) = n div 2 ^ k mod 256"
  by (simp add: len_byte_def unat_of_nat take_bit_eq_mod drop_bit_eq_div)

lemma be_nat_be_bytes: "be_nat (be_bytes m n) = n mod 256 ^ m"
proof (induction m)
  case 0
  then show ?case by (simp add: be_bytes_def)
next
  case (Suc m)
  have "(2::nat) ^ (8 * m) = 256 ^ m" by (simp add: power_mult)
  then have "be_nat (be_bytes (Suc m) n) = (n div 256 ^ m mod 256) * 256 ^ m + n mod 256 ^ m"
    using Suc by (simp add: be_bytes_Suc unat_len_byte)
  also have "\<dots> = n mod (256 ^ m * 256)"
    by (simp add: mod_mult2_eq)
  finally show ?case by (simp add: mult.commute)
qed

lemma be_nat_less: "be_nat xs < 256 ^ length xs"
proof (induction xs)
  case (Cons x xs)
  have "unat x + 1 \<le> 256" using unat_byte_less_256 [of x] by linarith
  then have "(unat x + 1) * 256 ^ length xs \<le> 256 * 256 ^ length xs" by (rule mult_le_mono1)
  then have "unat x * 256 ^ length xs + 256 ^ length xs \<le> 256 ^ length (x # xs)"
    by (simp add: algebra_simps)
  with Cons.IH show ?case unfolding be_nat.simps by linarith
qed simp

lemma unat_be_value: "length xs \<le> 8 \<Longrightarrow> unat (be_value xs) = be_nat xs"
proof (induction xs)
  case (Cons x xs)
  let ?k = "8 * length xs"
  have k: "?k \<le> 56" using Cons.prems by simp
  have v: "unat (be_value xs) = be_nat xs" using Cons by simp
  have p: "(2::nat) ^ ?k = 256 ^ length xs" by (simp add: power_mult)
  have lo: "take_bit ?k (be_value xs) = be_value xs"
  proof (rule word_unat_eq_iff [THEN iffD2])
    show "unat (take_bit ?k (be_value xs)) = unat (be_value xs)"
      using be_nat_less [of xs]
      by (simp only: unsigned_take_bit_eq v) (simp add: take_bit_eq_mod p)
  qed
  have "\<not> bit (be_value xs) n" if "?k \<le> n" for n
    using that lo by (metis bit_take_bit_iff not_le)
  then have disj: "push_bit ?k (ucast x :: u64) AND be_value xs = 0"
    by (intro bit_word_eqI) (auto simp: bit_simps)
  have small: "unat x * 256 ^ length xs + be_nat xs < 256 ^ length (x # xs)"
    using be_nat_less [of "x # xs"] by simp
  also have "(256::nat) ^ length (x # xs) \<le> 256 ^ 8"
    using Cons.prems by (intro power_increasing) auto
  finally have small: "unat x * 256 ^ length xs + be_nat xs < 2 ^ 64" by simp
  have ux: "unat (ucast x :: u64) = unat x"
    by (simp add: unsigned_ucast_eq take_bit_nat_eq_self less_le_trans [OF unat_byte_less_256])
  have "unat (push_bit ?k (ucast x :: u64)) = take_bit LENGTH(64) (push_bit ?k (unat x))"
    by (simp only: unsigned_push_bit_eq ux)
  also have "\<dots> = unat x * 256 ^ length xs"
    using small by (simp only: push_bit_eq_mult p) (simp add: take_bit_nat_eq_self)
  finally have hi: "unat (push_bit ?k (ucast x :: u64)) = unat x * 256 ^ length xs" .
  have "be_value (x # xs) = push_bit ?k (ucast x) + be_value xs"
    using disjunctive_add_eq_or [OF disj] by simp
  then have "unat (be_value (x # xs)) = (unat x * 256 ^ length xs + be_nat xs) mod 2 ^ 64"
    by (simp only: unat_word_ariths hi v len_num1 len_num0 len_bit0 mult_2 mult_1) simp
  with small show ?case by simp
qed simp

lemma be_value_be_bytes:
  "m \<le> 8 \<Longrightarrow> n < 256 ^ m \<Longrightarrow> be_value (be_bytes m n) = word_of_nat n"
proof (rule word_unat_eq_iff [THEN iffD2])
  assume m: "m \<le> 8" and n: "n < 256 ^ m"
  have "(256::nat) ^ m \<le> 256 ^ 8" using m by (intro power_increasing) auto
  with n have "n < 2 ^ 64" by simp
  then show "unat (be_value (be_bytes m n)) = unat (word_of_nat n :: u64)"
    using m n by (simp add: unat_be_value be_nat_be_bytes unat_of_nat)
qed

end
