(* ===== verification/WsFrameProofs.thy ===== *)
theory WsFrameProofs
  imports WsFrame
begin

text \<open>
  What the frame codec guarantees.  A frame that arrives whole, at the start of a read, is
  delivered exactly as it was built, and several such frames in one read are delivered in
  order.  The later lemmas show where the incremental parser does not keep this promise: a
  masking key, an extended length or a masked payload cut by the end of a read, a masked frame
  without payload, and a length that does not fit in 32 bits.
\<close>

section \<open>One frame, piece by piece\<close>

definition frame_params :: "FrameBuilder \<Rightarrow> bool" where
  "frame_params b \<longleftrightarrow> (fb_FIN b = 0 \<or> fb_FIN b = 0x80) \<and> (fb_MASK b = 0 \<or> fb_MASK b = 0x80) \<and>
     fb_OPCODE b AND 0x0f = fb_OPCODE b"

definition hdr_after_fixed :: "byte \<Rightarrow> FrameHeader" where
  "hdr_after_fixed b0 = zero_header\<lparr>FIN := b0 AND 0xf0, RSV1 := b0 AND 0x40, RSV2 := b0 AND 0x20,
     RSV3 := b0 AND 0x10, OPCODE := b0 AND 0x0f\<rparr>"

lemma body_header_reset:
  "body_header (reset_parser, b0 # rest, out) =
     (reset_parser\<lparr>frame_header := hdr_after_fixed b0, parser_step := e_payload_len\<rparr>, rest, out)"
  by (simp add: body_header_def parse_fixed_header_def hdr_after_fixed_def reset_parser_def)

lemma byte0_parts:
  assumes "frame_params b"
  shows "(fb_FIN b OR fb_OPCODE b) AND 0xf0 = fb_FIN b" "(fb_FIN b OR fb_OPCODE b) AND 0x0f = fb_OPCODE b"
proof -
  obtain x where x: "fb_OPCODE b = x AND 0x0f"
    using assms unfolding frame_params_def by metis
  have f: "fb_FIN b = 0 \<or> fb_FIN b = 0x80" using assms unfolding frame_params_def by blast
  show "(fb_FIN b OR fb_OPCODE b) AND 0xf0 = fb_FIN b"
    using f unfolding x by (elim disjE; simp only:; intro byte_eqI; simp add: byte_bits)
  show "(fb_FIN b OR fb_OPCODE b) AND 0x0f = fb_OPCODE b"
    using f unfolding x by (elim disjE; simp only:; intro byte_eqI; simp add: byte_bits)
qed

lemma hdr_after_fixed_byte0:
  assumes "frame_params b"
  shows "FIN (hdr_after_fixed (fb_FIN b OR fb_OPCODE b)) = fb_FIN b"
    "OPCODE (hdr_after_fixed (fb_FIN b OR fb_OPCODE b)) = fb_OPCODE b"
  using byte0_parts [OF assms] by (simp_all add: hdr_after_fixed_def)

text \<open>The second byte splits into its mask bit and its seven length bits.\<close>

lemma byte1_parts:
  fixes m l :: byte
  assumes "m = 0 \<or> m = 0x80" "l AND 0x7f = l"
  shows "(m OR l) AND 0x80 = m" "(m OR l) AND 0x7f = l"
proof -
  obtain x where x: "l = x AND 0x7f" using assms(2) by metis
  show "(m OR l) AND 0x80 = m"
    using assms(1) unfolding x by (elim disjE; simp only:; intro byte_eqI; simp add: byte_bits)
  show "(m OR l) AND 0x7f = l"
    using assms(1) unfolding x by (elim disjE; simp only:; intro byte_eqI; simp add: byte_bits)
qed

lemma ucast_of_nat_small:
  "n < 2 ^ LENGTH('a) \<Longrightarrow> (ucast (word_of_nat n :: 'a::len word) :: 'b::len word) = word_of_nat n"
  by (rule word_unat_eq_iff [THEN iffD2])
    (simp only: unsigned_ucast_eq unsigned_of_nat take_bit_nat_eq_self)

lemma small_len_byte:
  assumes "n \<le> 127"
  shows "(word_of_nat n :: byte) AND 0x7f = word_of_nat n" "unat (word_of_nat n :: byte) = n"
proof -
  have "take_bit 7 (word_of_nat n :: byte) = word_of_nat n"
    using assms by (intro word_unat_eq_iff [THEN iffD2])
      (simp add: unsigned_take_bit_eq unsigned_of_nat take_bit_nat_eq_self)
  then show "(word_of_nat n :: byte) AND 0x7f = word_of_nat n"
    by (simp add: take_bit_eq_mask mask_eq_exp_minus_1)
  show "unat (word_of_nat n :: byte) = n" using assms by (simp add: unat_of_nat)
qed

lemma body_len_short:
  assumes "m = 0 \<or> m = 0x80" "0 < n" "n \<le> 125" "parser_step p = e_payload_len"
  shows "body_len (p, (m OR word_of_nat n) # rest, out) =
     (p\<lparr>frame_header := (frame_header p)\<lparr>MASK := m, PAYLOAD_LEN := word_of_nat n,
            PAYLOAD_REALY_LEN := word_of_nat n\<rparr>,
        parser_step := (if m \<noteq> 0 then e_masking_key else e_payload_data)\<rparr>, rest, out)"
proof -
  have n: "n \<le> 127" using assms(3) by simp
  have l: "(word_of_nat n :: byte) \<le> 125" "(word_of_nat n :: byte) \<noteq> 0"
    using assms(2,3) small_len_byte(2) [OF n] by (simp_all add: word_le_nat_alt unat_eq_0 [symmetric])
  have u: "(ucast (word_of_nat n :: byte) :: u64) = word_of_nat n"
    using assms(3) by (simp add: ucast_of_nat_small)
  show ?thesis
    using l assms(4) byte1_parts [OF assms(1) small_len_byte(1) [OF n]]
    by (simp add: body_len_def parse_payload_len_def Let_def u)
qed

lemma body_len_empty:
  assumes "parser_step p = e_payload_len"
  shows "body_len (p, 0 # rest, out) =
     (reset_parser, rest, out @ [([], OPCODE (frame_header p), FIN (frame_header p) \<noteq> 0)])"
  using assms by (simp add: body_len_def parse_payload_len_def Let_def)

lemma body_len_long:
  assumes "m = 0 \<or> m = 0x80" "l = 126 \<or> l = 127" "parser_step p = e_payload_len"
  shows "body_len (p, (m OR l) # rest, out) =
     (p\<lparr>frame_header := (frame_header p)\<lparr>MASK := m, PAYLOAD_LEN := l\<rparr>,
        parser_step := e_extened_payload_len\<rparr>, rest, out)"
proof -
  have l: "l AND 0x7f = l" "\<not> l \<le> 125" "l \<noteq> 0" using assms(2) by auto
  show ?thesis
    using l assms(3) byte1_parts [OF assms(1) l(1)]
    by (simp add: body_len_def parse_payload_len_def Let_def)
qed

definition ext_done :: "FrameParser \<Rightarrow> byte list \<Rightarrow> FrameHeader" where
  "ext_done p bs = (let h = frame_header p in
     if PAYLOAD_LEN h = 126
     then h\<lparr>EXT_PAYLOAD_LEN_16 := bs, PAYLOAD_REALY_LEN := be_value bs\<rparr>
     else h\<lparr>EXT_PAYLOAD_LEN_64 := bs, PAYLOAD_REALY_LEN := be_value bs\<rparr>)"

lemma body_ext_whole:
  assumes "parser_step p = e_extened_payload_len" "payload_len_offset p = 0"
    and h: "frame_header p = h" "PAYLOAD_LEN h = 126 \<and> length bs = 2 \<or> PAYLOAD_LEN h = 127 \<and> length bs = 8"
    and l: "length (EXT_PAYLOAD_LEN_16 h) = 2" "length (EXT_PAYLOAD_LEN_64 h) = 8"
  shows "body_ext (p, bs @ rest, out) =
     (p\<lparr>frame_header := ext_done p bs, payload_len_offset := length bs,
        parser_step := (if MASK h \<noteq> 0 then e_masking_key else e_payload_data)\<rparr>, rest, out)"
proof -
  have ne: "bs \<noteq> []" using h(2) by auto
  have m: "memcpy_front d (bs @ rest) (length bs) = bs" if "length d = length bs" for d
    using that by (simp add: memcpy_front_def)
  from h(2) show ?thesis
  proof
    assume a: "PAYLOAD_LEN h = 126 \<and> length bs = 2"
    then have "memcpy_front (EXT_PAYLOAD_LEN_16 h) (bs @ rest) 2 = bs" using m l by metis
    with a assms ne show ?thesis
      by (simp add: body_ext_def parse_extened_payload_len_def decode_extened_payload_len_def
          ext_done_def Let_def numeral_2_eq_2)
  next
    assume a: "PAYLOAD_LEN h = 127 \<and> length bs = 8"
    then have "memcpy_front (EXT_PAYLOAD_LEN_64 h) (bs @ rest) 8 = bs" using m l by metis
    with a assms ne show ?thesis
      by (simp add: body_ext_def parse_extened_payload_len_def decode_extened_payload_len_def
          ext_done_def Let_def)
  qed
qed

lemma ext_done_fields:
  "PAYLOAD_REALY_LEN (ext_done p bs) = be_value bs" "MASK (ext_done p bs) = MASK (frame_header p)"
  "FIN (ext_done p bs) = FIN (frame_header p)" "OPCODE (ext_done p bs) = OPCODE (frame_header p)"
  "MASKING_KEY (ext_done p bs) = MASKING_KEY (frame_header p)"
  by (simp_all add: ext_done_def Let_def)

lemma mask_from_involution: "mask_from i mk (mask_from i mk ds) = ds"
  by (induction i mk ds rule: mask_from.induct) (simp_all add: xor.assoc)

text \<open>From the point where the length is known, the rest of the frame is consumed and delivered.\<close>

lemma finish_frame:
  assumes step: "parser_step p = (if MASK h \<noteq> 0 then e_masking_key else e_payload_data)"
    and h: "frame_header p = h" "payload p = []" "masking_key_pos p = 0" "length (MASKING_KEY h) = 4"
    and len: "PAYLOAD_REALY_LEN h = word_of_nat (length data)" "0 < length data" "length data < 2 ^ 32"
    and alloc: "alloc (length data)" and key: "length key = 4"
  shows "body_payload alloc (body_key (p,
            (if MASK h \<noteq> 0 then key @ mask_from 0 key data else data) @ rest, out))
       = Inr (reset_parser, rest, out @ [(data, OPCODE h, FIN h \<noteq> 0)])"
proof -
  define p2 where "p2 = (if MASK h \<noteq> 0 then p\<lparr>frame_header := h\<lparr>MASKING_KEY := key\<rparr>,
      masking_key_pos := 4, parser_step := e_payload_data\<rparr> else p)"
  let ?wire = "if MASK h \<noteq> 0 then mask_from 0 key data else data"
  have ne: "key \<noteq> []" "?wire \<noteq> []" using key len(2) by (auto, metis length_mask_from length_0_conv less_numeral_extra(3))
  have body_k: "body_key (p, (if MASK h \<noteq> 0 then key @ mask_from 0 key data else data) @ rest, out)
      = (p2, ?wire @ rest, out)"
    using step h key ne(1)
    by (simp add: body_key_def p2_def parse_masking_key_def memcpy_front_def Let_def)
  have u: "unat (word_of_nat (length data) :: u64) = length data"
    using len(3) by (simp add: unat_of_nat)
  have "(ucast (word_of_nat (length data) :: u64) :: u32) = word_of_nat (length data)"
    using len(3) by (intro ucast_of_nat_small) simp
  then have r: "unat (ucast (word_of_nat (length data) :: u64) :: u32) = length data"
    using len(3) by (simp add: unat_of_nat)
  have "parse_payload alloc p2 (?wire @ rest) = Some (reset_parser, length data, [(data, OPCODE h, FIN h \<noteq> 0)])"
    using h len(1,2) alloc u r
    by (simp add: parse_payload_def p2_def Let_def mask_from_involution)
  moreover have "parser_step p2 = e_payload_data" using step by (simp add: p2_def)
  ultimately show ?thesis
    using ne(2) unfolding body_k by (simp add: body_payload_def)
qed

section \<open>Whole frames\<close>

lemma body_skip:
  "parser_step p \<noteq> e_extened_payload_len \<Longrightarrow> body_ext (p, rest, out) = (p, rest, out)"
  "parser_step p \<noteq> e_masking_key \<Longrightarrow> body_key (p, rest, out) = (p, rest, out)"
  "parser_step p \<noteq> e_payload_data \<Longrightarrow> body_payload alloc (p, rest, out) = Inr (p, rest, out)"
  by (simp_all add: body_ext_def body_key_def body_payload_def)

lemma reset_parser_fields [simp]:
  "parser_step reset_parser = e_fixed_header" "payload reset_parser = []"
  "masking_key_pos reset_parser = 0" "payload_len_offset reset_parser = 0"
  by (simp_all add: reset_parser_def)

lemma hdr_after_fixed_fields [simp]:
  "length (MASKING_KEY (hdr_after_fixed x)) = 4" "length (EXT_PAYLOAD_LEN_16 (hdr_after_fixed x)) = 2"
  "length (EXT_PAYLOAD_LEN_64 (hdr_after_fixed x)) = 8"
  by (simp_all add: hdr_after_fixed_def zero_header_def)

lemma long_frame:
  assumes b: "frame_params b" and m: "fb_MASK b = 0 \<or> fb_MASK b = 0x80"
    and pos: "0 < length data" and len: "length data < 2 ^ 32" and alloc: "alloc (length data)"
    and l: "l = 126 \<and> length bs = 2 \<or> l = 127 \<and> length bs = 8"
    and v: "be_value bs = word_of_nat (length data)"
  shows "parse_body alloc (reset_parser, (fb_FIN b OR fb_OPCODE b) # (fb_MASK b OR l) # bs @
        (if fb_MASK b \<noteq> 0 then key_bytes (fb_MASKING_KEY b) @
           mask_from 0 (key_bytes (fb_MASKING_KEY b)) data else data) @ rest, out) =
     Inr (reset_parser, rest, out @ [(data, fb_OPCODE b, fb_FIN b \<noteq> 0)])"
proof -
  let ?b0 = "fb_FIN b OR fb_OPCODE b" let ?m = "fb_MASK b" let ?key = "key_bytes (fb_MASKING_KEY b)"
  let ?tail = "(if ?m \<noteq> 0 then ?key @ mask_from 0 ?key data else data)"
  let ?st = "if ?m \<noteq> 0 then e_masking_key else e_payload_data"
  define p1 where "p1 = reset_parser\<lparr>frame_header := (hdr_after_fixed ?b0)\<lparr>MASK := ?m, PAYLOAD_LEN := l\<rparr>,
      parser_step := e_extened_payload_len\<rparr>"
  let ?h = "ext_done p1 bs"
  have hm: "MASK ?h = ?m" "frame_header p1 = (hdr_after_fixed ?b0)\<lparr>MASK := ?m, PAYLOAD_LEN := l\<rparr>"
    by (simp_all add: p1_def ext_done_fields)
  let ?p = "p1\<lparr>frame_header := ?h, payload_len_offset := length bs, parser_step := ?st\<rparr>"
  have l': "l = 126 \<or> l = 127" using l by blast
  have 1: "body_len (body_header (reset_parser, ?b0 # (?m OR l) # bs @ ?tail @ rest, out)) =
      (p1, bs @ ?tail @ rest, out)"
    by (simp add: body_header_reset body_len_long [OF m l'] p1_def)
  have 2: "body_ext (p1, bs @ ?tail @ rest, out) = (?p, ?tail @ rest, out)"
    using body_ext_whole [of p1 _ bs "?tail @ rest" out, OF _ _ refl] l by (simp add: p1_def)
  have 3: "body_payload alloc (body_key (?p, ?tail @ rest, out)) =
      Inr (reset_parser, rest, out @ [(data, OPCODE ?h, FIN ?h \<noteq> 0)])"
    unfolding hm(1) [symmetric] by (rule finish_frame)
      (use pos len alloc v in \<open>simp_all add: ext_done_fields p1_def\<close>)
  show ?thesis
    unfolding parse_body_def 1 2 3 by (simp add: ext_done_fields p1_def hdr_after_fixed_byte0 [OF b])
qed

lemma parse_body_frame:
  assumes b: "frame_params b" and f: "Build b data = Some f"
    and len: "length data < 2 ^ 32" and alloc: "alloc (length data)"
  shows "parse_body alloc (reset_parser, f @ rest, out) =
     Inr (reset_parser, rest, out @ [(data, fb_OPCODE b, fb_FIN b \<noteq> 0)])"
proof (cases "data = []")
  case True
  with f show ?thesis
    by (auto simp: Build_def Let_def parse_body_def body_header_reset body_len_empty body_skip
        hdr_after_fixed_byte0 [OF b])
next
  case False
  then have pos: "0 < length data" by simp
  let ?b0 = "fb_FIN b OR fb_OPCODE b" let ?m = "fb_MASK b" let ?key = "key_bytes (fb_MASKING_KEY b)"
  let ?tail = "(if ?m \<noteq> 0 then ?key @ mask_from 0 ?key data else data)"
  have m: "?m = 0 \<or> ?m = 0x80" using b unfolding frame_params_def by blast
  define p1 where "p1 = reset_parser\<lparr>frame_header := hdr_after_fixed ?b0, parser_step := e_payload_len\<rparr>"
  have s1: "parser_step p1 = e_payload_len" by (simp add: p1_def)
  let ?h = "\<lambda>l. (hdr_after_fixed ?b0)\<lparr>MASK := ?m, PAYLOAD_LEN := l\<rparr>"
  let ?st = "if ?m \<noteq> 0 then e_masking_key else e_payload_data"
  consider (short) "length data \<le> 125" | (mid) "125 < length data" "length data \<le> 65535"
    | (long) "65535 < length data" by linarith
  then show ?thesis
  proof cases
    case short
    with f False len have fr: "f = ?b0 # (?m OR word_of_nat (length data)) # ?tail"
      by (auto simp: Build_def Let_def split: if_splits)
    let ?h1 = "(?h (word_of_nat (length data)))\<lparr>PAYLOAD_REALY_LEN := word_of_nat (length data)\<rparr>"
    let ?p = "p1\<lparr>frame_header := ?h1, parser_step := ?st\<rparr>"
    have "body_len (body_header (reset_parser, f @ rest, out)) = (?p, ?tail @ rest, out)"
      unfolding fr by (simp add: body_header_reset body_len_short [OF m pos short] p1_def)
    moreover have "body_ext (?p, ?tail @ rest, out) = (?p, ?tail @ rest, out)"
      by (rule body_skip) simp
    moreover have "body_payload alloc (body_key (?p, ?tail @ rest, out)) =
        Inr (reset_parser, rest, out @ [(data, OPCODE ?h1, FIN ?h1 \<noteq> 0)])"
      using finish_frame [of ?p ?h1 data alloc ?key rest out] pos len alloc by (simp add: p1_def)
    ultimately show ?thesis
      by (simp add: parse_body_def hdr_after_fixed_byte0 [OF b])
  next
    case mid
    with f len have fr: "f = ?b0 # (?m OR 126) # be_bytes 2 (length data) @ ?tail"
      by (auto simp: Build_def Let_def be_bytes_2 split: if_splits)
    have "be_value (be_bytes 2 (length data)) = word_of_nat (length data)"
      using mid by (intro be_value_be_bytes) simp_all
    with fr show ?thesis
      using long_frame [where alloc = alloc, OF b m pos len alloc, of 126 "be_bytes 2 (length data)"] by simp
  next
    case long
    with f len have fr: "f = ?b0 # (?m OR 127) # be_bytes 8 (length data) @ ?tail"
      by (auto simp: Build_def Let_def be_bytes_8 split: if_splits)
    have "be_value (be_bytes 8 (length data)) = word_of_nat (length data)"
      using len by (intro be_value_be_bytes) simp_all
    with fr show ?thesis
      using long_frame [where alloc = alloc, OF b m pos len alloc, of 127 "be_bytes 8 (length data)"] by simp
  qed
qed


lemma parse_loop_frames:
  assumes "map (\<lambda>(b, d). Build b d) xs = map Some fs" "xs \<noteq> []" "length xs \<le> fuel"
    and "list_all (\<lambda>(b, d). frame_params b \<and> length d < 2 ^ 32 \<and> alloc (length d)) xs"
  shows "parse_loop alloc fuel (reset_parser, concat fs, out) =
     Some (True, reset_parser, out @ map (\<lambda>(b, d). (d, fb_OPCODE b, fb_FIN b \<noteq> 0)) xs)"
  using assms
proof (induction xs arbitrary: fs fuel out)
  case (Cons x xs)
  obtain b d where x: "x = (b, d)" by (cases x)
  obtain f fs' where fs: "fs = f # fs'" "Build b d = Some f" "map (\<lambda>(b, d). Build b d) xs = map Some fs'"
    using Cons.prems(1) x by (cases fs) auto
  obtain n where n: "fuel = Suc n" using Cons.prems(3) by (cases fuel) auto
  have p: "frame_params b" "length d < 2 ^ 32" "alloc (length d)" using Cons.prems(4) x by auto
  note turn = parse_body_frame [where alloc = alloc, OF p(1) fs(2) p(2,3)]
  show ?case
  proof (cases "xs = []")
    case True
    with fs have "fs' = []" by simp
    with True n fs x show ?thesis using turn [of "[]" out] by simp
  next
    case False
    then obtain b2 d2 ys where ys: "xs = (b2, d2) # ys" by (cases xs) auto
    then obtain f2 fs2 where f2: "fs' = f2 # fs2" "Build b2 d2 = Some f2" using fs(3) by (cases fs') auto
    have "f2 \<noteq> []" using length_Build [OF f2(2)] by (auto simp: frame_size_def Let_def)
    then have ne: "concat fs' \<noteq> []" by (simp add: f2(1))
    have "parse_loop alloc n (reset_parser, concat fs', out @ [(d, fb_OPCODE b, fb_FIN b \<noteq> 0)]) =
      Some (True, reset_parser, (out @ [(d, fb_OPCODE b, fb_FIN b \<noteq> 0)]) @
        map (\<lambda>(b, d). (d, fb_OPCODE b, fb_FIN b \<noteq> 0)) xs)"
      using Cons.IH [OF fs(3) False, of n] Cons.prems(3,4) n by simp
    with ne n fs(1) x show ?thesis using turn [of "concat fs'" out]
      by (simp del: concat_eq_Nil_conv)
  qed
qed simp

text \<open>
  (C1) Frames written by \<open>FrameBuilder::Build\<close>, one after the other and read in one piece by a
  parser between two frames, are delivered to the callback unchanged and in their order, each
  with its frame type and its last-frame flag; \<open>Parse\<close> reports success and is again between
  two frames, whatever masking keys the builders used.
\<close>
theorem ws_frames_roundtrip:
  assumes "map (\<lambda>(b, d). Build b d) xs = map Some fs" "xs \<noteq> []" "length xs \<le> fuel"
    and "list_all (\<lambda>(b, d). frame_params b \<and> length d < 2 ^ 32 \<and> alloc (length d)) xs"
  shows "Parse alloc fuel reset_parser (concat fs) =
     Some (True, reset_parser, map (\<lambda>(b, d). (d, fb_OPCODE b, fb_FIN b \<noteq> 0)) xs)"
  unfolding Parse_def using parse_loop_frames [OF assms] by simp

definition demo_builder :: FrameBuilder where
  "demo_builder = SetMaskingKey 0x01020304 (SetFIN True (SetFrameType e_text new_FrameBuilder))"

lemma demo_builder_simps:
  "demo_builder = \<lparr>fb_FIN = 0x80, fb_OPCODE = 1, fb_MASK = 0x80, fb_MASKING_KEY = 0x01020304\<rparr>"
  by (simp add: demo_builder_def SetMaskingKey_def SetFIN_def SetFrameType_def new_FrameBuilder_def
      e_text_def)

lemma frame_params_demo: "frame_params demo_builder"
  by (simp add: frame_params_def demo_builder_simps)

lemma Build_demo: "\<exists>f. Build demo_builder d = Some f" if "length d < 2 ^ 32"
  using that by (auto simp: Build_def Let_def)

theorem ws_frames_roundtrip_witness:
  "Parse (\<lambda>_. True) 2 reset_parser (concat (map the
       [Build demo_builder [72, 105], Build (ResetMaskingKey demo_builder) [7]])) =
     Some (True, reset_parser, [([72, 105], 1, True), ([7], 1, True)])"
proof -
  obtain f where f: "Build demo_builder [72, 105] = Some f" using Build_demo [of "[72, 105]"] by auto
  have g: "Build (ResetMaskingKey demo_builder) [7] = Some [0x81, 1, 7]"
    by (simp add: Build_def ResetMaskingKey_def demo_builder_simps)
  have p: "frame_params (ResetMaskingKey demo_builder)"
    by (simp add: frame_params_def ResetMaskingKey_def demo_builder_simps)
  show ?thesis
    using ws_frames_roundtrip [of "[(demo_builder, [72, 105]), (ResetMaskingKey demo_builder, [7])]"
        "[f, [0x81, 1, 7]]" 2 "\<lambda>_. True"] f g p frame_params_demo
    by (simp add: demo_builder_simps ResetMaskingKey_def)
qed

section \<open>Termination\<close>

text \<open>
  The states a parser can be in between two reads: inside the step that waits for bytes, some are
  still missing.  What is missing of a payload is computed on 32 bits, so of a frame of \<open>2 ^ 32\<close>
  bytes or more no more than the remainder is ever taken.
\<close>

definition wf_parser :: "FrameParser \<Rightarrow> bool" where
  "wf_parser p \<longleftrightarrow>
     (parser_step p = e_extened_payload_len \<longrightarrow>
        PAYLOAD_LEN (frame_header p) = 126 \<and> payload_len_offset p < 2 \<or>
        PAYLOAD_LEN (frame_header p) = 127 \<and> payload_len_offset p < 8) \<and>
     (parser_step p = e_payload_len \<longrightarrow> payload_len_offset p = 0) \<and>
     (parser_step p \<noteq> e_payload_data \<longrightarrow> masking_key_pos p < 4 \<and> payload p = []) \<and>
     (payload p \<noteq> [] \<longrightarrow> length (payload p) < unat (PAYLOAD_REALY_LEN (frame_header p)) \<and>
        length (payload p) \<le> unat (PAYLOAD_REALY_LEN (frame_header p)) mod 2 ^ 32)"

text \<open>
  A parser that takes no more bytes: its frame has \<open>2 ^ 32\<close> bytes or more, and what it has of the
  payload agrees with the length on the low 32 bits.
\<close>

definition parser_stalled :: "(nat \<Rightarrow> bool) \<Rightarrow> FrameParser \<Rightarrow> bool" where
  "parser_stalled alloc p \<longleftrightarrow>
     (let len = unat (PAYLOAD_REALY_LEN (frame_header p))
      in parser_step p = e_payload_data \<and> 2 ^ 32 \<le> len \<and> length (payload p) = len mod 2 ^ 32 \<and>
         (payload p = [] \<longrightarrow> alloc len))"

text \<open>A turn of the loop after which it goes on.\<close>

inductive parse_turn :: "(nat \<Rightarrow> bool) \<Rightarrow> parse_state \<Rightarrow> parse_state \<Rightarrow> bool" for alloc where
  "parse_body alloc s = Inr s' \<Longrightarrow> fst (snd s') \<noteq> [] \<Longrightarrow> parse_turn alloc s s'"

definition turn_measure :: "parse_state \<Rightarrow> nat" where
  "turn_measure s = (case s of (p, rest, out) \<Rightarrow>
     2 * length rest + (if parser_step p = e_payload_data then 1 else 0))"

definition step_progress :: "parser_step \<Rightarrow> parse_state \<Rightarrow> parse_state \<Rightarrow> bool" where
  "step_progress st s s' \<longleftrightarrow> wf_parser (fst s') \<and>
     (if parser_step (fst s) = st \<and> fst (snd s) \<noteq> [] then turn_measure s' < turn_measure s else s' = s)"

lemma wf_reset_parser [simp]: "wf_parser reset_parser"
  by (simp add: wf_parser_def)

lemma step_progress_skip:
  "wf_parser (fst s) \<Longrightarrow> \<not> (parser_step (fst s) = st \<and> fst (snd s) \<noteq> []) \<Longrightarrow> s' = s \<Longrightarrow> step_progress st s s'"
  by (simp add: step_progress_def)

lemma step_progress_drop:
  assumes "parser_step p = st" "wf_parser p'" "0 < n" "rest \<noteq> []"
  shows "step_progress st (p, rest, out) (p', drop n rest, out')"
proof -
  have "length (drop n rest) < length rest" using assms(3,4) by simp
  then have "2 * length (drop n rest) + 1 < 2 * length rest" by linarith
  then show ?thesis using assms by (simp add: step_progress_def turn_measure_def)
qed

lemma body_header_progress: "wf_parser (fst s) \<Longrightarrow> step_progress e_fixed_header s (body_header s)"
proof -
  assume wf: "wf_parser (fst s)"
  obtain p rest out where s: "s = (p, rest, out)" by (cases s)
  show ?thesis
  proof (cases "parser_step p = e_fixed_header \<and> rest \<noteq> []")
    case False
    with wf s show ?thesis by (intro step_progress_skip) (auto simp: body_header_def)
  next
    case True
    then have "wf_parser (fst (parse_fixed_header p rest))"
      using wf s by (simp add: wf_parser_def parse_fixed_header_def)
    with True s show ?thesis
      by (simp add: body_header_def parse_fixed_header_def step_progress_drop del: drop_Suc_Cons)
  qed
qed

lemma byte_and_7f_cases:
  fixes b :: byte
  assumes "\<not> b AND 0x7f \<le> 125"
  shows "b AND 0x7f = 126 \<or> b AND 0x7f = 127"
proof -
  have "unat (b AND 0x7f) \<le> 127"
    using word_and_le1 [of b "0x7f"] by (simp add: word_le_nat_alt)
  moreover have "125 < unat (b AND 0x7f)" using assms by (simp add: word_le_nat_alt)
  ultimately have "unat (b AND 0x7f) = 126 \<or> unat (b AND 0x7f) = 127" by linarith
  then show ?thesis by (simp add: word_unat_eq_iff)
qed

lemma body_len_progress: "wf_parser (fst s) \<Longrightarrow> step_progress e_payload_len s (body_len s)"
proof -
  assume wf: "wf_parser (fst s)"
  obtain p rest out where s: "s = (p, rest, out)" by (cases s)
  show ?thesis
  proof (cases "parser_step p = e_payload_len \<and> rest \<noteq> []")
    case False
    with wf s show ?thesis by (intro step_progress_skip) (auto simp: body_len_def)
  next
    case True
    then have pk: "masking_key_pos p < 4" "payload p = []" "payload_len_offset p = 0"
      using wf s by (simp_all add: wf_parser_def)
    obtain p' n ms where pn: "parse_payload_len p rest = (p', n, ms)" by (cases "parse_payload_len p rest")
    have n: "n = 1" using pn by (simp add: parse_payload_len_def Let_def split: if_splits)
    have "wf_parser p'"
    proof (cases "rest ! 0 AND 0x7f \<le> 125")
      case True
      with pn pk show ?thesis by (auto simp: parse_payload_len_def Let_def wf_parser_def split: if_splits)
    next
      case False
      from byte_and_7f_cases [OF this] False pn pk show ?thesis
        by (elim disjE) (auto simp: parse_payload_len_def Let_def wf_parser_def)
    qed
    with True s pn n show ?thesis by (simp add: body_len_def step_progress_drop)
  qed
qed

lemma wf_decode_extened_payload_len:
  "masking_key_pos p < 4 \<Longrightarrow> payload p = [] \<Longrightarrow> wf_parser (decode_extened_payload_len p)"
  by (simp add: wf_parser_def decode_extened_payload_len_def Let_def)

lemma body_ext_progress: "wf_parser (fst s) \<Longrightarrow> step_progress e_extened_payload_len s (body_ext s)"
proof -
  assume wf: "wf_parser (fst s)"
  obtain p rest out where s: "s = (p, rest, out)" by (cases s)
  show ?thesis
  proof (cases "parser_step p = e_extened_payload_len \<and> rest \<noteq> []")
    case False
    with wf s show ?thesis by (intro step_progress_skip) (auto simp: body_ext_def)
  next
    case True
    then have pk: "masking_key_pos p < 4" "payload p = []" using wf s by (simp_all add: wf_parser_def)
    obtain p' n where pn: "parse_extened_payload_len p rest = (p', n)" by fastforce
    have len: "PAYLOAD_LEN (frame_header p) = 126 \<and> payload_len_offset p < 2 \<or>
        PAYLOAD_LEN (frame_header p) = 127 \<and> payload_len_offset p < 8"
      using True wf s by (simp add: wf_parser_def)
    then have "wf_parser p' \<and> 0 < n"
    proof
      assume l: "PAYLOAD_LEN (frame_header p) = 126 \<and> payload_len_offset p < 2"
      show ?thesis
      proof (cases "payload_len_offset p + min (2 - payload_len_offset p) (length rest) = 2")
        case full: True
        with l pn True pk show ?thesis
          by (auto simp: parse_extened_payload_len_def Let_def intro!: wf_decode_extened_payload_len)
      next
        case False
        with l have "payload_len_offset p + min (2 - payload_len_offset p) (length rest) < 2"
          by linarith
        with False l pn True pk show ?thesis
          by (auto simp: parse_extened_payload_len_def Let_def wf_parser_def)
      qed
    next
      assume l: "PAYLOAD_LEN (frame_header p) = 127 \<and> payload_len_offset p < 8"
      show ?thesis
      proof (cases "payload_len_offset p + min (8 - payload_len_offset p) (length rest) = 8")
        case full: True
        with l pn True pk show ?thesis
          by (auto simp: parse_extened_payload_len_def Let_def intro!: wf_decode_extened_payload_len)
      next
        case False
        with l have "payload_len_offset p + min (8 - payload_len_offset p) (length rest) < 8"
          by linarith
        with False l pn True pk show ?thesis
          by (auto simp: parse_extened_payload_len_def Let_def wf_parser_def)
      qed
    qed
    with True s pn show ?thesis by (simp add: body_ext_def step_progress_drop)
  qed
qed

lemma body_key_progress: "wf_parser (fst s) \<Longrightarrow> step_progress e_masking_key s (body_key s)"
proof -
  assume wf: "wf_parser (fst s)"
  obtain p rest out where s: "s = (p, rest, out)" by (cases s)
  show ?thesis
  proof (cases "parser_step p = e_masking_key \<and> rest \<noteq> []")
    case False
    with wf s show ?thesis by (intro step_progress_skip) (auto simp: body_key_def)
  next
    case True
    then have pk: "masking_key_pos p < 4" "payload p = []" using wf s by (simp_all add: wf_parser_def)
    let ?n = "min (4 - masking_key_pos p) (length rest)"
    obtain p' where pn: "parse_masking_key p rest = (p', ?n)"
      using True by (simp add: parse_masking_key_def Let_def)
    have p': "p' = p\<lparr>frame_header := (frame_header p)\<lparr>MASKING_KEY := memcpy_front (MASKING_KEY (frame_header p)) rest ?n\<rparr>,
        masking_key_pos := masking_key_pos p + ?n,
        parser_step := (if masking_key_pos p + ?n = 4 then e_payload_data else e_masking_key)\<rparr>"
    proof -
      have "p' = fst (parse_masking_key p rest)" by (simp add: pn)
      then show ?thesis by (simp only: parse_masking_key_def Let_def True if_True simp_thms fst_conv)
    qed
    have "masking_key_pos p + ?n \<noteq> 4 \<Longrightarrow> masking_key_pos p + ?n < 4" using pk(1) by linarith
    then have "wf_parser p'"
      unfolding p' wf_parser_def using pk by simp
    moreover have "0 < ?n" using pk True by simp
    ultimately show ?thesis using True s pn by (simp add: body_key_def step_progress_drop)
  qed
qed

text \<open>
  The payload step of a parser that is not stalled: it either throws, or shortens the input, or
  leaves the payload state.  A stalled one stays where it is.
\<close>

lemma low_32: "unat (ucast (l :: u64) :: u32) = unat l mod 2 ^ 32"
  by (simp add: unsigned_ucast_eq take_bit_eq_mod)

lemma body_payload_stalled:
  assumes "parser_stalled alloc p"
  shows "body_payload alloc (p, rest, out) = Inr (p, rest, out)"
proof -
  let ?l = "PAYLOAD_REALY_LEN (frame_header p)"
  have l: "2 ^ 32 \<le> unat ?l" "length (payload p) = unat ?l mod 2 ^ 32" "payload p = [] \<Longrightarrow> alloc (unat ?l)"
    using assms by (simp_all add: parser_stalled_def Let_def)
  have "unat (ucast ?l :: u32) = unat (word_of_nat (length (payload p)) :: u32)"
    unfolding low_32 by (simp add: l(2) unat_of_nat)
  then have "(ucast ?l :: u32) = word_of_nat (length (payload p))" by (rule word_unat_eq_iff [THEN iffD2])
  then have r: "(ucast ?l :: u32) - word_of_nat (length (payload p)) = 0" by simp
  have "length (payload p) < 2 ^ 32" unfolding l(2) by simp
  then have "length (payload p) \<noteq> unat ?l" using l(1) by linarith
  then have "parse_payload alloc p rest = Some (p, 0, [])"
    using l(3) by (simp add: parse_payload_def Let_def r)
  then show ?thesis by (simp add: body_payload_def)
qed

lemma body_payload_progress:
  assumes wf: "wf_parser (fst s)" and go: "\<not> parser_stalled alloc (fst s)"
    and r: "body_payload alloc s = Inr s'"
  shows "step_progress e_payload_data s s'"
proof -
  obtain p rest out where s: "s = (p, rest, out)" by (cases s)
  show ?thesis
  proof (cases "parser_step p = e_payload_data \<and> rest \<noteq> []")
    case False
    with wf s r show ?thesis by (intro step_progress_skip) (auto simp: body_payload_def)
  next
    case True
    then obtain p' n ms where pn: "parse_payload alloc p rest = Some (p', n, ms)"
      and s': "s' = (p', drop n rest, out @ ms)"
      using r s by (auto simp: body_payload_def split: option.splits)
    let ?L = "unat (PAYLOAD_REALY_LEN (frame_header p))" and ?k = "length (payload p)"
    let ?R = "?L mod 2 ^ 32"
    have L: "?R \<le> ?L" "?R < 2 ^ 32" "?k \<le> ?R" "?k = ?R \<Longrightarrow> ?L = 0"
    proof -
      show "?R \<le> ?L" "?R < 2 ^ 32" by simp_all
      show "?k \<le> ?R" using wf s by (cases "payload p = []") (simp_all add: wf_parser_def)
      assume k: "?k = ?R"
      have a: "payload p = [] \<Longrightarrow> 0 < ?L \<Longrightarrow> alloc ?L"
        using pn by (auto simp: parse_payload_def Let_def word_gt_0 unat_eq_0 split: if_splits)
      show "?L = 0"
      proof (rule ccontr)
        assume "?L \<noteq> 0"
        then have "?L < 2 ^ 32" using go True s k a by (auto simp: parser_stalled_def Let_def)
        then show False using wf s k \<open>?L \<noteq> 0\<close> by (cases "payload p = []") (auto simp: wf_parser_def)
      qed
    qed
    define remain where "remain = (ucast (PAYLOAD_REALY_LEN (frame_header p)) :: u32) - word_of_nat ?k"
    have uk: "unat (word_of_nat ?k :: u32) = ?k" using L(2,3) by (simp add: unat_of_nat)
    have rem: "unat remain = ?R - ?k"
      unfolding remain_def using low_32 uk L(3) by (subst unat_sub) (simp_all add: word_le_nat_alt)
    let ?m = "min (unat remain) (length rest)"
    have n: "n = ?m"
      using pn by (auto simp: parse_payload_def Let_def remain_def split: if_splits)
    let ?pay = "payload p @ (if MASK (frame_header p) \<noteq> 0
        then mask_from 0 (MASKING_KEY (frame_header p)) (take ?m rest) else take ?m rest)"
    have len: "length ?pay = ?k + ?m" by simp
    have p': "p' = (if ?k + ?m = ?L then reset_parser else p\<lparr>payload := ?pay\<rparr>)"
      using pn by (auto simp: parse_payload_def Let_def remain_def split: if_splits)
    show ?thesis
    proof (cases "?L = 0")
      case True': True
      with n rem p' L(3) True s s' show ?thesis
        by (simp add: step_progress_def turn_measure_def)
    next
      case False
      then have "?k < ?R" using L(3,4) by linarith
      then have "0 < n" using rem n True by simp
      have m: "?k + ?m \<le> ?R" using rem L(3) by linarith
      have wf': "wf_parser p'"
      proof (cases "?k + ?m = ?L")
        case False
        then have "?k + ?m < ?L" using m L(1) by linarith
        moreover have "p' = p\<lparr>payload := ?pay\<rparr>" using p' False by simp
        ultimately show ?thesis using True m len by (simp add: wf_parser_def del: length_append)
      qed (simp add: p')
      show ?thesis using \<open>0 < n\<close> wf' True s s' by (simp add: step_progress_drop)
    qed
  qed
qed

lemma turn_measure_le: "step_progress st s s' \<Longrightarrow> turn_measure s' \<le> turn_measure s"
  by (auto simp: step_progress_def split: if_splits)

lemma parse_body_progress:
  assumes wf: "wf_parser (fst s)" and r: "parse_body alloc s = Inr s'" and ne: "fst (snd s) \<noteq> []"
  shows "wf_parser (fst s') \<and> (turn_measure s' < turn_measure s \<or> parser_stalled alloc (fst s'))"
proof -
  let ?s1 = "body_header s" let ?s2 = "body_len ?s1" let ?s3 = "body_ext ?s2" let ?s4 = "body_key ?s3"
  note 1 = body_header_progress [OF wf]
  then have w1: "wf_parser (fst ?s1)" by (simp add: step_progress_def)
  note 2 = body_len_progress [OF w1]
  then have w2: "wf_parser (fst ?s2)" by (simp add: step_progress_def)
  note 3 = body_ext_progress [OF w2]
  then have w3: "wf_parser (fst ?s3)" by (simp add: step_progress_def)
  note 4 = body_key_progress [OF w3]
  then have w4: "wf_parser (fst ?s4)" by (simp add: step_progress_def)
  show ?thesis
  proof (cases "parser_stalled alloc (fst ?s4)")
    case True
    then have "s' = ?s4" using r body_payload_stalled by (metis Inr_inject parse_body_def prod.collapse)
    then show ?thesis using w4 True by simp
  next
    case False
    have 5: "step_progress e_payload_data ?s4 s'"
      using body_payload_progress [OF w4 False] r by (simp add: parse_body_def)
    then have w5: "wf_parser (fst s')" by (simp add: step_progress_def)
    note le = turn_measure_le [OF 1] turn_measure_le [OF 2] turn_measure_le [OF 3]
      turn_measure_le [OF 4] turn_measure_le [OF 5]
    have "turn_measure s' < turn_measure s"
    proof (rule ccontr)
      assume "\<not> ?thesis"
      with le have eq: "turn_measure s = turn_measure ?s1" "turn_measure ?s1 = turn_measure ?s2"
        "turn_measure ?s2 = turn_measure ?s3" "turn_measure ?s3 = turn_measure ?s4"
        "turn_measure ?s4 = turn_measure s'" by linarith+
      from 1 eq(1) ne have s1: "?s1 = s" "parser_step (fst s) \<noteq> e_fixed_header"
        by (auto simp: step_progress_def split: if_splits)
      from 2 eq(2) ne have s2: "body_len s = s" "parser_step (fst s) \<noteq> e_payload_len"
        unfolding s1 by (auto simp: step_progress_def split: if_splits)
      from 3 eq(3) ne have s3: "body_ext s = s" "parser_step (fst s) \<noteq> e_extened_payload_len"
        unfolding s1 s2 by (auto simp: step_progress_def split: if_splits)
      from 4 eq(4) ne have s4: "body_key s = s" "parser_step (fst s) \<noteq> e_masking_key"
        unfolding s1 s2 s3 by (auto simp: step_progress_def split: if_splits)
      from 5 eq(5) ne have "parser_step (fst s) \<noteq> e_payload_data"
        unfolding s1 s2 s3 s4 by (auto simp: step_progress_def split: if_splits)
      with s1 s2 s3 s4 show False by (cases "parser_step (fst s)") auto
    qed
    with w5 show ?thesis by blast
  qed
qed

lemma parser_stalled_forever:
  assumes "(parse_turn alloc)\<^sup>*\<^sup>* s (q, rest, out)" "rest \<noteq> []" "parser_stalled alloc q"
  shows "parse_loop alloc fuel s = None"
proof -
  have "parser_step q = e_payload_data" using assms(3) by (simp add: parser_stalled_def Let_def)
  then have b: "parse_body alloc (q, rest, out) = Inr (q, rest, out)"
    by (simp add: parse_body_def body_header_def body_len_def body_skip body_payload_stalled [OF assms(3)])
  then have q: "parse_loop alloc n (q, rest, out) = None" for n
    using assms(2) by (induction n) simp_all
  have "\<forall>n. parse_loop alloc n s = None"
    using assms(1)
  proof (induction rule: converse_rtranclp_induct)
    case (step s s')
    have "parse_loop alloc n s = None" for n
      using step by (cases n) (auto simp: parse_turn.simps split: prod.splits)
    then show ?case ..
  qed (simp add: q)
  then show ?thesis ..
qed

lemma refused_reservation:
  assumes "parse_body alloc s = Inl (p, rest, out)"
  shows "\<not> alloc (unat (PAYLOAD_REALY_LEN (frame_header p)))"
  using assms by (auto simp: parse_body_def body_payload_def parse_payload_def Let_def split: prod.splits if_splits)

lemma parse_loop_terminates:
  assumes "wf_parser (fst s)" "fst (snd s) \<noteq> []" "turn_measure s \<le> fuel"
    and "\<not> (\<exists>q rest out. (parse_turn alloc)\<^sup>*\<^sup>* s (q, rest, out) \<and> rest \<noteq> [] \<and> parser_stalled alloc q)"
  shows "\<exists>ok p out. parse_loop alloc fuel s = Some (ok, p, out) \<and>
     (if ok then wf_parser p else \<not> alloc (unat (PAYLOAD_REALY_LEN (frame_header p))))"
  using assms
proof (induction fuel arbitrary: s)
  case 0
  then show ?case by (cases s) (auto simp: turn_measure_def)
next
  case (Suc fuel)
  show ?case
  proof (cases "parse_body alloc s")
    case (Inl s')
    obtain p rest out where "s' = (p, rest, out)" by (cases s')
    then show ?thesis using Inl refused_reservation [of alloc s p rest out] by auto
  next
    case (Inr s')
    obtain p' rest' out' where s': "s' = (p', rest', out')" by (cases s')
    note w = parse_body_progress [OF Suc.prems(1) Inr Suc.prems(2)]
    show ?thesis
    proof (cases "rest' = []")
      case True
      with Inr s' w show ?thesis by auto
    next
      case False
      then have t: "parse_turn alloc s s'" using Inr s' by (simp add: parse_turn.simps)
      then have "\<not> parser_stalled alloc p'" using Suc.prems(4) False s' by blast
      then have "turn_measure s' \<le> fuel" using w Suc.prems(3) s' by simp
      moreover have "\<not> (\<exists>q rest out. (parse_turn alloc)\<^sup>*\<^sup>* s' (q, rest, out) \<and> rest \<noteq> [] \<and> parser_stalled alloc q)"
        using Suc.prems(4) t converse_rtranclp_into_rtranclp [of "parse_turn alloc"] by blast
      ultimately have "\<exists>ok p out. parse_loop alloc fuel s' = Some (ok, p, out) \<and>
          (if ok then wf_parser p else \<not> alloc (unat (PAYLOAD_REALY_LEN (frame_header p))))"
        using Suc.IH [of s'] w s' False by simp
      then show ?thesis using Inr s' False by simp
    qed
  qed
qed

text \<open>
  (C2) When \<open>Parse\<close> returns, exactly.  From every state a parser can be in between two reads and on
  every input of at least one byte, whatever reservations succeed: if its loop comes, with bytes
  unread, to a frame of \<open>2 ^ 32\<close> bytes or more of which it has as many bytes as the low 32 bits of the
  length say, it never returns; if it does not, it returns, after at most twice the number of
  bytes plus one turns.  Then it either has succeeded and the parser is again in such a state, or
  has failed because the reservation of a payload was refused.
\<close>
theorem ws_parse_terminates:
  assumes "wf_parser p" "data \<noteq> []" "2 * length data + 1 \<le> fuel"
  shows "if \<exists>q rest out. (parse_turn alloc)\<^sup>*\<^sup>* (p, data, []) (q, rest, out) \<and> rest \<noteq> [] \<and> parser_stalled alloc q
     then \<forall>n. Parse alloc n p data = None
     else \<exists>ok p' out. Parse alloc fuel p data = Some (ok, p', out) \<and>
       (if ok then wf_parser p' else \<not> alloc (unat (PAYLOAD_REALY_LEN (frame_header p'))))"
proof (cases "\<exists>q rest out. (parse_turn alloc)\<^sup>*\<^sup>* (p, data, []) (q, rest, out) \<and> rest \<noteq> [] \<and> parser_stalled alloc q")
  case True
  then show ?thesis unfolding if_P [OF True] Parse_def using parser_stalled_forever by blast
next
  case False
  have "turn_measure (p, data, []) \<le> fuel" using assms(3) by (simp add: turn_measure_def)
  then show ?thesis
    unfolding if_not_P [OF False] Parse_def using parse_loop_terminates [OF _ _ _ False] assms by simp
qed

theorem ws_parse_terminates_witness:
  "\<exists>ok p' out. Parse (\<lambda>n. n < 1000) 7 reset_parser [0x81, 0xfe, 3] = Some (ok, p', out) \<and>
     (ok \<longrightarrow> wf_parser p')"
proof -
  have r: "Parse (\<lambda>n. n < 1000) 7 reset_parser [0x81, 0xfe, 3] \<noteq> None" by code_simp
  then have "\<not> (\<forall>n. Parse (\<lambda>n. n < 1000) n reset_parser [0x81, 0xfe, 3] = None)" by metis
  then show ?thesis
    using ws_parse_terminates [of reset_parser "[0x81, 0xfe, 3]" 7 "\<lambda>n. n < 1000"]
    by (auto split: if_splits)
qed

section \<open>A payload cut by the reads\<close>

text \<open>
  The bytes of a frame may arrive in several reads.  For a frame without mask the pieces of the
  payload add up; the handler calls \<open>Parse\<close> once for each read, on the parser the last left.
\<close>

fun feed :: "(nat \<Rightarrow> bool) \<Rightarrow> nat \<Rightarrow> FrameParser \<Rightarrow> byte list list \<Rightarrow> (FrameParser \<times> ws_msg list) option" where
  "feed alloc fuel p [] = Some (p, [])"
| "feed alloc fuel p (d # ds) =
     (case Parse alloc fuel p d of
        Some (True, p', out) \<Rightarrow>
          (case feed alloc fuel p' ds of None \<Rightarrow> None | Some (q, outs) \<Rightarrow> Some (q, out @ outs))
      | _ \<Rightarrow> None)"

definition awaits_payload :: "FrameParser \<Rightarrow> nat \<Rightarrow> bool" where
  "awaits_payload p n \<longleftrightarrow> parser_step p = e_payload_data \<and> MASK (frame_header p) = 0 \<and>
     0 < n \<and> length (payload p) + n = unat (PAYLOAD_REALY_LEN (frame_header p)) \<and>
     unat (PAYLOAD_REALY_LEN (frame_header p)) < 2 ^ 32"

lemma parse_payload_piece:
  assumes p: "awaits_payload p n" and alloc: "\<And>k. k < 2 ^ 32 \<Longrightarrow> alloc k"
    and d: "length d \<le> n"
  shows "parse_payload alloc p d =
     (if length d = n
      then Some (reset_parser, n, [(payload p @ d, OPCODE (frame_header p), FIN (frame_header p) \<noteq> 0)])
      else Some (p\<lparr>payload := payload p @ d\<rparr>, length d, []))"
proof -
  let ?L = "unat (PAYLOAD_REALY_LEN (frame_header p))" and ?k = "length (payload p)"
  have L: "?k + n = ?L" "?L < 2 ^ 32" "MASK (frame_header p) = 0" using p by (simp_all add: awaits_payload_def)
  have "unat (ucast (PAYLOAD_REALY_LEN (frame_header p)) :: u32) = ?L"
    using L(2) by (simp add: unsigned_ucast_eq take_bit_nat_eq_self)
  moreover have "unat (word_of_nat ?k :: u32) = ?k" using L(1,2) by (simp add: unat_of_nat)
  ultimately have rem: "unat ((ucast (PAYLOAD_REALY_LEN (frame_header p)) :: u32) - word_of_nat ?k) = n"
    using L(1) by (subst unat_sub) (simp_all add: word_le_nat_alt)
  have m: "min n (length d) = length d" using d by simp
  have iff: "?k + length d = ?L \<longleftrightarrow> length d = n" using L(1) by linarith
  show ?thesis
    using alloc [OF L(2)] by (simp add: parse_payload_def Let_def rem L(3) m iff)
qed

lemma parse_body_piece:
  assumes "awaits_payload p n" "\<And>k. k < 2 ^ 32 \<Longrightarrow> alloc k" "length d \<le> n" "d \<noteq> []"
  shows "parse_body alloc (p, d, out) =
     (if length d = n
      then Inr (reset_parser, [], out @ [(payload p @ d, OPCODE (frame_header p), FIN (frame_header p) \<noteq> 0)])
      else Inr (p\<lparr>payload := payload p @ d\<rparr>, [], out))"
proof -
  have "parser_step p = e_payload_data" using assms(1) by (simp add: awaits_payload_def)
  then show ?thesis
    using parse_payload_piece [where alloc = alloc, OF assms(1,2,3)] assms(4)
    by (simp add: parse_body_def body_header_def body_len_def body_skip body_payload_def)
qed

text \<open>
  When the header of an unmasked frame has been read and \<open>n\<close> bytes of its payload are
  missing, these bytes may come in any number of reads cut anywhere: the callback is called
  once, after the last of them, with the whole payload, and the parser is between two frames.
\<close>
theorem ws_unmasked_payload_cut:
  assumes "awaits_payload p (length (concat ds))" "\<And>k. k < 2 ^ 32 \<Longrightarrow> alloc k"
    and "list_all (\<lambda>d. d \<noteq> []) ds" "0 < fuel"
  shows "feed alloc fuel p ds = Some (reset_parser,
     [(payload p @ concat ds, OPCODE (frame_header p), FIN (frame_header p) \<noteq> 0)])"
  using assms(1,3)
proof (induction ds arbitrary: p)
  case Nil
  then show ?case by (simp add: awaits_payload_def)
next
  case (Cons d ds)
  obtain k where k: "fuel = Suc k" using assms(4) by (cases fuel) auto
  have dne: "d \<noteq> []" and ds: "list_all (\<lambda>d. d \<noteq> []) ds" using Cons.prems(2) by simp_all
  note turn = parse_body_piece [where alloc = alloc and d = d and out = "[]",
      OF Cons.prems(1) assms(2) _ dne]
  show ?case
  proof (cases ds)
    case Nil
    then show ?thesis using turn k by (simp add: Parse_def)
  next
    case (Cons e es)
    then have "0 < length (concat ds)" using ds by simp
    then have "awaits_payload (p\<lparr>payload := payload p @ d\<rparr>) (length (concat ds))"
      using \<open>awaits_payload p (length (concat (d # ds)))\<close> by (simp add: awaits_payload_def)
    from Cons.IH [OF this ds] show ?thesis
      using turn k \<open>0 < length (concat ds)\<close> by (simp add: Parse_def del: concat_eq_Nil_conv)
  qed
qed

theorem ws_unmasked_payload_cut_witness:
  "feed (\<lambda>_. True) 3 (reset_parser\<lparr>parser_step := e_payload_data,
      frame_header := zero_header\<lparr>OPCODE := 1, PAYLOAD_REALY_LEN := 3\<rparr>\<rparr>) [[1], [2, 3]] =
   Some (reset_parser, [([1, 2, 3], 1, False)])"
  using ws_unmasked_payload_cut [of "reset_parser\<lparr>parser_step := e_payload_data,
      frame_header := zero_header\<lparr>OPCODE := 1, PAYLOAD_REALY_LEN := 3\<rparr>\<rparr>" "[[1], [2, 3]]" "\<lambda>_. True" 3]
  by (simp add: awaits_payload_def reset_parser_def zero_header_def)

section \<open>Where the promise is not kept\<close>

text \<open>The masking key of a frame cut by the end of a read is written over its own first bytes.\<close>

lemma ws_split_key_corrupts:
  "feed (\<lambda>_. True) 9 reset_parser [[0x81, 0x82, 1, 2, 3, 4, 0x49, 0x6b]] =
     Some (reset_parser, [([0x48, 0x69], 1, True)])"
  "feed (\<lambda>_. True) 9 reset_parser [[0x81, 0x82, 1, 2], [3, 4, 0x49, 0x6b]] =
     Some (reset_parser, [([0x4a, 0x6f], 1, True)])"
  by code_simp+

text \<open>The masked payload of a frame is unmasked from the first key byte again after each read.\<close>

lemma ws_split_masked_payload_corrupts:
  "feed (\<lambda>_. True) 9 reset_parser [[0x81, 0x82, 1, 2, 3, 4, 0x49], [0x6b]] =
     Some (reset_parser, [([0x48, 0x6a], 1, True)])"
  by code_simp

text \<open>The extended length of a frame cut by the end of a read loses its first byte.\<close>

lemma ws_split_length_corrupts:
  assumes "PAYLOAD_LEN (frame_header p) = 126" "payload_len_offset p = 0"
    and "EXT_PAYLOAD_LEN_16 (frame_header p) = [0, 0]"
  shows "EXT_PAYLOAD_LEN_16 (frame_header (fst (parse_extened_payload_len
      (fst (parse_extened_payload_len p [0])) [200, 1]))) = [200, 0]"
  using assms
  by (simp add: parse_extened_payload_len_def decode_extened_payload_len_def memcpy_front_def Let_def)

text \<open>A masked frame without payload: its key is read as the next frame.\<close>

lemma ws_masked_empty_frame_misread:
  "Parse (\<lambda>_. True) 9 reset_parser [0x89, 0x80, 0x82, 0, 0x82, 0] =
     Some (True, reset_parser, [([], 9, True), ([], 2, True), ([], 2, True)])"
  by code_simp

text \<open>A reserved bit makes a frame that is not the last one look like the last.\<close>

lemma ws_reserved_bit_is_fin:
  "Parse (\<lambda>_. True) 9 reset_parser [0x41, 1, 65] = Some (True, reset_parser, [([65], 1, True)])"
  by code_simp

text \<open>A frame of \<open>2 ^ 32\<close> bytes: if its payload can be reserved, the loop never ends.\<close>

lemma ws_length_2_32_no_return:
  assumes "parser_step p = e_payload_data" "payload p = []" "rest \<noteq> []"
    and "PAYLOAD_REALY_LEN (frame_header p) = 2 ^ 32" "alloc (2 ^ 32)"
  shows "parse_loop alloc fuel (p, rest, out) = None"
proof -
  have l: "unat (2 ^ 32 :: u64) = 2 ^ 32" "(ucast (2 ^ 32 :: u64) :: u32) = 0" by simp_all
  have "parse_payload alloc p rest = Some (p, 0, [])"
    unfolding parse_payload_def assms(2,4) Let_def l using assms(2,5) by simp
  then have "parse_body alloc (p, rest, out) = Inr (p, rest, out)"
    using assms(1,3) by (simp add: parse_body_def body_header_def body_len_def body_skip body_payload_def)
  then show ?thesis using assms(3) by (induction fuel) simp_all
qed

end
