(* ===== verification/RedisValue.thy ===== *)
theory RedisValue
  imports Prelude
begin

text \<open>
  Redis replies and commands: \<^verbatim>\<open>src/redis-client/redis_value.cpp\<close>,
  \<^verbatim>\<open>redis_command.cpp\<close> and \<^verbatim>\<open>redis_buffer.cpp\<close>.  A value is a variant with an
  error flag beside it; a command is a list of buffers.
\<close>

section \<open>Values\<close>

datatype redis_variant = NullTag | Int64 int | ByteArray string | Array "RedisValue list"
  and RedisValue = RedisValue (rv_value: redis_variant) (rv_error: bool)

definition nil_value :: RedisValue where "nil_value = RedisValue NullTag False"
definition int_value :: "int \<Rightarrow> RedisValue" where "int_value i = RedisValue (Int64 i) False"
definition bytes_value :: "string \<Rightarrow> RedisValue" where "bytes_value s = RedisValue (ByteArray s) False"
definition error_value :: "string \<Rightarrow> RedisValue" where "error_value s = RedisValue (ByteArray s) True"
definition array_value :: "RedisValue list \<Rightarrow> RedisValue" where "array_value vs = RedisValue (Array vs) False"

definition IsError :: "RedisValue \<Rightarrow> bool" where "IsError v = rv_error v"
definition IsOk :: "RedisValue \<Rightarrow> bool" where "IsOk v = (\<not> IsError v)"
definition IsNull :: "RedisValue \<Rightarrow> bool" where
  "IsNull v = (case rv_value v of NullTag \<Rightarrow> True | _ \<Rightarrow> False)"
definition IsInt :: "RedisValue \<Rightarrow> bool" where
  "IsInt v = (case rv_value v of Int64 i \<Rightarrow> True | _ \<Rightarrow> False)"
definition IsString :: "RedisValue \<Rightarrow> bool" where
  "IsString v = (case rv_value v of ByteArray s \<Rightarrow> True | _ \<Rightarrow> False)"
definition IsByteArray :: "RedisValue \<Rightarrow> bool" where
  "IsByteArray v = (case rv_value v of ByteArray s \<Rightarrow> True | _ \<Rightarrow> False)"
definition IsArray :: "RedisValue \<Rightarrow> bool" where
  "IsArray v = (case rv_value v of Array vs \<Rightarrow> True | _ \<Rightarrow> False)"

text \<open>\<open>cast_to\<close>: the content, or the default value of the type asked for.\<close>

definition ToByteArray :: "RedisValue \<Rightarrow> string" where
  "ToByteArray v = (case rv_value v of ByteArray s \<Rightarrow> s | _ \<Rightarrow> [])"
definition RedisToString :: "RedisValue \<Rightarrow> string" where "RedisToString v = ToByteArray v"
definition ToInt :: "RedisValue \<Rightarrow> int" where
  "ToInt v = (case rv_value v of Int64 i \<Rightarrow> i | _ \<Rightarrow> 0)"
definition ToInt32 :: "RedisValue \<Rightarrow> int" where "ToInt32 v = signed_take_bit 31 (ToInt v)"
definition ToArray :: "RedisValue \<Rightarrow> RedisValue list" where
  "ToArray v = (case rv_value v of Array vs \<Rightarrow> vs | _ \<Rightarrow> [])"

text \<open>\<open>GetArray().push_back(x)\<close>: \<open>GetArray\<close> throws \<^verbatim>\<open>boost::bad_get\<close> on another type.\<close>

fun push_back_array :: "RedisValue \<Rightarrow> RedisValue \<Rightarrow> RedisValue option" where
  "push_back_array (RedisValue (Array vs) e) x = Some (RedisValue (Array (vs @ [x])) e)"
| "push_back_array v x = None"

text \<open>
  \<open>Inspect\<close>: the loop over an array appends each element and a separator; afterwards the last
  character is cut off and the one before it overwritten by the bracket.
\<close>

definition close_bracket :: "string \<Rightarrow> string" where
  "close_bracket r = butlast (butlast r) @ '']''"

function (sequential) Inspect :: "RedisValue \<Rightarrow> string" and Inspect_all :: "RedisValue list \<Rightarrow> string" where
  "Inspect (RedisValue v e) =
     (if e then ''_error: '' @ RedisToString (RedisValue v e)
      else case v of
        NullTag \<Rightarrow> ''(null)''
      | Int64 i \<Rightarrow> to_string i
      | ByteArray s \<Rightarrow> s
      | Array vs \<Rightarrow> (if vs \<noteq> [] then close_bracket (''['' @ Inspect_all vs) else ''[]''))"
| "Inspect_all [] = []"
| "Inspect_all (v # vs) = Inspect v @ '', '' @ Inspect_all vs"
  by pat_completeness auto
termination
  by (relation "measure (case_sum size (size_list size))") auto

text \<open>\<open>operator ==\<close> compares the variants only: the error flags do not take part.\<close>

function (sequential) redis_eq :: "RedisValue \<Rightarrow> RedisValue \<Rightarrow> bool"
  and redis_eq_all :: "RedisValue list \<Rightarrow> RedisValue list \<Rightarrow> bool" where
  "redis_eq (RedisValue v e) (RedisValue w f) =
     (case (v, w) of
        (NullTag, NullTag) \<Rightarrow> True
      | (Int64 i, Int64 j) \<Rightarrow> i = j
      | (ByteArray s, ByteArray t) \<Rightarrow> s = t
      | (Array vs, Array ws) \<Rightarrow> redis_eq_all vs ws
      | _ \<Rightarrow> False)"
| "redis_eq_all (v # vs) (w # ws) = (redis_eq v w \<and> redis_eq_all vs ws)"
| "redis_eq_all vs ws = (vs = [] \<and> ws = [])"
  by pat_completeness auto
termination
  by (relation "measure (case_sum (\<lambda>(v, w). size v) (\<lambda>(vs, ws). size_list size vs))") auto

section \<open>Commands\<close>

type_synonym RedisBuffer = string

definition crlf :: string where "crlf = [CHR 0x0D, CHR 0x0A]"

definition MakeCommand :: "RedisBuffer list \<Rightarrow> string" where
  "MakeCommand items =
     ''*'' @ to_string (int (length items)) @ crlf @
     concat (map (\<lambda>item. ''$'' @ to_string (int (length item)) @ crlf @ item @ crlf) items)"

section \<open>The wire form of a reply\<close>

text \<open>
  The Redis serialization protocol, as the server documents it: the kinds of replies, the byte
  string a server sends for one, and the value that stands for it.  A simple string and a bulk
  string give the same value, as do the two nulls.  \<open>wire_ok\<close> are the replies that are read:
  simple strings and error messages of printable ASCII, and numbers and lengths of 64 bits (but for
  the least number, on which the reader's negation overflows).
\<close>

datatype reply = SimpleString string | ErrorMessage string | IntegerReply int | BulkString string
  | NullBulk | NullArray | ArrayReply "reply list"

fun wire :: "reply \<Rightarrow> string" where
  "wire (SimpleString s) = ''+'' @ s @ crlf"
| "wire (ErrorMessage s) = ''-'' @ s @ crlf"
| "wire (IntegerReply i) = '':'' @ to_string i @ crlf"
| "wire (BulkString s) = ''$'' @ to_string (int (length s)) @ crlf @ s @ crlf"
| "wire NullBulk = ''$-1'' @ crlf"
| "wire NullArray = ''*-1'' @ crlf"
| "wire (ArrayReply rs) = ''*'' @ to_string (int (length rs)) @ crlf @ concat (map wire rs)"

fun value_of :: "reply \<Rightarrow> RedisValue" where
  "value_of (SimpleString s) = bytes_value s"
| "value_of (ErrorMessage s) = error_value s"
| "value_of (IntegerReply i) = int_value i"
| "value_of (BulkString s) = bytes_value s"
| "value_of NullBulk = nil_value"
| "value_of NullArray = nil_value"
| "value_of (ArrayReply rs) = array_value (map value_of rs)"

definition text_char :: "char \<Rightarrow> bool" where
  "text_char c \<longleftrightarrow> 32 \<le> code c \<and> code c < 127"

fun wire_ok :: "reply \<Rightarrow> bool" where
  "wire_ok (SimpleString s) = list_all text_char s"
| "wire_ok (ErrorMessage s) = list_all text_char s"
| "wire_ok (IntegerReply i) = (- (2 ^ 63) < i \<and> i < 2 ^ 63)"
| "wire_ok (BulkString s) = (length s < 2 ^ 63)"
| "wire_ok NullBulk = True"
| "wire_ok NullArray = True"
| "wire_ok (ArrayReply rs) = (length rs < 2 ^ 63 \<and> list_all wire_ok rs)"

lemma wire_not_empty [simp]: "wire r \<noteq> []"
  by (cases r) simp_all

lemma MakeCommand_wire: "MakeCommand items = wire (ArrayReply (map BulkString items))"
  by (simp add: MakeCommand_def comp_def)

end
