(* ===== verification/RedisParser.thy ===== *)
theory RedisParser
  imports RedisValue
begin

text \<open>
  \<^verbatim>\<open>src/redis-client/redis_parser.cpp\<close>: the incremental parser of replies.  The record holds
  the members of the class; \<open>parse_chunk\<close> is a loop over the bytes of a chunk around one switch
  over the states.  \<open>reserve_chars n\<close> and \<open>reserve_values n\<close> say whether reserving room for \<open>n\<close>
  elements succeeds; where it does not, the call throws out of \<open>Parse\<close>.  Arithmetic on
  \<^verbatim>\<open>long\<close> is kept at its 64 bits.
\<close>

section \<open>States and members\<close>

datatype State = Start | StartArray | String | StringLF | ErrorString | ErrorLF | Integer
  | IntegerLF | BulkSize | BulkSizeLF | Bulk | BulkCR | BulkLF | ArraySize | ArraySizeLF

datatype ParseResult = Completed | Incompleted | Error

record RedisParser =
  states :: "State list"
  bulkSize :: int
  buf :: string
  redisValue :: RedisValue
  arraySizes :: "int list"
  arrayValues :: "RedisValue list"

record reserve_env =
  reserve_chars :: "nat \<Rightarrow> bool"
  reserve_values :: "nat \<Rightarrow> bool"

definition new_RedisParser :: RedisParser where
  "new_RedisParser = \<lparr>states = [], bulkSize = 0, buf = [], redisValue = nil_value,
     arraySizes = [], arrayValues = []\<rparr>"

definition is_char :: "int \<Rightarrow> bool" where "is_char c \<longleftrightarrow> 0 \<le> c \<and> c \<le> 127"
definition is_control :: "int \<Rightarrow> bool" where "is_control c \<longleftrightarrow> (0 \<le> c \<and> c \<le> 31) \<or> c = 127"

definition CR :: char where "CR = CHR 0x0D"
definition LF :: char where "LF = CHR 0x0A"

definition wrap64 :: "int \<Rightarrow> int" where "wrap64 = signed_take_bit 63"

fun digits_to_long :: "int \<Rightarrow> string \<Rightarrow> int" where
  "digits_to_long value [] = value"
| "digits_to_long value (c # cs) = digits_to_long (wrap64 (wrap64 (value * 10) + (schar c - 48))) cs"

definition buf_to_long :: "string \<Rightarrow> int" where
  "buf_to_long str =
     (case str of
        [] \<Rightarrow> 0
      | c # cs \<Rightarrow>
          if c = CHR ''-'' then (if cs = [] then 0 else wrap64 (- digits_to_long 0 cs))
          else digits_to_long 0 str)"

section \<open>One turn of the loop\<close>

text \<open>
  The outcome of the switch for one character: the exception, the return of \<open>Error\<close>, or the next
  state with the bytes of the chunk not yet read.
\<close>

datatype turn = Threw RedisParser | Failed RedisParser | Goes State RedisParser string

definition fail_clear :: "RedisParser \<Rightarrow> turn" where
  "fail_clear p = Failed (p\<lparr>states := []\<rparr>)"

definition parse_start :: "RedisParser \<Rightarrow> char \<Rightarrow> string \<Rightarrow> turn" where
  "parse_start p0 c rest =
     (let p = p0\<lparr>buf := []\<rparr> in
      if c = CHR ''+'' then Goes String p rest
      else if c = CHR ''-'' then Goes ErrorString p rest
      else if c = CHR '':'' then Goes Integer p rest
      else if c = CHR ''$'' then Goes BulkSize (p\<lparr>bulkSize := 0\<rparr>) rest
      else if c = CHR ''*'' then Goes ArraySize p rest
      else Failed p)"

definition parse_text :: "State \<Rightarrow> State \<Rightarrow> RedisParser \<Rightarrow> char \<Rightarrow> string \<Rightarrow> turn" where
  "parse_text st lf p c rest =
     (if c = CR then Goes lf p rest
      else if is_char (schar c) \<and> \<not> is_control (schar c) then Goes st (p\<lparr>buf := buf p @ [c]\<rparr>) rest
      else fail_clear p)"

definition parse_size :: "State \<Rightarrow> State \<Rightarrow> RedisParser \<Rightarrow> char \<Rightarrow> string \<Rightarrow> turn" where
  "parse_size st lf p c rest =
     (if c = CR then (if buf p = [] then fail_clear p else Goes lf p rest)
      else if is_digit c \<or> c = CHR ''-'' then Goes st (p\<lparr>buf := buf p @ [c]\<rparr>) rest
      else fail_clear p)"

definition expect :: "char \<Rightarrow> char \<Rightarrow> RedisParser \<Rightarrow> turn \<Rightarrow> turn" where
  "expect want c p t = (if c = want then t else fail_clear p)"

definition parse_bulk_size_lf :: "reserve_env \<Rightarrow> RedisParser \<Rightarrow> string \<Rightarrow> turn" where
  "parse_bulk_size_lf E p0 rest =
     (let size = buf_to_long (buf p0);
          p = p0\<lparr>bulkSize := size, buf := []\<rparr>
      in if size = -1 then Goes Start (p\<lparr>redisValue := nil_value\<rparr>) rest
         else if size = 0 then Goes BulkCR p rest
         else if size < 0 then fail_clear p
         else if \<not> reserve_chars E (nat size) then Threw p
         else
           let canRead = min size (int (length rest));
               p' = (if canRead > 0
                     then p\<lparr>buf := take (nat canRead) rest, bulkSize := size - canRead\<rparr> else p)
           in Goes (if bulkSize p' > 0 then Bulk else BulkCR) p' (drop (nat canRead) rest))"

definition parse_bulk :: "RedisParser \<Rightarrow> char \<Rightarrow> string \<Rightarrow> turn" where
  "parse_bulk p c rest =
     (let canRead = min (int (length rest) + 1) (bulkSize p);
          p' = p\<lparr>buf := buf p @ take (nat canRead) (c # rest), bulkSize := bulkSize p - canRead\<rparr>
      in Goes (if bulkSize p' = 0 then BulkCR else Bulk) p' (drop (nat (canRead - 1)) rest))"

definition parse_array_size_lf :: "reserve_env \<Rightarrow> RedisParser \<Rightarrow> string \<Rightarrow> turn" where
  "parse_array_size_lf E p rest =
     (let size = buf_to_long (buf p)
      in if size = -1 then Goes Start (p\<lparr>redisValue := nil_value\<rparr>) rest
         else if size = 0 then Goes Start (p\<lparr>redisValue := array_value []\<rparr>) rest
         else if size < 0 then fail_clear p
         else if \<not> reserve_values E (nat size) then Threw p
         else Goes StartArray (p\<lparr>arraySizes := size # arraySizes p,
                arrayValues := array_value [] # arrayValues p\<rparr>) rest)"

fun parse_char :: "reserve_env \<Rightarrow> State \<Rightarrow> RedisParser \<Rightarrow> char \<Rightarrow> string \<Rightarrow> turn" where
  "parse_char E Start p c rest = parse_start p c rest"
| "parse_char E StartArray p c rest = parse_start p c rest"
| "parse_char E String p c rest = parse_text String StringLF p c rest"
| "parse_char E ErrorString p c rest = parse_text ErrorString ErrorLF p c rest"
| "parse_char E BulkSize p c rest = parse_size BulkSize BulkSizeLF p c rest"
| "parse_char E StringLF p c rest =
     expect LF c p (Goes Start (p\<lparr>redisValue := bytes_value (buf p)\<rparr>) rest)"
| "parse_char E ErrorLF p c rest =
     expect LF c p (Goes Start (p\<lparr>redisValue := error_value (buf p)\<rparr>) rest)"
| "parse_char E BulkSizeLF p c rest = expect LF c p (parse_bulk_size_lf E p rest)"
| "parse_char E Bulk p c rest = parse_bulk p c rest"
| "parse_char E BulkCR p c rest = expect CR c p (Goes BulkLF p rest)"
| "parse_char E BulkLF p c rest =
     expect LF c p (Goes Start (p\<lparr>redisValue := bytes_value (buf p)\<rparr>) rest)"
| "parse_char E ArraySize p c rest = parse_size ArraySize ArraySizeLF p c rest"
| "parse_char E ArraySizeLF p c rest = expect LF c p (parse_array_size_lf E p rest)"
| "parse_char E Integer p c rest = parse_size Integer IntegerLF p c rest"
| "parse_char E IntegerLF p c rest =
     expect LF c p (Goes Start (p\<lparr>buf := [], redisValue := int_value (buf_to_long (buf p))\<rparr>) rest)"

section \<open>Closing arrays\<close>

text \<open>
  After a value is complete and arrays are open, it is appended to the innermost one; every
  array whose last element this was becomes the value, and is appended to the next.
  \<open>None\<close>: \<open>GetArray\<close> or \<open>top\<close> on a stack that does not fit, which \<open>redis_stacks_ok\<close> excludes.
\<close>

fun close_arrays :: "int list \<Rightarrow> RedisValue list \<Rightarrow> RedisValue \<Rightarrow> (int list \<times> RedisValue list \<times> RedisValue) option" where
  "close_arrays [] vals rv = Some ([], vals, rv)"
| "close_arrays (n # ns) vals rv =
     (if n - 1 = 0 then
        (case vals of
           [] \<Rightarrow> None
         | v # vs \<Rightarrow>
             if ns = [] then Some ([], vs, v)
             else (case vs of
                     [] \<Rightarrow> None
                   | w # ws \<Rightarrow>
                       (case push_back_array w v of
                          None \<Rightarrow> None
                        | Some w' \<Rightarrow> close_arrays ns (w' # ws) v)))
      else Some ((n - 1) # ns, vals, rv))"

definition value_done :: "RedisParser \<Rightarrow> RedisParser option" where
  "value_done p =
     (if arraySizes p = [] then Some p
      else (case arrayValues p of
              [] \<Rightarrow> None
            | v # vs \<Rightarrow>
                (case push_back_array v (redisValue p) of
                   None \<Rightarrow> None
                 | Some v' \<Rightarrow>
                     (case close_arrays (arraySizes p) (v' # vs) (redisValue p) of
                        None \<Rightarrow> None
                      | Some (ns, vals, rv) \<Rightarrow>
                          Some (p\<lparr>arraySizes := ns, arrayValues := vals, redisValue := rv\<rparr>)))))"

section \<open>The loop over a chunk\<close>

lemma parse_char_rest: "parse_char E st p c rest = Goes st' p' rest' \<Longrightarrow> length rest' \<le> length rest"
  by (induction E st p c rest rule: parse_char.induct)
    (auto simp: parse_start_def parse_text_def parse_size_def expect_def fail_clear_def
      parse_bulk_size_lf_def parse_bulk_def parse_array_size_lf_def Let_def split: if_splits)

datatype loop_end = LThrew RedisParser | LFailed RedisParser string | LEnd State RedisParser string

function parse_loop :: "reserve_env \<Rightarrow> State \<Rightarrow> RedisParser \<Rightarrow> string \<Rightarrow> loop_end" where
  "parse_loop E st p [] = LEnd st p []"
| "parse_loop E st p (c # cs) =
     (case parse_char E st p c cs of
        Threw p' \<Rightarrow> LThrew p'
      | Failed p' \<Rightarrow> LFailed p' cs
      | Goes st' p' rest \<Rightarrow>
          if st' = Start then
            (case value_done p' of
               None \<Rightarrow> LThrew p'
             | Some p'' \<Rightarrow>
                 if arraySizes p'' = [] then LEnd Start p'' rest else parse_loop E Start p'' rest)
          else parse_loop E st' p' rest)"
  by pat_completeness auto
termination
  by (relation "measure (\<lambda>(E, st, p, s). length s)") (auto dest: parse_char_rest)

text \<open>
  \<open>parse_chunk\<close>: the bytes read and the result, \<open>None\<close> where an exception leaves the function,
  and the parser left behind.
\<close>

definition parse_chunk :: "reserve_env \<Rightarrow> RedisParser \<Rightarrow> string \<Rightarrow> (nat \<times> ParseResult) option \<times> RedisParser" where
  "parse_chunk E p s =
     (let (st, p0) = (case states p of [] \<Rightarrow> (Start, p) | x # xs \<Rightarrow> (x, p\<lparr>states := xs\<rparr>))
      in case parse_loop E st p0 s of
           LThrew p' \<Rightarrow> (None, p')
         | LFailed p' rest \<Rightarrow> (Some (length s - length rest, Error), p')
         | LEnd st' p' rest \<Rightarrow>
             if arraySizes p' = [] \<and> st' = Start then (Some (length s - length rest, Completed), p')
             else (Some (length s - length rest, Incompleted), p'\<lparr>states := st' # states p'\<rparr>))"

definition ParseReply :: "reserve_env \<Rightarrow> RedisParser \<Rightarrow> string \<Rightarrow> (nat \<times> ParseResult) option \<times> RedisParser" where
  "ParseReply E p s = parse_chunk E p s"

text \<open>\<open>Result\<close> moves the value out.  What is left in the member is not specified by the move.\<close>

definition Result :: "RedisParser \<Rightarrow> RedisValue" where "Result p = redisValue p"

end
