(* ===== verification/RedisParserProofs.thy ===== *)
theory RedisParserProofs
  imports RedisParser
begin

text \<open>
  What the reply parser guarantees: cutting a reply anywhere between reads does not change the
  result, and every reply in the wire form of the protocol is read back, nested arrays included.
  Both rest on \<open>parse_bytes\<close>, the reading of a reply one byte at a time.
\<close>

section \<open>Byte by byte\<close>

definition bulk_ok :: "State \<Rightarrow> RedisParser \<Rightarrow> bool" where
  "bulk_ok st p \<longleftrightarrow> (st = Bulk \<longrightarrow> 0 < bulkSize p)"

fun parse_bytes :: "reserve_env \<Rightarrow> State \<Rightarrow> RedisParser \<Rightarrow> string \<Rightarrow> loop_end" where
  "parse_bytes E st p [] = LEnd st p []"
| "parse_bytes E st p (c # cs) =
     (case parse_char E st p c [] of
        Threw p' \<Rightarrow> LThrew p'
      | Failed p' \<Rightarrow> LFailed p' cs
      | Goes st' p' _ \<Rightarrow>
          if st' = Start then
            (case value_done p' of
               None \<Rightarrow> LThrew p'
             | Some p'' \<Rightarrow>
                 if arraySizes p'' = [] then LEnd Start p'' cs else parse_bytes E Start p'' cs)
          else parse_bytes E st' p' cs)"

lemmas parse_char_defs = parse_start_def parse_text_def parse_size_def expect_def fail_clear_def
  parse_array_size_lf_def Let_def

lemma value_done_bulkSize: "value_done p = Some q \<Longrightarrow> bulkSize q = bulkSize p"
  by (auto simp: value_done_def split: if_splits list.splits option.splits)

lemma parse_char_bulk_ok: "bulk_ok st p \<Longrightarrow> parse_char E st p c rest = Goes st' p' rest' \<Longrightarrow> bulk_ok st' p'"
  by (cases st) (auto simp: bulk_ok_def parse_char_defs parse_bulk_size_lf_def parse_bulk_def
      split: if_splits)

text \<open>In all states but two the unread bytes do not take part.\<close>

lemma parse_char_no_bulk:
  assumes "st \<noteq> Bulk" "st \<noteq> BulkSizeLF"
  shows "parse_char E st p c cs =
    (case parse_char E st p c [] of Threw q \<Rightarrow> Threw q | Failed q \<Rightarrow> Failed q | Goes st' q _ \<Rightarrow> Goes st' q cs)"
  using assms by (cases st) (simp_all add: parse_char_defs)

text \<open>A run of payload bytes.\<close>

definition bulk_after :: "RedisParser \<Rightarrow> string \<Rightarrow> RedisParser" where
  "bulk_after p xs = p\<lparr>buf := buf p @ xs, bulkSize := bulkSize p - int (length xs)\<rparr>"

lemma parse_char_Bulk_1:
  "0 < bulkSize p \<Longrightarrow> parse_char E Bulk p c [] =
     Goes (if bulkSize p = 1 then BulkCR else Bulk) (bulk_after p [c]) []"
  by (simp add: parse_bulk_def bulk_after_def Let_def)

lemma bulk_after_simps [simp]:
  "bulkSize (bulk_after p xs) = bulkSize p - int (length xs)"
  "arraySizes (bulk_after p xs) = arraySizes p"
  "bulk_after (bulk_after p xs) ys = bulk_after p (xs @ ys)"
  by (simp_all add: bulk_after_def)

lemma parse_bytes_Bulk_run:
  assumes "xs \<noteq> []" "int (length xs) \<le> bulkSize p"
  shows "parse_bytes E Bulk p (xs @ ys) =
     parse_bytes E (if bulkSize p = int (length xs) then BulkCR else Bulk) (bulk_after p xs) ys"
  using assms
proof (induction xs arbitrary: p)
  case (Cons x xs)
  have pos: "0 < bulkSize p" using Cons.prems(2) by simp
  show ?case
  proof (cases xs)
    case Nil
    with pos show ?thesis by (simp add: parse_char_Bulk_1 del: parse_char.simps)
  next
    case (Cons y zs)
    then have ne: "bulkSize p \<noteq> 1" using Cons.prems(2) by simp
    have le: "int (length xs) \<le> bulkSize (bulk_after p [x])" using Cons.prems(2) by simp
    have iff: "(bulkSize p - 1 = int (length xs)) = (bulkSize p = int (length (x # xs)))" by auto
    show ?thesis
      using Cons.IH [OF _ le] ne pos Cons iff
      by (simp add: parse_char_Bulk_1 del: parse_char.simps)
  qed
qed simp

lemma parse_loop_bytes: "bulk_ok st p \<Longrightarrow> parse_loop E st p s = parse_bytes E st p s"
proof (induction E st p s rule: parse_loop.induct)
  case (2 E st p c cs)
  have cont: "parse_loop E st' p' rest = parse_bytes E st' p' rest"
    if "parse_char E st p c cs = Goes st' p' rest" "st' \<noteq> Start" for st' p' rest
    using 2(2) [OF that] parse_char_bulk_ok [OF 2(3) that(1)] .
  have cont_start: "parse_loop E Start p'' rest = parse_bytes E Start p'' rest"
    if "parse_char E st p c cs = Goes Start p' rest" "value_done p' = Some p''" "arraySizes p'' \<noteq> []"
    for p' p'' rest
    using 2(1) [OF that(1) refl that(2,3)] by (simp add: bulk_ok_def)
  show ?case
  proof (cases "st = Bulk \<or> st = BulkSizeLF")
    case False
    then show ?thesis
      using parse_char_no_bulk [of st E p c cs] cont cont_start
      by (auto split: turn.splits option.splits)
  next
    case True
    then show ?thesis
    proof
      assume st: "st = Bulk"
      then have pos: "0 < bulkSize p" using 2(3) by (simp add: bulk_ok_def)
      define k where "k = nat (min (int (length cs) + 1) (bulkSize p))"
      let ?xs = "take k (c # cs)"
      have k: "0 < k" "int k \<le> bulkSize p" "int k \<le> int (length cs) + 1" "length ?xs = k"
        using pos by (auto simp: k_def)
      have r: "drop (k - 1) cs = drop k (c # cs)" using k(1) by (cases k) auto
      have mk: "min (int (length cs) + 1) (bulkSize p) = int k" using pos by (simp add: k_def)
      have "parse_char E st p c cs =
          Goes (if bulkSize p = int k then BulkCR else Bulk) (bulk_after p ?xs) (drop k (c # cs))"
        unfolding st using k(1) r
        by (simp add: parse_bulk_def Let_def mk bulk_after_def k(4) nat_diff_distrib del: length_take take_Suc_Cons drop_Suc_Cons)
      moreover have "parse_bytes E Bulk p (?xs @ drop k (c # cs)) =
          parse_bytes E (if bulkSize p = int k then BulkCR else Bulk) (bulk_after p ?xs) (drop k (c # cs))"
        using parse_bytes_Bulk_run [of ?xs p E "drop k (c # cs)"] k by fastforce
      ultimately show ?thesis using cont st
        by (simp del: parse_char.simps parse_bytes.simps split: if_splits)
    next
      assume st: "st = BulkSizeLF"
      show ?thesis
      proof (cases "c = LF \<and> 0 < buf_to_long (buf p) \<and> reserve_chars E (nat (buf_to_long (buf p))) \<and> cs \<noteq> []")
        case False
        then have "parse_char E st p c cs = (case parse_char E st p c [] of
            Threw q \<Rightarrow> Threw q | Failed q \<Rightarrow> Failed q | Goes st' q _ \<Rightarrow> Goes st' q cs)"
          unfolding st by (auto simp: parse_char_defs parse_bulk_size_lf_def)
        then show ?thesis using cont cont_start by (auto split: turn.splits option.splits)
      next
        case True
        define q where "q = p\<lparr>bulkSize := buf_to_long (buf p), buf := []\<rparr>"
        define k where "k = nat (min (bulkSize q) (int (length cs)))"
        let ?xs = "take k cs"
        have pos: "0 < bulkSize q" using True by (simp add: q_def)
        have k: "0 < k" "int k \<le> bulkSize q" "length ?xs = k" "?xs \<noteq> []"
          using True pos by (auto simp: k_def min_def)
        have mk: "min (buf_to_long (buf p)) (int (length cs)) = int k" using True by (simp add: k_def q_def)
        have one: "parse_char E st p c [] = Goes Bulk q []"
          unfolding st using True by (simp add: parse_char_defs parse_bulk_size_lf_def q_def)
        have iff: "(0 < bulkSize q - int k) = (bulkSize q \<noteq> int k)" using k(2) by auto
        have "parse_char E st p c cs =
            Goes (if bulkSize q = int k then BulkCR else Bulk) (bulk_after q ?xs) (drop k cs)"
          unfolding st using True k(1,3) iff
          by (simp add: parse_char_defs parse_bulk_size_lf_def mk bulk_after_def q_def)
        moreover have "parse_bytes E Bulk q (?xs @ drop k cs) =
            parse_bytes E (if bulkSize q = int k then BulkCR else Bulk) (bulk_after q ?xs) (drop k cs)"
          using parse_bytes_Bulk_run [of ?xs q E "drop k cs"] k by simp
        ultimately show ?thesis using cont one
          by (simp del: parse_char.simps split: if_splits)
      qed
    qed
  qed
qed simp

section \<open>A reply in pieces\<close>

definition finished :: "State \<Rightarrow> RedisParser \<Rightarrow> bool" where
  "finished st p \<longleftrightarrow> st = Start \<and> arraySizes p = []"

lemma parse_bytes_append:
  "s \<noteq> [] \<or> \<not> finished st p \<Longrightarrow>
   parse_bytes E st p (s @ t) =
     (case parse_bytes E st p s of
        LThrew q \<Rightarrow> LThrew q
      | LFailed q r \<Rightarrow> LFailed q (r @ t)
      | LEnd st' q r \<Rightarrow> if finished st' q then LEnd st' q (r @ t) else parse_bytes E st' q t)"
proof (induction s arbitrary: st p)
  case (Cons c s)
  have "\<not> finished st' p'" if "st' \<noteq> Start \<or> arraySizes p' \<noteq> []" for st' p'
    using that by (auto simp: finished_def)
  with Cons.IH show ?case
    by (simp add: finished_def split: turn.splits option.splits)
qed (auto simp: finished_def)

lemma parse_bytes_end_bulk_ok:
  "bulk_ok st p \<Longrightarrow> parse_bytes E st p s = LEnd st' q r \<Longrightarrow> bulk_ok st' q \<and> (\<not> finished st' q \<longrightarrow> r = [])"
proof (induction s arbitrary: st p)
  case (Cons c s)
  show ?case
  proof (cases "parse_char E st p c []")
    case (Goes st1 p1 r1)
    have b: "bulk_ok st1 p1" using parse_char_bulk_ok [OF Cons.prems(1) Goes] .
    show ?thesis
    proof (cases "st1 = Start")
      case True
      with Goes Cons.prems(2) obtain p2 where p2: "value_done p1 = Some p2" by (auto split: option.splits)
      have "bulk_ok Start p2" by (simp add: bulk_ok_def)
      with Cons.IH [of Start p2] Cons.prems(2) Goes True p2 show ?thesis
        by (auto simp: finished_def split: if_splits)
    next
      case False
      with Cons.IH [OF b] Cons.prems(2) Goes show ?thesis by simp
    qed
  qed (use Cons.prems(2) in simp_all)
qed simp

definition redis_wf :: "RedisParser \<Rightarrow> bool" where
  "redis_wf p \<longleftrightarrow> (case states p of [] \<Rightarrow> True | st # _ \<Rightarrow> bulk_ok st p \<and> \<not> finished st p)"

definition resume :: "RedisParser \<Rightarrow> State \<times> RedisParser" where
  "resume p = (case states p of [] \<Rightarrow> (Start, p) | x # xs \<Rightarrow> (x, p\<lparr>states := xs\<rparr>))"

definition reply_of :: "string \<Rightarrow> loop_end \<Rightarrow> (nat \<times> ParseResult) option \<times> RedisParser" where
  "reply_of s e = (case e of
       LThrew p' \<Rightarrow> (None, p')
     | LFailed p' rest \<Rightarrow> (Some (length s - length rest, Error), p')
     | LEnd st' p' rest \<Rightarrow>
         if finished st' p' then (Some (length s - length rest, Completed), p')
         else (Some (length s - length rest, Incompleted), p'\<lparr>states := st' # states p'\<rparr>))"

lemma resume_bulk_ok: "redis_wf p \<Longrightarrow> resume p = (st, q) \<Longrightarrow> bulk_ok st q"
  by (auto simp: redis_wf_def resume_def bulk_ok_def split: list.splits)

lemma ParseReply_bytes:
  assumes "redis_wf p"
  shows "ParseReply E p s = (case resume p of (st, q) \<Rightarrow> reply_of s (parse_bytes E st q s))"
proof -
  obtain st q where r: "resume p = (st, q)" by (cases "resume p")
  then have "parse_loop E st q s = parse_bytes E st q s"
    by (intro parse_loop_bytes resume_bulk_ok [OF assms])
  with r show ?thesis
    by (simp add: ParseReply_def parse_chunk_def resume_def [symmetric] reply_of_def finished_def conj_commute
        split: loop_end.splits)
qed

lemma parse_bytes_rest_length:
  "(parse_bytes E st p s = LEnd st' q r \<longrightarrow> length r \<le> length s) \<and>
   (parse_bytes E st p s = LFailed q r \<longrightarrow> length r \<le> length s)"
  by (induction s arbitrary: st p) (auto split: turn.splits option.splits if_splits simp: le_SucI)

lemma redis_reply_split:
  assumes "redis_wf p" "s \<noteq> []"
  shows "ParseReply E p (s @ t) =
    (case ParseReply E p s of
       (Some (n, Incompleted), q) \<Rightarrow>
         (case ParseReply E q t of (Some (m, r), q') \<Rightarrow> (Some (n + m, r), q') | (None, q') \<Rightarrow> (None, q'))
     | x \<Rightarrow> x)"
proof -
  obtain st q where r: "resume p = (st, q)" by (cases "resume p")
  have b: "bulk_ok st q" by (rule resume_bulk_ok [OF assms(1) r])
  note app = parse_bytes_append [of s st q E t]
  show ?thesis
  proof (cases "parse_bytes E st q s")
    case (LEnd st' q' rs)
    show ?thesis
    proof (cases "finished st' q'")
      case True
      with LEnd r app assms parse_bytes_rest_length [of E st q s st' q' rs] show ?thesis
        by (simp add: ParseReply_bytes reply_of_def)
    next
      case False
      then have e: "rs = []" "bulk_ok st' q'" using parse_bytes_end_bulk_ok [OF b LEnd] by simp_all
      let ?q = "q'\<lparr>states := st' # states q'\<rparr>"
      have wf: "redis_wf ?q" using e(2) False by (simp add: redis_wf_def bulk_ok_def finished_def)
      have res: "resume ?q = (st', q')" by (simp add: resume_def)
      have len: "length s + length t - length x = length s + (length t - length x)"
        if "parse_bytes E st' q' t = LEnd st2 q2 x \<or> parse_bytes E st' q' t = LFailed q2 x" for st2 q2 x
        using parse_bytes_rest_length [of E st' q' t st2 q2 x] that by auto
      show ?thesis
        using LEnd False e(1) r app assms wf res
        by (auto simp: ParseReply_bytes reply_of_def len split: loop_end.splits)
    qed
  qed (use r app assms parse_bytes_rest_length in \<open>auto simp: ParseReply_bytes reply_of_def\<close>)
qed

text \<open>
  (C9) A reply may be cut anywhere between two reads.  Parsing the second piece with the parser
  the first piece left gives what parsing both at once gives: the same result, the same parser
  and, added up, the same number of bytes read.  Once a piece completes a reply, or is refused,
  the bytes after it do not matter.
\<close>
theorem redis_reply_in_pieces:
  assumes "redis_wf p" "s \<noteq> []"
  shows "ParseReply E p (s @ t) =
    (case ParseReply E p s of
       (Some (n, Incompleted), q) \<Rightarrow>
         (case ParseReply E q t of (Some (m, r), q') \<Rightarrow> (Some (n + m, r), q') | (None, q') \<Rightarrow> (None, q'))
     | x \<Rightarrow> x)"
  by (rule redis_reply_split [OF assms])

text \<open>The state \<open>redis_wf\<close> of a parser is kept by every call.\<close>

lemma redis_wf_ParseReply:
  assumes "redis_wf p"
  shows "fst (ParseReply E p s) = Some (n, Incompleted) \<Longrightarrow> redis_wf (snd (ParseReply E p s))"
proof -
  obtain st q where r: "resume p = (st, q)" by (cases "resume p")
  have b: "bulk_ok st q" by (rule resume_bulk_ok [OF assms r])
  show "fst (ParseReply E p s) = Some (n, Incompleted) \<Longrightarrow> redis_wf (snd (ParseReply E p s))"
    using r parse_bytes_end_bulk_ok [OF b, of E s]
    by (cases "parse_bytes E st q s")
      (auto simp: ParseReply_bytes [OF assms] reply_of_def redis_wf_def bulk_ok_def finished_def split: if_splits)
qed

lemma redis_wf_new [simp]: "redis_wf new_RedisParser"
  by (simp add: redis_wf_def new_RedisParser_def)

theorem redis_reply_in_pieces_witness:
  "ParseReply \<lparr>reserve_chars = (\<lambda>n. n < 9), reserve_values = (\<lambda>n. n < 9)\<rparr> new_RedisParser (''*2'' @ crlf @ '':1'' @ crlf @ ''$3'' @ crlf @ ''ab'')
    = (case ParseReply \<lparr>reserve_chars = (\<lambda>n. n < 9), reserve_values = (\<lambda>n. n < 9)\<rparr> new_RedisParser ''*2'' of
       (Some (n, Incompleted), q) \<Rightarrow>
         (case ParseReply \<lparr>reserve_chars = (\<lambda>n. n < 9), reserve_values = (\<lambda>n. n < 9)\<rparr> q (crlf @ '':1'' @ crlf @ ''$3'' @ crlf @ ''ab'') of
            (Some (m, r), q') \<Rightarrow> (Some (n + m, r), q') | (None, q') \<Rightarrow> (None, q'))
     | x \<Rightarrow> x)"
  by (rule redis_reply_in_pieces) simp_all

section \<open>Numbers\<close>

lemma wrap64_id: "- (2 ^ 63) \<le> i \<Longrightarrow> i < 2 ^ 63 \<Longrightarrow> wrap64 i = i"
  unfolding wrap64_def by (rule signed_take_bit_int_eq_self) simp_all

lemma digits_to_long_dec:
  "list_all is_digit ds \<Longrightarrow> dec_value_from a ds < 2 ^ 63 \<Longrightarrow> digits_to_long (int a) ds = int (dec_value_from a ds)"
proof (induction ds arbitrary: a)
  case (Cons c ds)
  let ?a = "a * 10 + digit_val c"
  have c: "schar c - 48 = int (digit_val c)"
    using Cons.prems(1) by (auto simp: is_digit_def digit_val_def schar_def)
  have "?a < 2 ^ 63" using dec_value_from_mono [of ?a ds] Cons.prems(2) by simp
  then have lt: "int a * 10 + int (digit_val c) < 2 ^ 63" by simp
  have "wrap64 (wrap64 (int a * 10) + (schar c - 48)) = int ?a"
    unfolding c using lt by (simp add: wrap64_id)
  with Cons.IH [of ?a] Cons.prems show ?case by simp
qed simp

lemma digit_not_minus: "is_digit c \<Longrightarrow> c \<noteq> CHR ''-''"
  by (auto simp: is_digit_def)

lemma buf_to_long_to_string:
  assumes "- (2 ^ 63) < i" "i < 2 ^ 63"
  shows "buf_to_long (to_string i) = i"
proof (cases "i < 0")
  case True
  have "digits_to_long (int 0) (dec_digits (nat (- i))) = - i"
    using True assms(1) by (subst digits_to_long_dec) (simp_all add: dec_digits_all_digits nat_less_iff)
  with True assms show ?thesis by (simp add: to_string_def buf_to_long_def wrap64_id)
next
  case False
  have "digits_to_long (int 0) (dec_digits (nat i)) = i"
    using False assms(2) by (subst digits_to_long_dec) (simp_all add: dec_digits_all_digits nat_less_iff)
  moreover have "hd (dec_digits (nat i)) \<noteq> CHR ''-''"
    using hd_dec_digits_is_digit digit_not_minus by blast
  ultimately show ?thesis using False
    by (cases "dec_digits (nat i)") (simp_all add: to_string_def buf_to_long_def)
qed

definition number_text :: "string \<Rightarrow> bool" where
  "number_text ds \<longleftrightarrow> ds \<noteq> [] \<and> list_all (\<lambda>c. is_digit c \<or> c = CHR ''-'') ds"

lemma number_text_to_string [simp]: "number_text (to_string i)"
proof -
  have "list_all (\<lambda>c. is_digit c \<or> c = CHR ''-'') (dec_digits n)" for n
    using dec_digits_all_digits [of n] by (simp add: list_all_iff)
  then show ?thesis by (simp add: number_text_def to_string_def)
qed

text \<open>The three states that read a number, up to the line end.\<close>

lemma CR_LF_simps [simp]:
  "\<not> is_digit CR" "CR \<noteq> CHR ''-''" "crlf = [CR, LF]" "LF \<noteq> CR" "CR \<noteq> LF"
  by (simp_all add: CR_def LF_def is_digit_def crlf_def)

lemma parse_bytes_number:
  assumes "(st, lf) \<in> {(BulkSize, BulkSizeLF), (ArraySize, ArraySizeLF), (Integer, IntegerLF)}"
    and "list_all (\<lambda>c. is_digit c \<or> c = CHR ''-'') ds" "buf p @ ds \<noteq> []"
  shows "parse_bytes E st p (ds @ CR # rest) = parse_bytes E lf (p\<lparr>buf := buf p @ ds\<rparr>) rest"
  using assms(2,3)
proof (induction ds arbitrary: p)
  case Nil
  with assms(1) show ?case by (auto simp: parse_size_def)
next
  case (Cons c ds)
  have c: "c \<noteq> CR" "is_digit c \<or> c = CHR ''-''" using Cons.prems(1) by auto
  with Cons.IH [of "p\<lparr>buf := buf p @ [c]\<rparr>"] Cons.prems assms(1) show ?case
    by (auto simp: parse_size_def)
qed

lemma parse_bytes_text:
  assumes "(st, lf) \<in> {(String, StringLF), (ErrorString, ErrorLF)}" "list_all text_char s"
  shows "parse_bytes E st p (s @ CR # rest) = parse_bytes E lf (p\<lparr>buf := buf p @ s\<rparr>) rest"
  using assms(2)
proof (induction s arbitrary: p)
  case Nil
  with assms(1) show ?case by (auto simp: parse_text_def)
next
  case (Cons c s)
  have c: "c \<noteq> CR" "is_char (schar c)" "\<not> is_control (schar c)"
    using Cons.prems by (auto simp: text_char_def CR_def is_char_def is_control_def schar_def)
  with Cons.IH [of "p\<lparr>buf := buf p @ [c]\<rparr>"] Cons.prems assms(1) show ?case
    by (auto simp: parse_text_def)
qed

section \<open>Reading back what a server sends\<close>

definition stacks_ok :: "RedisParser \<Rightarrow> bool" where
  "stacks_ok p \<longleftrightarrow> list_all2 (\<lambda>n v. 0 < n \<and> (\<exists>vs. v = array_value vs)) (arraySizes p) (arrayValues p)"

text \<open>What happens once a value is there: \<open>value_done\<close> and the end of the turn.\<close>

definition after_value :: "reserve_env \<Rightarrow> RedisParser \<Rightarrow> string \<Rightarrow> loop_end" where
  "after_value E p rest =
     (case value_done p of
        None \<Rightarrow> LThrew p
      | Some q \<Rightarrow> if arraySizes q = [] then LEnd Start q rest else parse_bytes E Start q rest)"

lemma parse_bytes_after_value:
  "parse_char E st p c [] = Goes Start p' r \<Longrightarrow> parse_bytes E st p (c # cs) = after_value E p' cs"
  by (simp add: after_value_def)

lemma parse_bytes_goes:
  "parse_char E st p c [] = Goes st' p' r \<Longrightarrow> st' \<noteq> Start \<Longrightarrow> parse_bytes E st p (c # cs) = parse_bytes E st' p' cs"
  by simp

lemma push_back_array_value [simp]: "push_back_array (array_value vs) x = Some (array_value (vs @ [x]))"
  by (simp add: array_value_def)

lemma after_value_more:
  assumes "arraySizes p = n # ns" "arrayValues p = array_value vs # vals" "n \<noteq> 1"
  shows "after_value E p rest =
    parse_bytes E Start (p\<lparr>arraySizes := (n - 1) # ns, arrayValues := array_value (vs @ [redisValue p]) # vals\<rparr>) rest"
  using assms by (simp add: after_value_def value_done_def)

lemma close_arrays_some:
  "list_all2 (\<lambda>n v. 0 < n \<and> (\<exists>vs. v = array_value vs)) ns vals \<Longrightarrow> close_arrays ns vals v \<noteq> None"
proof (induction ns arbitrary: vals v)
  case (Cons n ns)
  then obtain vs vals' where v: "vals = array_value vs # vals'"
    and ok: "list_all2 (\<lambda>n v. 0 < n \<and> (\<exists>vs. v = array_value vs)) ns vals'"
    by (auto simp: list_all2_Cons1)
  show ?case
  proof (cases "n = 1 \<and> ns \<noteq> []")
    case True
    then obtain m ms where ns: "ns = m # ms" by (cases ns) auto
    with ok obtain ws vals'' where w: "vals' = array_value ws # vals''" by (auto simp: list_all2_Cons1)
    have "close_arrays ns (array_value (ws @ [array_value vs]) # vals'') (array_value vs) \<noteq> None"
      by (rule Cons.IH) (use ok ns w in auto)
    with True v w show ?thesis by simp
  next
    case False
    with v show ?thesis by auto
  qed
qed simp

lemma after_value_last:
  assumes "arraySizes p = 1 # ns" "arrayValues p = array_value vs # vals"
    and "list_all2 (\<lambda>n v. 0 < n \<and> (\<exists>vs. v = array_value vs)) ns vals"
  shows "after_value E p rest = after_value E
    (p\<lparr>arraySizes := ns, arrayValues := vals, redisValue := array_value (vs @ [redisValue p])\<rparr>) rest"
proof (cases ns)
  case Nil
  with assms show ?thesis by (simp add: after_value_def value_done_def)
next
  case (Cons m ms)
  with assms(3) obtain ws vals' where v: "vals = array_value ws # vals'"
    and ok: "list_all2 (\<lambda>n v. 0 < n \<and> (\<exists>vs. v = array_value vs)) ms vals'" "0 < m"
    by (auto simp: list_all2_Cons1)
  let ?a = "array_value (vs @ [redisValue p])"
  have "close_arrays (m # ms) (array_value (ws @ [?a]) # vals') ?a \<noteq> None"
    by (rule close_arrays_some) (use ok in auto)
  then show ?thesis using assms(1,2) Cons v
    by (auto simp: after_value_def value_done_def simp del: close_arrays.simps(2) split: option.splits)
      (auto split: option.splits if_splits)
qed

text \<open>A value that can be sent is read back; a run of values fills the innermost array.\<close>

lemma parse_bytes_line_end:
  assumes "(st, lf) \<in> {(BulkSize, BulkSizeLF), (ArraySize, ArraySizeLF), (Integer, IntegerLF)}"
    and "number_text ds" "buf p = []"
  shows "parse_bytes E st p (ds @ CR # LF # rest) = parse_bytes E lf (p\<lparr>buf := ds\<rparr>) (LF # rest)"
  using parse_bytes_number [OF assms(1)] assms(2,3) by (simp add: number_text_def)

lemma parse_bytes_start:
  assumes "st \<in> {Start, StartArray}"
  shows "parse_bytes E st p (CHR ''+'' # rest) = parse_bytes E String (p\<lparr>buf := []\<rparr>) rest"
    "parse_bytes E st p (CHR ''-'' # rest) = parse_bytes E ErrorString (p\<lparr>buf := []\<rparr>) rest"
    "parse_bytes E st p (CHR '':'' # rest) = parse_bytes E Integer (p\<lparr>buf := []\<rparr>) rest"
    "parse_bytes E st p (CHR ''$'' # rest) = parse_bytes E BulkSize (p\<lparr>buf := [], bulkSize := 0\<rparr>) rest"
    "parse_bytes E st p (CHR ''*'' # rest) = parse_bytes E ArraySize (p\<lparr>buf := []\<rparr>) rest"
  using assms by (auto simp: parse_start_def)

lemma parse_bytes_LF:
  "parse_bytes E StringLF p (LF # rest) = after_value E (p\<lparr>redisValue := bytes_value (buf p)\<rparr>) rest"
  "parse_bytes E IntegerLF p (LF # rest) = after_value E (p\<lparr>buf := [], redisValue := int_value (buf_to_long (buf p))\<rparr>) rest"
  "parse_bytes E ErrorLF p (LF # rest) = after_value E (p\<lparr>redisValue := error_value (buf p)\<rparr>) rest"
  "parse_bytes E BulkCR p (CR # LF # rest) = after_value E (p\<lparr>redisValue := bytes_value (buf p)\<rparr>) rest"
  "buf_to_long (buf p) = -1 \<Longrightarrow> parse_bytes E BulkSizeLF p (LF # rest) =
     after_value E (p\<lparr>bulkSize := -1, buf := [], redisValue := nil_value\<rparr>) rest"
  "buf_to_long (buf p) = 0 \<Longrightarrow> parse_bytes E BulkSizeLF p (LF # rest) =
     parse_bytes E BulkCR (p\<lparr>bulkSize := 0, buf := []\<rparr>) rest"
  "buf_to_long (buf p) = 0 \<Longrightarrow> parse_bytes E ArraySizeLF p (LF # rest) =
     after_value E (p\<lparr>redisValue := array_value []\<rparr>) rest"
  "buf_to_long (buf p) = -1 \<Longrightarrow> parse_bytes E ArraySizeLF p (LF # rest) =
     after_value E (p\<lparr>redisValue := nil_value\<rparr>) rest"
  by (simp_all add: after_value_def expect_def parse_bulk_size_lf_def parse_array_size_lf_def Let_def)

lemma parse_bytes_sized_LF:
  "buf_to_long (buf p) = int n \<Longrightarrow> 0 < n \<Longrightarrow> reserve_chars E n \<Longrightarrow>
   parse_bytes E BulkSizeLF p (LF # rest) = parse_bytes E Bulk (p\<lparr>bulkSize := int n, buf := []\<rparr>) rest"
  "buf_to_long (buf p) = int n \<Longrightarrow> 0 < n \<Longrightarrow> reserve_values E n \<Longrightarrow>
   parse_bytes E ArraySizeLF p (LF # rest) = parse_bytes E StartArray
     (p\<lparr>arraySizes := int n # arraySizes p, arrayValues := array_value [] # arrayValues p\<rparr>) rest"
  by (simp_all add: expect_def parse_bulk_size_lf_def parse_array_size_lf_def Let_def)

text \<open>
  The reservations a reply asks for: the bytes of a bulk string and the elements of an array, as
  many as its header says.
\<close>

fun fits :: "reserve_env \<Rightarrow> reply \<Rightarrow> bool" where
  "fits E (BulkString s) = (s = [] \<or> reserve_chars E (length s))"
| "fits E (ArrayReply rs) = ((rs = [] \<or> reserve_values E (length rs)) \<and> list_all (fits E) rs)"
| "fits E r = True"

definition reads_back :: "reserve_env \<Rightarrow> reply \<Rightarrow> bool" where
  "reads_back E r \<longleftrightarrow> (\<forall>st p rest. st \<in> {Start, StartArray} \<longrightarrow> stacks_ok p \<longrightarrow>
     (\<exists>b k. parse_bytes E st p (wire r @ rest) =
        after_value E (p\<lparr>buf := b, bulkSize := k, redisValue := value_of r\<rparr>) rest))"

lemma reads_backI:
  assumes "\<And>st p rest. st \<in> {Start, StartArray} \<Longrightarrow> stacks_ok p \<Longrightarrow> \<exists>b k. parse_bytes E st p (wire r @ rest) =
     after_value E (p\<lparr>buf := b, bulkSize := k, redisValue := value_of r\<rparr>) rest"
  shows "reads_back E r"
  unfolding reads_back_def using assms by blast

lemma reads_back_bulk:
  assumes "length s < 2 ^ 63" "s = [] \<or> reserve_chars E (length s)"
  shows "reads_back E (BulkString s)"
proof (rule reads_backI)
  fix st and p :: RedisParser and rest
  assume st: "st \<in> {Start, StartArray}"
  have n: "buf_to_long (to_string (int (length s))) = int (length s)"
    using assms(1) by (intro buf_to_long_to_string) simp_all
  let ?p = "p\<lparr>bulkSize := 0, buf := to_string (int (length s))\<rparr>"
  have "parse_bytes E st p (wire (BulkString s) @ rest) = parse_bytes E BulkSizeLF ?p (LF # s @ CR # LF # rest)"
    by (simp add: parse_bytes_start [OF st] parse_bytes_line_end del: parse_bytes.simps)
  also have "\<dots> = after_value E (p\<lparr>buf := s, bulkSize := 0, redisValue := bytes_value s\<rparr>) rest"
  proof (cases "s = []")
    case True
    then show ?thesis using n by (cases p) (simp add: parse_bytes_LF del: parse_bytes.simps)
  next
    case False
    then have "parse_bytes E BulkSizeLF ?p (LF # s @ CR # LF # rest) =
        parse_bytes E Bulk (p\<lparr>bulkSize := int (length s), buf := []\<rparr>) (s @ CR # LF # rest)"
      using n assms(2) by (subst parse_bytes_sized_LF(1) [of _ "length s"]) simp_all
    also have "\<dots> = parse_bytes E BulkCR (p\<lparr>buf := s, bulkSize := 0\<rparr>) (CR # LF # rest)"
      using False by (subst parse_bytes_Bulk_run) (simp_all add: bulk_after_def del: parse_bytes.simps)
    finally show ?thesis by (cases p) (simp add: parse_bytes_LF del: parse_bytes.simps)
  qed
  finally show "\<exists>b k. parse_bytes E st p (wire (BulkString s) @ rest) =
      after_value E (p\<lparr>buf := b, bulkSize := k, redisValue := value_of (BulkString s)\<rparr>) rest"
    unfolding value_of.simps by blast
qed

lemma minus_one_text: "buf_to_long ''-1'' = -1" "number_text ''-1''"
  by (simp_all add: buf_to_long_def schar_def wrap64_def number_text_def is_digit_def)

lemma reads_back_null_bulk: "reads_back E NullBulk"
proof (rule reads_backI)
  fix st and p :: RedisParser and rest
  assume st: "st \<in> {Start, StartArray}"
  have "parse_bytes E st p (wire NullBulk @ rest) =
      parse_bytes E BulkSizeLF (p\<lparr>bulkSize := 0, buf := ''-1''\<rparr>) (LF # rest)"
    using parse_bytes_line_end [of BulkSize BulkSizeLF "''-1''" "p\<lparr>buf := [], bulkSize := 0\<rparr>" E rest] minus_one_text(2)
    by (simp add: parse_bytes_start [OF st] del: parse_bytes.simps)
  also have "\<dots> = after_value E (p\<lparr>buf := [], bulkSize := -1, redisValue := nil_value\<rparr>) rest"
    using minus_one_text(1) by (cases p) (simp add: parse_bytes_LF del: parse_bytes.simps)
  finally show "\<exists>b k. parse_bytes E st p (wire NullBulk @ rest) =
      after_value E (p\<lparr>buf := b, bulkSize := k, redisValue := value_of NullBulk\<rparr>) rest"
    unfolding value_of.simps by blast
qed

text \<open>The other replies without elements keep the count of missing payload bytes.\<close>

lemma reads_back_line:
  assumes "\<And>st (p :: RedisParser) rest. st \<in> {Start, StartArray} \<Longrightarrow> \<exists>b. parse_bytes E st p (wire r @ rest) =
     after_value E (p\<lparr>buf := b, redisValue := value_of r\<rparr>) rest"
  shows "reads_back E r"
proof (rule reads_backI)
  fix st and p :: RedisParser and rest
  assume "st \<in> {Start, StartArray}"
  from assms [OF this] obtain b where "parse_bytes E st p (wire r @ rest) =
      after_value E (p\<lparr>buf := b, redisValue := value_of r\<rparr>) rest" by blast
  also have "p\<lparr>buf := b, redisValue := value_of r\<rparr> = p\<lparr>buf := b, bulkSize := bulkSize p, redisValue := value_of r\<rparr>"
    by (cases p) simp
  finally show "\<exists>b k. parse_bytes E st p (wire r @ rest) =
      after_value E (p\<lparr>buf := b, bulkSize := k, redisValue := value_of r\<rparr>) rest" by blast
qed

lemma reads_back_null_array: "reads_back E NullArray"
proof (rule reads_back_line)
  fix st and p :: RedisParser and rest
  assume st: "st \<in> {Start, StartArray}"
  have "parse_bytes E st p (wire NullArray @ rest) = parse_bytes E ArraySizeLF (p\<lparr>buf := ''-1''\<rparr>) (LF # rest)"
    using parse_bytes_line_end [of ArraySize ArraySizeLF "''-1''" "p\<lparr>buf := []\<rparr>" E rest] minus_one_text(2)
    by (simp add: parse_bytes_start [OF st] del: parse_bytes.simps)
  also have "\<dots> = after_value E (p\<lparr>buf := ''-1'', redisValue := nil_value\<rparr>) rest"
    using minus_one_text(1) by (simp add: parse_bytes_LF del: parse_bytes.simps)
  finally show "\<exists>b. parse_bytes E st p (wire NullArray @ rest) =
      after_value E (p\<lparr>buf := b, redisValue := value_of NullArray\<rparr>) rest"
    unfolding value_of.simps by blast
qed

lemma reads_back_integer:
  assumes "- (2 ^ 63) < i" "i < 2 ^ 63"
  shows "reads_back E (IntegerReply i)"
proof (rule reads_back_line)
  fix st and p :: RedisParser and rest
  assume st: "st \<in> {Start, StartArray}"
  have "parse_bytes E st p (wire (IntegerReply i) @ rest) =
      parse_bytes E IntegerLF (p\<lparr>buf := to_string i\<rparr>) (LF # rest)"
    by (simp add: parse_bytes_start [OF st] parse_bytes_line_end del: parse_bytes.simps)
  also have "\<dots> = after_value E (p\<lparr>buf := [], redisValue := int_value i\<rparr>) rest"
    by (simp add: parse_bytes_LF buf_to_long_to_string [OF assms] del: parse_bytes.simps)
  finally show "\<exists>b. parse_bytes E st p (wire (IntegerReply i) @ rest) =
      after_value E (p\<lparr>buf := b, redisValue := value_of (IntegerReply i)\<rparr>) rest"
    unfolding value_of.simps by blast
qed

lemma reads_back_text:
  assumes "list_all text_char s"
  shows "reads_back E (SimpleString s)" "reads_back E (ErrorMessage s)"
proof -
  have "parse_bytes E st p (wire (SimpleString s) @ rest) =
      after_value E (p\<lparr>buf := s, redisValue := value_of (SimpleString s)\<rparr>) rest"
    if "st \<in> {Start, StartArray}" for st and p :: RedisParser and rest
    using parse_bytes_text [of String StringLF s E "p\<lparr>buf := []\<rparr>" "LF # rest"] assms
    by (simp add: parse_bytes_start [OF that] parse_bytes_LF del: parse_bytes.simps)
  then show "reads_back E (SimpleString s)" by (blast intro: reads_back_line)
  have "parse_bytes E st p (wire (ErrorMessage s) @ rest) =
      after_value E (p\<lparr>buf := s, redisValue := value_of (ErrorMessage s)\<rparr>) rest"
    if "st \<in> {Start, StartArray}" for st and p :: RedisParser and rest
    using parse_bytes_text [of ErrorString ErrorLF s E "p\<lparr>buf := []\<rparr>" "LF # rest"] assms
    by (simp add: parse_bytes_start [OF that] parse_bytes_LF del: parse_bytes.simps)
  then show "reads_back E (ErrorMessage s)" by (blast intro: reads_back_line)
qed

text \<open>The elements of an array, read into the innermost open array.\<close>

lemma reads_back_elements:
  assumes "list_all (reads_back E) vs" "vs \<noteq> []"
    and "arraySizes p = int (length vs) # ns" "arrayValues p = array_value acc # vals"
    and "stacks_ok p" "st \<in> {Start, StartArray}"
  shows "\<exists>b k. parse_bytes E st p (concat (map wire vs) @ rest) =
     after_value E (p\<lparr>buf := b, bulkSize := k, arraySizes := ns, arrayValues := vals,
       redisValue := array_value (acc @ map value_of vs)\<rparr>) rest"
  using assms
proof (induction vs arbitrary: acc p st)
  case (Cons v vs)
  have ns: "list_all2 (\<lambda>n v. 0 < n \<and> (\<exists>vs. v = array_value vs)) ns vals"
    using Cons.prems(3,4,5) by (simp add: stacks_ok_def)
  have "reads_back E v" using Cons.prems(1) by simp
  then obtain b k where v: "parse_bytes E st p (wire v @ concat (map wire vs) @ rest) =
      after_value E (p\<lparr>buf := b, bulkSize := k, redisValue := value_of v\<rparr>) (concat (map wire vs) @ rest)"
    using Cons.prems(5,6) unfolding reads_back_def by blast
  show ?case
  proof (cases "vs = []")
    case True
    have "after_value E (p\<lparr>buf := b, bulkSize := k, redisValue := value_of v\<rparr>) rest =
        after_value E (p\<lparr>buf := b, bulkSize := k, arraySizes := ns, arrayValues := vals,
          redisValue := array_value (acc @ [value_of v])\<rparr>) rest"
      using after_value_last [of "p\<lparr>buf := b, bulkSize := k, redisValue := value_of v\<rparr>" ns acc vals E rest]
        Cons.prems(3,4) True ns by simp
    with v True show ?thesis by auto
  next
    case False
    let ?q = "p\<lparr>buf := b, bulkSize := k, arraySizes := int (length vs) # ns,
        arrayValues := array_value (acc @ [value_of v]) # vals, redisValue := value_of v\<rparr>"
    have "after_value E (p\<lparr>buf := b, bulkSize := k, redisValue := value_of v\<rparr>) (concat (map wire vs) @ rest) =
        parse_bytes E Start ?q (concat (map wire vs) @ rest)"
      using after_value_more [of "p\<lparr>buf := b, bulkSize := k, redisValue := value_of v\<rparr>" "1 + int (length vs)" ns acc vals
          E "concat (map wire vs) @ rest"] Cons.prems(3,4) False by (cases p) simp
    moreover have "stacks_ok ?q" using ns False by (auto simp: stacks_ok_def)
    moreover obtain b2 k2 where "parse_bytes E Start ?q (concat (map wire vs) @ rest) =
        after_value E (?q\<lparr>buf := b2, bulkSize := k2, arraySizes := ns, arrayValues := vals,
          redisValue := array_value ((acc @ [value_of v]) @ map value_of vs)\<rparr>) rest"
      using Cons.IH [of ?q "acc @ [value_of v]" Start] Cons.prems(1) False \<open>stacks_ok ?q\<close> by auto
    ultimately show ?thesis using v by auto
  qed
qed simp

lemma reads_back_array:
  assumes "list_all (reads_back E) vs" "length vs < 2 ^ 63" "vs = [] \<or> reserve_values E (length vs)"
  shows "reads_back E (ArrayReply vs)"
proof (rule reads_backI)
  fix st and p :: RedisParser and rest
  assume st: "st \<in> {Start, StartArray}" and ok: "stacks_ok p"
  have n: "buf_to_long (to_string (int (length vs))) = int (length vs)"
    using assms(2) by (intro buf_to_long_to_string) simp_all
  let ?p = "p\<lparr>buf := to_string (int (length vs))\<rparr>"
  have head: "parse_bytes E st p (wire (ArrayReply vs) @ rest) =
      parse_bytes E ArraySizeLF ?p (LF # concat (map wire vs) @ rest)"
    by (simp add: parse_bytes_start [OF st] parse_bytes_line_end del: parse_bytes.simps)
  show "\<exists>b k. parse_bytes E st p (wire (ArrayReply vs) @ rest) =
      after_value E (p\<lparr>buf := b, bulkSize := k, redisValue := value_of (ArrayReply vs)\<rparr>) rest"
  proof (cases "vs = []")
    case True
    have "parse_bytes E ArraySizeLF ?p (LF # rest) = after_value E (p\<lparr>buf := to_string (int (length vs)),
        bulkSize := bulkSize p, redisValue := value_of (ArrayReply vs)\<rparr>) rest"
      using n True by (cases p) (simp add: parse_bytes_LF del: parse_bytes.simps)
    then show ?thesis using head True by (metis append_Nil concat.simps(1) list.simps(8))
  next
    case False
    let ?q = "?p\<lparr>arraySizes := int (length vs) # arraySizes p, arrayValues := array_value [] # arrayValues p\<rparr>"
    have "parse_bytes E ArraySizeLF ?p (LF # concat (map wire vs) @ rest) =
        parse_bytes E StartArray ?q (concat (map wire vs) @ rest)"
      using n False assms(3) by (subst parse_bytes_sized_LF(2) [of _ "length vs"]) simp_all
    moreover have "stacks_ok ?q" using ok False by (auto simp: stacks_ok_def)
    moreover obtain b k where "parse_bytes E StartArray ?q (concat (map wire vs) @ rest) =
        after_value E (?q\<lparr>buf := b, bulkSize := k, arraySizes := arraySizes p,
          arrayValues := arrayValues p, redisValue := array_value ([] @ map value_of vs)\<rparr>) rest"
      using reads_back_elements [of E vs ?q "arraySizes p" "[]" "arrayValues p" StartArray rest]
        assms(1) False \<open>stacks_ok ?q\<close> by auto
    ultimately have "parse_bytes E st p (wire (ArrayReply vs) @ rest) = after_value E
        (p\<lparr>buf := b, bulkSize := k, redisValue := value_of (ArrayReply vs)\<rparr>) rest"
      using head by (cases p) simp
    then show ?thesis by blast
  qed
qed

lemma reads_back_wire_ok: "wire_ok r \<Longrightarrow> fits E r \<Longrightarrow> reads_back E r"
proof (induction r rule: wire_ok.induct)
  case (7 rs)
  then have "list_all (reads_back E) rs" by (simp add: list_all_iff)
  with 7 show ?case by (intro reads_back_array) simp_all
qed (simp_all add: reads_back_bulk reads_back_null_bulk reads_back_null_array reads_back_integer reads_back_text)

lemma reply_complete:
  assumes "wire_ok r" "fits E r" "states p = []" "arraySizes p = []" "arrayValues p = []"
  shows "\<exists>q. ParseReply E p (wire r @ rest) = (Some (length (wire r), Completed), q) \<and> Result q = value_of r \<and>
     states q = [] \<and> arraySizes q = [] \<and> arrayValues q = []"
proof -
  have "reads_back E r" by (rule reads_back_wire_ok [OF assms(1,2)])
  moreover have "stacks_ok p" using assms(4,5) by (simp add: stacks_ok_def)
  ultimately obtain b k where "parse_bytes E Start p (wire r @ rest) =
      after_value E (p\<lparr>buf := b, bulkSize := k, redisValue := value_of r\<rparr>) rest"
    unfolding reads_back_def by blast
  also have "\<dots> = LEnd Start (p\<lparr>buf := b, bulkSize := k, redisValue := value_of r\<rparr>) rest"
    using assms(4) by (simp add: after_value_def value_done_def)
  finally have "parse_bytes E Start p (wire r @ rest) = \<dots>" .
  moreover have "redis_wf p" using assms(3) by (simp add: redis_wf_def)
  ultimately show ?thesis
    using assms(3-5) by (simp add: ParseReply_bytes resume_def reply_of_def finished_def Result_def)
qed

text \<open>
  (C8) Every reply in the wire form of the protocol is read back by a parser that is not inside
  another reply: simple strings and error messages of printable ASCII (others are refused, see
  \<open>redis_other_text_refused\<close>), integers of 64 bits but the least, bulk strings of any content, both
  nulls, and arrays of these nested to any depth, as long as the bytes and the elements it
  announces can be reserved.  The parser reads exactly the bytes of the reply, leaves the rest, and is again
  not inside a reply.
\<close>
theorem redis_reply_roundtrip:
  assumes "wire_ok r" "fits E r" "states p = []" "arraySizes p = []" "arrayValues p = []"
  shows "\<exists>q. ParseReply E p (wire r @ rest) = (Some (length (wire r), Completed), q) \<and> Result q = value_of r \<and>
     states q = [] \<and> arraySizes q = [] \<and> arrayValues q = []"
  by (rule reply_complete [OF assms])

text \<open>Reservations that succeed up to a bound, as those of the library do.\<close>

definition small_reserve :: reserve_env where
  "small_reserve = \<lparr>reserve_chars = (\<lambda>n. n < 4096), reserve_values = (\<lambda>n. n < 256)\<rparr>"

theorem redis_reply_roundtrip_witness:
  "\<exists>q. ParseReply small_reserve new_RedisParser
       (wire (ArrayReply [SimpleString ''OK'', ArrayReply [BulkString ''ab'', NullArray], ErrorMessage ''ERR'']) @ ''+'') =
     (Some (length (wire (ArrayReply [SimpleString ''OK'', ArrayReply [BulkString ''ab'', NullArray], ErrorMessage ''ERR''])), Completed), q) \<and>
     Result q = value_of (ArrayReply [SimpleString ''OK'', ArrayReply [BulkString ''ab'', NullArray], ErrorMessage ''ERR'']) \<and>
     states q = [] \<and> arraySizes q = [] \<and> arrayValues q = []"
  by (rule redis_reply_roundtrip) (simp_all add: new_RedisParser_def small_reserve_def text_char_def)

text \<open>
  What \<open>MakeCommand\<close> writes is one array of bulk strings with the arguments as its elements:
  the reply parser of this client reads it back, whatever bytes the arguments hold.
\<close>
theorem redis_command_roundtrip:
  assumes "length items < 2 ^ 63" "list_all (\<lambda>i. length i < 2 ^ 63) items"
    and "items = [] \<or> reserve_values E (length items)" "list_all (\<lambda>i. i = [] \<or> reserve_chars E (length i)) items"
  shows "\<exists>q. ParseReply E new_RedisParser (MakeCommand items) = (Some (length (MakeCommand items), Completed), q) \<and>
     Result q = array_value (map bytes_value items)"
proof -
  have "wire_ok (ArrayReply (map BulkString items))" "fits E (ArrayReply (map BulkString items))"
    using assms by (simp_all add: list_all_iff)
  from reply_complete [OF this, of new_RedisParser "[]"] show ?thesis
    by (auto simp: MakeCommand_wire new_RedisParser_def comp_def)
qed

theorem redis_command_roundtrip_witness:
  "\<exists>q. ParseReply small_reserve new_RedisParser (MakeCommand [''GET'', ''key'']) =
     (Some (length (MakeCommand [''GET'', ''key'']), Completed), q) \<and>
     Result q = array_value (map bytes_value [''GET'', ''key''])"
  by (rule redis_command_roundtrip) (simp_all add: small_reserve_def)

section \<open>What is refused\<close>

text \<open>An error message that quotes a character outside ASCII is refused as no reply at all.\<close>

lemma redis_other_text_refused:
  "fst (ParseReply small_reserve new_RedisParser (''-ERR '' @ [CHR 0xC3, CHR 0xA9] @ crlf)) = Some (6, Error)"
  by code_simp

section \<open>After an error\<close>

text \<open>
  A refused reply clears the state but not the open arrays: a later complete reply is taken as
  an element of the array that was refused, and the parser asks for more.
\<close>

lemma redis_error_keeps_open_arrays:
  "case ParseReply small_reserve new_RedisParser (''*2'' @ crlf @ ''?'') of
     (r, q) \<Rightarrow> r = Some (5, Error) \<and> fst (ParseReply small_reserve q ('':1'' @ crlf)) = Some (4, Incompleted)"
  by code_simp

end
