(* ===== verification/RedisClient.thy ===== *)
theory RedisClient
  imports RedisParserProofs
begin

text \<open>
  \<^verbatim>\<open>src/redis-client/redis_client.cpp\<close>: the queue of commands of one connection.  The state is
  the record \<open>RedisClient\<close>; asynchronous operations the client starts are put into
  \<open>outstanding\<close>, and their completion handlers are the \<open>on_\<close> operations, called with the result.
  A callback is a number, \<open>None\<close> the empty function; the callbacks of the commands accepted
  are logged in \<open>commands\<close>, the calls of callbacks in \<open>replies\<close> and \<open>connect_notes\<close>.  \<open>react\<close> says which commands a callback issues in turn; what it
  throws is caught.  An error code is \<open>None\<close>, no error, or its message.
\<close>

section \<open>State\<close>

datatype ConnectStatus = not_connect | is_connectting | is_connected
datatype RedisClientErrorHandlePolicy = do_nothing | auto_reconnect

type_synonym callback = "nat option"
type_synonym error_code = "string option"
type_synonym command_call = "string \<times> RedisBuffer list \<times> callback"

datatype client_io =
    Connecting string u16 callback
  | TimerWait u32 callback
  | Writing string
  | Reading RedisParser callback

record RedisClient =
  connect_status :: ConnectStatus
  error_handle_policy :: RedisClientErrorHandlePolicy
  redis_host :: string
  redis_port :: u16
  reconnect_count :: u32
  command_queue :: "(string \<times> callback) list"
  reply_buf :: string
  reply_parse_beg :: nat
  outstanding :: "client_io list"
  commands :: "callback list"
  replies :: "(callback \<times> RedisValue) list"
  connect_notes :: "(callback \<times> error_code) list"

text \<open>
  The environment: reservations, whether the host is an address (\<^verbatim>\<open>from_string\<close> throws
  otherwise), the error of setting the timer, and the commands callbacks issue.
\<close>

record redis_env =
  renv :: reserve_env
  address_ok :: "string \<Rightarrow> bool"
  timer_set_ec :: error_code
  react :: "callback \<Rightarrow> RedisValue \<Rightarrow> command_call list"

definition new_RedisClient :: "RedisClientErrorHandlePolicy \<Rightarrow> RedisClient" where
  "new_RedisClient policy = \<lparr>connect_status = not_connect, error_handle_policy = policy,
     redis_host = [], redis_port = 0, reconnect_count = 0, command_queue = [], reply_buf = [],
     reply_parse_beg = 0, outstanding = [], commands = [], replies = [], connect_notes = []\<rparr>"

definition IsConnected :: "RedisClient \<Rightarrow> bool" where
  "IsConnected s = (connect_status s = is_connected)"

definition IsConnectting :: "RedisClient \<Rightarrow> bool" where
  "IsConnectting s = (connect_status s = is_connectting)"

definition start_io :: "client_io \<Rightarrow> RedisClient \<Rightarrow> RedisClient" where
  "start_io io s = s\<lparr>outstanding := outstanding s @ [io]\<rparr>"

section \<open>Connecting\<close>

definition redis_server_reconnect_interval_seconds :: "u32 \<Rightarrow> u32" where
  "redis_server_reconnect_interval_seconds n =
     (if n < 10 then 1 else if n < 32 then 5 else if n < 200 then 10 else if n < 260 then 30 else 300)"

text \<open>The second component of a result is \<open>False\<close> where the function throws.\<close>

definition do_async_connect :: "redis_env \<Rightarrow> callback \<Rightarrow> RedisClient \<Rightarrow> RedisClient \<times> bool" where
  "do_async_connect E on s =
     (let s1 = s\<lparr>connect_status := is_connectting\<rparr>
      in if address_ok E (redis_host s1)
         then (start_io (Connecting (redis_host s1) (redis_port s1) on) s1, True)
         else (s1, False))"

definition Connect :: "redis_env \<Rightarrow> callback \<Rightarrow> string \<Rightarrow> u16 \<Rightarrow> RedisClient \<Rightarrow> RedisClient \<times> bool" where
  "Connect E on host port s =
     (if IsConnected s \<or> IsConnectting s then (s, True)
      else do_async_connect E on (s\<lparr>redis_host := host, redis_port := port\<rparr>))"

definition start_reconnect_timer :: "redis_env \<Rightarrow> callback \<Rightarrow> RedisClient \<Rightarrow> RedisClient \<times> bool" where
  "start_reconnect_timer E on s =
     (let s1 = s\<lparr>reconnect_count := reconnect_count s + 1\<rparr>;
          seconds = redis_server_reconnect_interval_seconds (reconnect_count s1)
      in if timer_set_ec E \<noteq> None then (s1, False)
         else (start_io (TimerWait seconds on) s1, True))"

definition try_on_connect_handler :: "callback \<Rightarrow> error_code \<Rightarrow> RedisClient \<Rightarrow> RedisClient" where
  "try_on_connect_handler on ec s =
     (if on = None then s else s\<lparr>connect_notes := connect_notes s @ [(on, ec)]\<rparr>)"

definition Reconnect :: "redis_env \<Rightarrow> callback \<Rightarrow> RedisClient \<Rightarrow> RedisClient" where
  "Reconnect E on s =
     (if IsConnectting s then try_on_connect_handler on (Some ''operation in progress'') s
      else if \<not> IsConnected s then fst (start_reconnect_timer E on s)
      else try_on_connect_handler on (Some ''already connected'') s)"

definition on_connect_finished :: "redis_env \<Rightarrow> callback \<Rightarrow> error_code \<Rightarrow> RedisClient \<Rightarrow> RedisClient" where
  "on_connect_finished E on ec s =
     (let s1 = (if ec \<noteq> None then s\<lparr>connect_status := not_connect\<rparr>
                else s\<lparr>connect_status := is_connected,
                       reconnect_count := (if reconnect_count s > 0 then 0 else reconnect_count s)\<rparr>);
          s2 = try_on_connect_handler on ec s1
      in if ec \<noteq> None \<and> error_handle_policy s2 = auto_reconnect
         then fst (start_reconnect_timer E on s2) else s2)"

definition on_timer :: "redis_env \<Rightarrow> callback \<Rightarrow> error_code \<Rightarrow> RedisClient \<Rightarrow> RedisClient" where
  "on_timer E on ec s = (if ec \<noteq> None then s else fst (do_async_connect E on s))"

text \<open>Cancelling and closing show in the results the outstanding operations complete with.\<close>

definition do_disconnect :: "RedisClient \<Rightarrow> RedisClient" where
  "do_disconnect s = s\<lparr>connect_status := not_connect\<rparr>"

definition Disconnect :: "RedisClient \<Rightarrow> RedisClient" where
  "Disconnect s = (if IsConnected s then do_disconnect s else s)"

section \<open>Commands\<close>

definition start_async_write :: "RedisClient \<Rightarrow> RedisClient" where
  "start_async_write s =
     (case command_queue s of [] \<Rightarrow> s | (d, on) # q \<Rightarrow> start_io (Writing d) s)"

definition Command :: "string \<Rightarrow> RedisBuffer list \<Rightarrow> callback \<Rightarrow> RedisClient \<Rightarrow> RedisClient" where
  "Command cmd args on s =
     (let is_stopped_because_empty = (command_queue s = []);
          s1 = s\<lparr>command_queue := command_queue s @ [(MakeCommand (cmd # args), on)],
                 commands := commands s @ [on]\<rparr>
      in if is_stopped_because_empty then start_async_write s1 else s1)"

definition issue_all :: "command_call list \<Rightarrow> RedisClient \<Rightarrow> RedisClient" where
  "issue_all cs s = fold (\<lambda>(cmd, args, on). Command cmd args on) cs s"

definition try_on_redis_handler :: "redis_env \<Rightarrow> callback \<Rightarrow> RedisValue \<Rightarrow> RedisClient \<Rightarrow> RedisClient" where
  "try_on_redis_handler E on v s =
     (if on = None then s else issue_all (react E on v) (s\<lparr>replies := replies s @ [(on, v)]\<rparr>))"

definition pop_queue :: "RedisClient \<Rightarrow> RedisClient" where
  "pop_queue s = s\<lparr>command_queue := tl (command_queue s)\<rparr>"

definition do_async_read_and_parse :: "RedisParser \<Rightarrow> callback \<Rightarrow> RedisClient \<Rightarrow> RedisClient" where
  "do_async_read_and_parse parser on s = start_io (Reading parser on) s"

definition start_aysnc_read_and_parse :: "callback \<Rightarrow> RedisClient \<Rightarrow> RedisClient" where
  "start_aysnc_read_and_parse on s =
     (let s1 = (if reply_buf s \<noteq> [] then
                  (if length (reply_buf s) \<le> reply_parse_beg s then s\<lparr>reply_buf := []\<rparr>
                   else s\<lparr>reply_buf := drop (reply_parse_beg s) (reply_buf s)\<rparr>)
                else s)
      in do_async_read_and_parse new_RedisParser on (s1\<lparr>reply_parse_beg := 0\<rparr>))"

text \<open>The handler of a finished write.  The front node is moved out; it stays in the queue, empty.\<close>

definition on_write :: "redis_env \<Rightarrow> error_code \<Rightarrow> RedisClient \<Rightarrow> RedisClient" where
  "on_write E ec s =
     (let on = snd (hd (command_queue s));
          s1 = s\<lparr>command_queue := ([], None) # tl (command_queue s)\<rparr>
      in case ec of
           Some msg \<Rightarrow>
             (let s2 = pop_queue (try_on_redis_handler E on (error_value msg) s1)
              in if error_handle_policy s2 = auto_reconnect then Reconnect E None s2 else s2)
         | None \<Rightarrow> start_aysnc_read_and_parse on s1)"

text \<open>
  The loop over what was read: the parser is called until it has a result or all is consumed.
  The flags are \<open>completed\<close> and \<open>error\<close>; \<open>None\<close> is an exception out of the parser.
\<close>

fun unread :: "loop_end \<Rightarrow> nat" where
  "unread (LThrew q) = 0"
| "unread (LFailed q rest) = length rest"
| "unread (LEnd st q rest) = length rest"

lemma unread_le: "unread (parse_loop E st p s) \<le> length s"
proof (induction E st p s rule: parse_loop.induct)
  case (2 E st p c cs)
  show ?case
  proof (cases "parse_char E st p c cs")
    case (Goes st' p' rest)
    then have le: "length rest \<le> length cs" by (rule parse_char_rest)
    show ?thesis
    proof (cases "st' = Start")
      case True
      show ?thesis
      proof (cases "value_done p'")
        case (Some p'')
        with True Goes le 2(1) [of st' p' rest p''] show ?thesis by fastforce
      qed (use True Goes in simp)
    next
      case False
      with Goes le 2(2) [OF Goes False] show ?thesis by simp
    qed
  qed simp_all
qed simp

lemma unread_less: "unread (parse_loop E st p (c # cs)) < length (c # cs)"
proof (cases "parse_char E st p c cs")
  case (Goes st' p' rest)
  then have "length rest \<le> length cs" by (rule parse_char_rest)
  moreover have "unread (parse_loop E st2 p2 rest) \<le> length rest" for st2 p2 by (rule unread_le)
  ultimately have "unread (parse_loop E st2 p2 rest) < Suc (length cs)" for st2 p2
    using le_less_trans less_Suc_eq_le by (metis le_trans)
  with Goes \<open>length rest \<le> length cs\<close> show ?thesis by (auto split: option.splits)
qed simp_all

lemma ParseReply_progress:
  assumes "ParseReply E p (c # cs) = (Some (n, r), q)"
  shows "0 < n"
proof -
  obtain st p0 where st: "(case states p of [] \<Rightarrow> (Start, p) | x # xs \<Rightarrow> (x, p\<lparr>states := xs\<rparr>)) = (st, p0)"
    by fastforce
  show ?thesis
    using assms st unread_less [of E st p0 c cs]
    by (cases "parse_loop E st p0 (c # cs)")
      (auto simp: ParseReply_def parse_chunk_def simp del: parse_loop.simps split: if_splits)
qed

function reply_loop ::
  "reserve_env \<Rightarrow> RedisParser \<Rightarrow> string \<Rightarrow> nat \<Rightarrow> RedisParser \<times> nat \<times> (bool \<times> bool) option" where
  "reply_loop E parser rb beg =
     (if beg < length rb then
        (case ParseReply E parser (drop beg rb) of
           (None, p') \<Rightarrow> (p', beg, None)
         | (Some (n, r), p') \<Rightarrow>
             (case r of
                Completed \<Rightarrow> (p', beg + n, Some (True, False))
              | Incompleted \<Rightarrow> reply_loop E p' rb (beg + n)
              | Error \<Rightarrow> (p', beg + n, Some (False, True))))
      else (parser, beg, Some (False, False)))"
  by pat_completeness auto
termination
proof (relation "measure (\<lambda>(E, p, rb, beg). length rb - beg)", simp)
  fix E parser rb beg x p' a n r
  assume lt: "beg < length rb" and x: "(x, p') = ParseReply E parser (drop beg rb)"
    and a: "x = Some a" and n: "(n, r) = a" and r: "r = Incompleted"
  obtain c cs where "drop beg rb = c # cs" using lt by (cases "drop beg rb") auto
  with x a n have "0 < n" using ParseReply_progress by metis
  with lt show "((E, p', rb, beg + n), E, parser, rb, beg) \<in> measure (\<lambda>(E, p, rb, beg). length rb - beg)"
    by simp
qed

declare reply_loop.simps [simp del]

text \<open>The handler of a finished read.\<close>

definition on_read ::
  "redis_env \<Rightarrow> RedisParser \<Rightarrow> callback \<Rightarrow> error_code \<Rightarrow> string \<Rightarrow> RedisClient \<Rightarrow> RedisClient" where
  "on_read E parser on ec data s =
     (case ec of
        Some msg \<Rightarrow> pop_queue (try_on_redis_handler E on (error_value msg) s)
      | None \<Rightarrow>
          if data \<noteq> [] then
            (let rb = reply_buf s @ data
             in case reply_loop (renv E) parser rb (reply_parse_beg s) of
                  (p', beg, None) \<Rightarrow> s\<lparr>reply_buf := rb, reply_parse_beg := beg\<rparr>
                | (p', beg, Some (completed, err)) \<Rightarrow>
                    let s1 = s\<lparr>reply_buf := rb, reply_parse_beg := beg\<rparr>
                    in if completed then
                         start_async_write (pop_queue (try_on_redis_handler E on (Result p') s1))
                       else if err then
                         start_async_write (pop_queue
                           (try_on_redis_handler E on (error_value (''parse error. '' @ rb)) s1))
                       else do_async_read_and_parse p' on s1)
          else do_async_read_and_parse parser on s)"

section \<open>Events\<close>

text \<open>
  What can happen to a client: a call of its owner, or the completion of an outstanding
  operation, which then is no longer outstanding.  A completion whose handler throws out of the
  parser is an event of its own; the loop that runs the handlers catches the exception.
\<close>

definition finish_io :: "client_io \<Rightarrow> RedisClient \<Rightarrow> RedisClient" where
  "finish_io io s = s\<lparr>outstanding := remove1 io (outstanding s)\<rparr>"

datatype redis_event = Call | ConnectDone error_code | TimerDone error_code
  | WriteDone error_code | ReadDone error_code string | ReadThrew string

definition read_throws :: "redis_env \<Rightarrow> RedisParser \<Rightarrow> string \<Rightarrow> RedisClient \<Rightarrow> bool" where
  "read_throws E parser data s \<longleftrightarrow> data \<noteq> [] \<and>
     snd (snd (reply_loop (renv E) parser (reply_buf s @ data) (reply_parse_beg s))) = None"

inductive redis_step :: "redis_env \<Rightarrow> redis_event \<Rightarrow> RedisClient \<Rightarrow> RedisClient \<Rightarrow> bool" for E where
  call_command: "redis_step E Call s (Command cmd args on s)"
| call_connect: "redis_step E Call s (fst (Connect E on host port s))"
| call_reconnect: "redis_step E Call s (Reconnect E on s)"
| call_disconnect: "redis_step E Call s (Disconnect s)"
| connect_done: "Connecting host port on \<in> set (outstanding s) \<Longrightarrow>
    redis_step E (ConnectDone ec) s (on_connect_finished E on ec (finish_io (Connecting host port on) s))"
| timer_done: "TimerWait sec on \<in> set (outstanding s) \<Longrightarrow>
    redis_step E (TimerDone ec) s (on_timer E on ec (finish_io (TimerWait sec on) s))"
| write_done: "Writing d \<in> set (outstanding s) \<Longrightarrow>
    redis_step E (WriteDone ec) s (on_write E ec (finish_io (Writing d) s))"
| read_done: "Reading parser on \<in> set (outstanding s) \<Longrightarrow> ec \<noteq> None \<or> \<not> read_throws E parser data s \<Longrightarrow>
    redis_step E (ReadDone ec data) s (on_read E parser on ec data (finish_io (Reading parser on) s))"
| read_threw: "Reading parser on \<in> set (outstanding s) \<Longrightarrow> read_throws E parser data s \<Longrightarrow>
    redis_step E (ReadThrew data) s (on_read E parser on None data (finish_io (Reading parser on) s))"

inductive redis_reach :: "redis_env \<Rightarrow> redis_event list \<Rightarrow> RedisClient \<Rightarrow> bool" for E where
  redis_init: "redis_reach E [] (new_RedisClient policy)"
| redis_next: "redis_reach E evs s \<Longrightarrow> redis_step E ev s t \<Longrightarrow> redis_reach E (evs @ [ev]) t"

inductive_cases redis_stepE: "redis_step E ev s t"

end
