(* ===== verification/RedisClientProofs.thy ===== *)
theory RedisClientProofs
  imports RedisClient
begin

text \<open>
  What the client guarantees: one command is on the wire at a time, replies go to the callbacks
  in the order of the commands, and, as long as no read or write fails and the parser does not
  throw, a client with commands has an operation outstanding.
\<close>

section \<open>The parser does not throw on its own\<close>

lemma stacks_ok_cong:
  "arraySizes q = arraySizes p \<Longrightarrow> arrayValues q = arrayValues p \<Longrightarrow> stacks_ok q = stacks_ok p"
  by (simp add: stacks_ok_def)

lemma close_arrays_stacks:
  assumes "list_all2 (\<lambda>n v. 0 < n \<and> (\<exists>vs. v = array_value vs)) ns vals"
    and "close_arrays ns vals v = Some (ns', vals', v')"
  shows "list_all2 (\<lambda>n v. 0 < n \<and> (\<exists>vs. v = array_value vs)) ns' vals'"
  using assms
proof (induction ns arbitrary: vals v)
  case (Cons n ns)
  from Cons.prems(1) obtain vs vals1 where v: "vals = array_value vs # vals1" "0 < n"
    and ok: "list_all2 (\<lambda>n v. 0 < n \<and> (\<exists>vs. v = array_value vs)) ns vals1"
    by (auto simp: list_all2_Cons1)
  show ?case
  proof (cases "n = 1 \<and> ns \<noteq> []")
    case True
    then obtain m ms where ns: "ns = m # ms" by (cases ns) auto
    with ok obtain ws vals2 where w: "vals1 = array_value ws # vals2" by (auto simp: list_all2_Cons1)
    with True v(1) Cons.prems(2) have
      "close_arrays ns (array_value (ws @ [array_value vs]) # vals2) (array_value vs) = Some (ns', vals', v')"
      by simp
    then show ?thesis by (rule Cons.IH [rotated]) (use ok ns w in auto)
  next
    case False
    with v ok Cons.prems(2) show ?thesis by (auto split: if_splits)
  qed
qed simp

lemma value_done_stacks_ok:
  assumes "stacks_ok p"
  shows "\<exists>q. value_done p = Some q \<and> stacks_ok q"
proof (cases "arraySizes p")
  case Nil
  with assms show ?thesis by (simp add: value_done_def)
next
  case (Cons n ns)
  with assms obtain vs vals where v: "arrayValues p = array_value vs # vals"
    by (auto simp: stacks_ok_def list_all2_Cons1)
  let ?vals = "array_value (vs @ [redisValue p]) # vals"
  have ok: "list_all2 (\<lambda>n v. 0 < n \<and> (\<exists>vs. v = array_value vs)) (n # ns) ?vals"
    using assms Cons v by (auto simp: stacks_ok_def)
  then obtain ns' vals' v' where c: "close_arrays (n # ns) ?vals (redisValue p) = Some (ns', vals', v')"
    using close_arrays_some by (metis not_None_eq prod_cases3)
  then have "value_done p = Some (p\<lparr>arraySizes := ns', arrayValues := vals', redisValue := v'\<rparr>)"
    unfolding value_done_def Cons v by simp
  moreover have "list_all2 (\<lambda>n v. 0 < n \<and> (\<exists>vs. v = array_value vs)) ns' vals'"
    by (rule close_arrays_stacks [OF ok c])
  ultimately show ?thesis by (simp add: stacks_ok_def)
qed

lemma stacks_ok_push:
  "stacks_ok p \<Longrightarrow> 0 < n \<Longrightarrow>
   stacks_ok (p\<lparr>arraySizes := n # arraySizes p, arrayValues := array_value [] # arrayValues p\<rparr>)"
  unfolding stacks_ok_def by (simp, rule exI [of _ "[]"], rule refl)

text \<open>The parser has read a length whose reservation is refused: of a bulk string or of an array.\<close>

definition refused :: "reserve_env \<Rightarrow> RedisParser \<Rightarrow> bool" where
  "refused E q \<longleftrightarrow>
     0 < bulkSize q \<and> \<not> reserve_chars E (nat (bulkSize q)) \<or>
     0 < buf_to_long (buf q) \<and> \<not> reserve_values E (nat (buf_to_long (buf q)))"

lemma parse_char_stacks_ok:
  assumes "stacks_ok p"
  shows "case parse_char E st p c rest of Threw q \<Rightarrow> refused E q \<and> stacks_ok q | Failed q \<Rightarrow> stacks_ok q
     | Goes st' q r \<Rightarrow> stacks_ok q"
proof (cases "st = ArraySizeLF")
  case True
  then show ?thesis using assms
    by (auto simp: parse_char_defs refused_def stacks_ok_def)
next
  case False
  have same: "case parse_char E st p c rest of
       Threw q \<Rightarrow> refused E q \<and> arraySizes q = arraySizes p \<and> arrayValues q = arrayValues p
     | Failed q \<Rightarrow> arraySizes q = arraySizes p \<and> arrayValues q = arrayValues p
     | Goes st' q r \<Rightarrow> arraySizes q = arraySizes p \<and> arrayValues q = arrayValues p"
    using False
    by (cases st) (auto simp: parse_char_defs parse_bulk_size_lf_def parse_bulk_def refused_def split: if_splits)
  then show ?thesis using assms
    by (auto split: turn.splits simp: stacks_ok_def)
qed

lemma parse_loop_stacks_ok:
  "stacks_ok p \<Longrightarrow> case parse_loop E st p s of LThrew q \<Rightarrow> refused E q \<and> stacks_ok q | LFailed q r \<Rightarrow> stacks_ok q
     | LEnd st' q r \<Rightarrow> stacks_ok q"
proof (induction E st p s rule: parse_loop.induct)
  case (2 E st p c cs)
  note pc = parse_char_stacks_ok [of p E st c cs, OF 2(3)]
  show ?case
  proof (cases "parse_char E st p c cs")
    case (Goes st' p' rest)
    then have ok: "stacks_ok p'" using pc by simp
    obtain q where q: "value_done p' = Some q" "stacks_ok q" using value_done_stacks_ok [OF ok] by blast
    show ?thesis
      using Goes q ok 2(1) [OF Goes _ q(1) _ q(2)] 2(2) [OF Goes _ ok]
      by (cases "st' = Start"; cases "arraySizes q = []") simp_all
  qed (use pc in simp_all)
qed simp

lemma ParseReply_stacks_ok:
  assumes "stacks_ok p"
  shows "case ParseReply E p s of (Some (n, r), q) \<Rightarrow> stacks_ok q | (None, q) \<Rightarrow> refused E q \<and> stacks_ok q"
proof -
  obtain st p0 where st: "(case states p of [] \<Rightarrow> (Start, p) | x # xs \<Rightarrow> (x, p\<lparr>states := xs\<rparr>)) = (st, p0)"
    by fastforce
  have "stacks_ok p0" using st assms by (auto simp: stacks_ok_def split: list.splits)
  then show ?thesis
    using parse_loop_stacks_ok [of p0 E st s] st
    by (cases "parse_loop E st p0 s") (auto simp: ParseReply_def parse_chunk_def stacks_ok_def)
qed

text \<open>
  (C12) The reply parser throws for no other reason than a reservation that is refused: it never
  asks for the array behind a value that is none, and never takes the top of an empty stack,
  whatever bytes it is given and however they are cut.  Where it throws, it has just read the length of a
  bulk string or of an array for which no room can be reserved; and its stacks fit each
  other whatever the outcome.
\<close>
theorem redis_parser_no_throw:
  assumes "stacks_ok p"
  shows "case ParseReply E p s of
      (Some (n, r), q) \<Rightarrow> stacks_ok q
    | (None, q) \<Rightarrow> stacks_ok q \<and>
        (0 < bulkSize q \<and> \<not> reserve_chars E (nat (bulkSize q)) \<or>
         0 < buf_to_long (buf q) \<and> \<not> reserve_values E (nat (buf_to_long (buf q))))"
  using ParseReply_stacks_ok [OF assms, of E s] by (auto simp: refused_def split: option.splits)

theorem redis_parser_no_throw_witness:
  "case ParseReply small_reserve (new_RedisParser\<lparr>states := [Start], arraySizes := [2], arrayValues := [array_value []]\<rparr>)
     ''*1'' of (Some (n, r), q) \<Rightarrow> stacks_ok q | (None, q) \<Rightarrow> False"
proof -
  let ?p = "new_RedisParser\<lparr>states := [Start], arraySizes := [2], arrayValues := [array_value []]\<rparr>"
  have ok: "stacks_ok ?p" by (auto simp: stacks_ok_def new_RedisParser_def)
  have "fst (ParseReply small_reserve ?p ''*1'') \<noteq> None" by code_simp
  then show ?thesis
    using redis_parser_no_throw [OF ok, of small_reserve "''*1''"] by (auto split: prod.splits option.splits)
qed

section \<open>One operation at a time\<close>

fun is_rw :: "client_io \<Rightarrow> bool" where
  "is_rw (Writing d) = True"
| "is_rw (Reading p on) = True"
| "is_rw _ = False"

definition ios :: "RedisClient \<Rightarrow> client_io list" where
  "ios s = filter is_rw (outstanding s)"

definition client_inv :: "RedisClient \<Rightarrow> bool" where
  "client_inv s \<longleftrightarrow>
     (case ios s of
        [] \<Rightarrow> True
      | [Writing d] \<Rightarrow> (\<exists>on q. command_queue s = (d, on) # q)
      | [Reading p on] \<Rightarrow> (\<exists>q. command_queue s = ([], None) # q) \<and> stacks_ok p
      | _ \<Rightarrow> False)"

lemma client_inv_cases:
  assumes "client_inv s"
  obtains (idle) "ios s = []"
  | (writing) d on q where "ios s = [Writing d]" "command_queue s = (d, on) # q"
  | (reading) p on q where "ios s = [Reading p on]" "command_queue s = ([], None) # q" "stacks_ok p"
proof (cases "ios s")
  case Nil
  then show ?thesis by (rule idle)
next
  case (Cons x xs)
  then have "xs = []" using assms by (cases xs; cases x) (simp_all add: client_inv_def)
  with Cons assms show ?thesis using writing reading by (cases x) (auto simp: client_inv_def)
qed

text \<open>The callbacks that still wait for their reply, the oldest first.\<close>

definition waiting :: "RedisClient \<Rightarrow> callback list" where
  "waiting s =
     (case ios s of
        [Reading p on] \<Rightarrow> on # map snd (tl (command_queue s))
      | _ \<Rightarrow> map snd (command_queue s))"

definition callbacks :: "callback list \<Rightarrow> callback list" where
  "callbacks cs = filter (\<lambda>c. c \<noteq> None) cs"

text \<open>
  \<open>lost\<close> are the callbacks that will not be called any more: none, or that of the command whose
  reply made the parser throw.  Then nothing is outstanding and the queue is not empty.
\<close>

definition fifo :: "callback list \<Rightarrow> RedisClient \<Rightarrow> bool" where
  "fifo lost s \<longleftrightarrow> callbacks (commands s) = map fst (replies s) @ lost @ callbacks (waiting s)"

definition loss_ok :: "callback list \<Rightarrow> RedisClient \<Rightarrow> bool" where
  "loss_ok lost s \<longleftrightarrow> lost = [] \<or> length lost = 1 \<and> ios s = [] \<and> command_queue s \<noteq> []"

lemma callbacks_simps [simp]:
  "callbacks [] = []" "callbacks (c # cs) = (if c \<noteq> None then c # callbacks cs else callbacks cs)"
  "callbacks (cs @ ds) = callbacks cs @ callbacks ds"
  by (simp_all add: callbacks_def)

text \<open>Commands issued while others are queued only join the queue.\<close>

lemma issue_all_queued:
  "command_queue s \<noteq> [] \<Longrightarrow> issue_all cs s = s\<lparr>
     command_queue := command_queue s @ map (\<lambda>(cmd, args, on). (MakeCommand (cmd # args), on)) cs,
     commands := commands s @ map (\<lambda>(cmd, args, on). on) cs\<rparr>"
proof (induction cs arbitrary: s)
  case (Cons c cs)
  obtain cmd args on where c: "c = (cmd, args, on)" by (cases c)
  let ?s = "Command cmd args on s"
  have s: "?s = s\<lparr>command_queue := command_queue s @ [(MakeCommand (cmd # args), on)],
      commands := commands s @ [on]\<rparr>"
    using Cons.prems by (simp add: Command_def Let_def)
  then have "issue_all cs ?s = ?s\<lparr>
     command_queue := command_queue ?s @ map (\<lambda>(cmd, args, on). (MakeCommand (cmd # args), on)) cs,
     commands := commands ?s @ map (\<lambda>(cmd, args, on). on) cs\<rparr>"
    by (intro Cons.IH) simp
  then show ?case unfolding s by (simp add: issue_all_def c s)
qed (simp add: issue_all_def)

definition same_core :: "RedisClient \<Rightarrow> RedisClient \<Rightarrow> bool" where
  "same_core s t \<longleftrightarrow> ios t = ios s \<and> command_queue t = command_queue s \<and>
     commands t = commands s \<and> replies t = replies s"

lemma same_core_keeps:
  assumes "same_core s t"
  shows "client_inv t = client_inv s" "fifo lost t = fifo lost s" "loss_ok lost t = loss_ok lost s"
    "(command_queue t \<noteq> [] \<longrightarrow> ios t \<noteq> []) = (command_queue s \<noteq> [] \<longrightarrow> ios s \<noteq> [])"
proof -
  have e: "ios t = ios s" "command_queue t = command_queue s" "commands t = commands s" "replies t = replies s"
    using assms by (simp_all add: same_core_def)
  show "client_inv t = client_inv s" "fifo lost t = fifo lost s" "loss_ok lost t = loss_ok lost s"
    "(command_queue t \<noteq> [] \<longrightarrow> ios t \<noteq> []) = (command_queue s \<noteq> [] \<longrightarrow> ios s \<noteq> [])"
    unfolding client_inv_def fifo_def waiting_def loss_ok_def e by (rule refl)+
qed

lemma same_core_trans: "same_core s t \<Longrightarrow> same_core t u \<Longrightarrow> same_core s u"
  by (simp add: same_core_def)

lemma same_core_do_async_connect: "same_core s (fst (do_async_connect E on s))"
  by (simp add: same_core_def do_async_connect_def start_io_def ios_def Let_def)

lemma same_core_start_reconnect_timer: "same_core s (fst (start_reconnect_timer E on s))"
  by (simp add: same_core_def start_reconnect_timer_def start_io_def ios_def Let_def)

lemma same_core_try_on_connect: "same_core s (try_on_connect_handler on ec s)"
  by (simp add: same_core_def try_on_connect_handler_def ios_def)

lemma same_core_Reconnect: "same_core s (Reconnect E on s)"
  by (simp add: Reconnect_def same_core_try_on_connect same_core_start_reconnect_timer)

lemma same_core_Connect: "same_core s (fst (Connect E on host port s))"
proof -
  have "same_core s (s\<lparr>redis_host := host, redis_port := port\<rparr>)" by (simp add: same_core_def ios_def)
  then show ?thesis
    using same_core_trans [OF _ same_core_do_async_connect] by (auto simp: Connect_def same_core_def)
qed

lemma same_core_Disconnect: "same_core s (Disconnect s)"
  by (simp add: Disconnect_def do_disconnect_def same_core_def ios_def)

lemma same_core_finish_other: "\<not> is_rw io \<Longrightarrow> same_core s (finish_io io s)"
  by (simp add: same_core_def finish_io_def ios_def filter_remove1 remove1_idem)

lemma same_core_on_connect_finished: "same_core s (on_connect_finished E on ec s)"
proof -
  have "same_core s (s\<lparr>connect_status := not_connect\<rparr>)"
    "same_core s (s\<lparr>connect_status := is_connected, reconnect_count := k\<rparr>)" for k
    by (simp_all add: same_core_def ios_def)
  moreover have "same_core s (s\<lparr>connect_status := is_connected\<rparr>)" by (simp add: same_core_def ios_def)
  ultimately show ?thesis
    unfolding on_connect_finished_def Let_def
    by (auto intro: same_core_trans [OF _ same_core_try_on_connect]
        same_core_trans [OF same_core_trans [OF _ same_core_try_on_connect] same_core_start_reconnect_timer])
qed

lemma same_core_on_timer: "same_core s (on_timer E on ec s)"
  using same_core_do_async_connect [of s E on] by (simp add: on_timer_def same_core_def)

text \<open>Taking the one outstanding read or write off.\<close>

lemma inv_finish:
  assumes "client_inv s" "io \<in> set (outstanding s)" "is_rw io"
  shows "ios s = [io]" "ios (finish_io io s) = []" "command_queue (finish_io io s) = command_queue s"
    "commands (finish_io io s) = commands s" "replies (finish_io io s) = replies s"
proof -
  have mem: "io \<in> set (ios s)" using assms(2,3) by (simp add: ios_def)
  then show 1: "ios s = [io]"
    by (cases rule: client_inv_cases [OF assms(1)]) simp_all
  have "ios (finish_io io s) = remove1 io (ios s)" by (simp add: ios_def finish_io_def filter_remove1)
  then show "ios (finish_io io s) = []" by (simp add: 1)
qed (simp_all add: finish_io_def)

lemma ios_start_io [simp]: "ios (start_io io s) = (if is_rw io then ios s @ [io] else ios s)"
  by (simp add: ios_def start_io_def)

lemma start_io_fields [simp]:
  "command_queue (start_io io s) = command_queue s" "commands (start_io io s) = commands s"
  "replies (start_io io s) = replies s"
  by (simp_all add: start_io_def)

lemma inv_start_async_write:
  assumes "ios s = []" "callbacks (commands s) = map fst (replies s) @ callbacks (map snd (command_queue s))"
  shows "client_inv (start_async_write s)" "fifo [] (start_async_write s)"
    "command_queue (start_async_write s) \<noteq> [] \<longrightarrow> ios (start_async_write s) \<noteq> []"
  using assms by (auto simp: start_async_write_def client_inv_def fifo_def waiting_def split: list.splits)

text \<open>Delivering a value to the callback at the front, and taking the front off.\<close>

lemma deliver:
  assumes q: "command_queue s = ([], None) # q" and io: "ios s = []"
    and f: "callbacks (commands s) = map fst (replies s) @ callbacks (on # map snd q)"
    and t_def: "t = pop_queue (try_on_redis_handler E on v s)"
  shows "ios t = []" "callbacks (commands t) = map fst (replies t) @ callbacks (map snd (command_queue t))"
    "replies t = replies s @ (if on = None then [] else [(on, v)])"
proof -
  define u where "u = (if on = None then s else s\<lparr>replies := replies s @ [(on, v)]\<rparr>)"
  define r where "r = (if on = None then [] else react E on v)"
  have ne: "command_queue u \<noteq> []" using q by (simp add: u_def)
  have "try_on_redis_handler E on v s = issue_all r u"
    by (simp add: try_on_redis_handler_def u_def r_def issue_all_def)
  then have t: "t = pop_queue (u\<lparr>
     command_queue := command_queue u @ map (\<lambda>(cmd, args, on). (MakeCommand (cmd # args), on)) r,
     commands := commands u @ map (\<lambda>(cmd, args, on). on) r\<rparr>)"
    unfolding t_def using issue_all_queued [OF ne, of r] by simp
  have u: "ios u = ios s" "command_queue u = command_queue s" "commands u = commands s"
    "replies u = replies s @ (if on = None then [] else [(on, v)])"
    by (simp_all add: u_def ios_def)
  show "ios t = []" using io u(1) by (simp add: t pop_queue_def ios_def)
  show "callbacks (commands t) = map fst (replies t) @ callbacks (map snd (command_queue t))"
    using q f by (simp add: t pop_queue_def u comp_def case_prod_unfold)
  show "replies t = replies s @ (if on = None then [] else [(on, v)])"
    by (simp add: t pop_queue_def u)
qed

section \<open>The invariant of every reachable client\<close>

lemma reply_loop_stacks_ok:
  "stacks_ok p \<Longrightarrow> case reply_loop E p rb beg of (q, beg', Some (done, err)) \<Rightarrow> stacks_ok q | (q, beg', None) \<Rightarrow> refused E q"
proof (induction E p rb beg rule: reply_loop.induct)
  case (1 E p rb beg)
  note pr = ParseReply_stacks_ok [OF 1(2), of E "drop beg rb"]
  obtain x q where x: "ParseReply E p (drop beg rb) = (x, q)" by (cases "ParseReply E p (drop beg rb)")
  show ?case
  proof (cases "beg < length rb")
    case True
    show ?thesis
    proof (cases x)
      case None
      then show ?thesis using pr x True by (subst reply_loop.simps) simp
    next
      case (Some nr)
      obtain n r where nr: "nr = (n, r)" by (cases nr)
      have q: "stacks_ok q" using pr x Some nr by simp
      show ?thesis
      proof (cases r)
        case Incompleted
        from 1(1) [OF True x [symmetric] Some nr [symmetric] Incompleted q]
        show ?thesis using True x Some nr Incompleted by (subst reply_loop.simps) simp
      qed (use True x Some nr q in \<open>(subst reply_loop.simps, simp)+\<close>)
    qed
  next
    case False
    with 1(2) show ?thesis by (subst reply_loop.simps) simp
  qed
qed

definition no_failure :: "redis_event \<Rightarrow> bool" where
  "no_failure ev \<longleftrightarrow> (case ev of WriteDone ec \<Rightarrow> ec = None | ReadDone ec d \<Rightarrow> ec = None | ReadThrew d \<Rightarrow> False | _ \<Rightarrow> True)"

definition busy :: "RedisClient \<Rightarrow> bool" where
  "busy s \<longleftrightarrow> (command_queue s \<noteq> [] \<longrightarrow> ios s \<noteq> [])"

lemma Command_keeps:
  assumes "client_inv s" "fifo lost s" "loss_ok lost s"
  shows "client_inv (Command cmd args on s) \<and> fifo lost (Command cmd args on s) \<and> loss_ok lost (Command cmd args on s) \<and>
     (busy s \<longrightarrow> busy (Command cmd args on s))"
proof (cases "command_queue s = []")
  case True
  then have "ios s = []" by (cases rule: client_inv_cases [OF assms(1)]) simp_all
  moreover have "lost = []" using assms(3) True by (simp add: loss_ok_def)
  ultimately have i: "ios s = []" "lost = []" by simp_all
  let ?s = "s\<lparr>command_queue := [(MakeCommand (cmd # args), on)], commands := commands s @ [on]\<rparr>"
  have "ios ?s = []" using i(1) by (simp add: ios_def)
  moreover have "callbacks (commands ?s) = map fst (replies ?s) @ callbacks (map snd (command_queue ?s))"
    using assms(2) i True by (simp add: fifo_def waiting_def)
  ultimately show ?thesis
    using inv_start_async_write [of ?s] True i(2) by (simp add: Command_def Let_def busy_def loss_ok_def)
next
  case False
  let ?s = "s\<lparr>command_queue := command_queue s @ [(MakeCommand (cmd # args), on)], commands := commands s @ [on]\<rparr>"
  have i: "ios ?s = ios s" by (simp add: ios_def)
  have "client_inv ?s"
    by (cases rule: client_inv_cases [OF assms(1)]) (simp_all add: client_inv_def ios_def)
  moreover have "waiting ?s = waiting s @ [on]"
    by (cases rule: client_inv_cases [OF assms(1)]) (simp_all add: waiting_def ios_def)
  then have "fifo lost ?s" using assms(2) by (simp add: fifo_def)
  moreover have "loss_ok lost ?s" using assms(3) unfolding loss_ok_def i by auto
  moreover have "busy s \<Longrightarrow> busy ?s" using False unfolding busy_def i by simp
  ultimately show ?thesis using False by (simp add: Command_def Let_def)
qed

lemma on_write_keeps:
  assumes "client_inv s" "fifo [] s" "Writing d \<in> set (outstanding s)"
  shows "client_inv (on_write E ec (finish_io (Writing d) s)) \<and> fifo [] (on_write E ec (finish_io (Writing d) s)) \<and>
     (ec = None \<longrightarrow> busy (on_write E ec (finish_io (Writing d) s)))"
proof -
  note fin = inv_finish [OF assms(1,3)]
  let ?s = "finish_io (Writing d) s"
  have i: "ios s = [Writing d]" "ios ?s = []" using fin by simp_all
  obtain on q where q: "command_queue s = (d, on) # q"
    using assms(1) by (auto simp: client_inv_def i(1))
  let ?s1 = "?s\<lparr>command_queue := ([], None) # q\<rparr>"
  have i1: "ios ?s1 = []" using i(2) by (simp add: ios_def)
  have f1: "callbacks (commands ?s1) = map fst (replies ?s1) @ callbacks (on # map snd q)"
    using assms(2) q fin(4,5) by (simp add: fifo_def waiting_def i(1))
  show ?thesis
  proof (cases ec)
    case None
    define t where "t = start_aysnc_read_and_parse on ?s1"
    have w: "on_write E ec ?s = t" using None q fin(3) by (simp add: on_write_def t_def Let_def)
    have "ios t = [Reading new_RedisParser on]"
      using i1 by (auto simp: t_def start_aysnc_read_and_parse_def do_async_read_and_parse_def ios_def
          start_io_def Let_def)
    moreover have "command_queue t = ([], None) # q" "commands t = commands ?s1" "replies t = replies ?s1"
      by (simp_all add: t_def start_aysnc_read_and_parse_def do_async_read_and_parse_def Let_def)
    moreover have "stacks_ok new_RedisParser" by (simp add: stacks_ok_def new_RedisParser_def)
    ultimately show ?thesis unfolding w using f1
      by (simp add: client_inv_def fifo_def waiting_def busy_def)
  next
    case (Some msg)
    let ?t = "pop_queue (try_on_redis_handler E on (error_value msg) ?s1)"
    note del = deliver [of ?s1 q on ?t E "error_value msg", OF _ i1 f1 refl]
    have "client_inv ?t" "fifo [] ?t"
      using del by (simp_all add: client_inv_def fifo_def waiting_def)
    moreover have "on_write E ec ?s = (if error_handle_policy ?t = auto_reconnect then Reconnect E None ?t else ?t)"
      using Some q fin(3) by (simp add: on_write_def Let_def)
    ultimately show ?thesis
      using Some same_core_keeps [OF same_core_Reconnect [of ?t E None]] by simp
  qed
qed

lemma on_read_keeps:
  assumes "client_inv s" "fifo [] s" "Reading p on \<in> set (outstanding s)" "ec \<noteq> None \<or> \<not> read_throws E p data s"
  shows "client_inv (on_read E p on ec data (finish_io (Reading p on) s)) \<and>
     fifo [] (on_read E p on ec data (finish_io (Reading p on) s)) \<and>
     (ec = None \<longrightarrow> busy (on_read E p on ec data (finish_io (Reading p on) s)))"
proof -
  note fin = inv_finish [OF assms(1,3)]
  let ?s = "finish_io (Reading p on) s"
  have i: "ios s = [Reading p on]" "ios ?s = []" using fin by simp_all
  obtain q where q: "command_queue s = ([], None) # q" and p: "stacks_ok p"
    using assms(1) by (auto simp: client_inv_def i(1))
  have qs: "command_queue ?s = ([], None) # q" using q fin(3) by simp
  have f: "callbacks (commands ?s) = map fst (replies ?s) @ callbacks (on # map snd q)"
    using assms(2) q fin(4,5) by (simp add: fifo_def waiting_def i(1))
  have again: "client_inv (do_async_read_and_parse p' on u) \<and> fifo [] (do_async_read_and_parse p' on u) \<and>
      busy (do_async_read_and_parse p' on u)"
    if "same_core ?s u" "stacks_ok p'" for p' u
    using that i qs f by (auto simp: same_core_def client_inv_def fifo_def waiting_def busy_def
        do_async_read_and_parse_def)
  have answer: "client_inv (start_async_write (pop_queue (try_on_redis_handler E on v u))) \<and>
      fifo [] (start_async_write (pop_queue (try_on_redis_handler E on v u))) \<and>
      busy (start_async_write (pop_queue (try_on_redis_handler E on v u)))"
    if u: "same_core ?s u" for u v
  proof -
    have "command_queue u = ([], None) # q" "ios u = []"
      "callbacks (commands u) = map fst (replies u) @ callbacks (on # map snd q)"
      using u i qs f by (simp_all add: same_core_def)
    note del = deliver [of u q on _ E v, OF this refl]
    show ?thesis using inv_start_async_write [OF del(1,2)] by (simp add: busy_def)
  qed
  show ?thesis
  proof (cases ec)
    case (Some msg)
    note del = deliver [of ?s q on _ E "error_value msg", OF qs i(2) f refl]
    show ?thesis using Some del by (simp add: on_read_def client_inv_def fifo_def waiting_def)
  next
    case None
    show ?thesis
    proof (cases "data = []")
      case True
      have "same_core ?s ?s" by (simp add: same_core_def)
      with None True again [of ?s p] p show ?thesis by (simp add: on_read_def)
    next
      case False
      let ?rb = "reply_buf ?s @ data"
      have "snd (snd (reply_loop (renv E) p ?rb (reply_parse_beg ?s))) \<noteq> None"
        using assms(4) None False by (simp add: read_throws_def finish_io_def)
      then obtain p' beg cmp err where r: "reply_loop (renv E) p ?rb (reply_parse_beg ?s) = (p', beg, Some (cmp, err))"
        by (cases "reply_loop (renv E) p ?rb (reply_parse_beg ?s)") auto
      have p': "stacks_ok p'" using reply_loop_stacks_ok [OF p, of "renv E" ?rb "reply_parse_beg ?s"] r by simp
      let ?u = "?s\<lparr>reply_buf := ?rb, reply_parse_beg := beg\<rparr>"
      have u: "same_core ?s ?u" by (simp add: same_core_def ios_def)
      show ?thesis
        using None False r answer [OF u] again [OF u p'] by (simp add: on_read_def Let_def)
    qed
  qed
qed

text \<open>A handler that throws leaves its command at the front and starts nothing.\<close>

lemma on_read_throws:
  assumes "client_inv s" "fifo [] s" "Reading p on \<in> set (outstanding s)" "read_throws E p data s"
  shows "let t = on_read E p on None data (finish_io (Reading p on) s) in
     client_inv t \<and> fifo (callbacks [on]) t \<and> loss_ok (callbacks [on]) t"
    "\<exists>q. refused (renv E) q"
proof -
  note fin = inv_finish [OF assms(1,3)]
  let ?s = "finish_io (Reading p on) s" let ?rb = "reply_buf s @ data"
  obtain q where q: "command_queue s = ([], None) # q" and p: "stacks_ok p"
    using assms(1) by (auto simp: client_inv_def fin(1))
  obtain p' beg where r: "reply_loop (renv E) p ?rb (reply_parse_beg s) = (p', beg, None)" "data \<noteq> []"
    using assms(4) by (cases "reply_loop (renv E) p ?rb (reply_parse_beg s)") (auto simp: read_throws_def)
  show "\<exists>q. refused (renv E) q" using reply_loop_stacks_ok [OF p, of "renv E" ?rb "reply_parse_beg s"] r(1) by auto
  let ?t = "?s\<lparr>reply_buf := ?rb, reply_parse_beg := beg\<rparr>"
  have "on_read E p on None data ?s = ?t" using r by (simp add: on_read_def finish_io_def Let_def)
  moreover have "ios ?t = []" "command_queue ?t = ([], None) # q" "commands ?t = commands s" "replies ?t = replies s"
    using fin q by (simp_all add: ios_def)
  ultimately show "let t = on_read E p on None data ?s in
     client_inv t \<and> fifo (callbacks [on]) t \<and> loss_ok (callbacks [on]) t"
    using assms(2) q fin(1) by (simp add: client_inv_def fifo_def loss_ok_def waiting_def)
qed

lemma loss_ok_outstanding: "client_inv s \<Longrightarrow> loss_ok lost s \<Longrightarrow> io \<in> set (outstanding s) \<Longrightarrow> is_rw io \<Longrightarrow> lost = []"
  using inv_finish(1) [of s io] by (auto simp: loss_ok_def)

lemma redis_step_keeps:
  assumes "redis_step E ev s t" "client_inv s" "fifo lost s" "loss_ok lost s"
  shows "client_inv t \<and> (no_failure ev \<and> busy s \<longrightarrow> busy t) \<and>
     (\<exists>lost'. fifo lost' t \<and> loss_ok lost' t \<and>
        (lost' = lost \<or> (\<exists>d. ev = ReadThrew d) \<and> (\<exists>q. refused (renv E) q)))"
  using assms(1)
proof cases
  case (call_command cmd args on)
  then show ?thesis using Command_keeps [OF assms(2,3,4)] by blast
next
  case (write_done d ec)
  then have "lost = []" using loss_ok_outstanding [OF assms(2,4)] by simp
  then show ?thesis using on_write_keeps [OF assms(2) _ write_done(3)] assms(3) write_done(1,2)
    by (auto simp: no_failure_def loss_ok_def)
next
  case (read_done parser on ec data)
  then have "lost = []" using loss_ok_outstanding [OF assms(2,4)] by simp
  then show ?thesis using on_read_keeps [OF assms(2) _ read_done(3,4)] assms(3) read_done(1,2)
    by (auto simp: no_failure_def loss_ok_def)
next
  case (read_threw parser on data)
  then have "lost = []" using loss_ok_outstanding [OF assms(2,4)] by simp
  then show ?thesis using on_read_throws [OF assms(2) _ read_threw(3,4)] assms(3) read_threw(1,2)
    by (auto simp: no_failure_def Let_def)
next
  case (connect_done host port on ec)
  then have "same_core s t"
    using same_core_trans [OF same_core_finish_other same_core_on_connect_finished] by simp
  from same_core_keeps [OF this] assms(2-4) show ?thesis by (auto simp: busy_def)
next
  case (timer_done sec on ec)
  then have "same_core s t"
    using same_core_trans [OF same_core_finish_other same_core_on_timer] by simp
  from same_core_keeps [OF this] assms(2-4) show ?thesis by (auto simp: busy_def)
qed (use same_core_keeps [OF same_core_Connect] same_core_keeps [OF same_core_Reconnect]
      same_core_keeps [OF same_core_Disconnect] assms(2-4) in \<open>auto simp: busy_def\<close>)

lemma redis_reach_keeps:
  "redis_reach E evs s \<Longrightarrow> client_inv s \<and> (list_all no_failure evs \<longrightarrow> busy s) \<and>
     (\<exists>lost. fifo lost s \<and> loss_ok lost s \<and>
        (lost \<noteq> [] \<longrightarrow> (\<exists>d. ReadThrew d \<in> set evs) \<and> (\<exists>q. refused (renv E) q)))"
proof (induction rule: redis_reach.induct)
  case (redis_init policy)
  then show ?case
    by (simp add: new_RedisClient_def client_inv_def fifo_def waiting_def ios_def busy_def loss_ok_def)
next
  case (redis_next evs s ev t)
  then obtain lost where l: "client_inv s" "fifo lost s" "loss_ok lost s"
    "lost \<noteq> [] \<longrightarrow> (\<exists>d. ReadThrew d \<in> set evs) \<and> (\<exists>q. refused (renv E) q)" by blast
  from redis_step_keeps [OF redis_next(2) l(1-3)] obtain lost' where t: "client_inv t"
    "no_failure ev \<and> busy s \<longrightarrow> busy t" "fifo lost' t" "loss_ok lost' t"
    "lost' = lost \<or> (\<exists>d. ev = ReadThrew d) \<and> (\<exists>q. refused (renv E) q)" by blast
  have "lost' \<noteq> [] \<longrightarrow> (\<exists>d. ReadThrew d \<in> set (evs @ [ev])) \<and> (\<exists>q. refused (renv E) q)" using l(4) t(5) by auto
  then show ?case using t(1-4) redis_next(3) by auto
qed

text \<open>
  (C10) In every state a client can reach, by calls of its owner, of its callbacks and completions
  in any order, the replies delivered so far went to the callbacks of the commands in the order
  in which the commands were issued: the callbacks called and the callbacks that still wait,
  oldest first, are together the callbacks of all commands.  At most one callback is neither: that of a
  command whose reply made the parser throw, which it does only where a reservation is refused;
  it stands between the two, nothing is outstanding then, and the queue is not empty.
\<close>
theorem redis_replies_in_order:
  assumes "redis_reach E evs s"
  shows "\<exists>lost. callbacks (commands s) = map fst (replies s) @ lost @ callbacks (waiting s) \<and>
     (lost \<noteq> [] \<longrightarrow> length lost = 1 \<and> ios s = [] \<and> command_queue s \<noteq> [] \<and> (\<exists>d. ReadThrew d \<in> set evs) \<and>
       (\<exists>n. \<not> reserve_chars (renv E) n \<or> \<not> reserve_values (renv E) n))"
proof -
  obtain lost where "fifo lost s" "loss_ok lost s"
    "lost \<noteq> [] \<longrightarrow> (\<exists>d. ReadThrew d \<in> set evs) \<and> (\<exists>q. refused (renv E) q)"
    using redis_reach_keeps [OF assms] by blast
  then show ?thesis by (intro exI [of _ lost]) (auto simp: fifo_def loss_ok_def refused_def)
qed

definition demo_redis_env :: redis_env where
  "demo_redis_env = \<lparr>renv = small_reserve, address_ok = (\<lambda>h. True), timer_set_ec = None, react = (\<lambda>on v. [])\<rparr>"

lemma demo_redis_reach:
  "redis_reach demo_redis_env [Call, Call, WriteDone (Some ''reset'')]
     (on_write demo_redis_env (Some ''reset'')
       (finish_io (Writing (MakeCommand [''PING'']))
         (Command ''QUIT'' [] (Some 2) (Command ''PING'' [] (Some 1) (new_RedisClient do_nothing)))))"
proof -
  let ?s1 = "Command ''PING'' [] (Some 1) (new_RedisClient do_nothing)"
  have "redis_reach demo_redis_env ([] @ [Call]) ?s1"
    by (rule redis_next [OF redis_init call_command])
  then have "redis_reach demo_redis_env (([] @ [Call]) @ [Call]) (Command ''QUIT'' [] (Some 2) ?s1)"
    by (rule redis_next [OF _ call_command])
  moreover have "Writing (MakeCommand [''PING'']) \<in> set (outstanding (Command ''QUIT'' [] (Some 2) ?s1))"
    by (simp add: Command_def new_RedisClient_def start_async_write_def start_io_def Let_def)
  ultimately have "redis_reach demo_redis_env ((([] @ [Call]) @ [Call]) @ [WriteDone (Some ''reset'')])
     (on_write demo_redis_env (Some ''reset'')
       (finish_io (Writing (MakeCommand [''PING''])) (Command ''QUIT'' [] (Some 2) ?s1)))"
    by (rule redis_next [OF _ write_done])
  then show ?thesis by simp
qed

theorem redis_replies_in_order_witness:
  "\<exists>s. redis_reach demo_redis_env [Call, Call, WriteDone (Some ''reset'')] s \<and>
     callbacks (commands s) = map fst (replies s) @ callbacks (waiting s)"
  using redis_replies_in_order [OF demo_redis_reach] demo_redis_reach by auto

text \<open>
  (C11) At most one read or write is outstanding in every reachable state, and as long as no read
  or write failed and the parser did not throw, a client with queued commands has one: no command
  waits for nothing.
\<close>
theorem redis_one_operation:
  assumes "redis_reach E evs s"
  shows "length (ios s) \<le> 1 \<and> (list_all no_failure evs \<and> command_queue s \<noteq> [] \<longrightarrow> length (ios s) = 1)"
proof -
  have i: "client_inv s" and b: "list_all no_failure evs \<longrightarrow> busy s" using redis_reach_keeps [OF assms] by simp_all
  have "length (ios s) \<le> 1" by (cases rule: client_inv_cases [OF i]) simp_all
  with b show ?thesis by (cases "ios s") (auto simp: busy_def)
qed

theorem redis_one_operation_witness:
  "\<exists>s. redis_reach demo_redis_env [Call, Call, WriteDone (Some ''reset'')] s \<and> length (ios s) \<le> 1"
  using redis_one_operation [OF demo_redis_reach] demo_redis_reach by blast

text \<open>
  After a failed write the queue is not restarted: the second command waits with no operation
  outstanding, and no later command starts one.
\<close>

lemma redis_stalls_after_write_error:
  "let s = on_write demo_redis_env (Some ''reset'')
       (finish_io (Writing (MakeCommand [''PING'']))
         (Command ''QUIT'' [] (Some 2) (Command ''PING'' [] (Some 1) (new_RedisClient do_nothing))))
   in ios s = [] \<and> map snd (command_queue s) = [Some 2]"
  by (simp add: Command_def new_RedisClient_def start_async_write_def start_io_def on_write_def finish_io_def
      pop_queue_def try_on_redis_handler_def issue_all_def demo_redis_env_def ios_def Let_def)

lemma redis_stall_is_lasting:
  "command_queue s \<noteq> [] \<Longrightarrow> outstanding (Command cmd args on s) = outstanding s"
  by (simp add: Command_def Let_def)

text \<open>
  A reply that announces more elements than can be reserved throws out of the read handler: its
  callback is not called, its command stays at the front of the queue, and nothing is outstanding.
\<close>

lemma redis_huge_array_stalls:
  assumes "ios s = [Reading new_RedisParser on]" "command_queue s = ([], None) # q"
    and "reply_buf s = []" "reply_parse_beg s = 0" "0 < n" "n < 2 ^ 63" "\<not> reserve_values (renv E) n"
  shows "let t = on_read E new_RedisParser on None (''*'' @ to_string (int n) @ crlf @ rest) (finish_io (Reading new_RedisParser on) s)
     in ios t = [] \<and> command_queue t = ([], None) # q \<and> replies t = replies s"
proof -
  let ?d = "''*'' @ to_string (int n) @ crlf @ rest"
  have n: "buf_to_long (to_string (int n)) = int n" using assms(6) by (intro buf_to_long_to_string) simp_all
  have "parse_bytes (renv E) Start new_RedisParser ?d =
      parse_bytes (renv E) ArraySizeLF (new_RedisParser\<lparr>buf := to_string (int n)\<rparr>) (LF # rest)"
    using parse_bytes_start(5) [of Start "renv E" new_RedisParser] parse_bytes_line_end [of ArraySize ArraySizeLF "to_string (int n)"
        "new_RedisParser\<lparr>buf := []\<rparr>" "renv E" rest] by (simp del: parse_bytes.simps)
  also have "\<dots> = LThrew (new_RedisParser\<lparr>buf := to_string (int n)\<rparr>)"
    using n assms(5,7) by (simp add: expect_def parse_array_size_lf_def)
  finally have "ParseReply (renv E) new_RedisParser ?d = (None, new_RedisParser\<lparr>buf := to_string (int n)\<rparr>)"
    by (simp add: ParseReply_bytes [OF redis_wf_new] resume_def reply_of_def) (simp add: new_RedisParser_def)
  then have "reply_loop (renv E) new_RedisParser ?d 0 = (new_RedisParser\<lparr>buf := to_string (int n)\<rparr>, 0, None)"
    by (subst reply_loop.simps) simp
  then show ?thesis
    using assms(1-4) by (simp add: on_read_def finish_io_def ios_def filter_remove1 Let_def)
qed

section \<open>A reply cut by the reads\<close>

lemma ParseReply_incompleted_length:
  assumes "redis_wf p" "ParseReply E p s = (Some (n, Incompleted), q)"
  shows "n = length s"
proof -
  obtain st p0 where r: "resume p = (st, p0)" by (cases "resume p")
  have b: "bulk_ok st p0" by (rule resume_bulk_ok [OF assms(1) r])
  show ?thesis
    using assms(2) r parse_bytes_end_bulk_ok [OF b, of E s]
    by (cases "parse_bytes E st p0 s") (auto simp: ParseReply_bytes [OF assms(1)] reply_of_def split: if_splits)
qed

lemma ParseReply_length: "ParseReply E p s = (Some (n, r), q) \<Longrightarrow> redis_wf p \<Longrightarrow> n \<le> length s"
  by (auto simp: ParseReply_bytes reply_of_def split: prod.splits loop_end.splits if_splits)

text \<open>Before the last byte of a reply the parser asks for more.\<close>

lemma ParseReply_prefix:
  assumes "redis_wf p" "ParseReply E p (s @ t) = (Some (length (s @ t), Completed), q)" "s \<noteq> []" "t \<noteq> []"
  shows "\<exists>p'. ParseReply E p s = (Some (length s, Incompleted), p') \<and> redis_wf p' \<and>
     ParseReply E p' t = (Some (length t, Completed), q)"
proof -
  obtain x p' where a: "ParseReply E p s = (x, p')" by (cases "ParseReply E p s")
  note eq = redis_reply_split [OF assms(1,3), of E t]
  show ?thesis
  proof (cases x)
    case None
    with eq a assms(2) show ?thesis by simp
  next
    case (Some nr)
    obtain n r where nr: "nr = (n, r)" by (cases nr)
    have le: "n \<le> length s" using ParseReply_length a Some nr assms(1) by blast
    show ?thesis
    proof (cases r)
      case Incompleted
      have n: "n = length s" using ParseReply_incompleted_length [OF assms(1)] a Some nr Incompleted by blast
      have "redis_wf p'" using redis_wf_ParseReply [OF assms(1), of E s n] a Some nr Incompleted by simp
      moreover have "ParseReply E p' t = (Some (length t, Completed), q)"
        using eq a Some nr Incompleted assms(2) n by (auto split: prod.splits option.splits)
      ultimately show ?thesis using a Some nr Incompleted n by simp
    next
      case Completed
      with eq a Some nr assms(2) have "n = length (s @ t)" by simp
      with le assms(4) show ?thesis by simp
    next
      case Error
      with eq a Some nr assms(2) show ?thesis by simp
    qed
  qed
qed

text \<open>The reads of one reply: each completes the read that is outstanding.\<close>

fun read_all :: "redis_env \<Rightarrow> RedisClient \<Rightarrow> string list \<Rightarrow> RedisClient" where
  "read_all E s [] = s"
| "read_all E s (d # ds) =
     (case ios s of
        [Reading p on] \<Rightarrow> read_all E (on_read E p on None d (finish_io (Reading p on) s)) ds
      | _ \<Rightarrow> s)"

lemma reply_loop_incompleted:
  assumes "ParseReply E p d = (Some (length d, Incompleted), p')" "d \<noteq> []"
  shows "reply_loop E p (pre @ d) (length pre) = (p', length (pre @ d), Some (False, False))"
  using assms by (subst reply_loop.simps) (simp, subst reply_loop.simps, simp)

lemma reply_loop_completed:
  assumes "ParseReply E p d = (Some (n, Completed), p')" "d \<noteq> []"
  shows "reply_loop E p (pre @ d) (length pre) = (p', length pre + n, Some (True, False))"
  using assms by (subst reply_loop.simps) simp

lemma read_all_reply:
  assumes "ios s = [Reading p on]" "command_queue s = ([], None) # q" "redis_wf p" "list_all (\<lambda>d. d \<noteq> []) ds"
    and "reply_parse_beg s = length (reply_buf s)" "concat ds \<noteq> []"
    and "ParseReply (renv E) p (concat ds) = (Some (length (concat ds), Completed), p')"
  shows "\<exists>t. read_all E s ds = start_async_write (pop_queue (try_on_redis_handler E on (Result p') t)) \<and>
     replies t = replies s \<and> command_queue t = command_queue s \<and> commands t = commands s \<and> ios t = []"
  using assms
proof (induction ds arbitrary: s p)
  case (Cons d ds)
  have dne: "d \<noteq> []" using Cons.prems(4) by simp
  let ?s = "finish_io (Reading p on) s"
  have i: "ios ?s = []"
    using Cons.prems(1) by (simp add: ios_def finish_io_def filter_remove1)
  have fin: "command_queue ?s = command_queue s" "replies ?s = replies s" "commands ?s = commands s"
    "reply_buf ?s = reply_buf s" "reply_parse_beg ?s = reply_parse_beg s"
    by (simp_all add: finish_io_def)
  show ?case
  proof (cases "ds = []")
    case True
    with Cons.prems(7) have p: "ParseReply (renv E) p d = (Some (length d, Completed), p')" by simp
    let ?t = "?s\<lparr>reply_buf := reply_buf s @ d, reply_parse_beg := length (reply_buf s) + length d\<rparr>"
    have "on_read E p on None d ?s = start_async_write (pop_queue (try_on_redis_handler E on (Result p') ?t))"
      using dne reply_loop_completed [OF p dne, of "reply_buf s"] Cons.prems(5) fin
      by (simp add: on_read_def Let_def)
    moreover have "ios ?t = []" using i by (simp add: ios_def)
    ultimately show ?thesis using True Cons.prems(1) fin by (intro exI [of _ ?t]) simp
  next
    case False
    then have dsne: "concat ds \<noteq> []" using Cons.prems(4) by (cases ds) auto
    then obtain p1 where p1: "ParseReply (renv E) p d = (Some (length d, Incompleted), p1)" "redis_wf p1"
      "ParseReply (renv E) p1 (concat ds) = (Some (length (concat ds), Completed), p')"
      using ParseReply_prefix [OF Cons.prems(3) _ dne dsne] Cons.prems(7) by (simp del: concat_eq_Nil_conv) blast
    let ?t = "?s\<lparr>reply_buf := reply_buf s @ d, reply_parse_beg := length (reply_buf s @ d)\<rparr>"
    let ?u = "do_async_read_and_parse p1 on ?t"
    have u: "on_read E p on None d ?s = ?u"
      using dne reply_loop_incompleted [OF p1(1) dne, of "reply_buf s"] Cons.prems(5) fin
      by (simp add: on_read_def Let_def)
    have "ios ?t = []" using i by (simp add: ios_def)
    then have "ios ?u = [Reading p1 on]" by (simp add: do_async_read_and_parse_def)
    moreover have "command_queue ?u = command_queue s" "replies ?u = replies s" "commands ?u = commands s"
      "reply_parse_beg ?u = length (reply_buf ?u)"
      using fin by (simp_all add: do_async_read_and_parse_def start_io_def)
    moreover have "list_all (\<lambda>d. d \<noteq> []) ds" using Cons.prems(4) by simp
    ultimately show ?thesis
      using Cons.IH [of ?u p1] Cons.prems(1,2) p1(2,3) dsne u by simp
  qed
qed simp

text \<open>
  A reply reaches its command: when the client waits for the reply to the command at the
  front, with nothing left over from before, and a reply arrives in any number of reads cut
  anywhere, the callback of that command is called once, with the value that was sent, and the
  next queued command, if there is one, is written.
\<close>
theorem redis_reply_delivered:
  assumes "ios s = [Reading new_RedisParser (Some k)]" "command_queue s = ([], None) # q"
    and "reply_buf s = []" "reply_parse_beg s = 0" "react E (Some k) (value_of r) = []" "fits (renv E) r"
    and "wire_ok r" "list_all (\<lambda>d. d \<noteq> []) ds" "concat ds = wire r"
  shows "replies (read_all E s ds) = replies s @ [(Some k, value_of r)] \<and> command_queue (read_all E s ds) = q \<and>
     ios (read_all E s ds) = (case q of [] \<Rightarrow> [] | (d, on) # q' \<Rightarrow> [Writing d])"
proof -
  obtain p' where p: "ParseReply (renv E) new_RedisParser (concat ds) = (Some (length (concat ds), Completed), p')"
    "Result p' = value_of r"
    using reply_complete [of r "renv E" new_RedisParser "[]"] assms(6,7,9)
    by (auto simp: new_RedisParser_def)
  have ne: "concat ds \<noteq> []" unfolding assms(9) by simp
  obtain t where t: "read_all E s ds = start_async_write (pop_queue (try_on_redis_handler E (Some k) (value_of r) t))"
    "replies t = replies s" "command_queue t = ([], None) # q" "ios t = []"
    using read_all_reply [OF assms(1,2) redis_wf_new assms(8) _ ne p(1)] assms(2-4) p(2) by auto
  have "pop_queue (try_on_redis_handler E (Some k) (value_of r) t) = t\<lparr>replies := replies s @ [(Some k, value_of r)], command_queue := q\<rparr>"
    using t(2,3) assms(5) by (cases t) (simp add: try_on_redis_handler_def issue_all_def pop_queue_def)
  with t show ?thesis
    by (auto simp: start_async_write_def start_io_def ios_def split: list.splits)
qed

definition demo_waiting :: RedisClient where
  "demo_waiting = on_write demo_redis_env None (finish_io (Writing (MakeCommand [''GET'', ''k'']))
     (Command ''GET'' [''k''] (Some 1) (new_RedisClient do_nothing)))"

theorem redis_reply_delivered_witness:
  "replies (read_all demo_redis_env demo_waiting [''$2'' @ [CR], [LF] @ ''h'', ''i'' @ crlf]) =
     [(Some 1, bytes_value ''hi'')]"
proof -
  have "to_string 2 = ''2''" by code_simp
  then have r: "concat [''$2'' @ [CR], [LF] @ ''h'', ''i'' @ crlf] = wire (BulkString ''hi'')"
    by simp
  have w: "demo_waiting = (new_RedisClient do_nothing)\<lparr>command_queue := [([], None)], commands := [Some 1],
      outstanding := [Reading new_RedisParser (Some 1)]\<rparr>"
    by (simp add: demo_waiting_def Command_def new_RedisClient_def start_async_write_def start_io_def on_write_def
        finish_io_def start_aysnc_read_and_parse_def do_async_read_and_parse_def Let_def)
  have f: "ios demo_waiting = [Reading new_RedisParser (Some 1)]" "command_queue demo_waiting = [([], None)]"
    "reply_buf demo_waiting = []" "reply_parse_beg demo_waiting = 0" "replies demo_waiting = []"
    by (simp_all add: w ios_def new_RedisClient_def)
  have "react demo_redis_env (Some 1) (value_of (BulkString ''hi'')) = []" "fits (renv demo_redis_env) (BulkString ''hi'')"
    "wire_ok (BulkString ''hi'')" "list_all (\<lambda>d. d \<noteq> []) [''$2'' @ [CR], [LF] @ ''h'', ''i'' @ crlf]"
    by (simp_all add: demo_redis_env_def small_reserve_def)
  from redis_reply_delivered [OF f(1-4) this r] f(5) show ?thesis by simp
qed

end
