(* ===== verification/Handler.thy ===== *)
theory Handler
  imports OrderedMap
begin

text \<open>
  \<^verbatim>\<open>src/handler.cpp\<close>: the methods a handler is registered for.  A set of methods is the
  \<^verbatim>\<open>std::bitset<5>\<close> of the code, kept as a word of five bits.
\<close>

datatype HandlerMethod = UNSUPPORT | DELETE | GET | HEAD | POST | PUT | ANY

fun method_value :: "HandlerMethod \<Rightarrow> int" where
  "method_value UNSUPPORT = -1"
| "method_value DELETE = 0"
| "method_value GET = 1"
| "method_value HEAD = 2"
| "method_value POST = 3"
| "method_value PUT = 4"
| "method_value ANY = 999"

lemma method_value_inject [simp]: "method_value a = method_value b \<longleftrightarrow> a = b"
  by (cases a; cases b) simp_all

text \<open>The order of \<^verbatim>\<open>std::map<HandlerMethod, Handler>\<close> is the order of the enumeration's values.\<close>

instantiation HandlerMethod :: linorder
begin

definition less_eq_HandlerMethod :: "HandlerMethod \<Rightarrow> HandlerMethod \<Rightarrow> bool" where
  "less_eq_HandlerMethod a b \<longleftrightarrow> method_value a \<le> method_value b"

definition less_HandlerMethod :: "HandlerMethod \<Rightarrow> HandlerMethod \<Rightarrow> bool" where
  "less_HandlerMethod a b \<longleftrightarrow> method_value a < method_value b"

instance
  by standard (auto simp: less_eq_HandlerMethod_def less_HandlerMethod_def)

end

interpretation methods: strict_weak_order "(<) :: HandlerMethod \<Rightarrow> HandlerMethod \<Rightarrow> bool"
  by unfold_locales auto

fun HandlerMethodName :: "HandlerMethod \<Rightarrow> string" where
  "HandlerMethodName UNSUPPORT = ''UNSUPPORT''"
| "HandlerMethodName DELETE = ''DELETE''"
| "HandlerMethodName GET = ''GET''"
| "HandlerMethodName HEAD = ''HEAD''"
| "HandlerMethodName POST = ''POST''"
| "HandlerMethodName PUT = ''PUT''"
| "HandlerMethodName ANY = ''ANY''"

text \<open>The numbers of \<^verbatim>\<open>llhttp_method_t\<close>.\<close>

definition from_http_method :: "nat \<Rightarrow> HandlerMethod" where
  "from_http_method m =
     (if m = 0 then DELETE else if m = 1 then GET else if m = 2 then HEAD
      else if m = 3 then POST else if m = 4 then PUT else UNSUPPORT)"

type_synonym HandlerMethods = "5 word"

fun IsSet :: "HandlerMethods \<Rightarrow> HandlerMethod \<Rightarrow> bool" where
  "IsSet mark DELETE = bit mark 0"
| "IsSet mark GET = bit mark 1"
| "IsSet mark HEAD = bit mark 2"
| "IsSet mark POST = bit mark 3"
| "IsSet mark PUT = bit mark 4"
| "IsSet mark ANY = (mark \<noteq> 0)"
| "IsSet mark UNSUPPORT = (mark = 0)"

fun SetMethod :: "HandlerMethods \<Rightarrow> HandlerMethod \<Rightarrow> HandlerMethods" where
  "SetMethod mark DELETE = set_bit 0 mark"
| "SetMethod mark GET = set_bit 1 mark"
| "SetMethod mark HEAD = set_bit 2 mark"
| "SetMethod mark POST = set_bit 3 mark"
| "SetMethod mark PUT = set_bit 4 mark"
| "SetMethod mark ANY = NOT 0"
| "SetMethod mark UNSUPPORT = 0"

definition HandlerMethods_one :: "HandlerMethod \<Rightarrow> HandlerMethods" where
  "HandlerMethods_one m = SetMethod 0 m"

definition HandlerMethods_list :: "HandlerMethod list \<Rightarrow> HandlerMethods" where
  "HandlerMethods_list ms = fold (\<lambda>m mark. SetMethod mark m) ms 0"

text \<open>The methods of a set in the order of their bits, as the loop of \<open>RoutingTable::Add\<close> visits them.\<close>

definition bit_methods :: "HandlerMethod list" where
  "bit_methods = [DELETE, GET, HEAD, POST, PUT]"

definition methods_of :: "HandlerMethods \<Rightarrow> HandlerMethod list" where
  "methods_of mark = filter (IsSet mark) bit_methods"

lemma set_methods_of: "set (methods_of mark) = {m. m \<in> {DELETE, GET, HEAD, POST, PUT} \<and> IsSet mark m}"
  by (auto simp: methods_of_def bit_methods_def)

lemma distinct_methods_of: "distinct (methods_of mark)"
  by (simp add: methods_of_def bit_methods_def)

lemma IsSet_SetMethod:
  assumes "m \<in> {DELETE, GET, HEAD, POST, PUT}" "m' \<in> {DELETE, GET, HEAD, POST, PUT}"
  shows "IsSet (SetMethod mark m) m' \<longleftrightarrow> m = m' \<or> IsSet mark m'"
  using assms by (auto simp: bit_set_bit_iff)

lemma HandlerMethods_list_bits:
  assumes "set ms \<subseteq> {DELETE, GET, HEAD, POST, PUT}"
  shows "set (methods_of (HandlerMethods_list ms)) = set ms"
proof -
  have "\<forall>m \<in> {DELETE, GET, HEAD, POST, PUT}. IsSet (fold (\<lambda>m mark. SetMethod mark m) ms mark) m \<longleftrightarrow>
      m \<in> set ms \<or> IsSet mark m" for mark
    using assms
  proof (induction ms arbitrary: mark)
    case (Cons a ms)
    then have a: "a \<in> {DELETE, GET, HEAD, POST, PUT}" "set ms \<subseteq> {DELETE, GET, HEAD, POST, PUT}" by simp_all
    show ?case
    proof
      fix m assume m: "m \<in> {DELETE, GET, HEAD, POST, PUT}"
      show "IsSet (fold (\<lambda>m mark. SetMethod mark m) (a # ms) mark) m \<longleftrightarrow> m \<in> set (a # ms) \<or> IsSet mark m"
        using bspec [OF Cons.IH [OF a(2), of "SetMethod mark a"] m]
        unfolding IsSet_SetMethod [OF a(1) m] by (auto simp del: IsSet.simps SetMethod.simps)
    qed
  qed simp
  moreover have "\<not> IsSet 0 m" if "m \<in> {DELETE, GET, HEAD, POST, PUT}" for m
    using that by (elim insertE; simp)
  ultimately have "\<forall>m \<in> {DELETE, GET, HEAD, POST, PUT}. IsSet (HandlerMethods_list ms) m \<longleftrightarrow> m \<in> set ms"
    unfolding HandlerMethods_list_def by blast
  then show ?thesis unfolding set_methods_of using assms by blast
qed

end
