(* ===== verification/Router.thy ===== *)
theory Router
  imports StringUtil Handler
begin

text \<open>
  \<^verbatim>\<open>include/daqi/router.hpp\<close> and \<^verbatim>\<open>src/router.cpp\<close>: the three routing tables.  A handler is a
  value of the type parameter \<open>'h\<close>; a null pointer to one is \<open>None\<close>.  The class template
  \<open>RoutingTable\<close> is the definition \<open>routing_Add\<close> over the operations its instances implement,
  and the locale \<open>routing_table\<close> is what it relies on.
\<close>

section \<open>Items and results\<close>

record UniformItem =
  ui_method :: string
  ui_url_matcher :: string
  ui_template_name :: string

record 'h RouterItem =
  handlers :: "(HandlerMethod, 'h) omap"
  template_name :: string

record 'h RouterResult =
  rr_handler :: "'h option"
  rr_template_name :: string
  rr_error :: string

definition empty_result :: "'h RouterResult" where
  "empty_result = \<lparr>rr_handler = None, rr_template_name = [], rr_error = []\<rparr>"

definition router_result :: "('h, 'x) RouterItem_scheme option \<Rightarrow> HandlerMethod \<Rightarrow> 'h RouterResult" where
  "router_result item method =
     (case item of
        None \<Rightarrow> empty_result
      | Some i \<Rightarrow> \<lparr>rr_handler = omap_find (<) (handlers i) method, rr_template_name = template_name i,
                    rr_error = []\<rparr>)"

section \<open>The class template RoutingTable\<close>

text \<open>
  \<open>Add\<close> of one method.  \<open>exs\<close> finds the item of a matcher, \<open>ins\<close> puts a new item into the
  table and \<open>upd\<close> is the write through the pointer \<open>exs\<close> returns.  The result is the
  table, the returned flag and the \<open>error\<close> argument.
\<close>

definition set_handler :: "HandlerMethod \<Rightarrow> 'h \<Rightarrow> ('h, 'x) RouterItem_scheme \<Rightarrow> ('h, 'x) RouterItem_scheme" where
  "set_handler method handler i = i\<lparr>handlers := omap_put (<) (handlers i) method handler\<rparr>"

definition new_router_item :: "bool \<Rightarrow> string \<Rightarrow> HandlerMethod \<Rightarrow> 'h \<Rightarrow> string \<Rightarrow> 'h RouterItem" where
  "new_router_item try_auto url_matcher method handler tname =
     (let t1 = (if tname = [] \<and> try_auto then url_matcher else tname);
          t2 = (if t1 \<noteq> [] \<and> last t1 = CHR ''/'' then t1 @ ''index'' else t1)
      in set_handler method handler \<lparr>handlers = [], template_name = t2\<rparr>)"

definition routing_Add ::
  "bool \<Rightarrow> ('t \<Rightarrow> string \<Rightarrow> ('h, 'x) RouterItem_scheme option) \<Rightarrow>
   ('t \<Rightarrow> string \<Rightarrow> 'h RouterItem \<Rightarrow> string \<Rightarrow> 't \<times> bool \<times> string) \<Rightarrow>
   ('t \<Rightarrow> string \<Rightarrow> (('h, 'x) RouterItem_scheme \<Rightarrow> ('h, 'x) RouterItem_scheme) \<Rightarrow> 't) \<Rightarrow>
   't \<Rightarrow> string \<Rightarrow> HandlerMethod \<Rightarrow> 'h \<Rightarrow> string \<Rightarrow> string \<Rightarrow> 't \<times> bool \<times> string" where
  "routing_Add try_auto exs ins upd t url_matcher method handler tname error =
     (case exs t url_matcher of
        None \<Rightarrow> ins t url_matcher (new_router_item try_auto url_matcher method handler tname) error
      | Some item \<Rightarrow> (upd t url_matcher (set_handler method handler), True, error))"

text \<open>\<open>Add\<close> of a set of methods: one after the other, up to the first that fails.\<close>

fun add_each :: "('t \<Rightarrow> HandlerMethod \<Rightarrow> string \<Rightarrow> 't \<times> bool \<times> string) \<Rightarrow> HandlerMethod list \<Rightarrow>
    't \<Rightarrow> string \<Rightarrow> 't \<times> bool \<times> string" where
  "add_each add [] t error = (t, True, error)"
| "add_each add (m # ms) t error =
     (case add t m error of
        (t', False, error') \<Rightarrow> (t', False, error')
      | (t', True, error') \<Rightarrow> add_each add ms t' error')"

definition routing_AddAll ::
  "bool \<Rightarrow> ('t \<Rightarrow> string \<Rightarrow> ('h, 'x) RouterItem_scheme option) \<Rightarrow>
   ('t \<Rightarrow> string \<Rightarrow> 'h RouterItem \<Rightarrow> string \<Rightarrow> 't \<times> bool \<times> string) \<Rightarrow>
   ('t \<Rightarrow> string \<Rightarrow> (('h, 'x) RouterItem_scheme \<Rightarrow> ('h, 'x) RouterItem_scheme) \<Rightarrow> 't) \<Rightarrow>
   't \<Rightarrow> string \<Rightarrow> HandlerMethods \<Rightarrow> 'h \<Rightarrow> string \<Rightarrow> string \<Rightarrow> 't \<times> bool \<times> string" where
  "routing_AddAll try_auto exs ins upd t url_matcher methods handler tname error =
     add_each (\<lambda>t m e. routing_Add try_auto exs ins upd t url_matcher m handler
                 (if tname = [] then url_matcher else tname) e)
       (methods_of methods) t error"

section \<open>EqualsRoutingTable\<close>

type_synonym 'h string_table = "(string, 'h RouterItem) omap"

definition Equals_Insert :: "boost_algo \<Rightarrow> 'h string_table \<Rightarrow> string \<Rightarrow> 'h RouterItem \<Rightarrow> string \<Rightarrow>
    'h string_table \<times> bool \<times> string" where
  "Equals_Insert B t url_matcher item error =
     (omap_insert (IgnoreCaseCompare B) t url_matcher item, True, [])"

definition Equals_Exists :: "boost_algo \<Rightarrow> 'h string_table \<Rightarrow> string \<Rightarrow> 'h RouterItem option" where
  "Equals_Exists B t url_matcher = omap_find (IgnoreCaseCompare B) t url_matcher"

definition Equals_update :: "boost_algo \<Rightarrow> 'h string_table \<Rightarrow> string \<Rightarrow> ('h RouterItem \<Rightarrow> 'h RouterItem) \<Rightarrow>
    'h string_table" where
  "Equals_update B t url_matcher f =
     (case Equals_Exists B t url_matcher of
        None \<Rightarrow> t | Some item \<Rightarrow> omap_put (IgnoreCaseCompare B) t url_matcher (f item))"

definition Equals_Match :: "boost_algo \<Rightarrow> 'h string_table \<Rightarrow> string \<Rightarrow> HandlerMethod \<Rightarrow> bool \<Rightarrow>
    'h RouterResult \<times> bool" where
  "Equals_Match B t url method url_exists =
     (let item = Equals_Exists B t url in (router_result item method, item \<noteq> None))"

definition to_uniform_items :: "string \<Rightarrow> ('h, 'x) RouterItem_scheme \<Rightarrow> UniformItem list" where
  "to_uniform_items url_matcher ri =
     map (\<lambda>(m, h). \<lparr>ui_method = HandlerMethodName m, ui_url_matcher = url_matcher,
                     ui_template_name = template_name ri\<rparr>) (handlers ri)"

definition Equals_Uniforms :: "'h string_table \<Rightarrow> UniformItem list" where
  "Equals_Uniforms t = concat (map (\<lambda>(u, ri). to_uniform_items u ri) t)"

definition Equals_AddAll where
  "Equals_AddAll B = routing_AddAll True (Equals_Exists B) (Equals_Insert B) (Equals_update B)"

section \<open>StartsWithRoutingTable\<close>

record 'h StartsRouterResult = "'h RouterResult" +
  rr_key :: string

definition Starts_Insert :: "boost_algo \<Rightarrow> 'h string_table \<Rightarrow> string \<Rightarrow> 'h RouterItem \<Rightarrow> string \<Rightarrow>
    'h string_table \<times> bool \<times> string" where
  "Starts_Insert B t url_matcher item error =
     (omap_insert (IgnoreCaseCompareDESC B) t url_matcher item, True, [])"

definition Starts_Exists :: "boost_algo \<Rightarrow> 'h string_table \<Rightarrow> string \<Rightarrow> 'h RouterItem option" where
  "Starts_Exists B t url_matcher = omap_find (IgnoreCaseCompareDESC B) t url_matcher"

definition Starts_update :: "boost_algo \<Rightarrow> 'h string_table \<Rightarrow> string \<Rightarrow> ('h RouterItem \<Rightarrow> 'h RouterItem) \<Rightarrow>
    'h string_table" where
  "Starts_update B t url_matcher f =
     (case Starts_Exists B t url_matcher of
        None \<Rightarrow> t | Some item \<Rightarrow> omap_put (IgnoreCaseCompareDESC B) t url_matcher (f item))"

definition starts_result :: "'h RouterResult \<Rightarrow> string \<Rightarrow> 'h StartsRouterResult" where
  "starts_result r key = RouterResult.extend r \<lparr>rr_key = key\<rparr>"

fun Starts_Match :: "boost_algo \<Rightarrow> 'h string_table \<Rightarrow> string \<Rightarrow> HandlerMethod \<Rightarrow> bool \<Rightarrow>
    'h StartsRouterResult \<times> bool" where
  "Starts_Match B [] url method url_exists = (starts_result empty_result [], url_exists)"
| "Starts_Match B ((key, item) # t) url method url_exists =
     (if iStartsWith B url key then (starts_result (router_result (Some item) method) key, True)
      else Starts_Match B t url method url_exists)"

definition Starts_Uniforms :: "'h string_table \<Rightarrow> UniformItem list" where
  "Starts_Uniforms t = concat (map (\<lambda>(u, ri). to_uniform_items u ri) t)"

definition Starts_AddAll where
  "Starts_AddAll B = routing_AddAll False (Starts_Exists B) (Starts_Insert B) (Starts_update B)"

section \<open>RegexMatchRoutingTable\<close>

text \<open>
  The user's patterns are compiled and matched by \<^verbatim>\<open>std::regex\<close>, which is the record
  \<open>regex_lib\<close>: \<open>rx_assign\<close> gives a pattern or the message of the exception, \<open>rx_match\<close> the
  sub-matches, no match, or the message of the exception.  The one pattern the code itself
  searches for, two braces around word characters, is written out.
\<close>

record 'r regex_lib =
  rx_assign :: "string \<Rightarrow> string + 'r"
  rx_match :: "'r \<Rightarrow> string \<Rightarrow> string + string list option"

record UniformRegexItem = UniformItem +
  ui_regex_matcher :: string

record ('h, 'r) RegexRouterItem = "'h RouterItem" +
  rx_url_matcher :: string
  rx_regex_matcher :: string
  rx_pattern :: 'r
  rx_parameters :: "string list"

record 'h RegexRouterResult = "'h RouterResult" +
  rr_parameters :: "string list"
  rr_values :: "string list"

definition word_char :: "char \<Rightarrow> bool" where
  "word_char c \<longleftrightarrow> is_digit c \<or> (65 \<le> code c \<and> code c \<le> 90) \<or> (97 \<le> code c \<and> code c \<le> 122) \<or> c = CHR ''_''"

text \<open>A match of the pattern at the start of a string: the name and what follows the match.\<close>

definition brace_match :: "string \<Rightarrow> (string \<times> string) option" where
  "brace_match s =
     (case s of
        c1 # c2 # t \<Rightarrow>
          if c1 = CHR ''{'' \<and> c2 = CHR ''{'' then
            (let name = takeWhile word_char t; rest = dropWhile word_char t
             in case rest of
                  d1 # d2 # u \<Rightarrow> if d1 = CHR ''}'' \<and> d2 = CHR ''}'' then Some (name, u) else None
                | _ \<Rightarrow> None)
          else None
      | _ \<Rightarrow> None)"

lemma brace_match_shorter: "brace_match s = Some (name, rest) \<Longrightarrow> length rest < length s"
proof -
  assume a: "brace_match s = Some (name, rest)"
  then obtain c1 c2 t d1 d2 where "s = c1 # c2 # t" "dropWhile word_char t = d1 # d2 # rest"
    by (auto simp: brace_match_def Let_def split: list.splits if_splits)
  moreover have "length (dropWhile word_char t) \<le> length t" by (rule length_dropWhile_le)
  ultimately show ?thesis by simp
qed

text \<open>
  \<open>to_parameter_pattern\<close>: all matches are found first, from left to right, and then replaced by
  a group of word characters.  The result is the new pattern and the names.
\<close>

function to_parameter_pattern :: "string \<Rightarrow> string \<times> string list" where
  "to_parameter_pattern s =
     (case s of
        [] \<Rightarrow> ([], [])
      | c # t \<Rightarrow>
          (case brace_match s of
             Some (name, rest) \<Rightarrow> (let (p, ns) = to_parameter_pattern rest in (''('' @ [CHR 0x5C] @ ''w*)'' @ p, name # ns))
           | None \<Rightarrow> (let (p, ns) = to_parameter_pattern t in (c # p, ns))))"
  by pat_completeness auto
termination
  by (relation "measure length") (auto dest: brace_match_shorter)

declare to_parameter_pattern.simps [simp del]

definition Regex_Insert :: "'r regex_lib \<Rightarrow> ('h, 'r) RegexRouterItem list \<Rightarrow> string \<Rightarrow> 'h RouterItem \<Rightarrow> string \<Rightarrow>
    ('h, 'r) RegexRouterItem list \<times> bool \<times> string" where
  "Regex_Insert R t url_matcher item error =
     (let (pat, names) = to_parameter_pattern url_matcher
      in case rx_assign R pat of
           Inr r \<Rightarrow> (t @ [RouterItem.extend item \<lparr>rx_url_matcher = url_matcher, rx_regex_matcher = pat,
                       rx_pattern = r, rx_parameters = names\<rparr>], True, [])
         | Inl e \<Rightarrow> (t, False, e))"

fun Regex_Exists :: "('h, 'r) RegexRouterItem list \<Rightarrow> string \<Rightarrow> ('h, 'r) RegexRouterItem option" where
  "Regex_Exists [] url_matcher = None"
| "Regex_Exists (item # t) url_matcher =
     (if url_matcher = rx_url_matcher item then Some item else Regex_Exists t url_matcher)"

fun Regex_update :: "('h, 'r) RegexRouterItem list \<Rightarrow> string \<Rightarrow>
    (('h, 'r) RegexRouterItem \<Rightarrow> ('h, 'r) RegexRouterItem) \<Rightarrow> ('h, 'r) RegexRouterItem list" where
  "Regex_update [] url_matcher f = []"
| "Regex_update (item # t) url_matcher f =
     (if url_matcher = rx_url_matcher item then f item # t else item # Regex_update t url_matcher f)"

definition regex_result :: "'h RouterResult \<Rightarrow> string list \<Rightarrow> string list \<Rightarrow> 'h RegexRouterResult" where
  "regex_result r ps vs = RouterResult.extend r \<lparr>rr_parameters = ps, rr_values = vs\<rparr>"

fun Regex_Match :: "'r regex_lib \<Rightarrow> ('h, 'r) RegexRouterItem list \<Rightarrow> string \<Rightarrow> HandlerMethod \<Rightarrow> bool \<Rightarrow>
    'h RegexRouterResult \<times> bool" where
  "Regex_Match R [] url method url_exists = (regex_result empty_result [] [], url_exists)"
| "Regex_Match R (item # t) url method url_exists =
     (case rx_match R (rx_pattern item) url of
        Inl e \<Rightarrow> (regex_result (empty_result\<lparr>rr_error := e\<rparr>) [] [], url_exists)
      | Inr None \<Rightarrow> Regex_Match R t url method url_exists
      | Inr (Some result) \<Rightarrow>
          (let rr = router_result (Some item) method
           in if rr_handler rr = None then (regex_result empty_result [] [], True)
              else (regex_result rr (rx_parameters item) (drop 1 result), True)))"

definition Regex_Uniforms :: "('h, 'r) RegexRouterItem list \<Rightarrow> UniformRegexItem list" where
  "Regex_Uniforms t = concat (map (\<lambda>ri. map (\<lambda>(m, h).
     \<lparr>ui_method = HandlerMethodName m, ui_url_matcher = rx_url_matcher ri,
      ui_template_name = template_name ri, ui_regex_matcher = rx_regex_matcher ri\<rparr>) (handlers ri)) t)"

definition Regex_AddAll where
  "Regex_AddAll R = routing_AddAll False Regex_Exists (Regex_Insert R) Regex_update"

end
