(* ===== verification/RouterProofs.thy ===== *)
theory RouterProofs
  imports Router
begin

text \<open>
  What the routing tables guarantee.  The locale \<open>routing_table\<close> states what \<open>RoutingTable::Add\<close>
  needs of a table; the three tables of the code are its interpretations, the two ordered ones
  for every comparator that keeps Boost's promises (locale \<open>boost\<close>).
\<close>

section \<open>Case-insensitive order under Boost's laws\<close>

lemma iLess_lex: "boost_laws B \<Longrightarrow> IgnoreCaseCompare B l r = lex_less (\<lambda>c. schar (std_toupper c)) l r"
  by (simp add: boost_laws_def IgnoreCaseCompare_def iLess_def)

lemma upper_key_iff: "map (\<lambda>c. schar (std_toupper c)) a = map (\<lambda>c. schar (std_toupper c)) b \<longleftrightarrow> upper a = upper b"
proof (induction a arbitrary: b)
  case (Cons x a)
  then show ?case by (cases b) (simp_all add: upper_def)
qed (simp add: upper_def)

lemma IgnoreCaseCompare_order: "boost_laws B \<Longrightarrow> strict_weak_order (IgnoreCaseCompare B)"
proof -
  assume "boost_laws B"
  then have "IgnoreCaseCompare B = lex_less (\<lambda>c. schar (std_toupper c))" by (intro ext) (rule iLess_lex)
  then show ?thesis by (simp only: lex.strict_weak_order_axioms)
qed

lemma IgnoreCaseCompare_equiv:
  "boost_laws B \<Longrightarrow> \<not> IgnoreCaseCompare B a b \<and> \<not> IgnoreCaseCompare B b a \<longleftrightarrow> upper a = upper b"
  by (simp only: iLess_lex lex_less_equiv_iff upper_key_iff)

locale boost =
  fixes B :: boost_algo
  assumes laws: "boost_laws B"

sublocale boost \<subseteq> nocase: strict_weak_order "IgnoreCaseCompare B"
  by (rule IgnoreCaseCompare_order [OF laws])

interpretation classic: boost boost_classic
  by unfold_locales (rule boost_classic_laws)

section \<open>The interface of a table\<close>

definition handler_at :: "('t \<Rightarrow> string \<Rightarrow> ('h, 'x) RouterItem_scheme option) \<Rightarrow> 't \<Rightarrow> string \<Rightarrow>
    HandlerMethod \<Rightarrow> 'h option" where
  "handler_at exs t u m = (case exs t u of None \<Rightarrow> None | Some i \<Rightarrow> omap_find (<) (handlers i) m)"

locale routing_table =
  fixes inv :: "'t \<Rightarrow> bool"
    and same :: "string \<Rightarrow> string \<Rightarrow> bool"
    and exs :: "'t \<Rightarrow> string \<Rightarrow> ('h, 'x) RouterItem_scheme option"
    and ins :: "'t \<Rightarrow> string \<Rightarrow> 'h RouterItem \<Rightarrow> string \<Rightarrow> 't \<times> bool \<times> string"
    and upd :: "'t \<Rightarrow> string \<Rightarrow> (('h, 'x) RouterItem_scheme \<Rightarrow> ('h, 'x) RouterItem_scheme) \<Rightarrow> 't"
  assumes item_sorted: "inv t \<Longrightarrow> exs t u = Some i \<Longrightarrow> omap_sorted (<) (handlers i)"
    and exs_same: "inv t \<Longrightarrow> same u w \<Longrightarrow> exs t w = exs t u"
    and ins_ok: "inv t \<Longrightarrow> exs t u = None \<Longrightarrow> omap_sorted (<) (handlers new) \<Longrightarrow> ins t u new e = (t', True, e') \<Longrightarrow>
      inv t' \<and> (\<exists>i'. exs t' u = Some i' \<and> handlers i' = handlers new) \<and> (\<forall>w. \<not> same u w \<longrightarrow> exs t' w = exs t w)"
    and upd_ok: "inv t \<Longrightarrow> exs t u = Some i \<Longrightarrow>
      inv (upd t u (set_handler m h)) \<and> exs (upd t u (set_handler m h)) u = Some (set_handler m h i) \<and>
      (\<forall>w. \<not> same u w \<longrightarrow> exs (upd t u (set_handler m h)) w = exs t w)"
begin

lemma Add_ok:
  assumes "inv t" "routing_Add a exs ins upd t u m h tn e = (t', True, e')"
  shows "inv t' \<and> (\<forall>m'. handler_at exs t' u m' = (if m' = m then Some h else handler_at exs t u m')) \<and>
     (\<forall>w. \<not> same u w \<longrightarrow> exs t' w = exs t w)"
proof (cases "exs t u")
  case None
  let ?i = "new_router_item a u m h tn"
  have hi: "handlers ?i = [(m, h)]" by (simp add: new_router_item_def set_handler_def Let_def)
  have i: "ins t u ?i e = (t', True, e')" using assms(2) None by (simp add: routing_Add_def)
  have "omap_sorted (<) (handlers ?i)" by (simp add: hi)
  then have r: "inv t' \<and> (\<exists>i'. exs t' u = Some i' \<and> handlers i' = handlers ?i) \<and>
      (\<forall>w. \<not> same u w \<longrightarrow> exs t' w = exs t w)"
    by (rule ins_ok [OF assms(1) None _ i])
  then show ?thesis using None hi by (auto simp: handler_at_def)
next
  case (Some i)
  have t': "t' = upd t u (set_handler m h)" using assms(2) Some by (simp add: routing_Add_def)
  have r: "inv t'" "exs t' u = Some (set_handler m h i)" "\<forall>w. \<not> same u w \<longrightarrow> exs t' w = exs t w"
    using upd_ok [OF assms(1) Some, of m h] unfolding t' by blast+
  have srt: "omap_sorted (<) (handlers i)" by (rule item_sorted [OF assms(1) Some])
  have "omap_find (<) (omap_put (<) (handlers i) m h) m' = (if m' = m then Some h else omap_find (<) (handlers i) m')" for m'
    using methods.find_put_equiv [OF srt, of m m'] methods.find_put_other [OF srt, of m m'] by (auto simp: neq_iff)
  with r Some show ?thesis by (simp add: handler_at_def set_handler_def)
qed

lemma add_each_ok:
  assumes "inv t" "add_each (\<lambda>t m e. routing_Add a exs ins upd t u m h tn e) ms t e = (t', True, e')"
  shows "inv t' \<and> (\<forall>m. handler_at exs t' u m = (if m \<in> set ms then Some h else handler_at exs t u m)) \<and>
     (\<forall>w. \<not> same u w \<longrightarrow> exs t' w = exs t w)"
  using assms
proof (induction ms arbitrary: t e)
  case (Cons m ms)
  obtain t1 ok e1 where add: "routing_Add a exs ins upd t u m h tn e = (t1, ok, e1)"
    by (cases "routing_Add a exs ins upd t u m h tn e")
  with Cons.prems(2) have ok: "ok" by (cases ok) simp_all
  note one = Add_ok [OF Cons.prems(1), of a u m h tn e t1 e1]
  have "add_each (\<lambda>t m e. routing_Add a exs ins upd t u m h tn e) ms t1 e1 = (t', True, e')"
    using Cons.prems(2) add ok by simp
  from Cons.IH [OF _ this] one add ok show ?case by auto
qed simp

lemma AddAll_ok:
  assumes "inv t" "routing_AddAll a exs ins upd t u ms h tn e = (t', True, e')"
  shows "inv t'" "handler_at exs t' u m = (if m \<in> set (methods_of ms) then Some h else handler_at exs t u m)"
    "\<not> same u w \<Longrightarrow> exs t' w = exs t w"
  using add_each_ok [OF assms(1)] assms(2) unfolding routing_AddAll_def by blast+

lemma handler_at_same: "inv t \<Longrightarrow> same u w \<Longrightarrow> handler_at exs t w m = handler_at exs t u m"
  using exs_same by (simp add: handler_at_def)

end

section \<open>The tables of the code\<close>

definition table_inv :: "(string \<Rightarrow> string \<Rightarrow> bool) \<Rightarrow> 'h string_table \<Rightarrow> bool" where
  "table_inv lt t \<longleftrightarrow> omap_sorted lt t \<and> (\<forall>p \<in> set t. omap_sorted (<) (handlers (snd p)))"

definition same_nocase :: "string \<Rightarrow> string \<Rightarrow> bool" where
  "same_nocase u w \<longleftrightarrow> upper u = upper w"

lemma snd_omap_put: "snd ` set (omap_put lt m k v) \<subseteq> insert v (snd ` set m)"
  by (induction lt m k v rule: omap_put.induct) auto

lemma ordered_table_laws:
  assumes "strict_weak_order lt" "\<And>a b. \<not> lt a b \<and> \<not> lt b a \<longleftrightarrow> upper a = upper b"
  shows "routing_table (table_inv lt) same_nocase (omap_find lt)
    (\<lambda>t u i e. (omap_insert lt t u i, True, []))
    (\<lambda>t u f. case omap_find lt t u of None \<Rightarrow> t | Some i \<Rightarrow> omap_put lt t u (f i))"
proof -
  note eqv = assms(2) and swo = assms(1)
  show ?thesis
  proof (unfold_locales, goal_cases)
    case (1 t u i)
    then show ?case using strict_weak_order.find_iff [OF swo] by (fastforce simp: table_inv_def)
  next
    case (2 t u w)
    then have "\<not> lt w u" "\<not> lt u w" using eqv by (auto simp: same_nocase_def)
    then show ?case by (rule strict_weak_order.find_equiv [OF swo])
  next
    case (3 t u i e t' e')
    then have srt: "omap_sorted lt t" and t': "t' = omap_insert lt t u i" by (auto simp: table_inv_def)
    have uu: "\<not> lt u u" using swo by (rule strict_weak_order.irrefl)
    have "table_inv lt t'"
      using 3 strict_weak_order.sorted_insert [OF swo srt] set_omap_insert [of lt t u i]
      unfolding t' table_inv_def by fastforce
    moreover have "omap_find lt t' u = Some i"
      using strict_weak_order.find_insert_equiv [OF swo srt uu uu, of i] 3(2) by (simp add: t')
    moreover have "omap_find lt t' w = omap_find lt t w" if "\<not> same_nocase u w" for w
      using strict_weak_order.find_insert_other [OF swo srt] that eqv unfolding t' same_nocase_def by blast
    ultimately show ?case by blast
  next
    case (4 t u i m h)
    then have srt: "omap_sorted lt t" by (simp add: table_inv_def)
    have uu: "\<not> lt u u" using swo by (rule strict_weak_order.irrefl)
    have "omap_sorted (<) (handlers i)"
      using 4 strict_weak_order.find_iff [OF swo srt] by (fastforce simp: table_inv_def)
    then have "omap_sorted (<) (handlers (set_handler m h i))"
      by (simp add: set_handler_def methods.sorted_put)
    then have "table_inv lt (omap_put lt t u (set_handler m h i))"
      using 4 strict_weak_order.sorted_put [OF swo srt] snd_omap_put [of lt t u "set_handler m h i"]
      unfolding table_inv_def by fastforce
    moreover have "omap_find lt (omap_put lt t u (set_handler m h i)) u = Some (set_handler m h i)"
      by (rule strict_weak_order.find_put_equiv [OF swo srt uu uu])
    moreover have "omap_find lt (omap_put lt t u (set_handler m h i)) w = omap_find lt t w"
      if "\<not> same_nocase u w" for w
      using strict_weak_order.find_put_other [OF swo srt] that eqv unfolding same_nocase_def by blast
    ultimately show ?case using 4(2) by simp
  qed
qed

context boost
begin

lemma nocase_equiv: "\<not> IgnoreCaseCompare B a b \<and> \<not> IgnoreCaseCompare B b a \<longleftrightarrow> upper a = upper b"
  by (rule IgnoreCaseCompare_equiv [OF laws])

lemma nocase_desc_equiv:
  "\<not> IgnoreCaseCompareDESC B a b \<and> \<not> IgnoreCaseCompareDESC B b a \<longleftrightarrow> upper a = upper b"
  using nocase_equiv [of a b] by (auto simp: IgnoreCaseCompareDESC_def)

lemma nocase_desc_order: "strict_weak_order (IgnoreCaseCompareDESC B)"
proof -
  have "IgnoreCaseCompareDESC B = (\<lambda>a b. IgnoreCaseCompare B b a)"
    by (intro ext) (simp add: IgnoreCaseCompareDESC_def)
  then show ?thesis by (simp only: nocase.desc.strict_weak_order_axioms)
qed

end

lemma Equals_functions:
  "Equals_Exists B = omap_find (IgnoreCaseCompare B)"
  "Equals_Insert B = (\<lambda>t u i e. (omap_insert (IgnoreCaseCompare B) t u i, True, []))"
  "Equals_update B = (\<lambda>t u f. case omap_find (IgnoreCaseCompare B) t u of None \<Rightarrow> t
     | Some i \<Rightarrow> omap_put (IgnoreCaseCompare B) t u (f i))"
  by (intro ext; simp add: Equals_Exists_def Equals_Insert_def Equals_update_def)+

sublocale boost \<subseteq> equals: routing_table "table_inv (IgnoreCaseCompare B)" same_nocase
    "Equals_Exists B" "Equals_Insert B" "Equals_update B"
  unfolding Equals_functions by (rule ordered_table_laws [OF nocase.strict_weak_order_axioms nocase_equiv])

lemma Starts_functions:
  "Starts_Exists B = omap_find (IgnoreCaseCompareDESC B)"
  "Starts_Insert B = (\<lambda>t u i e. (omap_insert (IgnoreCaseCompareDESC B) t u i, True, []))"
  "Starts_update B = (\<lambda>t u f. case omap_find (IgnoreCaseCompareDESC B) t u of None \<Rightarrow> t
     | Some i \<Rightarrow> omap_put (IgnoreCaseCompareDESC B) t u (f i))"
  by (intro ext; simp add: Starts_Exists_def Starts_Insert_def Starts_update_def)+

sublocale boost \<subseteq> starts: routing_table "table_inv (IgnoreCaseCompareDESC B)" same_nocase
    "Starts_Exists B" "Starts_Insert B" "Starts_update B"
  unfolding Starts_functions by (rule ordered_table_laws [OF nocase_desc_order nocase_desc_equiv])

definition regex_inv :: "('h, 'r) RegexRouterItem list \<Rightarrow> bool" where
  "regex_inv t \<longleftrightarrow> (\<forall>i \<in> set t. omap_sorted (<) (handlers i))"

lemma Regex_Exists_in: "Regex_Exists t u = Some i \<Longrightarrow> i \<in> set t"
  by (induction t u rule: Regex_Exists.induct) (auto split: if_splits)

lemma Regex_Exists_append:
  "Regex_Exists (t @ [i]) u = (case Regex_Exists t u of
     None \<Rightarrow> if u = rx_url_matcher i then Some i else None | Some j \<Rightarrow> Some j)"
  by (induction t u rule: Regex_Exists.induct) auto

lemma Regex_update_Exists:
  "Regex_Exists t u = Some i \<Longrightarrow> Regex_Exists (Regex_update t u (set_handler m h)) w =
     (if w = u then Some (set_handler m h i) else Regex_Exists t w)"
  by (induction t u rule: Regex_Exists.induct) (auto simp: set_handler_def)

lemma Regex_update_set:
  "set (Regex_update t u f) \<subseteq> set t \<union> f ` set t"
  by (induction t u f rule: Regex_update.induct) auto

interpretation regexes: routing_table regex_inv "(=)" Regex_Exists "Regex_Insert R" Regex_update for R
proof (unfold_locales, goal_cases)
  case (1 t u i)
  then show ?case using Regex_Exists_in by (fastforce simp: regex_inv_def)
next
  case (3 t u i e t' e')
  then show ?case
    by (auto simp: Regex_Insert_def regex_inv_def Regex_Exists_append RouterItem.defs
        split: sum.splits prod.splits option.splits)
next
  case (4 t u i m h)
  have "omap_sorted (<) (handlers (set_handler m h j))" if "j \<in> set t" for j
    using 4(1) that by (simp add: regex_inv_def set_handler_def methods.sorted_put)
  then have "regex_inv (Regex_update t u (set_handler m h))"
    using 4(1) Regex_update_set [of t u "set_handler m h"] by (auto simp: regex_inv_def)
  with Regex_update_Exists [OF 4(2)] show ?case by simp
qed simp

section \<open>Registering and finding\<close>

lemma add_each_True:
  "(\<And>t m e. fst (snd (add t m e))) \<Longrightarrow> fst (snd (add_each add ms t e))"
proof (induction ms arbitrary: t e)
  case (Cons m ms)
  obtain t' ok e' where a: "add t m e = (t', ok, e')" by (cases "add t m e")
  then have "ok" using Cons.prems [of t m e] by simp
  with a Cons show ?case by simp
qed simp

lemma AddAll_True:
  assumes "\<And>t u i e. fst (snd (ins t u i e))"
  shows "fst (snd (routing_AddAll a exs ins upd t u ms h tn e))"
  unfolding routing_AddAll_def
  by (rule add_each_True) (use assms in \<open>auto simp: routing_Add_def split: option.splits\<close>)

lemma Equals_Match_handler:
  "rr_handler (fst (Equals_Match B t url m x)) = handler_at (Equals_Exists B) t url m"
  by (simp add: Equals_Match_def router_result_def handler_at_def empty_result_def Let_def split: option.splits)

lemma same_nocase_iEquals: "boost_laws B \<Longrightarrow> same_nocase u w \<longleftrightarrow> iEquals B w u"
  by (auto simp: boost_laws_def iEquals_def same_nocase_def)

lemma Equals_AddAll_True: "fst (snd (Equals_AddAll B t u ms h tn e))"
  unfolding Equals_AddAll_def by (rule AddAll_True) (simp add: Equals_Insert_def)

text \<open>The template of a route that is new: the given name, or the URL, or the index of a directory.\<close>

definition default_template :: "string \<Rightarrow> string \<Rightarrow> string" where
  "default_template u tn =
     (let n = (if tn = [] then u else tn) in if n \<noteq> [] \<and> last n = CHR ''/'' then n @ ''index'' else n)"

definition route_template :: "'h RouterItem option \<Rightarrow> string \<Rightarrow> string \<Rightarrow> string" where
  "route_template old u tn = (case old of Some i \<Rightarrow> RouterItem.template_name i | None \<Rightarrow> default_template u tn)"

context boost
begin

lemma equals_template_Add:
  assumes "table_inv (IgnoreCaseCompare B) t"
    and "routing_Add True (Equals_Exists B) (Equals_Insert B) (Equals_update B) t u m h (if tn = [] then u else tn) e = (t', True, e')"
  shows "\<exists>i. Equals_Exists B t' u = Some i \<and> RouterItem.template_name i = route_template (Equals_Exists B t u) u tn"
proof (cases "Equals_Exists B t u")
  case None
  have srt: "omap_sorted (IgnoreCaseCompare B) t" using assms(1) by (simp add: table_inv_def)
  have uu: "\<not> IgnoreCaseCompare B u u" by (rule nocase.irrefl)
  have t': "t' = omap_insert (IgnoreCaseCompare B) t u (new_router_item True u m h (if tn = [] then u else tn))"
    using assms(2) None by (simp add: routing_Add_def Equals_Insert_def)
  have "Equals_Exists B t' u = Some (new_router_item True u m h (if tn = [] then u else tn))"
    using nocase.find_insert_equiv [OF srt uu uu] None unfolding t' Equals_Exists_def by simp
  then show ?thesis using None
    by (simp add: new_router_item_def set_handler_def route_template_def default_template_def Let_def)
next
  case (Some i)
  have t': "t' = Equals_update B t u (set_handler m h)" using assms(2) Some by (simp add: routing_Add_def)
  have "Equals_Exists B t' u = Some (set_handler m h i)"
    unfolding t' using equals.upd_ok [OF assms(1) Some, of m h] by blast
  then show ?thesis using Some by (simp add: set_handler_def route_template_def)
qed

lemma equals_template_each:
  assumes "table_inv (IgnoreCaseCompare B) t"
    and "add_each (\<lambda>t m e. routing_Add True (Equals_Exists B) (Equals_Insert B) (Equals_update B) t u m h (if tn = [] then u else tn) e) ms t e = (t', True, e')"
  shows "if ms = [] then t' = t
     else \<exists>i. Equals_Exists B t' u = Some i \<and> RouterItem.template_name i = route_template (Equals_Exists B t u) u tn"
  using assms
proof (induction ms arbitrary: t e)
  case (Cons m ms)
  obtain t1 ok e1 where add: "routing_Add True (Equals_Exists B) (Equals_Insert B) (Equals_update B) t u m h (if tn = [] then u else tn) e = (t1, ok, e1)"
    by (cases "routing_Add True (Equals_Exists B) (Equals_Insert B) (Equals_update B) t u m h (if tn = [] then u else tn) e")
  with Cons.prems(2) have ok: "ok" by (cases ok) simp_all
  note add = add [unfolded ok [THEN eqTrueI]]
  obtain i where i: "Equals_Exists B t1 u = Some i" "RouterItem.template_name i = route_template (Equals_Exists B t u) u tn"
    using equals_template_Add [OF Cons.prems(1) add] by blast
  have inv: "table_inv (IgnoreCaseCompare B) t1" using equals.Add_ok [OF Cons.prems(1) add] by blast
  have "add_each (\<lambda>t m e. routing_Add True (Equals_Exists B) (Equals_Insert B) (Equals_update B) t u m h (if tn = [] then u else tn) e) ms t1 e1 = (t', True, e')"
    using Cons.prems(2) add by simp
  from Cons.IH [OF inv this] i show ?case by (auto simp: route_template_def split: if_splits)
qed simp

lemma equals_added:
  assumes "table_inv (IgnoreCaseCompare B) t" "Equals_AddAll B t u ms h tn e = (t', ok, e')"
  shows "ok \<and> table_inv (IgnoreCaseCompare B) t' \<and>
     (if iEquals B url u \<and> methods_of ms \<noteq> []
      then \<exists>i. Equals_Exists B t' url = Some i \<and>
        RouterItem.template_name i = route_template (Equals_Exists B t u) u tn \<and>
        (\<forall>m. omap_find (<) (handlers i) m =
           (if m \<in> set (methods_of ms) then Some h else handler_at (Equals_Exists B) t u m))
      else Equals_Exists B t' url = Equals_Exists B t url)"
proof -
  have ok: "ok" using Equals_AddAll_True [of B t u ms h tn e] by (simp add: assms(2))
  then have add: "routing_AddAll True (Equals_Exists B) (Equals_Insert B) (Equals_update B) t u ms h tn e = (t', True, e')"
    using assms(2) by (simp add: Equals_AddAll_def)
  note A = equals.AddAll_ok [OF assms(1) add]
  note T = equals_template_each [OF assms(1) add [unfolded routing_AddAll_def]]
  have same: "same_nocase u url \<longleftrightarrow> iEquals B url u" by (rule same_nocase_iEquals [OF laws])
  show ?thesis
  proof (cases "iEquals B url u \<and> methods_of ms \<noteq> []")
    case True
    then have s: "same_nocase u url" using same by simp
    obtain i where i: "Equals_Exists B t' u = Some i" "RouterItem.template_name i = route_template (Equals_Exists B t u) u tn"
      using T True by auto
    have "Equals_Exists B t' url = Some i" using equals.exs_same [OF A(1) s] i(1) by simp
    moreover have "omap_find (<) (handlers i) m = (if m \<in> set (methods_of ms) then Some h else handler_at (Equals_Exists B) t u m)" for m
      using A(2) [of m] i(1) by (simp add: handler_at_def)
    ultimately show ?thesis using True ok A(1) i(2) by simp
  next
    case False
    then have "Equals_Exists B t' url = Equals_Exists B t url"
      using T A(3) [of url] same by (cases "methods_of ms = []") auto
    with False ok A(1) show ?thesis by auto
  qed
qed

lemma equals_found:
  assumes "table_inv (IgnoreCaseCompare B) t" "Equals_AddAll B t u ms h tn e = (t', ok, e')"
  shows "rr_handler (fst (Equals_Match B t' url m x)) =
     (if iEquals B url u \<and> m \<in> set (methods_of ms) then Some h
      else rr_handler (fst (Equals_Match B t url m x)))"
proof (cases "iEquals B url u \<and> methods_of ms \<noteq> []")
  case True
  then have "same_nocase u url" using same_nocase_iEquals [OF laws] by simp
  then have "handler_at (Equals_Exists B) t u m = handler_at (Equals_Exists B) t url m"
    using equals.handler_at_same [OF assms(1)] by simp
  then show ?thesis using equals_added [OF assms, of url] True by (auto simp: Equals_Match_handler handler_at_def)
next
  case False
  then show ?thesis using equals_added [OF assms, of url] by (auto simp: Equals_Match_handler handler_at_def)
qed

end

text \<open>
  (C16) Registering a handler for a set of methods under a URL always succeeds in the table of
  exact URLs and keeps the table in order.  Afterwards the item of a URL that is the same up to case
  has this handler for those methods, for the other methods the handlers it had before, and the
  template it had before, or, if there was no item, the one that was named, which by default is that
  of the URL.  Every other URL has the item it had, handlers and template, or none; so do all URLs if
  the set of methods is empty.  A request finds its handler accordingly.
\<close>
theorem equals_route_added:
  assumes "boost_laws B" "table_inv (IgnoreCaseCompare B) t" "Equals_AddAll B t u ms h tn e = (t', ok, e')"
  shows "ok \<and> table_inv (IgnoreCaseCompare B) t' \<and>
     (if iEquals B url u \<and> methods_of ms \<noteq> []
      then \<exists>i. Equals_Exists B t' url = Some i \<and>
        RouterItem.template_name i = route_template (Equals_Exists B t u) u tn \<and>
        (\<forall>m. omap_find (<) (handlers i) m =
           (if m \<in> set (methods_of ms) then Some h else handler_at (Equals_Exists B) t u m))
      else Equals_Exists B t' url = Equals_Exists B t url) \<and>
     rr_handler (fst (Equals_Match B t' url m x)) =
        (if iEquals B url u \<and> m \<in> set (methods_of ms) then Some h
         else rr_handler (fst (Equals_Match B t url m x)))"
  using boost.equals_added [OF boost.intro [OF assms(1)] assms(2,3), of url]
    boost.equals_found [OF boost.intro [OF assms(1)] assms(2,3), of url m x] by blast

theorem equals_route_added_witness:
  "\<exists>i. Equals_Exists boost_classic
     (fst (Equals_AddAll boost_classic [] ''/Login'' (HandlerMethods_list [GET, POST]) (7::nat) [] []))
     ''/login'' = Some i \<and> RouterItem.template_name i = ''/Login'' \<and> omap_find (<) (handlers i) POST = Some 7"
proof -
  let ?r = "Equals_AddAll boost_classic [] ''/Login'' (HandlerMethods_list [GET, POST]) (7::nat) [] []"
  have r: "?r = (fst ?r, fst (snd ?r), snd (snd ?r))" by simp
  have i: "iEquals boost_classic ''/login'' ''/Login''"
    by code_simp
  have m: "set (methods_of (HandlerMethods_list [GET, POST])) = {GET, POST}"
    using HandlerMethods_list_bits [of "[GET, POST]"] by simp
  then have ne: "methods_of (HandlerMethods_list [GET, POST]) \<noteq> []" by (metis insert_not_empty set_empty)
  have t: "route_template (Equals_Exists boost_classic ([] :: nat string_table) ''/Login'') ''/Login'' [] = ''/Login''"
    by (simp add: route_template_def default_template_def Equals_Exists_def)
  have "table_inv (IgnoreCaseCompare boost_classic) []" by (simp add: table_inv_def)
  from equals_route_added [OF boost_classic_laws this r, of "''/login''" POST False] obtain j where
    j: "Equals_Exists boost_classic (fst ?r) ''/login'' = Some j"
      "RouterItem.template_name j = route_template (Equals_Exists boost_classic ([] :: nat string_table) ''/Login'') ''/Login'' []"
      "omap_find (<) (handlers j) POST = (if POST \<in> set (methods_of (HandlerMethods_list [GET, POST])) then Some 7
         else handler_at (Equals_Exists boost_classic) [] ''/Login'' POST)"
    using i ne by (simp only: if_True simp_thms) blast
  have "POST \<in> set (methods_of (HandlerMethods_list [GET, POST]))" unfolding m by simp
  then show ?thesis using j t by (simp only: if_True) blast
qed

section \<open>The longest registered prefix\<close>

lemma lex_less_extend:
  "map key b = map key a @ ks \<Longrightarrow> ks \<noteq> [] \<Longrightarrow> lex_less key a b"
proof (induction a arbitrary: b)
  case (Cons x a)
  then obtain y b' where b: "b = y # b'" by (cases b) auto
  with Cons show ?case by simp
qed auto

lemma iStartsWith_upper: "boost_laws B \<Longrightarrow> iStartsWith B m s \<longleftrightarrow> (\<exists>t. upper m = upper s @ t)"
proof -
  assume "boost_laws B"
  then have "iStartsWith B m s \<longleftrightarrow> (\<exists>p t. m = p @ t \<and> upper p = upper s)"
    by (simp add: boost_laws_def iStartsWith_def)
  also have "\<dots> \<longleftrightarrow> (\<exists>t. upper m = upper s @ t)"
    using upper_split by fastforce
  finally show ?thesis .
qed

text \<open>Of two prefixes of one URL, up to case, the longer comes first in the descending order.\<close>

lemma longer_prefix_first:
  assumes "boost_laws B" "iStartsWith B url k" "iStartsWith B url k'" "length k < length k'"
  shows "IgnoreCaseCompareDESC B k' k"
proof -
  obtain t t' where t: "upper url = upper k @ t" "upper url = upper k' @ t'"
    using assms(2,3) iStartsWith_upper [OF assms(1)] by blast
  then have "upper k' = upper k @ take (length k' - length k) t"
    using assms(4) by (metis append_eq_append_conv_if length_upper less_imp_le_nat append_take_drop_id append_eq_conv_conj take_append diff_is_0_eq take_all)
  moreover have "take (length k' - length k) t \<noteq> []"
    using calculation assms(4) by (metis append_Nil2 length_upper less_irrefl)
  ultimately obtain ks where ks: "upper k' = upper k @ ks" "ks \<noteq> []" by blast
  have "map (\<lambda>c. schar (std_toupper c)) s = map schar (upper s)" for s by (simp add: upper_def)
  with ks have "map (\<lambda>c. schar (std_toupper c)) k' = map (\<lambda>c. schar (std_toupper c)) k @ map schar ks"
    "map schar ks \<noteq> []" by simp_all
  then have "lex_less (\<lambda>c. schar (std_toupper c)) k k'" by (rule lex_less_extend)
  then show ?thesis using assms(1) by (simp add: IgnoreCaseCompareDESC_def iLess_lex)
qed

text \<open>
  The table of URL prefixes answers with the longest registered prefix: if some registered
  matcher is, up to case, a prefix of the URL, then \<open>Match\<close> reports that the URL exists and
  returns the item of a matcher that is such a prefix and at least as long as every other.
\<close>
theorem starts_longest_prefix:
  assumes "boost_laws B" "table_inv (IgnoreCaseCompareDESC B) t"
    and "(k0, i0) \<in> set t" "iStartsWith B url k0"
  shows "\<exists>k i. (k, i) \<in> set t \<and> iStartsWith B url k \<and>
     Starts_Match B t url m x = (starts_result (router_result (Some i) m) k, True) \<and>
     (\<forall>(k', i') \<in> set t. iStartsWith B url k' \<longrightarrow> length k' \<le> length k)"
  using assms(2,3)
proof (induction t)
  case (Cons p t)
  obtain k i where p: "p = (k, i)" by (cases p)
  have inv: "table_inv (IgnoreCaseCompareDESC B) t" and above: "\<forall>q \<in> set t. IgnoreCaseCompareDESC B k (fst q)"
    using Cons.prems(1) by (simp_all add: table_inv_def p)
  show ?case
  proof (cases "iStartsWith B url k")
    case True
    have "length k' \<le> length k" if "(k', i') \<in> set t" "iStartsWith B url k'" for k' i'
    proof (rule ccontr)
      assume "\<not> length k' \<le> length k"
      then have "IgnoreCaseCompareDESC B k' k" using longer_prefix_first [OF assms(1) True that(2)] by simp
      moreover have "IgnoreCaseCompareDESC B k k'" using above that(1) by force
      ultimately show False
        using strict_weak_order.asym [OF IgnoreCaseCompare_order [OF assms(1)]]
        by (simp add: IgnoreCaseCompareDESC_def)
    qed
    with True show ?thesis unfolding p by (intro exI [of _ k] exI [of _ i]) auto
  next
    case False
    then have "(k0, i0) \<in> set t" using Cons.prems(2) assms(4) by (auto simp: p)
    from Cons.IH [OF inv this] obtain k1 i1 where r: "(k1, i1) \<in> set t" "iStartsWith B url k1"
      "Starts_Match B t url m x = (starts_result (router_result (Some i1) m) k1, True)"
      "\<forall>(k', i') \<in> set t. iStartsWith B url k' \<longrightarrow> length k' \<le> length k1" by blast
    have "Starts_Match B (p # t) url m x = (starts_result (router_result (Some i1) m) k1, True)"
      using r(3) False by (simp add: p)
    moreover have "\<forall>(k', i') \<in> set (p # t). iStartsWith B url k' \<longrightarrow> length k' \<le> length k1"
      using r(4) False by (simp add: p)
    ultimately show ?thesis using r(1,2) by (intro exI [of _ k1] exI [of _ i1]) simp
  qed
qed simp

definition demo_starts :: "nat string_table" where
  "demo_starts = [(''/a/b'', \<lparr>handlers = [(GET, 2)], template_name = []\<rparr>),
                  (''/a'', \<lparr>handlers = [(GET, 1)], template_name = []\<rparr>)]"

theorem starts_longest_prefix_witness:
  "\<exists>k i. (k, i) \<in> set demo_starts \<and> iStartsWith boost_classic ''/A/B/c'' k \<and>
     Starts_Match boost_classic demo_starts ''/A/B/c'' GET False =
       (starts_result (router_result (Some i) GET) k, True) \<and>
     (\<forall>(k', i') \<in> set demo_starts. iStartsWith boost_classic ''/A/B/c'' k' \<longrightarrow> length k' \<le> length k)"
proof (rule starts_longest_prefix [OF boost_classic_laws])
  show "table_inv (IgnoreCaseCompareDESC boost_classic) demo_starts"
    by (simp add: table_inv_def demo_starts_def IgnoreCaseCompareDESC_def IgnoreCaseCompare_def iLess_def
        boost_classic_def)
  show "(''/a'', \<lparr>handlers = [(GET, 1)], template_name = []\<rparr>) \<in> set demo_starts" by (simp add: demo_starts_def)
  show "iStartsWith boost_classic ''/A/B/c'' ''/a''"
    by code_simp
qed

section \<open>Simple patterns\<close>

text \<open>
  A pattern as a user writes it: pieces of literal text, each followed by a name in double
  braces, and a last piece of text.
\<close>

definition segment_text :: "(string \<times> string) list \<Rightarrow> string" where
  "segment_text segs = concat (map (\<lambda>(lit, name). lit @ ''{{'' @ name @ ''}}'') segs)"

definition segment_regex :: "(string \<times> string) list \<Rightarrow> string" where
  "segment_regex segs = concat (map (\<lambda>(lit, name). lit @ ''('' @ [CHR 0x5C] @ ''w*)'') segs)"

lemma brace_match_literal: "c \<noteq> CHR ''{'' \<Longrightarrow> brace_match (c # s) = None"
  by (simp add: brace_match_def split: list.splits)

lemma brace_match_name:
  assumes "list_all word_char name"
  shows "brace_match (''{{'' @ name @ ''}}'' @ rest) = Some (name, rest)"
proof -
  have w: "\<not> word_char CHR ''}''" by (simp add: word_char_def is_digit_def)
  then have "takeWhile word_char (name @ ''}}'' @ rest) = name"
    "dropWhile word_char (name @ ''}}'' @ rest) = ''}}'' @ rest"
    using assms by (simp_all add: takeWhile_append2 dropWhile_append2 list_all_iff)
  then show ?thesis by (simp add: brace_match_def Let_def)
qed

lemma to_parameter_pattern_literal:
  "list_all (\<lambda>c. c \<noteq> CHR ''{'') lit \<Longrightarrow>
   to_parameter_pattern (lit @ s) = (lit @ fst (to_parameter_pattern s), snd (to_parameter_pattern s))"
proof (induction lit)
  case (Cons c lit)
  then show ?case
    by (subst to_parameter_pattern.simps) (simp add: brace_match_literal split: prod.splits)
qed simp

text \<open>
  A simple pattern becomes a regular expression whose groups stand where the names stood,
  and the names are collected in their order, so the i-th value of a match belongs to the i-th
  name; the text around the names is kept.
\<close>
theorem parameter_pattern_segments:
  assumes "list_all (\<lambda>(lit, name). list_all (\<lambda>c. c \<noteq> CHR ''{'') lit \<and> list_all word_char name) segs"
    and "list_all (\<lambda>c. c \<noteq> CHR ''{'') tail"
  shows "to_parameter_pattern (segment_text segs @ tail) = (segment_regex segs @ tail, map snd segs)"
  using assms(1)
proof (induction segs)
  case Nil
  have "to_parameter_pattern [] = ([], [])" by (subst to_parameter_pattern.simps) simp
  with to_parameter_pattern_literal [OF assms(2), of "[]"] show ?case
    by (simp add: segment_text_def segment_regex_def)
next
  case (Cons seg segs)
  obtain lit name where seg: "seg = (lit, name)" by (cases seg)
  let ?rest = "segment_text segs @ tail"
  have "to_parameter_pattern (''{{'' @ name @ ''}}'' @ ?rest) =
      (''('' @ [CHR 0x5C] @ ''w*)'' @ fst (to_parameter_pattern ?rest), name # snd (to_parameter_pattern ?rest))"
    using brace_match_name [of name ?rest] Cons.prems
    by (subst to_parameter_pattern.simps) (simp add: seg split: prod.splits)
  moreover have "segment_text (seg # segs) @ tail = lit @ ''{{'' @ name @ ''}}'' @ ?rest"
    by (simp add: segment_text_def seg)
  moreover have "list_all (\<lambda>c. c \<noteq> CHR ''{'') lit" using Cons.prems by (simp add: seg)
  ultimately show ?case
    using to_parameter_pattern_literal [of lit "''{{'' @ name @ ''}}'' @ ?rest"] Cons
    by (simp add: seg segment_regex_def)
qed

theorem parameter_pattern_segments_witness:
  "to_parameter_pattern (segment_text [(''/u/'', ''id''), (''/p/'', ''no'')] @ ''/x'') =
     (segment_regex [(''/u/'', ''id''), (''/p/'', ''no'')] @ ''/x'', [''id'', ''no''])"
  using parameter_pattern_segments [of "[(''/u/'', ''id''), (''/p/'', ''no'')]" "''/x''"]
  by (simp add: word_char_def is_digit_def)

end
