(* ===== verification/Url.thy ===== *)
theory Url
  imports HttpUtil
begin

text \<open>
  \<^verbatim>\<open>src/url.cpp\<close>: splitting a URL into parts, joining the path of an application with a path
  under it, and the path a handler sees.  The parser of URLs is the vendored
  \<^verbatim>\<open>http_parser_parse_url\<close>, the argument \<open>parse_url\<close>: it gives an error code, or the port
  and the offset and length of each part it found.
\<close>

type_synonym UrlParameters = "(string, string) omap"

record UrlBase =
  url_full :: string
  url_schema :: string
  url_host :: string
  url_port :: u16
  url_path :: string
  url_query :: string
  url_fragment :: string
  url_userinfo :: string
  url_parameters :: UrlParameters

record UrlUnderApp = UrlBase +
  full_under_app :: string
  path_under_app :: string

datatype UrlFlag = url_full_path | url_without_app_root

definition empty_url :: UrlBase where
  "empty_url = \<lparr>url_full = [], url_schema = [], url_host = [], url_port = 0, url_path = [],
     url_query = [], url_fragment = [], url_userinfo = [], url_parameters = []\<rparr>"

definition UrlClear :: "'a UrlBase_scheme \<Rightarrow> 'a UrlBase_scheme" where
  "UrlClear u = u\<lparr>url_full := [], url_schema := [], url_host := [], url_port := 0, url_path := [],
     url_query := [], url_fragment := [], url_userinfo := [], url_parameters := []\<rparr>"

text \<open>The parts in the order of the parser's enumeration, and \<open>get_url_part_value\<close>.\<close>

datatype url_field = UF_SCHEMA | UF_HOST | UF_PORT | UF_PATH | UF_QUERY | UF_FRAGMENT | UF_USERINFO

record http_parser_url =
  hpu_port :: u16
  hpu_field_data :: "url_field \<Rightarrow> (nat \<times> nat) option"

fun get_url_part_value :: "url_field \<Rightarrow> string \<Rightarrow> 'a UrlBase_scheme \<Rightarrow> 'a UrlBase_scheme" where
  "get_url_part_value UF_SCHEMA v u = u\<lparr>url_schema := v\<rparr>"
| "get_url_part_value UF_HOST v u = u\<lparr>url_host := v\<rparr>"
| "get_url_part_value UF_PORT v u = u"
| "get_url_part_value UF_PATH v u = u\<lparr>url_path := v\<rparr>"
| "get_url_part_value UF_QUERY v u = u\<lparr>url_query := v\<rparr>"
| "get_url_part_value UF_FRAGMENT v u = u\<lparr>url_fragment := v\<rparr>"
| "get_url_part_value UF_USERINFO v u = u\<lparr>url_userinfo := v\<rparr>"

definition url_fields :: "url_field list" where
  "url_fields = [UF_SCHEMA, UF_HOST, UF_PORT, UF_PATH, UF_QUERY, UF_FRAGMENT, UF_USERINFO]"

definition substring :: "string \<Rightarrow> nat \<times> nat \<Rightarrow> string" where
  "substring s f = take (snd f) (drop (fst f) s)"

definition get_url_parts :: "http_parser_url \<Rightarrow> string \<Rightarrow> 'a UrlBase_scheme \<Rightarrow> 'a UrlBase_scheme" where
  "get_url_parts r s u =
     fold (\<lambda>i u. case hpu_field_data r i of None \<Rightarrow> u | Some f \<Rightarrow> get_url_part_value i (substring s f) u)
       url_fields u"

definition UrlParse :: "boost_algo \<Rightarrow> (string \<Rightarrow> http_parser_url option) \<Rightarrow> string \<Rightarrow> 'a UrlBase_scheme \<Rightarrow>
    'a UrlBase_scheme \<times> bool" where
  "UrlParse B parse_url url_value u =
     (case parse_url url_value of
        None \<Rightarrow> (u\<lparr>url_full := url_value\<rparr>, False)
      | Some r \<Rightarrow>
          (let u1 = get_url_parts r url_value (u\<lparr>url_port := hpu_port r\<rparr>);
               u2 = (if url_query u1 \<noteq> [] then u1\<lparr>url_parameters := ParseQueryParameters B (url_query u1)\<rparr> else u1)
           in (u2\<lparr>url_full := url_value\<rparr>, True)))"

text \<open>\<open>UnderApplication\<close> cuts the root off; \<^verbatim>\<open>substr\<close> past the end throws: \<open>None\<close>.\<close>

definition UnderApplication :: "string \<Rightarrow> UrlUnderApp \<Rightarrow> UrlUnderApp option" where
  "UnderApplication app_url_root u =
     (let n = length app_url_root
      in if n \<le> length (url_full u) then
           (let u1 = u\<lparr>full_under_app := drop n (url_full u)\<rparr>
            in if n \<le> length (url_path u) then Some (u1\<lparr>path_under_app := drop n (url_path u)\<rparr>) else None)
         else None)"

definition FromUrlUnderApp :: "UrlUnderApp \<Rightarrow> UrlBase" where
  "FromUrlUnderApp src = \<lparr>url_full = url_full src, url_schema = url_schema src, url_host = url_host src,
     url_port = url_port src, url_path = url_path src, url_query = url_query src,
     url_fragment = url_fragment src, url_userinfo = url_userinfo src, url_parameters = url_parameters src\<rparr>"

definition JoinUrlPath :: "string \<Rightarrow> string \<Rightarrow> string" where
  "JoinUrlPath app_root path =
     (if path \<noteq> [] \<and> app_root \<noteq> [] then
        (if last app_root = CHR ''/'' \<and> hd path = CHR ''/'' then app_root @ tl path
         else if last app_root \<noteq> CHR ''/'' \<and> hd path \<noteq> CHR ''/'' then app_root @ ''/'' @ path
         else app_root @ path)
      else app_root @ path)"

definition MakesureFullUrlPath :: "string \<Rightarrow> UrlFlag \<Rightarrow> string \<Rightarrow> string" where
  "MakesureFullUrlPath path flag app_root =
     (if flag = url_full_path then path else JoinUrlPath app_root path)"

section \<open>Joining and cutting\<close>

text \<open>Between the two parts stands exactly one slash, none doubled and none missing.\<close>

definition strip_last_slash :: "string \<Rightarrow> string" where
  "strip_last_slash s = (if s \<noteq> [] \<and> last s = CHR ''/'' then butlast s else s)"

definition strip_first_slash :: "string \<Rightarrow> string" where
  "strip_first_slash s = (if s \<noteq> [] \<and> hd s = CHR ''/'' then tl s else s)"

lemma JoinUrlPath_one_slash:
  "root \<noteq> [] \<Longrightarrow> path \<noteq> [] \<Longrightarrow> JoinUrlPath root path = strip_last_slash root @ ''/'' @ strip_first_slash path"
  by (cases root rule: rev_cases; cases path)
    (auto simp: JoinUrlPath_def strip_last_slash_def strip_first_slash_def)

lemma JoinUrlPath_Nil [simp]: "JoinUrlPath [] path = path" "JoinUrlPath root [] = root"
  by (simp_all add: JoinUrlPath_def)

text \<open>
  A path joined to the root of an application and cut back under that root: when the root
  ends with a slash, as application roots do, the cut gives the path without its leading slash,
  in the full URL and in the path alike, whatever query follows.
\<close>
theorem url_join_then_cut:
  assumes "root \<noteq> []" "last root = CHR ''/''" "url_path u = JoinUrlPath root path"
    and "url_full u = url_path u @ query"
  shows "\<exists>v. UnderApplication root u = Some v \<and> path_under_app v = strip_first_slash path \<and>
     full_under_app v = strip_first_slash path @ query"
proof -
  have "JoinUrlPath root path = root @ strip_first_slash path"
  proof (cases "path = []")
    case False
    then have "JoinUrlPath root path = strip_last_slash root @ ''/'' @ strip_first_slash path"
      by (rule JoinUrlPath_one_slash [OF assms(1)])
    moreover have "strip_last_slash root @ ''/'' = root"
      using assms(1,2) append_butlast_last_id [OF assms(1)] by (simp add: strip_last_slash_def)
    ultimately show ?thesis by (metis append.assoc)
  qed (simp add: strip_first_slash_def)
  then show ?thesis using assms(3,4) by (simp add: UnderApplication_def Let_def)
qed

definition demo_url :: UrlUnderApp where
  "demo_url = UrlBase.extend (empty_url\<lparr>url_path := ''/app/user'', url_full := ''/app/user?x=1''\<rparr>)
     \<lparr>full_under_app = [], path_under_app = []\<rparr>"

theorem url_join_then_cut_witness:
  "\<exists>v. UnderApplication ''/app/'' demo_url = Some v \<and> path_under_app v = ''user'' \<and> full_under_app v = ''user?x=1''"
  using url_join_then_cut [of "''/app/''" demo_url "''/user''" "''?x=1''"]
  by (simp add: demo_url_def empty_url_def UrlBase.defs JoinUrlPath_def strip_first_slash_def)

text \<open>
  A URL that is parsed twice into the same object keeps parts of the first: a part that the
  second URL does not have is left as it was, as are the parameters when there is no query; the
  full text is always the new one.
\<close>
theorem url_parse_keeps_missing_parts:
  assumes "parse_url s = Some r" "hpu_field_data r UF_QUERY = None"
  shows "url_query (fst (UrlParse B parse_url s u)) = url_query u \<and>
     url_full (fst (UrlParse B parse_url s u)) = s \<and>
     (url_query u = [] \<longrightarrow> url_parameters (fst (UrlParse B parse_url s u)) = url_parameters u)"
proof -
  have "url_query (get_url_part_value i v w) = (if i = UF_QUERY then v else url_query w)"
    "url_parameters (get_url_part_value i v w) = url_parameters w" for i v and w :: "'a UrlBase_scheme"
    by (cases i; simp)+
  then have "url_query (get_url_parts r s w) = url_query w" "url_parameters (get_url_parts r s w) = url_parameters w"
    for w :: "'a UrlBase_scheme"
    using assms(2) by (simp_all add: get_url_parts_def url_fields_def split: option.splits)
  then show ?thesis using assms(1) by (simp add: UrlParse_def Let_def)
qed

theorem url_parse_keeps_missing_parts_witness:
  "url_query (fst (UrlParse boost_classic (\<lambda>s. Some \<lparr>hpu_port = 0, hpu_field_data = (\<lambda>i. None)\<rparr>) ''/x''
     (empty_url\<lparr>url_query := ''a=1''\<rparr>))) = ''a=1''"
  using url_parse_keeps_missing_parts [of "\<lambda>s. Some \<lparr>hpu_port = 0, hpu_field_data = (\<lambda>i. None)\<rparr>" "''/x''"
      "\<lparr>hpu_port = 0, hpu_field_data = (\<lambda>i. None)\<rparr>" boost_classic "empty_url\<lparr>url_query := ''a=1''\<rparr>"]
  by simp

end
