(* ===== verification/Cookie.thy ===== *)
theory Cookie
  imports StringUtil
begin

text \<open>
  \<^verbatim>\<open>include/daqi/cookie.hpp\<close> and \<^verbatim>\<open>src/cookie.cpp\<close>: a cookie, its header text and its JSON form.
  The clock and the formatting of a time are arguments; so are Boost's algorithms.
\<close>

section \<open>The cookie and its setters\<close>

datatype HttpOnly = for_http_and_js | for_http_only
datatype Secure = for_http_and_https | for_https_only
datatype SameSite = ss_none | ss_lax | ss_strict

definition to_int32 :: "int \<Rightarrow> int" where "to_int32 = signed_take_bit 31"

definition expires_after_brower_close :: int where "expires_after_brower_close = - (2 ^ 31)"
definition expires_immediately :: int where "expires_immediately = - (2 ^ 31) + 1"

record Cookie =
  old_version :: bool
  cookie_name :: string
  cookie_value :: string
  cookie_domain :: string
  cookie_path :: string
  max_age :: int
  http_only :: bool
  secure :: bool
  samesite :: SameSite

definition default_Cookie :: Cookie where
  "default_Cookie = \<lparr>old_version = False, cookie_name = [], cookie_value = [], cookie_domain = [],
     cookie_path = [], max_age = expires_after_brower_close, http_only = False, secure = False,
     samesite = ss_none\<rparr>"

definition new_Cookie :: "string \<Rightarrow> string \<Rightarrow> string \<Rightarrow> string \<Rightarrow> Cookie" where
  "new_Cookie name value domain path = default_Cookie\<lparr>cookie_name := name, cookie_value := value,
     cookie_domain := domain, cookie_path := path\<rparr>"

text \<open>The move constructor does not take the age over.\<close>

definition move_Cookie :: "Cookie \<Rightarrow> Cookie" where
  "move_Cookie c = c\<lparr>max_age := expires_after_brower_close\<rparr>"

definition SetName :: "string \<Rightarrow> Cookie \<Rightarrow> Cookie" where "SetName name c = c\<lparr>cookie_name := name\<rparr>"

text \<open>\<open>SetValue\<close> writes the name.\<close>

definition SetValue :: "string \<Rightarrow> Cookie \<Rightarrow> Cookie" where "SetValue value c = c\<lparr>cookie_name := value\<rparr>"
definition SetDomain :: "string \<Rightarrow> Cookie \<Rightarrow> Cookie" where "SetDomain d c = c\<lparr>cookie_domain := d\<rparr>"
definition SetPath :: "string \<Rightarrow> Cookie \<Rightarrow> Cookie" where "SetPath p c = c\<lparr>cookie_path := p\<rparr>"

definition ApplyHttpVersion :: "u16 \<Rightarrow> u16 \<Rightarrow> Cookie \<Rightarrow> Cookie" where
  "ApplyHttpVersion major minor c = c\<lparr>old_version := (major < 1 \<or> (major = 1 \<and> minor = 0))\<rparr>"

definition SetHttpOnly :: "HttpOnly \<Rightarrow> Cookie \<Rightarrow> Cookie" where
  "SetHttpOnly only c = c\<lparr>http_only := (only = for_http_only)\<rparr>"

definition SetMaxAge :: "int \<Rightarrow> Cookie \<Rightarrow> Cookie" where
  "SetMaxAge seconds c = c\<lparr>max_age := (if seconds \<ge> 0 then seconds else 0)\<rparr>"

definition SetExpires :: "int \<Rightarrow> int \<Rightarrow> Cookie \<Rightarrow> Cookie" where
  "SetExpires now a_time_point c = c\<lparr>max_age := to_int32 (a_time_point - now)\<rparr>"

definition SetExpiredAfterBrowerClose :: "Cookie \<Rightarrow> Cookie" where
  "SetExpiredAfterBrowerClose c = c\<lparr>max_age := expires_after_brower_close\<rparr>"

definition IsExpiredAfterBrowerClose :: "Cookie \<Rightarrow> bool" where
  "IsExpiredAfterBrowerClose c = (max_age c = expires_after_brower_close)"

definition SetExpiredImmediately :: "Cookie \<Rightarrow> Cookie" where
  "SetExpiredImmediately c = c\<lparr>max_age := expires_immediately\<rparr>"

definition IsExpiredImmediately :: "Cookie \<Rightarrow> bool" where
  "IsExpiredImmediately c = (max_age c = expires_immediately)"

definition SetSecure :: "Secure \<Rightarrow> Cookie \<Rightarrow> Cookie" where
  "SetSecure sec c = c\<lparr>secure := (sec = for_https_only)\<rparr>"

definition SetSameSite :: "SameSite \<Rightarrow> Cookie \<Rightarrow> Cookie" where "SetSameSite ss c = c\<lparr>samesite := ss\<rparr>"

definition ClearValue :: "Cookie \<Rightarrow> Cookie" where "ClearValue c = c\<lparr>cookie_value := []\<rparr>"

definition CookieIsEmpty :: "Cookie \<Rightarrow> bool" where
  "CookieIsEmpty c = (cookie_name c = [] \<and> cookie_value c = [])"

section \<open>The header text\<close>

record clock_env =
  now :: int
  gmt_format :: "int \<Rightarrow> string"

text \<open>\<open>QV\<close>: a value in quotes, the quotes inside it escaped.\<close>

definition QV :: "boost_algo \<Rightarrow> string \<Rightarrow> string \<Rightarrow> string" where
  "QV B v q =
     (if q = [] then v
      else if find_sub q v = None then q @ v @ q
      else q @ ReplaceAll B v q ([CHR 0x5C] @ q) @ q)"

definition show_Cookie :: "boost_algo \<Rightarrow> clock_env \<Rightarrow> Cookie \<Rightarrow> string" where
  "show_Cookie B T c =
     (let q = (if old_version c then [CHR 0x22] else [])
      in cookie_name c @ ''='' @ QV B (cookie_value c) q @
         (if IsExpiredImmediately c then
            (if \<not> old_version c then ''; Max-Age=-1'' else ''; Expires=Thu, 01 Jan 1970 00:00:00 GMT'')
          else if \<not> IsExpiredAfterBrowerClose c then
            (if \<not> old_version c then ''; Max-Age='' @ QV B (to_string (max_age c)) q
             else ''; Expires='' @ QV B (gmt_format T (now T + max_age c)) q)
          else []) @
         (if cookie_domain c \<noteq> [] then ''; Domain='' @ QV B (cookie_domain c) q else []) @
         (if cookie_path c \<noteq> [] then ''; Path='' @ QV B (cookie_path c) q else []) @
         (if \<not> old_version c then
            (if samesite c \<noteq> ss_none
             then ''; SameSite='' @ QV B (if samesite c = ss_lax then ''Lax'' else ''Strict'') q else [])
          else []) @
         (if secure c then ''; Secure'' else []) @
         (if http_only c then ''; HttpOnly'' else []))"

section \<open>JSON\<close>

text \<open>
  The values a cookie is made of, as the JSON library keeps them; \<open>at\<close> throws on a missing key,
  and the conversions throw on another type (an integer is also read from a boolean): \<open>None\<close>.
\<close>

datatype json_value = JString string | JInt int | JBool bool | JNull

type_synonym json_object = "(string, json_value) omap"

definition json_put :: "string \<Rightarrow> json_value \<Rightarrow> json_object \<Rightarrow> json_object" where
  "json_put k v j = omap_put str_less j k v"

definition json_at :: "string \<Rightarrow> json_object \<Rightarrow> json_value option" where
  "json_at k j = omap_find str_less j k"

fun get_string :: "json_value \<Rightarrow> string option" where
  "get_string (JString s) = Some s"
| "get_string _ = None"

fun get_bool :: "json_value \<Rightarrow> bool option" where
  "get_bool (JBool b) = Some b"
| "get_bool _ = None"

fun get_int :: "json_value \<Rightarrow> int option" where
  "get_int (JInt i) = Some (to_int32 i)"
| "get_int (JBool b) = Some (if b then 1 else 0)"
| "get_int _ = None"

fun samesite_int :: "SameSite \<Rightarrow> int" where
  "samesite_int ss_none = 0"
| "samesite_int ss_lax = 1"
| "samesite_int ss_strict = 2"

text \<open>An integer that is none of the enumeration's values gives a value that is none of them either,
  which the header text treats as strict.\<close>

definition int_samesite :: "int \<Rightarrow> SameSite" where
  "int_samesite i = (if i = 0 then ss_none else if i = 1 then ss_lax else ss_strict)"

definition cookie_to_json :: "Cookie \<Rightarrow> json_object \<Rightarrow> json_object" where
  "cookie_to_json c j =
     json_put ''samesite'' (JInt (samesite_int (samesite c)))
     (json_put ''secure'' (JBool (secure c))
     (json_put ''http_only'' (JBool (http_only c))
     (json_put ''max_age'' (JInt (max_age c))
     (json_put ''path'' (JString (cookie_path c))
     (json_put ''domain'' (JString (cookie_domain c))
     (json_put ''value'' (JString (cookie_value c))
     (json_put ''name'' (JString (cookie_name c))
     (json_put ''order_version'' (JBool (old_version c)) j))))))))"

definition read_field :: "json_object \<Rightarrow> string \<Rightarrow> (json_value \<Rightarrow> 'a option) \<Rightarrow> ('a \<Rightarrow> Cookie \<Rightarrow> Cookie) \<Rightarrow>
    Cookie option \<Rightarrow> Cookie option" where
  "read_field j k rd wr oc =
     (case oc of None \<Rightarrow> None | Some c \<Rightarrow>
        (case json_at k j of None \<Rightarrow> None | Some v \<Rightarrow>
           (case rd v of None \<Rightarrow> None | Some x \<Rightarrow> Some (wr x c))))"

definition cookie_from_json :: "json_object \<Rightarrow> Cookie \<Rightarrow> Cookie option" where
  "cookie_from_json j c =
     read_field j ''samesite'' get_int (\<lambda>x c. c\<lparr>samesite := int_samesite x\<rparr>)
     (read_field j ''secure'' get_bool (\<lambda>x c. c\<lparr>secure := x\<rparr>)
     (read_field j ''http_only'' get_bool (\<lambda>x c. c\<lparr>http_only := x\<rparr>)
     (read_field j ''max_age'' get_int (\<lambda>x c. c\<lparr>max_age := x\<rparr>)
     (read_field j ''path'' get_string (\<lambda>x c. c\<lparr>cookie_path := x\<rparr>)
     (read_field j ''domain'' get_string (\<lambda>x c. c\<lparr>cookie_domain := x\<rparr>)
     (read_field j ''value'' get_string (\<lambda>x c. c\<lparr>cookie_value := x\<rparr>)
     (read_field j ''name'' get_string (\<lambda>x c. c\<lparr>cookie_name := x\<rparr>)
     (read_field j ''order_version'' get_bool (\<lambda>x c. c\<lparr>old_version := x\<rparr>) (Some c)))))))))"

lemma sorted_json_put: "omap_sorted str_less j \<Longrightarrow> omap_sorted str_less (json_put k v j)"
  by (simp add: json_put_def strs.sorted_put)

lemma json_at_put:
  "omap_sorted str_less j \<Longrightarrow> json_at k (json_put k' v j) = (if k = k' then Some v else json_at k j)"
  using strs.find_put_equiv [of j k' k v] strs.find_put_other [of j k' k v] str_less_total [of k' k]
  by (auto simp: json_put_def json_at_def)

lemma cookie_json_read:
  assumes "omap_sorted str_less j" "- (2 ^ 31) \<le> max_age c" "max_age c < 2 ^ 31"
  shows "cookie_from_json (cookie_to_json c j) d = Some c"
proof -
  have "to_int32 (max_age c) = max_age c"
    unfolding to_int32_def using assms(2,3) by (intro signed_take_bit_int_eq_self) simp_all
  moreover have "int_samesite (to_int32 (samesite_int (samesite c))) = samesite c"
    by (cases "samesite c") (simp_all add: int_samesite_def to_int32_def)
  ultimately show ?thesis
    using assms(1)
    by (simp add: cookie_from_json_def cookie_to_json_def read_field_def json_at_put sorted_json_put)
qed

text \<open>
  A cookie written to JSON and read back into any other cookie object is that cookie, every
  field included, whatever else the JSON object held before.
\<close>
theorem cookie_json_roundtrip:
  assumes "omap_sorted str_less j" "- (2 ^ 31) \<le> max_age c" "max_age c < 2 ^ 31"
  shows "cookie_from_json (cookie_to_json c j) d = Some c"
  using assms by (rule cookie_json_read)

theorem cookie_json_roundtrip_witness:
  "cookie_from_json (cookie_to_json (SetMaxAge 60 (new_Cookie ''a'' ''b'' [] ''/'')) []) default_Cookie =
     Some (SetMaxAge 60 (new_Cookie ''a'' ''b'' [] ''/''))"
  by (rule cookie_json_roundtrip) (simp_all add: SetMaxAge_def)

text \<open>\<open>SetValue\<close> changes the name of a cookie and leaves its value; a moved cookie loses its age.\<close>

lemma SetValue_renames: "cookie_name (SetValue v c) = v \<and> cookie_value (SetValue v c) = cookie_value c"
  by (simp add: SetValue_def)

lemma move_Cookie_forgets_age: "IsExpiredAfterBrowerClose (move_Cookie (SetMaxAge 60 c))"
  by (simp add: IsExpiredAfterBrowerClose_def move_Cookie_def)

end
