(* ===== verification/Response.thy ===== *)
theory Response
  imports Cookie
begin

text \<open>
  \<^verbatim>\<open>include/daqi/response.hpp\<close> and \<^verbatim>\<open>src/response.cpp\<close>: the response of a request, its
  headers, cookies and body, the queue of chunks of a chunked body, and the bytes it is written
  as.  The members are the record \<open>Response\<close>.
\<close>

section \<open>Headers\<close>

type_synonym ICHeaders = "(string, string) omap"

definition IsExistsHeader :: "boost_algo \<Rightarrow> ICHeaders \<Rightarrow> string \<Rightarrow> bool" where
  "IsExistsHeader B hs field = (omap_find (IgnoreCaseCompare B) hs field \<noteq> None)"

definition GetHeader :: "boost_algo \<Rightarrow> ICHeaders \<Rightarrow> string \<Rightarrow> string" where
  "GetHeader B hs field = (case omap_find (IgnoreCaseCompare B) hs field of None \<Rightarrow> [] | Some v \<Rightarrow> v)"

definition TryGetHeader :: "boost_algo \<Rightarrow> ICHeaders \<Rightarrow> string \<Rightarrow> string option" where
  "TryGetHeader B hs field = omap_find (IgnoreCaseCompare B) hs field"

section \<open>Status texts\<close>

definition http_status_summaries :: "(int \<times> string) list" where
  "http_status_summaries =
    [(100, ''Continue''), (101, ''Switching Protocols''),
     (102, ''Processing''), (200, ''OK''),
     (201, ''Created''), (202, ''Accepted''),
     (203, ''Non - Authoritative Information''), (204, ''No Content''),
     (205, ''Reset Content''), (206, ''Partial Content''),
     (207, ''Multi - Status''), (208, ''Already Reported''),
     (226, ''IM Used''), (300, ''Multiple Choices''),
     (301, ''Moved Permanently''), (302, ''Found''),
     (303, ''See Other''), (304, ''Not Modified''),
     (305, ''Use Proxy''), (307, ''Temporary Redirect''),
     (308, ''Permanent Redirect''), (400, ''Bad Request''),
     (401, ''Unauthorized''), (402, ''Payment Required''),
     (403, ''Forbidden''), (404, ''Not Found''),
     (405, ''Method Not Allowed''), (406, ''Not Acceptable''),
     (407, ''Proxy Authentication Required''), (408, ''Request Timeout''),
     (409, ''Conflict''), (410, ''Gone''),
     (411, ''Length Required''), (412, ''Precondition Failed''),
     (413, ''Payload Too Large''), (414, ''URI Too Long''),
     (415, ''Unsupported Media Type''), (416, ''Range Not Satisfiable''),
     (417, ''Expectation Failed''), (421, ''Misdirected Request''),
     (422, ''Unprocessable Entity''), (423, ''Locked''),
     (424, ''Failed Dependency''), (426, ''Upgrade Required''),
     (428, ''Precondition Required''), (429, ''Too Many Requests''),
     (431, ''Request Header Fields Too Large''), (451, ''Unavailable For Legal Reasons''),
     (500, ''Internal Server Error''), (501, ''Not Implemented''),
     (502, ''Bad Gateway''), (503, ''Service Unavailable''),
     (504, ''Gateway Timeout''), (505, ''HTTP Version Not Supported''),
     (506, ''Variant Also Negotiates''), (507, ''Insufficient Storage''),
     (508, ''Loop Detected''), (510, ''Not Extended''),
     (511, ''Network Authentication Required'')]"

definition HttpStatusSummaryGetter :: "int \<Rightarrow> string" where
  "HttpStatusSummaryGetter n = (case map_of http_status_summaries n of None \<Rightarrow> [] | Some s \<Rightarrow> s)"

section \<open>The queue of chunks\<close>

type_synonym ChunkedBodies = "(string \<times> bool) list"

definition nl :: string where "nl = [CHR 0x0D, CHR 0x0A]"

definition ChunkedPushBack :: "string \<Rightarrow> bool \<Rightarrow> ChunkedBodies \<Rightarrow> ChunkedBodies" where
  "ChunkedPushBack body is_last q =
     (let data = (if is_last then ''0'' @ nl @ nl else DecIntToHexStr (length body) @ nl @ body @ nl)
      in q @ [(data, False)] @ (if is_last then [([], True)] else []))"

definition ChunkedPopFront :: "ChunkedBodies \<Rightarrow> string \<times> bool \<times> ChunkedBodies" where
  "ChunkedPopFront q = (case q of [] \<Rightarrow> ([], False, []) | (data, is_last) # q' \<Rightarrow> (data, is_last, q'))"

section \<open>The response\<close>

record Response =
  status_code :: int
  res_headers :: ICHeaders
  res_body :: string
  res_charset :: string
  version_major :: u16
  version_minor :: u16
  cookies :: "Cookie list"
  chunked_bodies :: ChunkedBodies

definition add_server_header :: "boost_algo \<Rightarrow> Response \<Rightarrow> Response" where
  "add_server_header B r = r\<lparr>res_headers := omap_put (IgnoreCaseCompare B) (res_headers r) ''Server'' ''da4qi4/1.10''\<rparr>"

definition blank_Response :: Response where
  "blank_Response = \<lparr>status_code = 200, res_headers = [], res_body = [], res_charset = ''UTF-8'',
     version_major = 1, version_minor = 1, cookies = [], chunked_bodies = []\<rparr>"

definition new_Response :: "boost_algo \<Rightarrow> Response" where
  "new_Response B = add_server_header B blank_Response"

definition Response_of_status :: "int \<Rightarrow> Response" where
  "Response_of_status n = blank_Response\<lparr>status_code := n\<rparr>"

definition ResponseReset :: "boost_algo \<Rightarrow> Response \<Rightarrow> Response" where
  "ResponseReset B r = add_server_header B (r\<lparr>status_code := 200, res_headers := [], res_body := [],
     res_charset := ''UTF-8'', version_major := 1, version_minor := 1, cookies := [], chunked_bodies := []\<rparr>)"

definition AppendHeader :: "boost_algo \<Rightarrow> string \<Rightarrow> string \<Rightarrow> Response \<Rightarrow> Response" where
  "AppendHeader B field v r =
     (case omap_find (IgnoreCaseCompare B) (res_headers r) field of
        Some _ \<Rightarrow> r\<lparr>res_headers := omap_put (IgnoreCaseCompare B) (res_headers r) field v\<rparr>
      | None \<Rightarrow> r\<lparr>res_headers := omap_insert (IgnoreCaseCompare B) (res_headers r) field v\<rparr>)"

definition split_content_type_value :: "string \<Rightarrow> string \<times> string" where
  "split_content_type_value v =
     (if v \<noteq> [] then
        (case find_sub '' ;'' v of None \<Rightarrow> (v, []) | Some pos \<Rightarrow> (take pos v, drop (pos + 2) v))
      else (v, []))"

definition GetContentType :: "boost_algo \<Rightarrow> bool \<Rightarrow> Response \<Rightarrow> string" where
  "GetContentType B with_chartset r =
     (let v = GetHeader B (res_headers r) ''Content-Type'' in
      if with_chartset then v
      else if v \<noteq> [] then (case find_sub '';'' v of None \<Rightarrow> v | Some pos \<Rightarrow> take pos v)
      else v)"

definition is_content_type_need_charset :: "boost_algo \<Rightarrow> string \<Rightarrow> bool" where
  "is_content_type_need_charset B content_type = iStartsWith B content_type ''text/''"

definition SetContentType2 :: "boost_algo \<Rightarrow> string \<Rightarrow> string \<Rightarrow> Response \<Rightarrow> Response" where
  "SetContentType2 B content_type content_charset r =
     AppendHeader B ''Content-Type'' (content_type @ ''; charset='' @ content_charset) r"

definition SetContentType :: "boost_algo \<Rightarrow> string \<Rightarrow> Response \<Rightarrow> Response" where
  "SetContentType B content_type r =
     AppendHeader B ''Content-Type''
       (content_type @ (if is_content_type_need_charset B content_type \<and> res_charset r \<noteq> []
                        then ''; charset='' @ res_charset r else [])) r"

definition SetCharset :: "boost_algo \<Rightarrow> string \<Rightarrow> Response \<Rightarrow> Response" where
  "SetCharset B charset r0 =
     (let r = r0\<lparr>res_charset := charset\<rparr> in
      case omap_find (IgnoreCaseCompare B) (res_headers r) ''Content-Type'' of
        None \<Rightarrow> r
      | Some v \<Rightarrow>
          (let pair = split_content_type_value v
           in if charset \<noteq> snd pair \<and> is_content_type_need_charset B (fst pair)
              then SetContentType2 B (fst pair) charset r else r))"

definition SetContentEncoding :: "boost_algo \<Rightarrow> string \<Rightarrow> Response \<Rightarrow> Response" where
  "SetContentEncoding B encoding r = AppendHeader B ''Content-Encoding'' encoding r"

definition SetStatusCode :: "int \<Rightarrow> Response \<Rightarrow> Response" where "SetStatusCode n r = r\<lparr>status_code := n\<rparr>"
definition SetBody :: "string \<Rightarrow> Response \<Rightarrow> Response" where "SetBody body r = r\<lparr>res_body := body\<rparr>"
definition SetVersion :: "u16 \<Rightarrow> u16 \<Rightarrow> Response \<Rightarrow> Response" where
  "SetVersion major minor r = r\<lparr>version_major := major, version_minor := minor\<rparr>"

definition SetLocation :: "boost_algo \<Rightarrow> string \<Rightarrow> Response \<Rightarrow> Response" where
  "SetLocation B dst r = AppendHeader B ''Location'' dst r"
definition SetExpiresHeader :: "boost_algo \<Rightarrow> clock_env \<Rightarrow> int \<Rightarrow> Response \<Rightarrow> Response" where
  "SetExpiresHeader B T time_point r = AppendHeader B ''Expires'' (gmt_format T time_point) r"
definition RemoveLocation :: "boost_algo \<Rightarrow> Response \<Rightarrow> Response" where
  "RemoveLocation B r = r\<lparr>res_headers := omap_erase (IgnoreCaseCompare B) (res_headers r) ''Location''\<rparr>"
definition IsRedirected :: "boost_algo \<Rightarrow> Response \<Rightarrow> bool" where
  "IsRedirected B r = IsExistsHeader B (res_headers r) ''Location''"

datatype CacheControl = Public | Private

definition CacheControlMaxAge :: "boost_algo \<Rightarrow> int \<Rightarrow> CacheControl \<Rightarrow> Response \<Rightarrow> Response" where
  "CacheControlMaxAge B seconds cc r = AppendHeader B ''Cache-Control''
     ((if cc = Public then ''public'' else ''private'') @ '', max-age='' @ to_string seconds) r"
definition NoCache :: "boost_algo \<Rightarrow> Response \<Rightarrow> Response" where
  "NoCache B r = AppendHeader B ''Cache-Control'' ''no-cache'' r"
definition TurnOffCache :: "boost_algo \<Rightarrow> Response \<Rightarrow> Response" where
  "TurnOffCache B r = AppendHeader B ''Cache-Control'' ''no-cache, no-store, must-revalidate'' r"

definition MarkKeepAlive :: "boost_algo \<Rightarrow> Response \<Rightarrow> Response" where
  "MarkKeepAlive B r = AppendHeader B ''Connection'' ''keep-alive'' r"
definition MarkClose :: "boost_algo \<Rightarrow> Response \<Rightarrow> Response" where
  "MarkClose B r = AppendHeader B ''Connection'' ''close'' r"

definition ResIsKeepAlive :: "boost_algo \<Rightarrow> Response \<Rightarrow> bool" where
  "ResIsKeepAlive B r =
     (let v = TryGetHeader B (res_headers r) ''Connection'' in
      if version_major r < 1 \<or> (version_major r = 1 \<and> version_minor r = 0)
      then (case v of None \<Rightarrow> False | Some s \<Rightarrow> iEquals B s ''keep-alive'')
      else (case v of None \<Rightarrow> True | Some s \<Rightarrow> \<not> iEquals B s ''close''))"
definition ResIsClose :: "boost_algo \<Rightarrow> Response \<Rightarrow> bool" where "ResIsClose B r = (\<not> ResIsKeepAlive B r)"

definition IsChunked :: "boost_algo \<Rightarrow> Response \<Rightarrow> bool" where
  "IsChunked B r =
     (case TryGetHeader B (res_headers r) ''Transfer-Encoding'' of
        None \<Rightarrow> False | Some s \<Rightarrow> iEquals B s ''chunked'')"
definition MarkChunked :: "boost_algo \<Rightarrow> Response \<Rightarrow> Response" where
  "MarkChunked B r0 =
     (let r = AppendHeader B ''Transfer-Encoding'' ''chunked'' r0 in
      if version_major r < 1 \<or> version_minor r < 1
      then r\<lparr>version_major := 1, version_minor := 1\<rparr> else r)"

definition PushChunkedBody :: "string \<Rightarrow> bool \<Rightarrow> Response \<Rightarrow> Response" where
  "PushChunkedBody body is_last r = r\<lparr>chunked_bodies := ChunkedPushBack body is_last (chunked_bodies r)\<rparr>"
definition PopChunkedBody :: "Response \<Rightarrow> string \<times> bool \<times> Response" where
  "PopChunkedBody r =
     (let (data, is_last, q) = ChunkedPopFront (chunked_bodies r) in (data, is_last, r\<lparr>chunked_bodies := q\<rparr>))"

section \<open>Cookies\<close>

definition same_cookie :: "boost_algo \<Rightarrow> Cookie \<Rightarrow> string \<Rightarrow> string \<Rightarrow> string \<Rightarrow> bool" where
  "same_cookie B c name domain path \<longleftrightarrow> iEquals B (cookie_name c) name \<and>
     iEquals B (cookie_domain c) domain \<and> iEquals B (cookie_path c) path"

text \<open>The loop over the cookies: the first that matches is changed, otherwise one is appended.\<close>

fun change_first :: "(Cookie \<Rightarrow> bool) \<Rightarrow> (Cookie \<Rightarrow> Cookie) \<Rightarrow> Cookie \<Rightarrow> Cookie list \<Rightarrow> Cookie list" where
  "change_first p f new [] = [new]"
| "change_first p f new (c # cs) = (if p c then f c # cs else c # change_first p f new cs)"

definition SetCookie :: "boost_algo \<Rightarrow> Cookie \<Rightarrow> Response \<Rightarrow> Response" where
  "SetCookie B cookie r = r\<lparr>cookies := change_first
     (\<lambda>c. same_cookie B c (cookie_name cookie) (cookie_domain cookie) (cookie_path cookie))
     (\<lambda>c. cookie) cookie (cookies r)\<rparr>"

definition SetCookieExpiredImmediately :: "boost_algo \<Rightarrow> string \<Rightarrow> string \<Rightarrow> string \<Rightarrow> Response \<Rightarrow> Response" where
  "SetCookieExpiredImmediately B name domain path r = r\<lparr>cookies := change_first
     (\<lambda>c. same_cookie B c name domain path)
     (\<lambda>c. SetExpiredImmediately (SetValue [] c))
     (SetExpiredImmediately (new_Cookie name [] domain path)) (cookies r)\<rparr>"

definition SetCookieNV :: "boost_algo \<Rightarrow> string \<Rightarrow> string \<Rightarrow> Response \<Rightarrow> Response" where
  "SetCookieNV B name v r =
     SetCookie B (ApplyHttpVersion (version_major r) (version_minor r) (new_Cookie name v [] [])) r"

definition SetSecureCookie :: "boost_algo \<Rightarrow> string \<Rightarrow> string \<Rightarrow> Response \<Rightarrow> Response" where
  "SetSecureCookie B name v r =
     SetCookie B (ApplyHttpVersion (version_major r) (version_minor r)
       (SetSecure for_https_only (new_Cookie name v [] []))) r"

definition SetCookieHttpOnly :: "boost_algo \<Rightarrow> string \<Rightarrow> string \<Rightarrow> HttpOnly \<Rightarrow> Response \<Rightarrow> Response" where
  "SetCookieHttpOnly B name v ho r =
     SetCookie B (ApplyHttpVersion (version_major r) (version_minor r)
       (SetHttpOnly ho (new_Cookie name v [] []))) r"

definition SetSecureCookieHttpOnly :: "boost_algo \<Rightarrow> string \<Rightarrow> string \<Rightarrow> HttpOnly \<Rightarrow> Response \<Rightarrow> Response" where
  "SetSecureCookieHttpOnly B name v ho r =
     SetCookie B (ApplyHttpVersion (version_major r) (version_minor r)
       (SetHttpOnly ho (SetSecure for_https_only (new_Cookie name v [] [])))) r"

definition SetCookieFull :: "boost_algo \<Rightarrow> string \<Rightarrow> string \<Rightarrow> string \<Rightarrow> string \<Rightarrow> nat \<Rightarrow> HttpOnly \<Rightarrow> Response \<Rightarrow> Response" where
  "SetCookieFull B name v domain path age ho r =
     SetCookie B (ApplyHttpVersion (version_major r) (version_minor r)
       (SetMaxAge (to_int32 (int age)) (SetHttpOnly ho (new_Cookie name v domain path)))) r"

definition SetSecureCookieFull :: "boost_algo \<Rightarrow> string \<Rightarrow> string \<Rightarrow> string \<Rightarrow> string \<Rightarrow> nat \<Rightarrow> HttpOnly \<Rightarrow> Response \<Rightarrow> Response" where
  "SetSecureCookieFull B name v domain path age ho r =
     SetCookie B (ApplyHttpVersion (version_major r) (version_minor r)
       (SetMaxAge (to_int32 (int age)) (SetHttpOnly ho (SetSecure for_https_only (new_Cookie name v domain path))))) r"

section \<open>Replies\<close>

definition set_or_default_body :: "boost_algo \<Rightarrow> string \<Rightarrow> bool \<Rightarrow> Response \<Rightarrow> Response" where
  "set_or_default_body B body provide_default r =
     (if body \<noteq> [] then SetBody body r
      else if provide_default
           then SetBody (HttpStatusSummaryGetter (status_code r)) (SetContentType B ''text/plain'' r)
      else r)"

definition reply :: "boost_algo \<Rightarrow> int \<Rightarrow> string \<Rightarrow> Response \<Rightarrow> Response" where
  "reply B n body r = set_or_default_body B body True (r\<lparr>status_code := n\<rparr>)"

definition ReplyStatus :: "boost_algo \<Rightarrow> int \<Rightarrow> string \<Rightarrow> Response \<Rightarrow> Response" where
  "ReplyStatus B n body r = reply B n body r"
definition ReplyOk :: "boost_algo \<Rightarrow> string \<Rightarrow> Response \<Rightarrow> Response" where
  "ReplyOk B body r = reply B 200 body r"
definition ReplyContinue :: "Response \<Rightarrow> Response" where
  "ReplyContinue r = r\<lparr>status_code := 100\<rparr>"
definition ReplyLengthRequired :: "Response \<Rightarrow> Response" where
  "ReplyLengthRequired r = r\<lparr>status_code := 411\<rparr>"
definition ReplyNofound :: "boost_algo \<Rightarrow> string \<Rightarrow> Response \<Rightarrow> Response" where
  "ReplyNofound B body r = reply B 404 body r"
definition ReplyGone :: "boost_algo \<Rightarrow> string \<Rightarrow> Response \<Rightarrow> Response" where
  "ReplyGone B body r = reply B 410 body r"
definition ReplyUnauthorized :: "boost_algo \<Rightarrow> string \<Rightarrow> Response \<Rightarrow> Response" where
  "ReplyUnauthorized B body r = reply B 401 body r"
definition ReplyNoAuthoritativeInfo :: "boost_algo \<Rightarrow> string \<Rightarrow> Response \<Rightarrow> Response" where
  "ReplyNoAuthoritativeInfo B body r = reply B 203 body r"
definition ReplyBadRequest :: "boost_algo \<Rightarrow> string \<Rightarrow> Response \<Rightarrow> Response" where
  "ReplyBadRequest B body r = reply B 400 body r"
definition ReplyRangeNotSatisfiable :: "boost_algo \<Rightarrow> string \<Rightarrow> Response \<Rightarrow> Response" where
  "ReplyRangeNotSatisfiable B body r = reply B 416 body r"
definition ReplyForbidden :: "boost_algo \<Rightarrow> string \<Rightarrow> Response \<Rightarrow> Response" where
  "ReplyForbidden B body r = reply B 403 body r"
definition ReplyMethodNotAllowed :: "boost_algo \<Rightarrow> string \<Rightarrow> Response \<Rightarrow> Response" where
  "ReplyMethodNotAllowed B body r = reply B 405 body r"
definition ReplyHttpVersionNotSupported :: "boost_algo \<Rightarrow> string \<Rightarrow> Response \<Rightarrow> Response" where
  "ReplyHttpVersionNotSupported B body r = reply B 505 body r"
definition ReplyPayloadTooLarge :: "boost_algo \<Rightarrow> string \<Rightarrow> Response \<Rightarrow> Response" where
  "ReplyPayloadTooLarge B body r = reply B 413 body r"
definition ReplyUriTooLong :: "boost_algo \<Rightarrow> string \<Rightarrow> Response \<Rightarrow> Response" where
  "ReplyUriTooLong B body r = reply B 414 body r"
definition ReplyTooManyRequests :: "boost_algo \<Rightarrow> string \<Rightarrow> Response \<Rightarrow> Response" where
  "ReplyTooManyRequests B body r = reply B 429 body r"
definition ReplyNotImplemented :: "boost_algo \<Rightarrow> string \<Rightarrow> Response \<Rightarrow> Response" where
  "ReplyNotImplemented B body r = reply B 501 body r"
definition ReplyUnsupportedMediaType :: "boost_algo \<Rightarrow> string \<Rightarrow> Response \<Rightarrow> Response" where
  "ReplyUnsupportedMediaType B body r = reply B 415 body r"
definition ReplyServiceUnavailable :: "boost_algo \<Rightarrow> string \<Rightarrow> Response \<Rightarrow> Response" where
  "ReplyServiceUnavailable B body r = reply B 503 body r"
definition ReplyInternalServerError :: "boost_algo \<Rightarrow> string \<Rightarrow> Response \<Rightarrow> Response" where
  "ReplyInternalServerError B body r = reply B 500 body r"
definition ReplyOkJSON :: "boost_algo \<Rightarrow> string \<Rightarrow> string \<Rightarrow> string \<Rightarrow> Response \<Rightarrow> Response" where
  "ReplyOkJSON B json content_type content_encoding r =
     ReplyOk B json (SetContentType B content_type (SetContentEncoding B content_encoding r))"

text \<open>\<open>ReplyOk\<close> of a JSON value: \<open>dump\<close> is its text, \<open>None\<close> where the JSON library throws.\<close>

definition ReplyOk_Json :: "boost_algo \<Rightarrow> string option \<Rightarrow> Response \<Rightarrow> Response" where
  "ReplyOk_Json B dump r =
     (case dump of
        Some body \<Rightarrow> ReplyOkJSON B body ''application/json'' ''utf-8'' r
      | None \<Rightarrow> ReplyInternalServerError B [] r)"

definition ReplyMovedPermanently :: "boost_algo \<Rightarrow> string \<Rightarrow> string \<Rightarrow> Response \<Rightarrow> Response" where
  "ReplyMovedPermanently B dst body r =
     set_or_default_body B body True (SetLocation B dst (r\<lparr>status_code := 301\<rparr>))"

datatype RedirectType = temporary | permanent

definition ReplyRedirect :: "boost_algo \<Rightarrow> string \<Rightarrow> RedirectType \<Rightarrow> string \<Rightarrow> Response \<Rightarrow> Response" where
  "ReplyRedirect B dst type body r =
     set_or_default_body B body False
       (SetLocation B dst (r\<lparr>status_code := (if type = permanent then 308 else 307)\<rparr>))"

section \<open>The bytes of a response\<close>

definition show_Response :: "boost_algo \<Rightarrow> clock_env \<Rightarrow> Response \<Rightarrow> string" where
  "show_Response B T r =
     ''HTTP/'' @ to_string (uint (version_major r)) @ ''.'' @ to_string (uint (version_minor r)) @ '' '' @
     to_string (status_code r) @ '' '' @ HttpStatusSummaryGetter (status_code r) @ nl @
     concat (map (\<lambda>(f, v). f @ '':'' @ v @ nl) (res_headers r)) @
     concat (map (\<lambda>c. ''Set-Cookie:'' @ show_Cookie B T c @ nl) (cookies r)) @
     (if \<not> IsChunked B r
      then ''Content-Length:'' @ to_string (int (length (res_body r))) @ nl @ nl @ res_body r
      else nl)"

end
