(* ===== verification/ResponseProofs.thy ===== *)
theory ResponseProofs
  imports Response
begin

text \<open>
  What a response guarantees: its bytes read back line by line, the chunks of a chunked body
  decode to the bodies pushed, and its cookies stay distinct.  The readers are the reference
  behaviour of an HTTP client, written here.
\<close>

section \<open>Reading lines\<close>

fun take_line :: "string \<Rightarrow> (string \<times> string) option" where
  "take_line (c # d # s) =
     (if c = CHR 0x0D \<and> d = CHR 0x0A then Some ([], s)
      else (case take_line (d # s) of None \<Rightarrow> None | Some (l, r) \<Rightarrow> Some (c # l, r)))"
| "take_line s = None"

lemma take_line_append: "CHR 0x0D \<notin> set l \<Longrightarrow> take_line (l @ nl @ s) = Some (l, s)"
proof (induction l)
  case (Cons c l)
  obtain d t where "l @ nl @ s = d # t" by (cases "l @ nl @ s") (auto simp: nl_def)
  with Cons show ?case by auto
qed (simp add: nl_def)

lemma take_line_shorter: "take_line s = Some (l, r) \<Longrightarrow> length r < length s"
  by (induction s arbitrary: l r rule: take_line.induct) (auto split: if_splits option.splits simp: less_SucI)

function read_lines :: "string \<Rightarrow> string list \<times> string" where
  "read_lines s =
     (case take_line s of
        None \<Rightarrow> ([], s)
      | Some (l, r) \<Rightarrow> if l = [] then ([], r) else (let (ls, b) = read_lines r in (l # ls, b)))"
  by pat_completeness auto
termination
  by (relation "measure length") (auto dest: take_line_shorter)

declare read_lines.simps [simp del]

definition plain_line :: "string \<Rightarrow> bool" where
  "plain_line l \<longleftrightarrow> l \<noteq> [] \<and> CHR 0x0D \<notin> set l"

lemma read_lines_concat:
  "list_all plain_line ls \<Longrightarrow> read_lines (concat (map (\<lambda>l. l @ nl) ls) @ nl @ body) = (ls, body)"
proof (induction ls)
  case Nil
  show ?case using take_line_append [of "[]" body] by (subst read_lines.simps) simp
next
  case (Cons l ls)
  then have "CHR 0x0D \<notin> set l" "l \<noteq> []" by (simp_all add: plain_line_def)
  with Cons take_line_append [of l "concat (map (\<lambda>l. l @ nl) ls) @ nl @ body"] show ?case
    by (subst read_lines.simps) simp
qed

lemma no_CR_to_string [simp]: "CHR 0x0D \<notin> set (to_string i)"
  using to_string_chars [of "CHR 0x0D" i] by (auto simp: is_digit_def)

lemma no_CR_summary [simp]: "CHR 0x0D \<notin> set (HttpStatusSummaryGetter n)"
proof -
  have "list_all (\<lambda>(n, s). CHR 0x0D \<notin> set s) http_status_summaries"
    by (simp add: http_status_summaries_def)
  then have "CHR 0x0D \<notin> set s" if "map_of http_status_summaries n = Some s" for s
    using map_of_SomeD [OF that] by (auto simp: list_all_iff)
  then show ?thesis by (cases "map_of http_status_summaries n") (simp_all add: HttpStatusSummaryGetter_def)
qed

section \<open>The response on the wire\<close>

definition status_line :: "Response \<Rightarrow> string" where
  "status_line r = ''HTTP/'' @ to_string (uint (version_major r)) @ ''.'' @ to_string (uint (version_minor r)) @
     '' '' @ to_string (status_code r) @ '' '' @ HttpStatusSummaryGetter (status_code r)"

text \<open>
  (C17) The bytes of a response that is not chunked read back as it was built: its status line,
  one line for each header in their order, one \<^verbatim>\<open>Set-Cookie\<close> line for each cookie, a
  \<^verbatim>\<open>Content-Length\<close> line with the length of the body, an empty line and the body, provided
  that no header and no cookie text has a carriage return in it.
\<close>
theorem response_reads_back:
  assumes "\<not> IsChunked B r"
    and "list_all (\<lambda>(f, v). CHR 0x0D \<notin> set f \<and> CHR 0x0D \<notin> set v) (res_headers r)"
    and "list_all (\<lambda>c. CHR 0x0D \<notin> set (show_Cookie B T c)) (cookies r)"
  shows "read_lines (show_Response B T r) =
     (status_line r # map (\<lambda>(f, v). f @ '':'' @ v) (res_headers r) @
        map (\<lambda>c. ''Set-Cookie:'' @ show_Cookie B T c) (cookies r) @
        [''Content-Length:'' @ to_string (int (length (res_body r)))], res_body r)"
proof -
  let ?ls = "status_line r # map (\<lambda>(f, v). f @ '':'' @ v) (res_headers r) @
        map (\<lambda>c. ''Set-Cookie:'' @ show_Cookie B T c) (cookies r) @
        [''Content-Length:'' @ to_string (int (length (res_body r)))]"
  have "list_all plain_line ?ls"
    using assms(2,3) by (auto simp: plain_line_def status_line_def list_all_iff)
  moreover have "show_Response B T r = concat (map (\<lambda>l. l @ nl) ?ls) @ nl @ res_body r"
    using assms(1) by (simp add: show_Response_def status_line_def comp_def case_prod_unfold)
  ultimately show ?thesis by (simp only: read_lines_concat)
qed

definition demo_clock :: clock_env where
  "demo_clock = \<lparr>now = 0, gmt_format = (\<lambda>t. [])\<rparr>"

theorem response_reads_back_witness:
  "read_lines (show_Response boost_classic demo_clock
     (ReplyOk boost_classic ''hi'' (SetCookieNV boost_classic ''a'' ''b'' (new_Response boost_classic)))) =
   ([''HTTP/1.1 200 OK'', ''Server:da4qi4/1.10'', ''Set-Cookie:a=b'', ''Content-Length:2''], ''hi'')"
proof -
  let ?r = "ReplyOk boost_classic ''hi'' (SetCookieNV boost_classic ''a'' ''b'' (new_Response boost_classic))"
  have h: "res_headers ?r = [(''Server'', ''da4qi4/1.10'')]" "res_body ?r = ''hi''"
    "version_major ?r = 1" "version_minor ?r = 1" "status_code ?r = 200"
    by (simp_all add: ReplyOk_def reply_def set_or_default_body_def SetBody_def SetCookieNV_def SetCookie_def
        new_Response_def add_server_header_def blank_Response_def)
  have c: "cookies ?r = [ApplyHttpVersion 1 1 (new_Cookie ''a'' ''b'' [] [])]"
    by (simp add: ReplyOk_def reply_def set_or_default_body_def SetBody_def SetCookieNV_def SetCookie_def
        new_Response_def add_server_header_def blank_Response_def)
  have s: "show_Cookie boost_classic demo_clock (ApplyHttpVersion 1 1 (new_Cookie ''a'' ''b'' [] [])) = ''a=b''"
    by (simp add: show_Cookie_def ApplyHttpVersion_def new_Cookie_def default_Cookie_def QV_def
        IsExpiredImmediately_def IsExpiredAfterBrowerClose_def expires_immediately_def expires_after_brower_close_def)
  have n: "\<not> IsChunked boost_classic ?r"
    unfolding IsChunked_def TryGetHeader_def h(1) by code_simp
  have d: "to_string 1 = ''1''" "to_string 200 = ''200''" "to_string 2 = ''2''"
    "HttpStatusSummaryGetter 200 = ''OK''" by code_simp+
  show ?thesis
    using response_reads_back [OF n, of demo_clock] unfolding c h status_line_def
    by (simp add: s d)
qed

section \<open>Chunked bodies\<close>

text \<open>The reader of a chunked body: a hexadecimal length, that many bytes, until the length 0.\<close>

function chunk_decode :: "string \<Rightarrow> string option" where
  "chunk_decode s =
     (case take_line s of
        None \<Rightarrow> None
      | Some (l, r) \<Rightarrow>
          (let n = hex_value_from 0 l
           in if n = 0 then (if take 2 r = nl then Some [] else None)
              else if take 2 (drop n r) = nl then map_option ((@) (take n r)) (chunk_decode (drop (n + 2) r))
              else None))"
  by pat_completeness auto
termination
proof (relation "measure length", simp)
  fix s x l r n
  assume "take_line s = Some x" "(l, r) = x"
  then have "length r < length s" using take_line_shorter by metis
  then show "(drop (n + 2) r, s) \<in> measure length" by simp
qed

declare chunk_decode.simps [simp del]

lemma DecIntToHexStr_chars: "c \<in> set (DecIntToHexStr n) \<Longrightarrow> 48 \<le> code c"
proof -
  have "\<forall>c \<in> set (hex_remainders n). 48 \<le> code c"
  proof (induction n rule: hex_remainders.induct)
    case (1 q)
    have "q mod 16 < 16" by simp
    then show ?case
      using 1 by (subst hex_remainders.simps) (auto simp: Let_def simp del: mod_less_divisor)
  qed
  then show "c \<in> set (DecIntToHexStr n) \<Longrightarrow> 48 \<le> code c" by (simp add: DecIntToHexStr_def)
qed

lemma no_CR_DecIntToHexStr [simp]: "CHR 0x0D \<notin> set (DecIntToHexStr n)"
  using DecIntToHexStr_chars [of "CHR 0x0D" n] by auto

lemma chunk_decode_step:
  "body \<noteq> [] \<Longrightarrow> chunk_decode (DecIntToHexStr (length body) @ nl @ body @ nl @ s) = map_option ((@) body) (chunk_decode s)"
proof -
  assume "body \<noteq> []"
  have "take_line (DecIntToHexStr (length body) @ nl @ body @ nl @ s) =
      Some (DecIntToHexStr (length body), body @ nl @ s)"
    by (rule take_line_append) simp
  moreover have "take 2 (nl @ s) = nl" "drop 2 (nl @ s) = s" by (simp_all add: nl_def)
  ultimately show ?thesis using \<open>body \<noteq> []\<close>
    by (subst chunk_decode.simps) (simp add: hex_value_DecIntToHexStr)
qed

lemma chunk_decode_last: "chunk_decode (''0'' @ nl @ nl @ s) = Some []"
proof -
  have "take_line (''0'' @ nl @ nl @ s) = Some (''0'', nl @ s)" by (rule take_line_append) simp
  moreover have "take 2 (nl @ s) = nl" by (simp add: nl_def)
  ultimately show ?thesis by (subst chunk_decode.simps) simp
qed

text \<open>What the writer sends: it takes the chunks from the front until the mark of the last one.\<close>

fun pop_chunks :: "nat \<Rightarrow> ChunkedBodies \<Rightarrow> string" where
  "pop_chunks 0 q = []"
| "pop_chunks (Suc n) q =
     (let (d, is_last, q') = ChunkedPopFront q in if is_last then [] else d @ pop_chunks n q')"

lemma pop_chunks_data:
  "pop_chunks (length ds + n) (map (\<lambda>d. (d, False)) ds @ q) = concat ds @ pop_chunks n q"
  by (induction ds) (simp_all add: ChunkedPopFront_def)

lemma fold_ChunkedPushBack:
  "fold (\<lambda>b. ChunkedPushBack b False) bs q =
   q @ map (\<lambda>d. (d, False)) (map (\<lambda>b. DecIntToHexStr (length b) @ nl @ b @ nl) bs)"
  by (induction bs arbitrary: q) (simp_all add: ChunkedPushBack_def)

lemma chunks_decode:
  assumes "list_all (\<lambda>b. b \<noteq> []) bs"
  shows "chunk_decode (pop_chunks (length bs + 2)
     (ChunkedPushBack body True (fold (\<lambda>b. ChunkedPushBack b False) bs []))) = Some (concat bs)"
proof -
  let ?ds = "map (\<lambda>b. DecIntToHexStr (length b) @ nl @ b @ nl) bs"
  have "ChunkedPushBack body True (fold (\<lambda>b. ChunkedPushBack b False) bs []) =
      map (\<lambda>d. (d, False)) (?ds @ [''0'' @ nl @ nl]) @ [([], True)]"
    by (simp add: fold_ChunkedPushBack ChunkedPushBack_def)
  moreover have "length bs + 2 = length (?ds @ [''0'' @ nl @ nl]) + 1" by simp
  ultimately have "pop_chunks (length bs + 2)
      (ChunkedPushBack body True (fold (\<lambda>b. ChunkedPushBack b False) bs [])) = concat (?ds @ [''0'' @ nl @ nl])"
    by (simp only: pop_chunks_data) (simp add: ChunkedPopFront_def)
  moreover have "chunk_decode (concat ?ds @ ''0'' @ nl @ nl) = Some (concat bs)"
    using assms
  proof (induction bs)
    case Nil
    then show ?case using chunk_decode_last [of "[]"] by simp
  next
    case (Cons b bs)
    then show ?case using chunk_decode_step [of b] by simp
  qed
  ultimately show ?thesis by simp
qed

text \<open>
  (C18) Bodies pushed one after the other, none of them empty, and then the last mark, are sent as
  chunks from which a reader of the chunked coding gets exactly the bodies, in their order.
\<close>
theorem chunks_decode_to_bodies:
  assumes "list_all (\<lambda>b. b \<noteq> []) bs"
  shows "chunk_decode (pop_chunks (length bs + 2)
     (ChunkedPushBack body True (fold (\<lambda>b. ChunkedPushBack b False) bs []))) = Some (concat bs)"
  using assms by (rule chunks_decode)

theorem chunks_decode_to_bodies_witness:
  "chunk_decode (pop_chunks 4 (ChunkedPushBack [] True (fold (\<lambda>b. ChunkedPushBack b False) [''hello'', ''!''] []))) =
     Some ''hello!''"
  using chunks_decode_to_bodies [of "[''hello'', ''!'']" "[]"]
  by (simp add: eval_nat_numeral del: pop_chunks.simps)

text \<open>
  An empty body that is not the last is written as the end of the stream, and the body that is
  pushed as the last one is dropped.
\<close>

lemma empty_chunk_ends_stream:
  "chunk_decode (pop_chunks 3 (ChunkedPushBack [] True (fold (\<lambda>b. ChunkedPushBack b False) [[], ''x''] []))) = Some []"
proof -
  have "DecIntToHexStr 0 = ''0''" by code_simp
  then have "pop_chunks 3 (ChunkedPushBack [] True (fold (\<lambda>b. ChunkedPushBack b False) [[], ''x''] [])) =
      ''0'' @ nl @ nl @ DecIntToHexStr 1 @ nl @ ''x'' @ nl @ ''0'' @ nl @ nl"
    by (simp add: ChunkedPushBack_def ChunkedPopFront_def eval_nat_numeral)
  then show ?thesis by (simp only: chunk_decode_last)
qed

lemma last_chunk_body_dropped: "ChunkedPushBack body True q = ChunkedPushBack [] True q"
  by (simp add: ChunkedPushBack_def)

section \<open>Cookies\<close>

definition same_id :: "boost_algo \<Rightarrow> Cookie \<Rightarrow> Cookie \<Rightarrow> bool" where
  "same_id B a b \<longleftrightarrow> same_cookie B a (cookie_name b) (cookie_domain b) (cookie_path b)"

definition distinct_cookies :: "boost_algo \<Rightarrow> Cookie list \<Rightarrow> bool" where
  "distinct_cookies B cs \<longleftrightarrow> sorted_wrt (\<lambda>a b. \<not> same_id B a b) cs"

lemma iEquals_upper: "boost_laws B \<Longrightarrow> iEquals B s t \<longleftrightarrow> upper s = upper t"
  by (simp add: boost_laws_def iEquals_def)

lemma same_id_upper:
  "boost_laws B \<Longrightarrow> same_id B a b \<longleftrightarrow> upper (cookie_name a) = upper (cookie_name b) \<and>
     upper (cookie_domain a) = upper (cookie_domain b) \<and> upper (cookie_path a) = upper (cookie_path b)"
  by (simp add: same_id_def same_cookie_def iEquals_upper)

text \<open>
  Setting a cookie keeps the cookies of a response distinct: at most one for a name, domain
  and path up to case.  The cookie set last is among them, and exactly the cookies with another
  name, domain or path are still there.
\<close>
theorem set_cookie_distinct:
  assumes "boost_laws B" "distinct_cookies B (cookies r)"
  shows "distinct_cookies B (cookies (SetCookie B c r)) \<and>
     set (cookies (SetCookie B c r)) = insert c {d \<in> set (cookies r). \<not> same_id B d c}"
proof -
  note eqv = same_id_upper [OF assms(1)]
  have "distinct_cookies B (change_first (\<lambda>d. same_id B d c) (\<lambda>d. c) c cs) \<and>
      set (change_first (\<lambda>d. same_id B d c) (\<lambda>d. c) c cs) = insert c {d \<in> set cs. \<not> same_id B d c}"
    if "distinct_cookies B cs" for cs
    using that
  proof (induction cs)
    case (Cons d cs)
    have cs: "distinct_cookies B cs" and d: "\<forall>e \<in> set cs. \<not> same_id B d e"
      using Cons.prems by (simp_all add: distinct_cookies_def)
    show ?case
    proof (cases "same_id B d c")
      case True
      then have "\<forall>e \<in> set cs. \<not> same_id B c e \<and> \<not> same_id B e c" using d by (auto simp: eqv)
      with True cs show ?thesis by (auto simp: distinct_cookies_def)
    next
      case False
      with Cons.IH [OF cs] d show ?thesis by (auto simp: distinct_cookies_def)
    qed
  qed (simp add: distinct_cookies_def)
  then show ?thesis using assms(2) by (simp add: SetCookie_def same_id_def)
qed

theorem set_cookie_distinct_witness:
  "distinct_cookies boost_classic (cookies (SetCookie boost_classic (new_Cookie ''SID'' ''2'' [] [])
     (SetCookieNV boost_classic ''sid'' ''1'' (new_Response boost_classic))))"
proof -
  have "distinct_cookies boost_classic (cookies (SetCookieNV boost_classic ''sid'' ''1'' (new_Response boost_classic)))"
    by (simp add: SetCookieNV_def SetCookie_def new_Response_def add_server_header_def blank_Response_def
        distinct_cookies_def)
  from set_cookie_distinct [OF boost_classic_laws this] show ?thesis by blast
qed

text \<open>
  Expiring a cookie that was set before empties its name instead of its value.
\<close>

lemma expire_set_cookie_clears_name:
  "map (\<lambda>c. (cookie_name c, cookie_value c)) (cookies (SetCookieExpiredImmediately boost_classic ''a'' [] []
     (SetCookieNV boost_classic ''a'' ''b'' (new_Response boost_classic)))) = [([], ''b'')]"
  by (simp add: SetCookieExpiredImmediately_def SetCookieNV_def SetCookie_def new_Response_def
      add_server_header_def blank_Response_def same_cookie_def iEquals_def boost_classic_def
      ApplyHttpVersion_def new_Cookie_def default_Cookie_def SetExpiredImmediately_def SetValue_def)

text \<open>The character set is looked for after a separator the code never writes.\<close>

lemma split_content_type_misses_charset:
  "split_content_type_value ''text/html; charset=UTF-8'' = (''text/html; charset=UTF-8'', [])"
  by code_simp

end
