(* ===== verification/Intercept.thy ===== *)
theory Intercept
  imports Prelude
begin

text \<open>
  The chain of intercepters around a handler, \<^verbatim>\<open>src/context.cpp\<close> from \<open>Start\<close> on.  The chain is
  a list of the application; an iterator into it is its position, from 0 to the number \<open>size\<close>
  of intercepters.  What the code calls (an intercepter in one of the two directions, the
  handler of the application, the write of the response) is logged in \<open>calls\<close>; whoever was
  called continues the chain, at once or later, by \<open>Pass\<close> or \<open>Stop\<close>.
\<close>

datatype On = OnRequest | OnHandle | OnResponse
datatype Result = Pass | Stop

datatype chain_call = Call nat On | Handle | StartWrite

record chain_state =
  size :: nat
  intercepter_on :: On
  intercepter_iter :: nat
  calls :: "chain_call list"

definition log_call :: "chain_call \<Rightarrow> chain_state \<Rightarrow> chain_state" where
  "log_call c s = s\<lparr>calls := calls s @ [c]\<rparr>"

definition chain_end :: "chain_state \<Rightarrow> chain_state" where
  "chain_end s = log_call StartWrite s"

definition do_intercepter_on_req_dir :: "chain_state \<Rightarrow> chain_state" where
  "do_intercepter_on_req_dir s =
     (if intercepter_iter s = size s then log_call Handle (s\<lparr>intercepter_on := OnHandle\<rparr>)
      else log_call (Call (intercepter_iter s) OnRequest) s)"

text \<open>A reverse iterator made from a position refers to the element before it.\<close>

definition do_intercepter_on_res_dir :: "chain_state \<Rightarrow> chain_state" where
  "do_intercepter_on_res_dir s =
     (if intercepter_iter s = 0 then chain_end s
      else log_call (Call (intercepter_iter s - 1) OnResponse) s)"

definition ContextStart :: "nat \<Rightarrow> chain_state" where
  "ContextStart n = do_intercepter_on_req_dir
     \<lparr>size = n, intercepter_on = OnRequest, intercepter_iter = 0, calls = []\<rparr>"

definition start_intercepter_on_res_dir :: "Result \<Rightarrow> chain_state \<Rightarrow> chain_state" where
  "start_intercepter_on_res_dir r s =
     (case r of Pass \<Rightarrow> do_intercepter_on_res_dir s | Stop \<Rightarrow> chain_end s)"

text \<open>Moving an iterator past the end, or before the first element, is undefined: \<open>None\<close>.\<close>

definition next_intercepter_on_req_dir :: "Result \<Rightarrow> chain_state \<Rightarrow> chain_state option" where
  "next_intercepter_on_req_dir r s =
     (if intercepter_iter s < size s then
        (let s1 = s\<lparr>intercepter_iter := intercepter_iter s + 1\<rparr>
         in case r of
              Pass \<Rightarrow> Some (do_intercepter_on_req_dir s1)
            | Stop \<Rightarrow> Some (do_intercepter_on_res_dir (s1\<lparr>intercepter_on := OnResponse\<rparr>)))
      else None)"

definition next_intercepter_on_res_dir :: "Result \<Rightarrow> chain_state \<Rightarrow> chain_state option" where
  "next_intercepter_on_res_dir r s =
     (if 0 < intercepter_iter s
      then Some (start_intercepter_on_res_dir r (s\<lparr>intercepter_iter := intercepter_iter s - 1\<rparr>))
      else None)"

definition chain_next :: "Result \<Rightarrow> chain_state \<Rightarrow> chain_state option" where
  "chain_next r s =
     (case intercepter_on s of
        OnRequest \<Rightarrow> next_intercepter_on_req_dir r s
      | OnHandle \<Rightarrow> Some (start_intercepter_on_res_dir r (s\<lparr>intercepter_on := OnResponse\<rparr>))
      | OnResponse \<Rightarrow> next_intercepter_on_res_dir r s)"

fun chain_run :: "Result list \<Rightarrow> chain_state \<Rightarrow> chain_state option" where
  "chain_run [] s = Some s"
| "chain_run (r # rs) s = (case chain_next r s of None \<Rightarrow> None | Some s' \<Rightarrow> chain_run rs s')"

text \<open>
  A whole exchange: every called party decides once, and nobody decides after the response is
  written.
\<close>

definition finished :: "chain_state \<Rightarrow> bool" where
  "finished s \<longleftrightarrow> calls s \<noteq> [] \<and> last (calls s) = StartWrite"

fun chain_drive :: "Result list \<Rightarrow> chain_state \<Rightarrow> chain_state option" where
  "chain_drive [] s = Some s"
| "chain_drive (r # rs) s =
     (if finished s then Some s
      else case chain_next r s of None \<Rightarrow> None | Some s' \<Rightarrow> chain_drive rs s')"

section \<open>The calls of an exchange\<close>

definition requests :: "nat \<Rightarrow> chain_call list" where
  "requests k = map (\<lambda>i. Call i OnRequest) [0..<k]"

text \<open>The response calls from the intercepter before position \<open>k\<close> down to position \<open>j\<close>.\<close>

definition responses :: "nat \<Rightarrow> nat \<Rightarrow> chain_call list" where
  "responses k j = map (\<lambda>i. Call i OnResponse) (rev [j..<k])"

lemma requests_Suc: "requests (Suc k) = requests k @ [Call k OnRequest]"
  by (simp add: requests_def)

lemma responses_Suc: "j < k \<Longrightarrow> responses k j = responses k (Suc j) @ [Call j OnResponse]"
  by (simp add: responses_def upt_conv_Cons)

lemma responses_self [simp]: "responses k k = []"
  by (simp add: responses_def)

lemma requests_0 [simp]: "requests 0 = []"
  by (simp add: requests_def)

text \<open>What lies between the way in, up to position \<open>k\<close>, and the way out, down to \<open>j\<close>.\<close>

definition middle :: "nat \<Rightarrow> nat \<Rightarrow> nat \<Rightarrow> chain_call list \<Rightarrow> bool" where
  "middle n k j h \<longleftrightarrow> h = [Handle] \<and> k = n \<and> j \<le> k \<or> h = [] \<and> k \<le> n \<and> j < k"

definition chain_inv :: "nat \<Rightarrow> chain_state \<Rightarrow> bool" where
  "chain_inv n s \<longleftrightarrow> size s = n \<and>
     (intercepter_on s = OnRequest \<and> intercepter_iter s < n \<and>
        calls s = requests (Suc (intercepter_iter s)) \<or>
      intercepter_on s = OnHandle \<and> intercepter_iter s = n \<and> calls s = requests n @ [Handle] \<or>
      intercepter_on s = OnResponse \<and> (\<exists>k h j. middle n k j h \<and> j < k \<and> intercepter_iter s = Suc j \<and>
        calls s = requests k @ h @ responses k j) \<or>
      (\<exists>k h j. middle n k j h \<and> calls s = requests k @ h @ responses k j @ [StartWrite]))"

lemmas chain_defs = chain_next_def next_intercepter_on_req_dir_def next_intercepter_on_res_dir_def
  start_intercepter_on_res_dir_def do_intercepter_on_req_dir_def do_intercepter_on_res_dir_def
  chain_end_def log_call_def Let_def

lemma chain_inv_cases:
  assumes "chain_inv n s" "\<not> finished s"
  obtains (request) "size s = n" "intercepter_on s = OnRequest" "intercepter_iter s < n"
      "calls s = requests (Suc (intercepter_iter s))"
    | (handle) "size s = n" "intercepter_on s = OnHandle" "intercepter_iter s = n"
      "calls s = requests n @ [Handle]"
    | (response) k h j where "size s = n" "intercepter_on s = OnResponse" "middle n k j h" "j < k"
      "intercepter_iter s = Suc j" "calls s = requests k @ h @ responses k j"
  using assms unfolding chain_inv_def finished_def by fastforce

lemma chain_inv_start: "chain_inv n (ContextStart n)"
  by (cases n) (auto simp: chain_inv_def ContextStart_def chain_defs requests_def)

lemma chain_inv_response:
  assumes "size s = n" "intercepter_on s = OnResponse" "intercepter_iter s = j" "middle n k j h"
    "calls s = requests k @ h @ responses k j"
  shows "chain_inv n (do_intercepter_on_res_dir s)"
    and "chain_inv n (chain_end s)"
proof -
  show "chain_inv n (chain_end s)"
    unfolding chain_inv_def using assms by (fastforce simp: chain_defs)
  show "chain_inv n (do_intercepter_on_res_dir s)"
  proof (cases j)
    case 0
    then show ?thesis
      unfolding chain_inv_def using assms by (fastforce simp: chain_defs)
  next
    case (Suc i)
    have "middle n k i h" "i < k"
      using assms(4) Suc by (auto simp: middle_def)
    moreover have "calls (do_intercepter_on_res_dir s) = requests k @ h @ responses k i"
      using assms Suc \<open>i < k\<close> by (simp add: chain_defs responses_Suc[of i k])
    ultimately show ?thesis
      unfolding chain_inv_def using assms Suc by (auto simp: chain_defs)
  qed
qed

text \<open>How many decisions may still be asked for.\<close>

definition pending :: "chain_state \<Rightarrow> nat" where
  "pending s = (case intercepter_on s of
      OnRequest \<Rightarrow> 2 * size s + 1 - intercepter_iter s
    | OnHandle \<Rightarrow> size s + 1
    | OnResponse \<Rightarrow> intercepter_iter s)"

lemma chain_inv_step:
  assumes "chain_inv n s" "\<not> finished s"
  obtains s' where "chain_next r s = Some s'" "chain_inv n s'"
    "finished s' \<or> pending s' < pending s" "0 < pending s"
  using assms
proof (cases rule: chain_inv_cases)
  case request
  show ?thesis
  proof (cases r)
    case Pass
    have "chain_next r s = Some (do_intercepter_on_req_dir (s\<lparr>intercepter_iter := Suc (intercepter_iter s)\<rparr>))"
      using request Pass by (simp add: chain_next_def next_intercepter_on_req_dir_def)
    then show ?thesis
      by (rule that) (use request in \<open>auto simp: chain_defs chain_inv_def pending_def requests_Suc[of "Suc (intercepter_iter s)"]\<close>)
  next
    case Stop
    let ?s = "s\<lparr>intercepter_iter := Suc (intercepter_iter s), intercepter_on := OnResponse\<rparr>"
    have "chain_next r s = Some (do_intercepter_on_res_dir ?s)"
      using request Stop by (simp add: chain_next_def next_intercepter_on_req_dir_def)
    let ?i = "intercepter_iter s" and ?r = "do_intercepter_on_res_dir ?s"
    have "middle n (Suc ?i) ?i [] \<and> ?i < Suc ?i \<and> intercepter_iter ?r = Suc ?i \<and>
        calls ?r = requests (Suc ?i) @ [] @ responses (Suc ?i) ?i"
      using request by (simp add: chain_defs middle_def responses_Suc[of ?i])
    then have "\<exists>k h j. middle n k j h \<and> j < k \<and> intercepter_iter ?r = Suc j \<and>
        calls ?r = requests k @ h @ responses k j"
      by blast
    then have "chain_inv n ?r"
      unfolding chain_inv_def using request by (simp add: chain_defs)
    with \<open>chain_next r s = _\<close>
    show ?thesis
      by (rule that) (use request in \<open>auto simp: chain_defs pending_def\<close>)
  qed
next
  case handle
  let ?s = "s\<lparr>intercepter_on := OnResponse\<rparr>"
  have "chain_next r s = Some (start_intercepter_on_res_dir r ?s)"
    using handle by (simp add: chain_next_def)
  moreover have "chain_inv n (start_intercepter_on_res_dir r ?s)"
    using chain_inv_response[of ?s n n n "[Handle]"] handle
    by (cases r) (simp_all add: start_intercepter_on_res_dir_def middle_def)
  ultimately show ?thesis
    by (rule that) (use handle in \<open>auto simp: chain_defs pending_def finished_def split: Result.splits\<close>)
next
  case (response k h j)
  let ?s = "s\<lparr>intercepter_iter := j\<rparr>"
  have "chain_next r s = Some (start_intercepter_on_res_dir r ?s)"
    using response by (simp add: chain_next_def next_intercepter_on_res_dir_def)
  moreover have "chain_inv n (start_intercepter_on_res_dir r ?s)"
    using chain_inv_response[of ?s n j k h] response
    by (cases r) (simp_all add: start_intercepter_on_res_dir_def)
  ultimately show ?thesis
    by (rule that) (use response in \<open>auto simp: chain_defs pending_def finished_def split: Result.splits\<close>)
qed


lemma chain_drive_answers:
  assumes "chain_inv n s" "finished s \<or> pending s \<le> length rs"
  shows "\<exists>s'. chain_drive rs s = Some s' \<and> chain_inv n s' \<and> finished s'"
  using assms
proof (induction rs arbitrary: s)
  case Nil
  then have "finished s"
    using chain_inv_step[OF Nil(1)] by (metis le_zero_eq list.size(3) less_numeral_extra(3))
  then show ?case using Nil by simp
next
  case (Cons r rs)
  show ?case
  proof (cases "finished s")
    case False
    obtain s' where "chain_next r s = Some s'" "chain_inv n s'" "finished s' \<or> pending s' < pending s"
      using chain_inv_step[OF Cons.prems(1) False] by metis
    then show ?thesis
      using Cons.IH[of s'] Cons.prems(2) False by force
  qed (use Cons.prems in simp)
qed

lemma pending_start: "finished (ContextStart n) \<or> pending (ContextStart n) \<le> 2 * n + 1"
  by (simp add: ContextStart_def chain_defs pending_def)

lemma chain_inv_finished:
  assumes "chain_inv n s" "finished s"
  shows "\<exists>k h j. middle n k j h \<and> calls s = requests k @ h @ responses k j @ [StartWrite]"
proof -
  have "last (requests (Suc i)) \<noteq> StartWrite" for i
    by (simp add: requests_Suc)
  moreover have "last (requests k @ h @ responses k j) \<noteq> StartWrite" if "j < k" for k h j
    using that by (simp add: responses_Suc)
  ultimately show ?thesis
    using assms unfolding chain_inv_def finished_def by auto
qed

text \<open>
  (C21) Every request gets one answer.  Whatever the intercepters and the handler decide, if
  each of them decides once, then after at most 2n+1 decisions the response is written, and it
  is written once, last: the first k intercepters are called on the way in, in order; the
  handler only when all n were passed; then the intercepters are called on the way out in the
  reverse order, without a gap, starting at the last one called on the way in.  No iterator
  leaves the chain.
\<close>

theorem chain_answers:
  assumes "2 * n + 1 \<le> length rs"
  shows "\<exists>s k h j. chain_drive rs (ContextStart n) = Some s \<and>
    calls s = requests k @ h @ responses k j @ [StartWrite] \<and>
    (h = [Handle] \<and> k = n \<and> j \<le> k \<or> h = [] \<and> k \<le> n \<and> j < k)"
proof -
  obtain s where "chain_drive rs (ContextStart n) = Some s" "chain_inv n s" "finished s"
    using chain_drive_answers[OF chain_inv_start] pending_start[of n] assms by (meson le_trans)
  then show ?thesis
    using chain_inv_finished unfolding middle_def by metis
qed

theorem chain_answers_witness:
  "\<exists>s k h j. chain_drive [Pass, Stop, Pass, Pass, Pass] (ContextStart 2) = Some s \<and>
    calls s = requests k @ h @ responses k j @ [StartWrite] \<and>
    (h = [Handle] \<and> k = 2 \<and> j \<le> k \<or> h = [] \<and> k \<le> 2 \<and> j < k)"
  by (rule chain_answers) simp

section \<open>What the decisions lead to\<close>

text \<open>
  The chain as an onion: an intercepter that passes the request wraps what is inside it; the
  decisions are those of the called parties, in the order of the calls.
\<close>

fun way_out :: "nat \<Rightarrow> Result list \<Rightarrow> chain_call list" where
  "way_out 0 rs = [StartWrite]"
| "way_out (Suc k) [] = [Call k OnResponse]"
| "way_out (Suc k) (r # rs) = Call k OnResponse # (if r = Pass then way_out k rs else [StartWrite])"

fun way_in :: "nat \<Rightarrow> nat \<Rightarrow> Result list \<Rightarrow> chain_call list" where
  "way_in 0 i [] = [Handle]"
| "way_in 0 i (r # rs) = Handle # (if r = Pass then way_out i rs else [StartWrite])"
| "way_in (Suc m) i [] = [Call i OnRequest]"
| "way_in (Suc m) i (r # rs) =
     Call i OnRequest # (if r = Pass then way_in m (Suc i) rs else way_out (Suc i) rs)"

lemma chain_drive_finished: "finished s \<Longrightarrow> chain_drive rs s = Some s"
  by (cases rs) simp_all

lemma drive_way_out:
  "intercepter_on s = OnResponse \<Longrightarrow> \<exists>s'. chain_drive rs (do_intercepter_on_res_dir s) = Some s' \<and>
     calls s' = calls s @ way_out (intercepter_iter s) rs"
proof (induction "intercepter_iter s" rs arbitrary: s rule: way_out.induct)
  case (1 rs)
  then have "finished (do_intercepter_on_res_dir s)"
    by (simp add: chain_defs finished_def)
  then show ?case using 1(1)[symmetric] by (simp add: chain_drive_finished) (simp add: chain_defs)
next
  case (2 k)
  then show ?case by (simp add: chain_defs flip: 2(1))
next
  case (3 k r rs)
  let ?s = "do_intercepter_on_res_dir s"
  let ?t = "?s\<lparr>intercepter_iter := k\<rparr>"
  have u: "calls ?s = calls s @ [Call k OnResponse]" "intercepter_on ?s = OnResponse"
    "intercepter_iter ?s = Suc k"
    using 3(2)[symmetric] 3(3) by (simp_all add: chain_defs)
  then have n: "chain_next r ?s = Some (start_intercepter_on_res_dir r ?t)" "\<not> finished ?s"
    by (simp_all add: chain_next_def next_intercepter_on_res_dir_def finished_def)
  show ?case
  proof (cases r)
    case Pass
    have "\<exists>s'. chain_drive rs (do_intercepter_on_res_dir ?t) = Some s' \<and>
        calls s' = calls ?t @ way_out k rs"
      using 3(1)[of ?t] Pass u by simp
    then show ?thesis
      using n Pass u by (auto simp: start_intercepter_on_res_dir_def simp flip: 3(2))
  next
    case Stop
    have "finished (chain_end ?t)" by (simp add: chain_defs finished_def)
    then show ?thesis
      using n Stop u
      by (simp add: start_intercepter_on_res_dir_def chain_drive_finished flip: 3(2))
         (simp add: chain_defs)
  qed
qed


lemma drive_way_in:
  "intercepter_on s = OnRequest \<Longrightarrow> intercepter_iter s + m = size s \<Longrightarrow>
    \<exists>s'. chain_drive rs (do_intercepter_on_req_dir s) = Some s' \<and>
      calls s' = calls s @ way_in m (intercepter_iter s) rs"
proof (induction m "intercepter_iter s" rs arbitrary: s rule: way_in.induct)
  case (1 i)
  then show ?case by (simp add: chain_defs)
next
  case (2 r rs)
  let ?s = "do_intercepter_on_req_dir s"
  let ?t = "?s\<lparr>intercepter_on := OnResponse\<rparr>"
  have u: "calls ?t = calls s @ [Handle]" "intercepter_iter ?t = intercepter_iter s"
    "intercepter_on ?t = OnResponse"
    using 2 by (simp_all add: chain_defs)
  have n: "chain_next r ?s = Some (start_intercepter_on_res_dir r ?t)" "\<not> finished ?s"
    using 2 by (simp_all add: chain_defs finished_def)
  show ?case
  proof (cases r)
    case Pass
    then show ?thesis
      using drive_way_out[of ?t rs] n u by (auto simp: start_intercepter_on_res_dir_def)
  next
    case Stop
    have "finished (chain_end ?t)" by (simp add: chain_defs finished_def)
    then show ?thesis
      using n Stop u
      by (simp add: start_intercepter_on_res_dir_def chain_drive_finished) (simp add: chain_defs)
  qed
next
  case (3 m)
  then show ?case by (simp add: chain_defs)
next
  case (4 m r rs)
  let ?s = "do_intercepter_on_req_dir s"
  let ?t = "?s\<lparr>intercepter_iter := Suc (intercepter_iter s)\<rparr>"
  have u: "?s = log_call (Call (intercepter_iter s) OnRequest) s"
    using 4 by (simp add: do_intercepter_on_req_dir_def)
  have f: "\<not> finished ?s" by (simp add: u finished_def log_call_def)
  have c: "calls ?t = calls s @ [Call (intercepter_iter s) OnRequest]"
    by (simp add: u log_call_def)
  show ?case
  proof (cases r)
    case Pass
    have "chain_next r ?s = Some (do_intercepter_on_req_dir ?t)"
      using 4 Pass by (simp add: chain_next_def next_intercepter_on_req_dir_def u log_call_def)
    then show ?thesis
      using 4(1)[of ?t] 4 Pass f c by (auto simp: u log_call_def)
  next
    case Stop
    have "chain_next r ?s = Some (do_intercepter_on_res_dir (?t\<lparr>intercepter_on := OnResponse\<rparr>))"
      using 4 Stop by (simp add: chain_next_def next_intercepter_on_req_dir_def u log_call_def)
    then show ?thesis
      using drive_way_out[of "?t\<lparr>intercepter_on := OnResponse\<rparr>" rs] Stop f c by auto
  qed
qed

text \<open>
  (C22) The chain is an onion.  The calls made for a request are those of the nested reading:
  an intercepter that passes wraps the rest of the chain and gets the response afterwards; one
  that stops on the way in gets the response at once, together with those outside it and no
  one else; a stop on the way out, and a stop of the handler, writes the response without
  asking the intercepters that are left.
\<close>

theorem chain_is_an_onion:
  "map_option calls (chain_drive rs (ContextStart n)) = Some (way_in n 0 rs)"
  using drive_way_in[of "\<lparr>size = n, intercepter_on = OnRequest, intercepter_iter = 0, calls = []\<rparr>" n rs]
  unfolding ContextStart_def by auto

text \<open>
  The session intercepter, when Redis refuses to store the session, decides twice: \<open>Stop\<close>
  and then \<open>Pass\<close>.  If it is not the first of the chain, the response is asked for twice; if
  it is the first, the second decision moves the iterator before the chain.
\<close>

theorem double_decision_writes_twice:
  "map_option calls (chain_run [Pass, Pass, Pass, Stop, Pass] (ContextStart 2)) =
     Some [Call 0 OnRequest, Call 1 OnRequest, Handle, Call 1 OnResponse, StartWrite,
           StartWrite]"
  by (simp add: ContextStart_def chain_defs)

theorem double_decision_leaves_chain:
  "chain_run [Pass, Pass, Stop, Pass] (ContextStart 1) = None"
  by (simp add: ContextStart_def chain_defs)

end
