(* ===== verification/Files.thy ===== *)
theory Files
  imports StringUtil
begin

text \<open>
  \<^verbatim>\<open>src/utilities/file_utilities.cpp\<close> over a store of files.  What the operating system answers
  is an environment: whether a directory is there or can be made, whether a file can be
  opened, what of the written bytes gets into it, and the errors of copying and renaming.
\<close>

type_synonym files = "string \<Rightarrow> string option"

record file_env =
  dir_ready :: "string \<Rightarrow> string + bool"
  can_write :: "string \<Rightarrow> bool"
  can_read :: "string \<Rightarrow> bool"
  stored :: "string \<Rightarrow> string \<Rightarrow> string"
  status_error :: "string \<Rightarrow> bool"
  copy_error :: "string \<Rightarrow> string \<Rightarrow> string option"
  path_join :: "string \<Rightarrow> string \<Rightarrow> string"
  path_extension :: "string \<Rightarrow> string"
  exists_throws :: "string \<Rightarrow> bool"

datatype FileOverwriteOptions = ignore_success | ignore_fail | overwrite

text \<open>
  \<open>dir_ready\<close> is what the existence or the making of the file's directory gives.  \<open>stored E fn d\<close> is
  what the file \<open>fn\<close> holds after \<open>d\<close> was written and the file closed: all of it, or what the device
  took before an error, which no caller looks at.
\<close>

definition SaveDataToFile :: "file_env \<Rightarrow> string \<Rightarrow> string \<Rightarrow> string \<Rightarrow> files \<Rightarrow> bool \<times> string \<times> files" where
  "SaveDataToFile E data fn err fs =
     (case dir_ready E fn of
        Inl e \<Rightarrow> (False, e, fs)
      | Inr ready \<Rightarrow>
          if \<not> ready then (False, ''dir no exists'', fs)
          else if \<not> can_write E fn then (False, err, fs)
          else (True, err, fs(fn \<mapsto> stored E fn data)))"

definition IsFileExists :: "file_env \<Rightarrow> files \<Rightarrow> string \<Rightarrow> bool" where
  "IsFileExists E fs fn \<longleftrightarrow> \<not> status_error E fn \<and> fs fn \<noteq> None"

definition CopyFile :: "file_env \<Rightarrow> string \<Rightarrow> string \<Rightarrow> FileOverwriteOptions \<Rightarrow> files \<Rightarrow>
    (bool \<times> string) \<times> files" where
  "CopyFile E src dst ow fs =
     (if \<not> IsFileExists E fs src then ((False, ''Source file is not exists.''), fs)
      else if IsFileExists E fs dst \<and> ow \<noteq> overwrite
      then ((ow = ignore_success, ''Destination was exists.''), fs)
      else case copy_error E src dst of
        Some e \<Rightarrow> ((False, e), fs)
      | None \<Rightarrow> ((True, []), fs(dst := fs src)))"

definition MoveFile :: "file_env \<Rightarrow> string \<Rightarrow> string \<Rightarrow> FileOverwriteOptions \<Rightarrow> files \<Rightarrow>
    (bool \<times> string) \<times> files" where
  "MoveFile E src dst ow fs =
     (if \<not> IsFileExists E fs src then ((False, ''Sourse is not exists.''), fs)
      else if IsFileExists E fs dst \<and> ow \<noteq> overwrite
      then ((ow = ignore_success, ''Destination is exists.''), fs)
      else case copy_error E src dst of
        Some e \<Rightarrow> ((False, e), fs)
      | None \<Rightarrow> ((True, []), (fs(src := None))(dst := fs src)))"

text \<open>No file but the destination, and for a move the source, is ever changed.\<close>

lemma CopyFile_others: "snd (CopyFile E src dst ow fs) fn \<noteq> fs fn \<Longrightarrow> fn = dst"
  by (auto simp: CopyFile_def split: if_splits option.splits)

lemma CopyFile_keeps_existing:
  "IsFileExists E fs dst \<Longrightarrow> ow \<noteq> overwrite \<Longrightarrow> snd (CopyFile E src dst ow fs) = fs"
  by (simp add: CopyFile_def)

lemma MoveFile_keeps_data:
  "fst (fst (MoveFile E src dst ow fs)) \<Longrightarrow> \<not> (IsFileExists E fs dst \<and> ow \<noteq> overwrite) \<Longrightarrow>
     snd (MoveFile E src dst ow fs) dst = fs src"
  by (auto simp: MoveFile_def split: if_splits option.splits)

text \<open>A write that fails is reported as a success: the file holds what the device took.\<close>

lemma failed_write_is_success:
  "dir_ready E fn = Inr True \<Longrightarrow> can_write E fn \<Longrightarrow>
     SaveDataToFile E data fn err fs = (True, err, fs(fn \<mapsto> stored E fn data))"
  by (simp add: SaveDataToFile_def)

definition demo_files :: file_env where
  "demo_files = \<lparr>dir_ready = (\<lambda>f. Inr True), can_write = (\<lambda>f. True), can_read = (\<lambda>f. True), stored = (\<lambda>f d. d),
     status_error = (\<lambda>f. False), copy_error = (\<lambda>s d. None), path_join = (\<lambda>d f. d @ ''/'' @ f),
     path_extension = (\<lambda>f. dropWhile (\<lambda>c. c \<noteq> CHR ''.'') f), exists_throws = (\<lambda>f. False)\<rparr>"

end
