(* ===== verification/Request.thy ===== *)
theory Request
  imports Url Response Files
begin

text \<open>
  \<^verbatim>\<open>include/daqi/request.hpp\<close> and \<^verbatim>\<open>src/request.cpp\<close>: the parsed request, the lookup of a
  parameter in its five sources, the cookies and form data made from headers and bodies, and
  uploaded files.
\<close>

section \<open>Parameters of the path\<close>

type_synonym RoutingPathParameters = "(string, string) omap"

fun InitParameters_loop :: "string list \<Rightarrow> string list \<Rightarrow> RoutingPathParameters \<Rightarrow> RoutingPathParameters" where
  "InitParameters_loop [] values m = m"
| "InitParameters_loop (n # names) values m =
     InitParameters_loop names (tl values)
       (omap_insert str_less m n (if values = [] then [] else hd values))"

definition InitParameters :: "string list \<Rightarrow> string list \<Rightarrow> RoutingPathParameters" where
  "InitParameters names values = InitParameters_loop names values []"

section \<open>Parts of a multipart body and form data\<close>

datatype TransferResult = transfer_none | tranfer_formdata | transfer_file_memory | transfer_file_saved

record MultiPart =
  mp_headers :: ICHeaders
  mp_data :: string
  transfer_result :: TransferResult

definition new_MultiPart :: MultiPart where
  "new_MultiPart = \<lparr>mp_headers = [], mp_data = [], transfer_result = transfer_none\<rparr>"

definition MpAppendHeader :: "boost_algo \<Rightarrow> string \<Rightarrow> string \<Rightarrow> MultiPart \<Rightarrow> MultiPart" where
  "MpAppendHeader B field v mp =
     (case omap_find (IgnoreCaseCompare B) (mp_headers mp) field of
        Some _ \<Rightarrow> mp\<lparr>mp_headers := omap_put (IgnoreCaseCompare B) (mp_headers mp) field v\<rparr>
      | None \<Rightarrow> mp\<lparr>mp_headers := omap_insert (IgnoreCaseCompare B) (mp_headers mp) field v\<rparr>)"

text \<open>Taking a part into the vector of the request: the move leaves the result behind.\<close>

definition moved_part :: "MultiPart \<Rightarrow> MultiPart" where
  "moved_part mp = mp\<lparr>transfer_result := transfer_none\<rparr>"

record SubHeaders =
  sub_value :: string
  sub_headers :: ICHeaders

definition unquote :: "string \<Rightarrow> string" where
  "unquote v = (if 2 \<le> length v \<and> v ! 0 = CHR 0x22 \<and> v ! (length v - 1) = CHR 0x22
                then take (length v - 2) (drop 1 v) else v)"

definition split_sub_header :: "boost_algo \<Rightarrow> SubHeaders \<Rightarrow> string \<Rightarrow> SubHeaders" where
  "split_sub_header B sh p =
     (case find_index (\<lambda>c. c = CHR ''='') p of
        None \<Rightarrow> if sub_value sh = [] then sh\<lparr>sub_value := p\<rparr> else sh
      | Some pos \<Rightarrow>
          (let f = Trim B (take pos p); v = unquote (Trim B (drop (pos + 1) p))
           in if f = [] then sh
              else sh\<lparr>sub_headers := omap_insert (IgnoreCaseCompare B) (sub_headers sh) f v\<rparr>))"

definition MultiPartSplitSubHeadersFromValue :: "boost_algo \<Rightarrow> string \<Rightarrow> SubHeaders" where
  "MultiPartSplitSubHeadersFromValue B v =
     foldl (split_sub_header B) \<lparr>sub_value = [], sub_headers = []\<rparr> (Split B v CHR '';'' keep_space)"

definition GetSubHeaders :: "boost_algo \<Rightarrow> string \<Rightarrow> MultiPart \<Rightarrow> SubHeaders" where
  "GetSubHeaders B field mp =
     (let v = GetHeader B (mp_headers mp) field
      in if v = [] then \<lparr>sub_value = [], sub_headers = []\<rparr> else MultiPartSplitSubHeadersFromValue B v)"

datatype DataFlag = is_data | is_file_data | is_file_temporary_name

record FormDataItem =
  fd_name :: string
  data_flag :: DataFlag
  fd_filename :: string
  fd_content_type :: string
  fd_data :: string

definition new_FormDataItem :: "string \<Rightarrow> string \<Rightarrow> FormDataItem" where
  "new_FormDataItem name data =
     \<lparr>fd_name = name, data_flag = is_data, fd_filename = [], fd_content_type = [], fd_data = data\<rparr>"

definition IsFile :: "FormDataItem \<Rightarrow> bool" where
  "IsFile i \<longleftrightarrow> data_flag i = is_file_data \<or> data_flag i = is_file_temporary_name"

definition IsSavedFile :: "FormDataItem \<Rightarrow> bool" where
  "IsSavedFile i \<longleftrightarrow> data_flag i = is_file_temporary_name"

definition GetSavedFileTemporaryName :: "FormDataItem \<Rightarrow> string" where
  "GetSavedFileTemporaryName i = (if \<not> IsSavedFile i then [] else fd_data i)"

text \<open>
  The item of a part.  The flag tells whether there is one; an item that is refused halfway
  keeps what it has got.  The data is moved out of the part.
\<close>

definition TransferMultiPartToFormDataItem :: "boost_algo \<Rightarrow> MultiPart \<Rightarrow> FormDataItem \<Rightarrow>
    bool \<times> MultiPart \<times> FormDataItem" where
  "TransferMultiPartToFormDataItem B mp fdi =
     (let sh = GetSubHeaders B ''Content-Disposition'' mp
      in if sub_value sh = [] \<or> \<not> iEquals B (sub_value sh) ''form-data'' then (False, mp, fdi)
         else let name = GetHeader B (sub_headers sh) ''name''
         in if name = [] then (False, mp\<lparr>transfer_result := transfer_none\<rparr>, fdi)
            else let fdi1 = fdi\<lparr>fd_name := name\<rparr>;
              (fdi2, mp2) = (case TryGetHeader B (sub_headers sh) ''filename'' of
                   Some fn \<Rightarrow> (fdi1\<lparr>data_flag := is_file_data, fd_filename := fn\<rparr>,
                              mp\<lparr>transfer_result := transfer_file_memory\<rparr>)
                 | None \<Rightarrow> (fdi1\<lparr>data_flag := is_data\<rparr>, mp\<lparr>transfer_result := tranfer_formdata\<rparr>));
              fdi3 = (case TryGetHeader B (mp_headers mp2) ''Content-Type'' of
                   Some ct \<Rightarrow> fdi2\<lparr>fd_content_type := ct\<rparr> | None \<Rightarrow> fdi2)
            in (True, mp2\<lparr>mp_data := []\<rparr>, fdi3\<lparr>fd_data := mp_data mp2\<rparr>))"

section \<open>Saving uploaded files\<close>

datatype Strategy = always_save | alway_no_save | size_greater_than | size_lesser_than
  | extension_is | extension_is_not

record UploadFileSaveOptions =
  strategy :: Strategy
  size_base_kb :: nat
  extensions :: "(string, unit) omap"

definition IsNeedSave :: "boost_algo \<Rightarrow> UploadFileSaveOptions \<Rightarrow> string \<Rightarrow> nat \<Rightarrow> bool" where
  "IsNeedSave B opt ext kb \<longleftrightarrow>
     strategy opt = always_save
     \<or> (strategy opt = size_greater_than \<and> kb > size_base_kb opt)
     \<or> (strategy opt = size_lesser_than \<and> kb < size_base_kb opt)
     \<or> (strategy opt = extension_is \<and> omap_find (IgnoreCaseCompare B) (extensions opt) ext \<noteq> None)
     \<or> (strategy opt = extension_is_not \<and> omap_find (IgnoreCaseCompare B) (extensions opt) ext = None)"

text \<open>
  The temporary name: \<open>uuid\<close> is what the generator gives.  The loop's condition is false, so
  its \<^verbatim>\<open>continue\<close> leaves it, and a name that is taken is returned like a free one.
\<close>

definition MakeUploadFileTemporaryName :: "file_env \<Rightarrow> string \<Rightarrow> string \<Rightarrow> string \<Rightarrow> string" where
  "MakeUploadFileTemporaryName E uuid ext dir =
     (let disk_fn = path_join E dir (uuid @ ext)
      in if exists_throws E disk_fn then [] else disk_fn)"

text \<open>
  One turn of the loop over the parts.  The item is appended whether or not the part was
  accepted.
\<close>

definition transfer_part :: "boost_algo \<Rightarrow> file_env \<Rightarrow> UploadFileSaveOptions \<Rightarrow> string \<Rightarrow> string \<Rightarrow>
    MultiPart \<Rightarrow> files \<Rightarrow> MultiPart \<times> FormDataItem \<times> files" where
  "transfer_part B E opt dir uuid part fs =
     (case TransferMultiPartToFormDataItem B part (new_FormDataItem [] []) of
        (ok, part, item) \<Rightarrow>
          if ok \<and> data_flag item = is_file_data \<and> fd_filename item \<noteq> [] \<and> fd_data item \<noteq> [] \<and> dir \<noteq> []
          then
            (let ext = path_extension E (fd_filename item); kb = length (fd_data item) div 1024
             in if \<not> IsNeedSave B opt ext kb then (part, item, fs)
                else let tmp = MakeUploadFileTemporaryName E uuid ext dir
                in if tmp = [] then (part, item, fs)
                   else case SaveDataToFile E (fd_data item) tmp [] fs of
                     (True, _, fs') \<Rightarrow>
                       (part\<lparr>transfer_result := transfer_file_saved\<rparr>,
                        item\<lparr>data_flag := is_file_temporary_name, fd_data := tmp\<rparr>, fs')
                   | (False, _, fs') \<Rightarrow> (part, item, fs'))
          else (part, item, fs))"

section \<open>Uploaded files\<close>

datatype UploadStatus = no_found | in_stream | in_memory

text \<open>The stream: what is left to read, or \<open>None\<close> once it has failed.\<close>

record UploadFile =
  up_field_name :: string
  up_status :: UploadStatus
  up_stream :: "string option"
  up_memory :: string
  src_filename :: string
  saved_filename :: string
  up_content_type :: string

definition new_UploadFile :: UploadFile where
  "new_UploadFile = \<lparr>up_field_name = [], up_status = no_found, up_stream = Some [], up_memory = [],
     src_filename = [], saved_filename = [], up_content_type = []\<rparr>"

definition open_stream :: "file_env \<Rightarrow> files \<Rightarrow> string \<Rightarrow> string option" where
  "open_stream E fs fn = (if can_read E fn then fs fn else None)"

definition FromFormDataItem :: "file_env \<Rightarrow> files \<Rightarrow> FormDataItem \<Rightarrow> UploadFile \<Rightarrow> UploadFile \<times> bool" where
  "FromFormDataItem E fs item uf =
     (let u = uf\<lparr>up_field_name := fd_name item, up_content_type := fd_content_type item\<rparr>
      in if IsSavedFile item
         then (u\<lparr>up_status := in_stream, up_stream := open_stream E fs (GetSavedFileTemporaryName item),
                 src_filename := fd_filename item, saved_filename := GetSavedFileTemporaryName item\<rparr>, True)
         else if IsFile item
         then (u\<lparr>up_status := in_memory, up_memory := fd_data item, src_filename := fd_filename item\<rparr>, True)
         else (u\<lparr>up_status := no_found\<rparr>, False))"

definition UploadFile_bool :: "UploadFile \<Rightarrow> bool" where
  "UploadFile_bool u \<longleftrightarrow> up_status u \<noteq> no_found \<and> \<not> (up_status u = in_stream \<and> up_stream u = None)
     \<and> \<not> (up_status u = in_memory \<and> up_memory u = [])"

definition ToMemory :: "UploadFile \<Rightarrow> UploadFile \<times> bool" where
  "ToMemory u =
     (if (up_status u = in_stream \<and> up_stream u = None) \<or> up_status u = no_found then (u, False)
      else if up_status u = in_memory then (u, True)
      else (u\<lparr>up_memory := (case up_stream u of Some s \<Rightarrow> s | None \<Rightarrow> []), up_stream := None,
              up_status := in_memory\<rparr>, True))"

text \<open>
  The copy in a file is opened for writing once more after it was saved, which empties it, and
  the status is not changed.
\<close>

definition ToStream :: "file_env \<Rightarrow> string \<Rightarrow> UploadFile \<Rightarrow> files \<Rightarrow> UploadFile \<times> bool \<times> files" where
  "ToStream E temp u fs =
     (if up_status u = no_found then (u, False, fs)
      else if up_status u = in_stream then (u, True, fs)
      else case SaveDataToFile E (up_memory u) temp [] fs of
        (False, _, fs1) \<Rightarrow> (u, False, fs1)
      | (True, _, fs1) \<Rightarrow>
          (let fs2 = (if can_write E temp then fs1(temp \<mapsto> []) else fs1);
               st = open_stream E fs2 temp;
               u1 = u\<lparr>up_stream := st\<rparr>
           in if st = None then (u1, False, fs2) else (u1\<lparr>saved_filename := temp\<rparr>, True, fs2)))"

definition ToStreamApp :: "file_env \<Rightarrow> string \<Rightarrow> string option \<Rightarrow> string \<Rightarrow> string \<Rightarrow> UploadFile \<Rightarrow> files \<Rightarrow>
    UploadFile \<times> bool \<times> files" where
  "ToStreamApp E app_upload_root temp_dir uuid ext u fs =
     (if up_status u = no_found then (u, False, fs)
      else if up_status u = in_stream then (u, True, fs)
      else case (if app_upload_root = [] then temp_dir else Some app_upload_root) of
        None \<Rightarrow> (u, False, fs)
      | Some root \<Rightarrow>
          (let templ = MakeUploadFileTemporaryName E uuid ext root
           in if templ = [] then (u, False, fs) else ToStream E templ u fs))"

definition SaveTo :: "file_env \<Rightarrow> string \<Rightarrow> UploadFile \<Rightarrow> files \<Rightarrow> UploadFile \<times> bool \<times> files" where
  "SaveTo E dst u fs =
     (if up_status u = no_found then (u, False, fs)
      else if \<not> can_write E dst then (u, False, fs)
      else if up_status u = in_stream then
        (case up_stream u of
           None \<Rightarrow> (u, False, fs(dst \<mapsto> []))
         | Some s \<Rightarrow> (u\<lparr>up_stream := None\<rparr>, True, fs(dst \<mapsto> stored E dst s)))
      else (u\<lparr>up_memory := []\<rparr>, True, fs(dst \<mapsto> stored E dst (up_memory u))))"

section \<open>The request\<close>

record Request =
  upgrade_bit :: bool
  keepalive_bit :: bool
  multipart_bit :: bool
  formurlencoded_bit :: bool
  formdata_bit :: bool
  octetstream_bit :: bool
  req_url :: UrlUnderApp
  req_method :: nat
  req_headers :: ICHeaders
  req_major :: u16
  req_minor :: u16
  content_length :: u64
  req_flags :: u32
  req_body :: string
  boundary :: string
  multiparts :: "MultiPart list"
  req_cookies :: ICHeaders
  formdata :: "FormDataItem list"
  path_parameters :: RoutingPathParameters

definition blank_Request :: Request where
  "blank_Request = \<lparr>upgrade_bit = False, keepalive_bit = False, multipart_bit = False,
     formurlencoded_bit = False, formdata_bit = False, octetstream_bit = False,
     req_url = UrlBase.extend empty_url \<lparr>full_under_app = [], path_under_app = []\<rparr>,
     req_method = 1, req_headers = [], req_major = 0, req_minor = 0,
     content_length = 0, req_flags = 0, req_body = [], boundary = [], multiparts = [],
     req_cookies = [], formdata = [], path_parameters = []\<rparr>"

text \<open>The bits of the vendored parser's flags.\<close>

definition IsContentLengthProvided :: "Request \<Rightarrow> bool" where
  "IsContentLengthProvided r = bit (req_flags r) 5"
definition ReqIsChunked :: "Request \<Rightarrow> bool" where "ReqIsChunked r = bit (req_flags r) 3"
definition IsBodySkipped :: "Request \<Rightarrow> bool" where "IsBodySkipped r = bit (req_flags r) 6"

definition RequestReset :: "Request \<Rightarrow> Request" where
  "RequestReset r = r\<lparr>req_url := UrlClear (req_url r), req_method := 1, req_headers := [],
     req_major := 0, req_minor := 0, content_length := 0, req_flags := 0,
     upgrade_bit := False, keepalive_bit := False, multipart_bit := False,
     formurlencoded_bit := False, formdata_bit := False, octetstream_bit := False,
     req_body := [], boundary := [], multiparts := [], req_cookies := [], formdata := [],
     path_parameters := []\<rparr>"

definition ReqAppendHeader :: "boost_algo \<Rightarrow> string \<Rightarrow> string \<Rightarrow> Request \<Rightarrow> Request" where
  "ReqAppendHeader B field v r =
     (case omap_find (IgnoreCaseCompare B) (req_headers r) field of
        Some _ \<Rightarrow> r\<lparr>req_headers := omap_put (IgnoreCaseCompare B) (req_headers r) field v\<rparr>
      | None \<Rightarrow> r\<lparr>req_headers := omap_insert (IgnoreCaseCompare B) (req_headers r) field v\<rparr>)"

definition GetHost :: "boost_algo \<Rightarrow> Request \<Rightarrow> string" where
  "GetHost B r = (case omap_find (IgnoreCaseCompare B) (req_headers r) ''Host'' of None \<Rightarrow> [] | Some v \<Rightarrow> v)"

definition ReqParseUrl :: "boost_algo \<Rightarrow> (string \<Rightarrow> http_parser_url option) \<Rightarrow> string \<Rightarrow> Request \<Rightarrow> Request \<times> bool" where
  "ReqParseUrl B parse_url url r =
     (case UrlParse B parse_url url (req_url r) of (u, ok) \<Rightarrow> (r\<lparr>req_url := u\<rparr>, ok))"

definition ApplyApplication :: "string \<Rightarrow> Request \<Rightarrow> Request option" where
  "ApplyApplication root r =
     map_option (\<lambda>u. r\<lparr>req_url := u\<rparr>) (UnderApplication root (req_url r))"

definition AddMultiPart :: "MultiPart \<Rightarrow> Request \<Rightarrow> Request" where
  "AddMultiPart part r = r\<lparr>multiparts := multiparts r @ [moved_part part]\<rparr>"

subsection \<open>The five sources of parameters\<close>

definition TryGetUrlParameter :: "Request \<Rightarrow> string \<Rightarrow> string option" where
  "TryGetUrlParameter r name = omap_find str_less (url_parameters (req_url r)) name"
definition TryGetPathParameter :: "Request \<Rightarrow> string \<Rightarrow> string option" where
  "TryGetPathParameter r name = omap_find str_less (path_parameters r) name"

fun find_item :: "boost_algo \<Rightarrow> string \<Rightarrow> FormDataItem list \<Rightarrow> FormDataItem option" where
  "find_item B name [] = None"
| "find_item B name (fd # fds) = (if iEquals B (fd_name fd) name then Some fd else find_item B name fds)"

definition TryGetFormData :: "boost_algo \<Rightarrow> Request \<Rightarrow> string \<Rightarrow> string option" where
  "TryGetFormData B r name = map_option fd_data (find_item B name (formdata r))"
definition IsExistsFormData :: "boost_algo \<Rightarrow> Request \<Rightarrow> string \<Rightarrow> bool" where
  "IsExistsFormData B r name = (find_item B name (formdata r) \<noteq> None)"
definition GetFormData :: "boost_algo \<Rightarrow> Request \<Rightarrow> string \<Rightarrow> string" where
  "GetFormData B r name = (case find_item B name (formdata r) of None \<Rightarrow> [] | Some fd \<Rightarrow> fd_data fd)"

definition IsExistsUrlParameter :: "Request \<Rightarrow> string \<Rightarrow> bool" where
  "IsExistsUrlParameter r name = (omap_find str_less (url_parameters (req_url r)) name \<noteq> None)"
definition GetUrlParameter :: "Request \<Rightarrow> string \<Rightarrow> string" where
  "GetUrlParameter r name =
     (case omap_find str_less (url_parameters (req_url r)) name of None \<Rightarrow> [] | Some v \<Rightarrow> v)"
definition IsExistsPathParameter :: "Request \<Rightarrow> string \<Rightarrow> bool" where
  "IsExistsPathParameter r name = (omap_find str_less (path_parameters r) name \<noteq> None)"
definition GetPathParameter :: "Request \<Rightarrow> string \<Rightarrow> string" where
  "GetPathParameter r name =
     (case omap_find str_less (path_parameters r) name of None \<Rightarrow> [] | Some v \<Rightarrow> v)"

definition GetCookie :: "boost_algo \<Rightarrow> Request \<Rightarrow> string \<Rightarrow> string" where
  "GetCookie B r name = GetHeader B (req_cookies r) name"

datatype ParameterSrc = fromUnknown | fromUrl | fromPath | fromForm | fromHeader | fromCookie

definition IsExistsParameter :: "boost_algo \<Rightarrow> Request \<Rightarrow> string \<Rightarrow> ParameterSrc" where
  "IsExistsParameter B r name =
     (if IsExistsUrlParameter r name then fromUrl
      else if IsExistsPathParameter r name then fromPath
      else if IsExistsFormData B r name then fromForm
      else if IsExistsHeader B (req_headers r) name then fromHeader
      else if IsExistsHeader B (req_cookies r) name then fromCookie
      else fromUnknown)"

definition GetParameter :: "boost_algo \<Rightarrow> Request \<Rightarrow> string \<Rightarrow> string" where
  "GetParameter B r name =
     (case IsExistsParameter B r name of
        fromUrl \<Rightarrow> GetUrlParameter r name
      | fromPath \<Rightarrow> GetPathParameter r name
      | fromForm \<Rightarrow> GetFormData B r name
      | fromHeader \<Rightarrow> GetHeader B (req_headers r) name
      | fromCookie \<Rightarrow> GetCookie B r name
      | fromUnknown \<Rightarrow> [])"

definition TryGetParameter :: "boost_algo \<Rightarrow> Request \<Rightarrow> string \<Rightarrow> string option" where
  "TryGetParameter B r name =
     (case IsExistsParameter B r name of
        fromUrl \<Rightarrow> TryGetUrlParameter r name
      | fromPath \<Rightarrow> TryGetPathParameter r name
      | fromForm \<Rightarrow> TryGetFormData B r name
      | fromHeader \<Rightarrow> TryGetHeader B (req_headers r) name
      | fromCookie \<Rightarrow> TryGetHeader B (req_cookies r) name
      | fromUnknown \<Rightarrow> None)"

fun IsExistsFile :: "boost_algo \<Rightarrow> string \<Rightarrow> FormDataItem list \<Rightarrow> bool" where
  "IsExistsFile B name [] = False"
| "IsExistsFile B name (fd # fds) = (IsFile fd \<and> iEquals B (fd_name fd) name \<or> IsExistsFile B name fds)"

fun GetFile_loop :: "boost_algo \<Rightarrow> file_env \<Rightarrow> files \<Rightarrow> string \<Rightarrow> FormDataItem list \<Rightarrow> UploadFile \<Rightarrow> UploadFile" where
  "GetFile_loop B E fs name [] uf = uf"
| "GetFile_loop B E fs name (item # items) uf =
     (if iEquals B (fd_name item) name then
        (case FromFormDataItem E fs item uf of
           (uf', True) \<Rightarrow> uf'
         | (uf', False) \<Rightarrow> GetFile_loop B E fs name items uf')
      else GetFile_loop B E fs name items uf)"

definition GetFile :: "boost_algo \<Rightarrow> file_env \<Rightarrow> files \<Rightarrow> string \<Rightarrow> Request \<Rightarrow> UploadFile" where
  "GetFile B E fs name r = GetFile_loop B E fs name (formdata r) new_UploadFile"

subsection \<open>What headers and body say\<close>

definition ParseContentType :: "boost_algo \<Rightarrow> Request \<Rightarrow> Request" where
  "ParseContentType B r =
     (case TryGetHeader B (req_headers r) ''Content-Type'' of
        None \<Rightarrow> r
      | Some ct \<Rightarrow>
          (case find_sub ''multipart/'' ct of
             Some beg \<Rightarrow>
               (let r1 = r\<lparr>multipart_bit := True\<rparr>;
                    r2 = (if find_sub_from ''form-data'' ct (beg + 10) \<noteq> None
                          then r1\<lparr>formdata_bit := True\<rparr> else r1)
                in case find_sub_from ''boundary='' ct (beg + 10) of
                     Some pos \<Rightarrow> r2\<lparr>boundary := drop (pos + 9) ct\<rparr>
                   | None \<Rightarrow> r2)
           | None \<Rightarrow>
               if find_sub ''application/x-www-form-urlencoded'' ct \<noteq> None
               then r\<lparr>formurlencoded_bit := True\<rparr>
               else if find_sub ''application/octet-stream'' ct \<noteq> None
               then r\<lparr>octetstream_bit := True\<rparr>
               else r))"

definition insert_cookie :: "boost_algo \<Rightarrow> ICHeaders \<Rightarrow> string \<Rightarrow> ICHeaders" where
  "insert_cookie B m part =
     (case Split B part CHR ''='' trim_all of
        [] \<Rightarrow> m
      | k # vs \<Rightarrow> omap_insert (IgnoreCaseCompare B) m k (if vs = [] then [] else hd vs))"

definition TransferHeadersToCookies :: "boost_algo \<Rightarrow> Request \<Rightarrow> Request" where
  "TransferHeadersToCookies B r =
     (let v = GetHeader B (req_headers r) ''Cookie''
      in if v = [] then r
         else r\<lparr>req_cookies := foldl (insert_cookie B) (req_cookies r) (Split B v CHR '';'' keep_space)\<rparr>)"

definition ParseFormUrlEncodedData :: "boost_algo \<Rightarrow> Request \<Rightarrow> Request" where
  "ParseFormUrlEncodedData B r =
     (if req_body r = [] then r
      else r\<lparr>formdata := formdata r @
             map (\<lambda>(k, v). new_FormDataItem k v) (ParseQueryParameters B (req_body r))\<rparr>)"

text \<open>\<open>uuids\<close> are the names the generator gives, one for each part.\<close>

fun transfer_parts :: "boost_algo \<Rightarrow> file_env \<Rightarrow> UploadFileSaveOptions \<Rightarrow> string \<Rightarrow> (nat \<Rightarrow> string) \<Rightarrow>
    MultiPart list \<Rightarrow> files \<Rightarrow> MultiPart list \<times> FormDataItem list \<times> files" where
  "transfer_parts B E opt dir uuids [] fs = ([], [], fs)"
| "transfer_parts B E opt dir uuids (p # ps) fs =
     (let (p', item, fs1) = transfer_part B E opt dir (uuids 0) p fs;
          (ps', items, fs2) = transfer_parts B E opt dir (\<lambda>i. uuids (Suc i)) ps fs1
      in (p' # ps', item # items, fs2))"

definition TransferMultiPartsToFormData :: "boost_algo \<Rightarrow> file_env \<Rightarrow> UploadFileSaveOptions \<Rightarrow> string \<Rightarrow>
    (nat \<Rightarrow> string) \<Rightarrow> Request \<Rightarrow> files \<Rightarrow> Request \<times> files" where
  "TransferMultiPartsToFormData B E opt dir uuids r fs =
     (let (ps, items, fs') = transfer_parts B E opt dir uuids (multiparts r) fs
      in (r\<lparr>multiparts := ps, formdata := formdata r @ items\<rparr>, fs'))"

end
