(* ===== verification/Render.thy ===== *)
theory Render
  imports Router Request ResponseProofs
begin

text \<open>
  The pages of a context, \<^verbatim>\<open>src/context.cpp\<close>: the choice of a template by name, by status or
  by the path of the request, the error page of a template that fails, and the status that the
  response gets.  The template engine and the JSON library are parameters: \<open>templates\<close> is
  \<open>Templates::Get\<close>, \<open>engine\<close> renders a template on a value and returns the text (\<open>Inr\<close>) or
  what was thrown (\<open>Inl\<close>), \<open>is_null\<close> and \<open>null_json\<close> and \<open>error_json\<close> are the JSON values the
  code makes.
\<close>

record ('t, 'j) render_env =
  algo :: boost_algo
  templates :: "string \<Rightarrow> 't option"
  engine :: "'t \<Rightarrow> 'j \<Rightarrow> string + string"
  is_null :: "'j \<Rightarrow> bool"
  null_json :: 'j
  error_json :: "string \<Rightarrow> 'j"

record 'j Context =
  request :: Request
  template_name :: string
  model_data :: 'j
  response :: Response

section \<open>The template for a path\<close>

definition auto_match_template :: "string \<Rightarrow> string" where
  "auto_match_template path =
     (if path = [] then ''/index''
      else if length path = 1 then (if hd path = CHR ''/'' then ''/index'' else [])
      else if last path \<noteq> CHR ''/'' \<and> hd path = CHR ''/'' then path
      else (if hd path \<noteq> CHR ''/'' then ''/'' else []) @ path @
           (if last path = CHR ''/'' then ''index'' else []))"

section \<open>Rendering\<close>

text \<open>The first \<open>render_on_template\<close>: the page, or the error; the name is kept either way.\<close>

definition render_view :: "('t, 'j) render_env \<Rightarrow> string \<Rightarrow> 't \<Rightarrow> 'j \<Rightarrow> 'j Context \<Rightarrow>
    (string + string) \<times> 'j Context" where
  "render_view E name t data c = (engine E t data, c\<lparr>template_name := name\<rparr>)"

text \<open>The end of the second: a rendered page becomes the body.\<close>

definition show_view :: "('t, 'j) render_env \<Rightarrow> int \<Rightarrow> string \<Rightarrow> 'j Context \<Rightarrow> 'j Context" where
  "show_view E status view c =
     (let r = SetStatusCode status (response c);
          r = (if view = [] then r
               else SetBody view
                 (if GetContentType (algo E) False r = []
                  then SetContentType (algo E) ''text/html'' r else r))
      in c\<lparr>response := r\<rparr>)"

definition reply_status :: "('t, 'j) render_env \<Rightarrow> int \<Rightarrow> 'j Context \<Rightarrow> 'j Context" where
  "reply_status E status c = c\<lparr>response := ReplyStatus (algo E) status [] (response c)\<rparr>"

text \<open>
  The second \<open>render_on_template\<close>, the page of a status (\<open>render_with_data\<close> of a status) and
  \<open>RenderInternalServerError\<close> call each other: an error asks for the page of 500, and an error
  there, with the status 500, ends the recursion.
\<close>

function render_on_template :: "('t, 'j) render_env \<Rightarrow> string \<Rightarrow> 't \<Rightarrow> 'j \<Rightarrow> int \<Rightarrow> 'j Context \<Rightarrow> 'j Context"
  and render_status :: "('t, 'j) render_env \<Rightarrow> int \<Rightarrow> 'j \<Rightarrow> 'j Context \<Rightarrow> 'j Context"
  and RenderInternalServerError :: "('t, 'j) render_env \<Rightarrow> 'j \<Rightarrow> 'j Context \<Rightarrow> 'j Context" where
  "render_on_template E name t data status c =
     (case render_view E name t data c of
        (Inl what, c1) \<Rightarrow>
          if status \<noteq> 500 then RenderInternalServerError E (error_json E what) c1 else reply_status E status c1
      | (Inr view, c1) \<Rightarrow> show_view E status view c1)"
| "render_status E status data c =
     (case templates E (to_string status) of
        Some t \<Rightarrow> render_on_template E (to_string status) t data status c
      | None \<Rightarrow> reply_status E status c)"
| "RenderInternalServerError E data c = render_status E 500 data c"
  by pat_completeness auto
termination
  by (relation "measure (\<lambda>x. case x of
        Inl (E, name, t, data, status, c) \<Rightarrow> if status = 500 then 0 else 3
      | Inr (Inl (E, status, data, c)) \<Rightarrow> if status = 500 then 1 else 4
      | Inr (Inr (E, data, c)) \<Rightarrow> 2)") auto

declare render_on_template.simps [simp del] render_status.simps [simp del] RenderInternalServerError.simps [simp del]

definition RenderNofound :: "('t, 'j) render_env \<Rightarrow> 'j \<Rightarrow> 'j Context \<Rightarrow> 'j Context" where
  "RenderNofound E data = render_status E 404 data"
definition RenderBadRequest :: "('t, 'j) render_env \<Rightarrow> 'j \<Rightarrow> 'j Context \<Rightarrow> 'j Context" where
  "RenderBadRequest E data = render_status E 400 data"
definition RenderUnauthorized :: "('t, 'j) render_env \<Rightarrow> 'j \<Rightarrow> 'j Context \<Rightarrow> 'j Context" where
  "RenderUnauthorized E data = render_status E 401 data"
definition RenderForbidden :: "('t, 'j) render_env \<Rightarrow> 'j \<Rightarrow> 'j Context \<Rightarrow> 'j Context" where
  "RenderForbidden E data = render_status E 403 data"
definition RenderNotImplemented :: "('t, 'j) render_env \<Rightarrow> 'j \<Rightarrow> 'j Context \<Rightarrow> 'j Context" where
  "RenderNotImplemented E data = render_status E 501 data"
definition RenderServiceUnavailable :: "('t, 'j) render_env \<Rightarrow> 'j \<Rightarrow> 'j Context \<Rightarrow> 'j Context" where
  "RenderServiceUnavailable E data = render_status E 503 data"

text \<open>Without a name: the name set before, if any, otherwise the one the path gives.\<close>

definition render_default :: "('t, 'j) render_env \<Rightarrow> 'j \<Rightarrow> 'j Context \<Rightarrow> 'j Context" where
  "render_default E data c =
     (if template_name c \<noteq> [] then
        (case templates E (template_name c) of
           Some t \<Rightarrow> render_on_template E (template_name c) t data 200 c
         | None \<Rightarrow> RenderNofound E (null_json E) c)
      else
        let name = auto_match_template (url_path (req_url (request c)))
        in if name = [] then RenderNofound E (null_json E) c
           else case templates E name of
             Some t \<Rightarrow> render_on_template E name t data 200 c
           | None \<Rightarrow> RenderNofound E (null_json E) c)"

definition render_named :: "('t, 'j) render_env \<Rightarrow> string \<Rightarrow> 'j \<Rightarrow> 'j Context \<Rightarrow> 'j Context" where
  "render_named E name data c =
     (if name = [] then render_default E data c
      else case templates E name of
        None \<Rightarrow> RenderNofound E (null_json E) c
      | Some t \<Rightarrow> render_on_template E name t data 200 c)"

text \<open>With a name and a status: the name made from the status is computed and not used.\<close>

definition render_named_status :: "('t, 'j) render_env \<Rightarrow> string \<Rightarrow> int \<Rightarrow> 'j \<Rightarrow> 'j Context \<Rightarrow>
    'j Context" where
  "render_named_status E name status data c =
     (case templates E name of
        Some t \<Rightarrow> render_on_template E name t data status c
      | None \<Rightarrow> reply_status E status c)"

text \<open>The public functions: without data they use that of the model.\<close>

definition data_or_model :: "('t, 'j) render_env \<Rightarrow> 'j \<Rightarrow> 'j Context \<Rightarrow> 'j" where
  "data_or_model E data c =
     (if \<not> is_null E data then data
      else if is_null E (model_data c) then null_json E else model_data c)"

definition Render :: "('t, 'j) render_env \<Rightarrow> 'j Context \<Rightarrow> 'j Context" where
  "Render E c =
     (if is_null E (model_data c) then render_default E (null_json E) c
      else render_default E (model_data c) c)"

definition Render_data :: "('t, 'j) render_env \<Rightarrow> 'j \<Rightarrow> 'j Context \<Rightarrow> 'j Context" where
  "Render_data E data c = render_default E data c"

definition Render_name :: "('t, 'j) render_env \<Rightarrow> string \<Rightarrow> 'j \<Rightarrow> 'j Context \<Rightarrow> 'j Context" where
  "Render_name E name data c = render_named E name (data_or_model E data c) c"

definition Render_name_status :: "('t, 'j) render_env \<Rightarrow> string \<Rightarrow> int \<Rightarrow> 'j \<Rightarrow> 'j Context \<Rightarrow>
    'j Context" where
  "Render_name_status E name status data c =
     render_named_status E name status (data_or_model E data c) c"

definition Redirect :: "('t, 'j) render_env \<Rightarrow> string \<Rightarrow> 'j Context \<Rightarrow> 'j Context" where
  "Redirect E dst c = c\<lparr>response := ReplyRedirect (algo E) dst temporary [] (response c)\<rparr>"

section \<open>Chunked responses\<close>

definition StartChunkedResponse :: "('t, 'j) render_env \<Rightarrow> 'j Context \<Rightarrow> 'j Context" where
  "StartChunkedResponse E c = c\<lparr>response := MarkChunked (algo E) (response c)\<rparr>"
definition NextChunkedResponse :: "string \<Rightarrow> 'j Context \<Rightarrow> 'j Context" where
  "NextChunkedResponse body c = c\<lparr>response := PushChunkedBody body False (response c)\<rparr>"
definition StopChunkedResponse :: "'j Context \<Rightarrow> 'j Context" where
  "StopChunkedResponse c = c\<lparr>response := PushChunkedBody [] True (response c)\<rparr>"

section \<open>What a page is answered with\<close>

lemma status_AppendHeader [simp]: "status_code (AppendHeader B f v r) = status_code r"
  by (simp add: AppendHeader_def split: option.splits)

lemma status_SetContentType [simp]: "status_code (SetContentType B t r) = status_code r"
  by (simp add: SetContentType_def)

lemma status_reply_status [simp]: "status_code (response (reply_status E n c)) = n"
  by (simp add: reply_status_def ReplyStatus_def reply_def set_or_default_body_def SetBody_def)

lemma status_show_view [simp]: "status_code (response (show_view E n view c)) = n"
  by (simp add: show_view_def SetBody_def SetStatusCode_def Let_def)

text \<open>The page of 500: the page there is for it, or the plain one.\<close>

lemma error_page:
  "RenderInternalServerError E data c =
     (case templates E (to_string 500) of
        None \<Rightarrow> reply_status E 500 c
      | Some u \<Rightarrow>
          (case engine E u data of
             Inl _ \<Rightarrow> reply_status E 500 (c\<lparr>template_name := to_string 500\<rparr>)
           | Inr view \<Rightarrow> show_view E 500 view (c\<lparr>template_name := to_string 500\<rparr>)))"
  by (simp add: RenderInternalServerError.simps render_status.simps render_on_template.simps render_view_def
      split: option.splits sum.splits)

lemma status_error_page [simp]: "status_code (response (RenderInternalServerError E data c)) = 500"
  by (simp add: error_page split: option.splits sum.splits)

lemma status_render_on_template [simp]:
  "status_code (response (render_on_template E name t data n c)) =
     (case engine E t data of Inl _ \<Rightarrow> 500 | Inr _ \<Rightarrow> n)"
  by (simp add: render_on_template.simps render_view_def split: sum.splits)

lemma status_render_status [simp]:
  "status_code (response (render_status E n data c)) =
     (case templates E (to_string n) of None \<Rightarrow> n
      | Some t \<Rightarrow> (case engine E t data of Inl _ \<Rightarrow> 500 | Inr _ \<Rightarrow> n))"
  by (simp add: render_status.simps split: option.splits)


lemma body_show_view:
  "view \<noteq> [] \<Longrightarrow> res_body (response (show_view E n view c)) = view"
  by (simp add: show_view_def SetBody_def SetStatusCode_def Let_def)

lemma to_string_404: "to_string 404 = ''404''" and to_string_500: "to_string 500 = ''500''"
  by code_simp+

text \<open>The name that decides: the given one, the one set before, or the one of the path.\<close>

definition page_name :: "string \<Rightarrow> 'j Context \<Rightarrow> string" where
  "page_name name c =
     (if name \<noteq> [] then name else if template_name c \<noteq> [] then template_name c
      else auto_match_template (url_path (req_url (request c))))"

lemma render_named_page:
  "render_named E name data c =
     (case (if page_name name c = [] then None else templates E (page_name name c)) of
        Some t \<Rightarrow> render_on_template E (page_name name c) t data 200 c
      | None \<Rightarrow> RenderNofound E (null_json E) c)"
  by (auto simp: render_named_def render_default_def page_name_def Let_def split: option.splits)

text \<open>
  What a page is answered with.  If there is a template for the page, the answer is 200,
  or 500 when the template fails; if there is none, it is 404, or 500 when there is a template
  for 404 and that one fails.  The template is the one named, or the one set before, or the
  one of the request's path, and without data it is given the data of the model.
\<close>

theorem page_status:
  "status_code (response (Render_name E name data c)) =
     (case (if page_name name c = [] then None else templates E (page_name name c)) of
        Some t \<Rightarrow> (case engine E t (data_or_model E data c) of Inl _ \<Rightarrow> 500 | Inr _ \<Rightarrow> 200)
      | None \<Rightarrow>
          (case templates E ''404'' of
             None \<Rightarrow> 404
           | Some t \<Rightarrow> (case engine E t (null_json E) of Inl _ \<Rightarrow> 500 | Inr _ \<Rightarrow> 404)))"
  unfolding Render_name_def render_named_page RenderNofound_def
  by (simp add: to_string_404 split: option.splits)

lemma headers_SetBody [simp]: "res_headers (SetBody b r) = res_headers r"
  by (simp add: SetBody_def)

lemma show_view_response:
  "response (show_view E n view c) =
     (let r = (response c)\<lparr>status_code := n\<rparr>
      in if view = [] then r
         else (if GetContentType (algo E) False r = [] then SetContentType (algo E) ''text/html'' r else r)\<lparr>res_body := view\<rparr>)"
  by (simp add: show_view_def SetStatusCode_def SetBody_def Let_def)

lemma reply_status_response:
  "response (reply_status E n c) =
     (SetContentType (algo E) ''text/plain'' ((response c)\<lparr>status_code := n\<rparr>))\<lparr>res_body := HttpStatusSummaryGetter n\<rparr>"
  by (simp add: reply_status_def ReplyStatus_def reply_def set_or_default_body_def SetBody_def)

lemma context_of_page [simp]:
  "request (show_view E n view c) = request c" "model_data (show_view E n view c) = model_data c"
  "template_name (show_view E n view c) = template_name c"
  "request (reply_status E n c) = request c" "model_data (reply_status E n c) = model_data c"
  "template_name (reply_status E n c) = template_name c"
  by (simp_all add: show_view_def reply_status_def Let_def)

text \<open>
  (C23) What the client gets for a template that fails.  Whatever the status that was asked for,
  the response has the status 500, the request and the model's data are as they were, and the
  body is that of the page of 500, rendered on the error's text, if the status was another one and
  there is such a page that does not fail: then the body is the page, as HTML unless a content
  type was set before, and an empty page leaves body and type as they were.  Otherwise it is the plain summary of 500, as plain text, and never a part
  of the page that failed.
\<close>

theorem failing_page_is_500:
  assumes "engine E t data = Inl what"
  shows "let c' = render_on_template E name t data status c;
        r = (response c)\<lparr>status_code := 500\<rparr>;
        page = (if status = 500 then None else map_option (\<lambda>u. engine E u (error_json E what)) (templates E ''500''))
    in status_code (response c') = 500 \<and> request c' = request c \<and> model_data c' = model_data c \<and>
      template_name c' = (if page = None then name else ''500'') \<and>
      response c' =
        (case page of
           Some (Inr view) \<Rightarrow>
             if view = [] then r
             else (if GetContentType (algo E) False r = [] then SetContentType (algo E) ''text/html'' r else r)\<lparr>res_body := view\<rparr>
         | _ \<Rightarrow> (SetContentType (algo E) ''text/plain'' r)\<lparr>res_body := HttpStatusSummaryGetter 500\<rparr>)"
proof -
  have c': "render_on_template E name t data status c =
      (if status \<noteq> 500 then RenderInternalServerError E (error_json E what) (c\<lparr>template_name := name\<rparr>)
       else reply_status E 500 (c\<lparr>template_name := name\<rparr>))"
    using assms by (simp add: render_on_template.simps render_view_def)
  show ?thesis
    unfolding c' Let_def
    by (simp add: error_page to_string_500 show_view_response reply_status_response Let_def split: option.splits sum.splits)
qed

definition demo_env :: "(nat, string) render_env" where
  "demo_env = \<lparr>algo = boost_classic, templates = [''/a'' \<mapsto> 1, ''500'' \<mapsto> 2],
     engine = (\<lambda>t d. if t = 1 then Inl ''e'' else Inr (''Sorry: '' @ d)), is_null = (\<lambda>j. j = []), null_json = [], error_json = id\<rparr>"

definition demo_ctx :: "string Context" where
  "demo_ctx = \<lparr>request = blank_Request, template_name = [], model_data = [], response = blank_Response\<rparr>"

theorem failing_page_is_500_witness:
  "status_code (response (render_on_template demo_env ''/a'' 1 ''x'' 200 demo_ctx)) = 500 \<and>
   res_body (response (render_on_template demo_env ''/a'' 1 ''x'' 200 demo_ctx)) = ''Sorry: e''"
  using failing_page_is_500[of demo_env 1 "''x''" "''e''" "''/a''" 200 demo_ctx]
  by (auto simp: demo_env_def Let_def)

section \<open>Templates by path and routes\<close>

text \<open>
  The page of a route without a template name is the page of its path.  The name that a
  new route for equal paths gets by default is the one that \<open>Render\<close> without a name looks for
  when the request's path is that of the route, ends of paths with a slash included.
\<close>

theorem default_template_is_path_template:
  assumes "m \<noteq> []" "hd m = CHR ''/''"
  shows "RouterItem.template_name (new_router_item True m method h []) = auto_match_template m"
  using assms by (cases m rule: rev_cases)
    (auto simp: new_router_item_def set_handler_def auto_match_template_def Let_def hd_append
      split: if_splits)

theorem default_template_is_path_template_witness:
  "RouterItem.template_name (new_router_item True ''/shop/'' GET () []) = ''/shop/index''"
  using default_template_is_path_template[of "''/shop/''" GET "()"]
  by (simp add: auto_match_template_def)

lemma auto_match_template_Nil:
  "auto_match_template path = [] \<longleftrightarrow> length path = 1 \<and> path \<noteq> ''/''"
  by (cases path) (auto simp: auto_match_template_def length_Suc_conv)

lemma auto_match_template_ends:
  "auto_match_template path \<noteq> [] \<Longrightarrow>
     hd (auto_match_template path) = CHR ''/'' \<and> last (auto_match_template path) \<noteq> CHR ''/''"
  by (cases path) (auto simp: auto_match_template_def length_Suc_conv split: if_splits)

section \<open>The name made from the status\<close>

text \<open>
  \<open>Render\<close> with a status and no name: the code computes the name of the status page and then
  looks for the empty name, so an existing page for the status is not shown.
\<close>

theorem status_page_not_used:
  assumes "templates E [] = None"
  shows "render_named_status E [] status data c = reply_status E status c"
  using assms by (simp add: render_named_status_def)

end
