(* ===== verification/RequestProofs.thy ===== *)
theory RequestProofs
  imports Request RouterProofs
begin

text \<open>
  What the request guarantees: the order in which a parameter is looked for, the cookies a
  client sends back, the form data of a multipart body, and an uploaded file.
\<close>

section \<open>Looking up a parameter\<close>

fun first_some :: "'a option list \<Rightarrow> 'a option" where
  "first_some [] = None"
| "first_some (Some x # xs) = Some x"
| "first_some (None # xs) = first_some xs"

text \<open>
  A parameter is looked for in the parameters of the URL, those of the path, the form
  data, the headers and the cookies, in this order: the first source that has the name gives
  the value, and without any the value is empty.
\<close>

theorem parameter_lookup_order:
  "TryGetParameter B r name = first_some
     [TryGetUrlParameter r name, TryGetPathParameter r name, TryGetFormData B r name,
      TryGetHeader B (req_headers r) name, TryGetHeader B (req_cookies r) name] \<and>
   GetParameter B r name = (case TryGetParameter B r name of None \<Rightarrow> [] | Some v \<Rightarrow> v)"
proof -
  note d = TryGetParameter_def GetParameter_def IsExistsParameter_def TryGetUrlParameter_def
    TryGetPathParameter_def TryGetFormData_def TryGetHeader_def IsExistsUrlParameter_def
    IsExistsPathParameter_def IsExistsFormData_def IsExistsHeader_def GetUrlParameter_def
    GetPathParameter_def GetFormData_def GetHeader_def GetCookie_def
  show ?thesis
    by (cases "omap_find str_less (url_parameters (req_url r)) name";
        cases "omap_find str_less (path_parameters r) name";
        cases "find_item B name (formdata r)";
        cases "omap_find (IgnoreCaseCompare B) (req_headers r) name";
        cases "omap_find (IgnoreCaseCompare B) (req_cookies r) name")
      (simp_all add: d)
qed

section \<open>Cookies\<close>

text \<open>The header of a client: pairs joined with a semicolon and a space.\<close>

fun cookie_header :: "(string \<times> string) list \<Rightarrow> string" where
  "cookie_header [] = []"
| "cookie_header [(k, v)] = k @ CHR ''='' # v"
| "cookie_header ((k, v) # kvs) = k @ CHR ''='' # v @ CHR '';'' # CHR '' '' # cookie_header kvs"

definition cookie_text :: "string \<Rightarrow> bool" where
  "cookie_text s \<longleftrightarrow> list_all (\<lambda>c. c \<noteq> CHR '';'' \<and> c \<noteq> CHR ''='' \<and> \<not> std_isspace c) s"

lemma cookie_text_notin [simp]:
  "cookie_text s \<Longrightarrow> CHR ''='' \<notin> set s" "cookie_text s \<Longrightarrow> CHR '';'' \<notin> set s"
  by (induction s) (fastforce simp: cookie_text_def)+

lemma b_trim_id:
  "boost_laws B \<Longrightarrow> cookie_text w \<Longrightarrow> b_trim B w = w \<and> b_trim B (CHR '' '' # w) = w"
proof -
  assume B: "boost_laws B" and w: "cookie_text w"
  have t: "b_trim B s = dropWhile std_isspace (rev (dropWhile std_isspace (rev s)))" for s
    using B by (simp add: boost_laws_def)
  have "\<forall>c \<in> set w. \<not> std_isspace c" using w by (simp add: cookie_text_def list_all_iff)
  then have 1: "dropWhile std_isspace (rev w) = rev w" and 2: "dropWhile std_isspace w = w"
    by (simp_all add: dropWhile_eq_self_iff) (metis hd_in_set rev_is_Nil_conv set_rev)+
  have 3: "dropWhile std_isspace (rev w @ '' '') = rev w @ (if w = [] then [] else '' '')"
    using w by (cases w rule: rev_cases) (auto simp: std_isspace_def cookie_text_def)
  have "std_isspace CHR '' ''" by (simp add: std_isspace_def)
  then show "b_trim B w = w \<and> b_trim B (CHR '' '' # w) = w"
    by (simp add: t 1 2 3)
qed

lemma insert_cookie_part:
  assumes "boost_laws B" "cookie_text k" "cookie_text v" "sp = [] \<or> sp = '' ''"
  shows "insert_cookie B m (sp @ k @ CHR ''='' # v) = omap_insert (IgnoreCaseCompare B) m k v"
proof -
  have eq: "CHR ''='' \<notin> set (sp @ k)" "CHR ''='' \<notin> set v"
    using assms(2-4) by (elim disjE; simp)+
  have "b_split_any_of B s ''='' = split_at (\<lambda>c. c \<in> set ''='') s" for s
    using assms(1) unfolding boost_laws_def by blast
  moreover have "\<forall>c \<in> set (sp @ k). c \<notin> set ''=''" "\<forall>c \<in> set v. c \<notin> set ''=''"
    using eq by (metis empty_set empty_iff insertE list.set(2))+
  then have "split_at (\<lambda>c. c \<in> set ''='') ((sp @ k) @ CHR ''='' # v) = [sp @ k, v]"
    by (simp only: split_at_sep split_at_none list.set_intros)
  ultimately have sp: "b_split_any_of B (sp @ k @ CHR ''='' # v) ''='' = [sp @ k, v]"
    by simp
  have tr: "b_trim B (sp @ k) = k" "b_trim B v = v"
    using b_trim_id[OF assms(1,2)] b_trim_id[OF assms(1,3)] assms(4) by (elim disjE; simp)+
  show ?thesis
    by (simp add: insert_cookie_def Split_def Trim_def sp tr)
qed

lemma cookie_header_parts:
  assumes "boost_laws B" "kvs \<noteq> []" "list_all (\<lambda>(k, v). cookie_text k \<and> cookie_text v) kvs"
    "sp = [] \<or> sp = '' ''"
  shows "foldl (insert_cookie B) m (Split B (sp @ cookie_header kvs) CHR '';'' keep_space) =
     foldl (\<lambda>m (k, v). omap_insert (IgnoreCaseCompare B) m k v) m kvs"
  using assms(2-4)
proof (induction kvs arbitrary: m sp rule: cookie_header.induct)
  case (2 k v)
  have "CHR '';'' \<notin> set (sp @ k @ CHR ''='' # v)"
    using 2(2,3) by (elim disjE; simp)
  from Split_none[OF assms(1) this] 2 insert_cookie_part[OF assms(1), of k v sp m] show ?case
    by simp
next
  case (3 k v kv kvs)
  have "CHR '';'' \<notin> set (sp @ k @ CHR ''='' # v)"
    using 3(3,4) by (elim disjE; simp)
  from Split_sep[OF assms(1) this, of "'' '' @ cookie_header (kv # kvs)"]
  have "Split B (sp @ cookie_header ((k, v) # kv # kvs)) CHR '';'' keep_space =
      (sp @ k @ CHR ''='' # v) # Split B ('' '' @ cookie_header (kv # kvs)) CHR '';'' keep_space"
    by simp
  then show ?case
    using 3(1)[of "'' ''" "omap_insert (IgnoreCaseCompare B) m k v"] 3(2-)
      insert_cookie_part[OF assms(1), of k v sp m] by simp
qed simp

text \<open>
  (C24) The cookies a client sends are the cookies of the request: from a \<^verbatim>\<open>Cookie\<close> header
  built of names and values without space, semicolon and equals sign, each name finds the
  value of its first pair, in any case, and no other name finds any.
\<close>

theorem cookies_read_back:
  assumes "boost_laws B" "kvs \<noteq> []"
    and "list_all (\<lambda>(k, v). cookie_text k \<and> cookie_text v) kvs"
    and "req_cookies r = []" "omap_find (IgnoreCaseCompare B) (req_headers r) ''Cookie'' = Some (cookie_header kvs)"
  shows "TryGetHeader B (req_cookies (TransferHeadersToCookies B r)) name =
     map_option snd (find (\<lambda>(k, v). upper k = upper name) kvs)"
proof -
  have "cookie_header kvs \<noteq> []"
    using assms(2) by (cases kvs rule: cookie_header.cases) simp_all
  then have "req_cookies (TransferHeadersToCookies B r) =
      foldl (\<lambda>m (k, v). omap_insert (IgnoreCaseCompare B) m k v) [] kvs"
    using assms(4,5) cookie_header_parts[OF assms(1-3), of "[]"]
    by (simp add: TransferHeadersToCookies_def GetHeader_def)
  moreover have "(\<lambda>(k, v). \<not> IgnoreCaseCompare B k name \<and> \<not> IgnoreCaseCompare B name k) =
      (\<lambda>(k, v :: string). upper k = upper name)"
    using IgnoreCaseCompare_equiv[OF assms(1)] by auto
  ultimately show ?thesis
    using strict_weak_order.find_fold_insert[OF IgnoreCaseCompare_order[OF assms(1)], of "[]" kvs name]
    by (simp add: TryGetHeader_def)
qed

definition demo_request :: Request where
  "demo_request = blank_Request\<lparr>req_headers := [(''Cookie'', ''a=1; b=2; A=3'')]\<rparr>"

theorem cookies_read_back_witness:
  "TryGetHeader boost_classic (req_cookies (TransferHeadersToCookies boost_classic demo_request)) ''A'' = Some ''1''"
proof -
  let ?kvs = "[(''a'', ''1''), (''b'', ''2''), (''A'', ''3'')]"
  have "list_all (\<lambda>(k, v). cookie_text k \<and> cookie_text v) ?kvs"
    by code_simp
  moreover have "\<not> IgnoreCaseCompare boost_classic ''Cookie'' ''Cookie''"
    by (rule strict_weak_order.irrefl[OF IgnoreCaseCompare_order[OF boost_classic_laws]])
  then have "omap_find (IgnoreCaseCompare boost_classic) (req_headers demo_request) ''Cookie'' =
      Some (cookie_header ?kvs)" "req_cookies demo_request = []"
    by (simp_all add: demo_request_def blank_Request_def)
  moreover have "map_option snd (find (\<lambda>(k, v). upper k = upper ''A'') ?kvs) = Some ''1''"
    by code_simp
  ultimately show ?thesis
    using cookies_read_back[OF boost_classic_laws, of ?kvs demo_request "''A''"] by (simp only: list.distinct not_False_eq_True)
qed

text \<open>A value with an equals sign, as Base64 text has at its end, is cut there.\<close>

lemma cookie_value_with_equals:
  "foldl (insert_cookie boost_classic) [] (Split boost_classic ''t=YWI=x'' CHR '';'' keep_space) =
     [(''t'', ''YWI'')]"
  by code_simp


section \<open>Form data of a multipart body\<close>

abbreviation quoted :: "string \<Rightarrow> string" where
  "quoted s \<equiv> CHR 0x22 # s @ [CHR 0x22]"

text \<open>The \<^verbatim>\<open>Content-Disposition\<close> of a browser for a field, and for a file.\<close>

definition disposition :: "string \<Rightarrow> string option \<Rightarrow> string" where
  "disposition name fn = ''form-data; name='' @ quoted name @
     (case fn of None \<Rightarrow> [] | Some f \<Rightarrow> ''; filename='' @ quoted f)"

lemma trim_quoted:
  assumes "boost_laws B"
  shows "b_trim B (quoted s) = quoted s"
proof -
  have "b_trim B w = dropWhile std_isspace (rev (dropWhile std_isspace (rev w)))" for w
    using assms by (simp add: boost_laws_def)
  then show ?thesis by (simp add: std_isspace_def)
qed

lemma unquote_quoted: "unquote (quoted s) = s"
  by (simp add: unquote_def nth_append)

lemma find_index_sep: "x \<notin> set w \<Longrightarrow> find_index (\<lambda>c. c = x) (w @ x # s) = Some (length w)"
  by (induction w) auto

lemma split_sub_header_quoted:
  assumes "boost_laws B" "cookie_text f" "f \<noteq> []"
  shows "split_sub_header B sh (CHR '' '' # f @ CHR ''='' # quoted v) =
     sh\<lparr>sub_headers := omap_insert (IgnoreCaseCompare B) (sub_headers sh) f v\<rparr>"
proof -
  have "find_index (\<lambda>c. c = CHR ''='') ((CHR '' '' # f) @ CHR ''='' # quoted v) = Some (length (CHR '' '' # f))"
    by (rule find_index_sep) (simp add: assms(2))
  then show ?thesis
    using b_trim_id[OF assms(1,2)] assms(3)
    by (simp add: split_sub_header_def Trim_def trim_quoted[OF assms(1)] unquote_quoted)
qed

lemma subheaders_of_disposition:
  assumes "boost_laws B" "CHR '';'' \<notin> set name" "\<forall>f. fn = Some f \<longrightarrow> CHR '';'' \<notin> set f"
  defines "m \<equiv> omap_insert (IgnoreCaseCompare B) [] ''name'' name"
  shows "MultiPartSplitSubHeadersFromValue B (disposition name fn) =
    \<lparr>sub_value = ''form-data'', sub_headers =
       (case fn of None \<Rightarrow> m | Some f \<Rightarrow> omap_insert (IgnoreCaseCompare B) m ''filename'' f)\<rparr>"
proof -
  let ?n = "'' name='' @ quoted name"
  have kt: "cookie_text ''name''" "cookie_text ''filename''"
    by (simp_all add: cookie_text_def std_isspace_def)
  have 1: "split_sub_header B \<lparr>sub_value = [], sub_headers = []\<rparr> ''form-data'' =
      \<lparr>sub_value = ''form-data'', sub_headers = []\<rparr>"
    by (simp add: split_sub_header_def)
  have n: "CHR '';'' \<notin> set ?n" using assms(2) by simp
  have "CHR '';'' \<notin> set ''form-data''" by simp
  note fst = Split_sep[OF assms(1) this]
  show ?thesis
  proof (cases fn)
    case None
    have "Split B (disposition name fn) CHR '';'' keep_space = [''form-data'', ?n]"
      using fst[of ?n] Split_none[OF assms(1) n] None by (simp add: disposition_def)
    then show ?thesis
      using split_sub_header_quoted[OF assms(1) kt(1)] None
      by (simp add: MultiPartSplitSubHeadersFromValue_def 1 m_def)
  next
    case (Some f)
    have f: "CHR '';'' \<notin> set ('' filename='' @ quoted f)" using assms(3) Some by simp
    have "Split B (disposition name fn) CHR '';'' keep_space = [''form-data'', ?n, '' filename='' @ quoted f]"
      using fst[of "?n @ ''; filename='' @ quoted f"] Split_sep[OF assms(1) n, of "'' filename='' @ quoted f"]
        Split_none[OF assms(1) f] Some by (simp add: disposition_def)
    then show ?thesis
      using split_sub_header_quoted[OF assms(1) kt(1)] split_sub_header_quoted[OF assms(1) kt(2)] Some
      by (simp add: MultiPartSplitSubHeadersFromValue_def 1 m_def)
  qed
qed

lemma nocase_find_insert:
  assumes "boost_laws B" "omap_sorted (IgnoreCaseCompare B) m"
  shows "omap_find (IgnoreCaseCompare B) (omap_insert (IgnoreCaseCompare B) m k v) j =
     (if upper k = upper j then case omap_find (IgnoreCaseCompare B) m j of None \<Rightarrow> Some v | Some w \<Rightarrow> Some w
      else omap_find (IgnoreCaseCompare B) m j)"
proof -
  note o = IgnoreCaseCompare_order[OF assms(1)]
  show ?thesis
    using strict_weak_order.find_insert_equiv[OF o assms(2), of k j v]
      strict_weak_order.find_insert_other[OF o assms(2), of k j v]
      IgnoreCaseCompare_equiv[OF assms(1), of k j] by auto
qed

lemma iEquals_refl [simp]: "boost_laws B \<Longrightarrow> iEquals B s s"
  by (simp add: boost_laws_def iEquals_def)

lemma disposition_not_Nil [simp]: "disposition name fn \<noteq> []"
  by (simp add: disposition_def)

lemma form_part_item:
  assumes "boost_laws B" "name \<noteq> []" "CHR '';'' \<notin> set name" "\<forall>f. fn = Some f \<longrightarrow> CHR '';'' \<notin> set f"
    and "omap_find (IgnoreCaseCompare B) (mp_headers mp) ''Content-Disposition'' = Some (disposition name fn)"
  shows "TransferMultiPartToFormDataItem B mp (new_FormDataItem [] []) =
    (True,
     mp\<lparr>mp_data := [], transfer_result := (if fn = None then tranfer_formdata else transfer_file_memory)\<rparr>,
     \<lparr>fd_name = name, data_flag = (if fn = None then is_data else is_file_data),
       fd_filename = (case fn of None \<Rightarrow> [] | Some f \<Rightarrow> f),
       fd_content_type = (case omap_find (IgnoreCaseCompare B) (mp_headers mp) ''Content-Type'' of
          None \<Rightarrow> [] | Some ct \<Rightarrow> ct),
       fd_data = mp_data mp\<rparr>)"
proof -
  let ?lt = "IgnoreCaseCompare B"
  let ?m = "omap_insert ?lt [] ''name'' name"
  have s: "omap_sorted ?lt ?m"
    by simp
  have u: "upper ''name'' \<noteq> upper ''filename''" by (simp add: upper_def)
  have n: "omap_find ?lt (omap_insert ?lt ?m ''filename'' f) ''name'' = Some name"
      "omap_find ?lt (omap_insert ?lt ?m ''filename'' f) ''filename'' = Some f"
      "omap_find ?lt ?m ''name'' = Some name" "omap_find ?lt ?m ''filename'' = None" for f
    using u u[symmetric] by (simp_all only: refl nocase_find_insert[OF assms(1) s] nocase_find_insert[OF assms(1) omap_sorted_Nil]
        omap_find_Nil option.case if_True if_False)
  have sh: "GetSubHeaders B ''Content-Disposition'' mp =
      \<lparr>sub_value = ''form-data'', sub_headers = (case fn of None \<Rightarrow> ?m | Some f \<Rightarrow> omap_insert ?lt ?m ''filename'' f)\<rparr>"
    using assms(5) subheaders_of_disposition[OF assms(1,3,4)]
    by (simp add: GetSubHeaders_def GetHeader_def del: omap_insert.simps)
  show ?thesis
  proof (cases fn)
    case None
    then show ?thesis
      using n(3,4) assms(1,2) sh
      by (cases mp) (simp add: TransferMultiPartToFormDataItem_def GetHeader_def TryGetHeader_def
          new_FormDataItem_def split: option.splits del: omap_insert.simps)
  next
    case (Some f)
    then show ?thesis
      using n(1,2)[of f] assms(1,2) sh
      by (cases mp) (simp add: TransferMultiPartToFormDataItem_def GetHeader_def TryGetHeader_def
          new_FormDataItem_def split: option.splits del: omap_insert.simps)
  qed
qed


text \<open>
  A part of a multipart form becomes the item it describes.  From a part whose
  \<^verbatim>\<open>Content-Disposition\<close> is that of a field, or of a file with its name, the item gets the
  name, the file's name, the content type and all of the data, and it is marked as data or as
  a file; names without a semicolon are kept whatever else is in them.
\<close>

theorem form_part_becomes_item:
  assumes "boost_laws B" "name \<noteq> []" "CHR '';'' \<notin> set name" "\<forall>f. fn = Some f \<longrightarrow> CHR '';'' \<notin> set f"
    and "omap_find (IgnoreCaseCompare B) (mp_headers mp) ''Content-Disposition'' = Some (disposition name fn)"
  shows "TransferMultiPartToFormDataItem B mp (new_FormDataItem [] []) =
    (True,
     mp\<lparr>mp_data := [], transfer_result := (if fn = None then tranfer_formdata else transfer_file_memory)\<rparr>,
     \<lparr>fd_name = name, data_flag = (if fn = None then is_data else is_file_data),
       fd_filename = (case fn of None \<Rightarrow> [] | Some f \<Rightarrow> f),
       fd_content_type = (case omap_find (IgnoreCaseCompare B) (mp_headers mp) ''Content-Type'' of
          None \<Rightarrow> [] | Some ct \<Rightarrow> ct),
       fd_data = mp_data mp\<rparr>)"
  using assms by (rule form_part_item)

definition demo_part :: MultiPart where
  "demo_part = \<lparr>mp_headers = [(''Content-Disposition'', disposition ''f'' (Some ''a=b.txt''))],
     mp_data = ''x'', transfer_result = transfer_none\<rparr>"

lemma demo_part_headers:
  "omap_find (IgnoreCaseCompare boost_classic) (mp_headers demo_part) ''Content-Disposition'' =
     Some (disposition ''f'' (Some ''a=b.txt''))"
  "omap_find (IgnoreCaseCompare boost_classic) (mp_headers demo_part) ''Content-Type'' = None"
proof -
  have "\<not> IgnoreCaseCompare boost_classic s s" for s
    by (rule strict_weak_order.irrefl[OF IgnoreCaseCompare_order[OF boost_classic_laws]])
  then show "omap_find (IgnoreCaseCompare boost_classic) (mp_headers demo_part) ''Content-Disposition'' =
     Some (disposition ''f'' (Some ''a=b.txt''))"
    by (simp only: demo_part_def MultiPart.simps omap_find_Cons if_False)
  have "upper ''Content-Disposition'' \<noteq> upper ''Content-Type''"
    by (simp add: upper_def std_toupper_def)
  then have "IgnoreCaseCompare boost_classic ''Content-Disposition'' ''Content-Type'' \<or>
      IgnoreCaseCompare boost_classic ''Content-Type'' ''Content-Disposition''"
    using IgnoreCaseCompare_equiv[OF boost_classic_laws] by blast
  then show "omap_find (IgnoreCaseCompare boost_classic) (mp_headers demo_part) ''Content-Type'' = None"
    by (elim disjE) (simp_all only: demo_part_def MultiPart.simps omap_find_Cons omap_find_Nil if_True if_cancel)
qed

theorem form_part_becomes_item_witness:
  "TransferMultiPartToFormDataItem boost_classic demo_part (new_FormDataItem [] []) =
    (True, demo_part\<lparr>mp_data := [], transfer_result := transfer_file_memory\<rparr>,
     \<lparr>fd_name = ''f'', data_flag = is_file_data, fd_filename = ''a=b.txt'', fd_content_type = [],
       fd_data = mp_data demo_part\<rparr>)"
  using form_part_becomes_item[OF boost_classic_laws _ _ _ demo_part_headers(1)] demo_part_headers(2)
  by simp

text \<open>A semicolon inside a file's name cuts it, and the quote at its front stays.\<close>

lemma file_name_with_semicolon:
  "Split boost_classic (disposition ''f'' (Some ''a;b'')) CHR '';'' keep_space =
     [''form-data'', '' name='' @ quoted ''f'', '' filename='' @ [CHR 0x22, CHR ''a''], [CHR ''b'', CHR 0x22]]"
  "split_sub_header boost_classic \<lparr>sub_value = ''form-data'', sub_headers = []\<rparr>
     ('' filename='' @ [CHR 0x22, CHR ''a'']) =
     \<lparr>sub_value = ''form-data'', sub_headers = [(''filename'', [CHR 0x22, CHR ''a''])]\<rparr>"
  by code_simp+

text \<open>A part that is refused still adds an item, an empty one.\<close>

lemma refused_part_adds_item:
  "mp_headers p = [] \<Longrightarrow> transfer_part B E opt dir uuid p fs = (p, new_FormDataItem [] [], fs)"
  by (simp add: transfer_part_def TransferMultiPartToFormDataItem_def GetSubHeaders_def GetHeader_def)

section \<open>Uploaded files\<close>

lemma transferred_data:
  "TransferMultiPartToFormDataItem B p fdi = (True, p1, item) \<Longrightarrow> fd_data item = mp_data p"
  by (auto simp: TransferMultiPartToFormDataItem_def Let_def split: if_splits option.splits)

lemma transfer_part_item:
  assumes "TransferMultiPartToFormDataItem B p (new_FormDataItem [] []) = (True, p1, item)"
    "data_flag item = is_file_data" "transfer_part B E opt dir uuid p fs = (p', item', fs')"
  shows "item' = item \<or>
    (\<exists>tmp. item' = item\<lparr>data_flag := is_file_temporary_name, fd_data := tmp\<rparr> \<and>
       fs' = fs(tmp \<mapsto> stored E tmp (mp_data p)))"
  using assms transferred_data [OF assms(1)]
  by (auto simp: transfer_part_def SaveDataToFile_def Let_def split: if_splits sum.splits)

text \<open>
  (C25) An uploaded file comes back.  The file of a form's part, whatever its size, is read back by
  \<open>FromFormDataItem\<close> and \<open>ToMemory\<close> under the names the part gave it: as the bytes of the part, if
  the options kept it in memory, and as what the disk took of the bytes of the part, if they had it
  saved and the saved file can be opened.  So it comes back whole unless a write to the disk failed,
  which nothing looks at.
\<close>

theorem upload_reads_back:
  assumes "TransferMultiPartToFormDataItem B p (new_FormDataItem [] []) = (True, p1, item)"
    and "data_flag item = is_file_data"
    and "transfer_part B E opt dir uuid p fs = (p', item', fs')"
    and "IsSavedFile item' \<longrightarrow> can_read E (fd_data item')"
  shows "\<exists>u. FromFormDataItem E fs' item' new_UploadFile = (u, True) \<and>
     src_filename u = fd_filename item \<and> up_field_name u = fd_name item \<and> snd (ToMemory u) \<and>
     up_memory (fst (ToMemory u)) =
       (if IsSavedFile item' then stored E (fd_data item') (mp_data p) else mp_data p)"
  using transfer_part_item[OF assms(1-3)] assms(2,4) transferred_data[OF assms(1)]
  by (auto simp: FromFormDataItem_def IsSavedFile_def IsFile_def ToMemory_def Let_def open_stream_def
      GetSavedFileTemporaryName_def)

theorem upload_reads_back_witness:
  "\<exists>u. FromFormDataItem demo_files [''/tmp/id.txt'' \<mapsto> ''x'']
     \<lparr>fd_name = ''f'', data_flag = is_file_temporary_name, fd_filename = ''a=b.txt'', fd_content_type = [],
       fd_data = ''/tmp/id.txt''\<rparr> new_UploadFile = (u, True) \<and>
     snd (ToMemory u) \<and> up_memory (fst (ToMemory u)) = ''x''"
proof -
  let ?item = "\<lparr>fd_name = ''f'', data_flag = is_file_data, fd_filename = ''a=b.txt'', fd_content_type = [], fd_data = mp_data demo_part\<rparr>"
  have i: "TransferMultiPartToFormDataItem boost_classic demo_part (new_FormDataItem [] []) =
      (True, demo_part\<lparr>mp_data := [], transfer_result := transfer_file_memory\<rparr>, ?item)"
    using form_part_item[OF boost_classic_laws _ _ _ demo_part_headers(1)] demo_part_headers(2) by simp
  have d: "mp_data demo_part = ''x''" by (simp add: demo_part_def)
  have "transfer_part boost_classic demo_files \<lparr>strategy = always_save, size_base_kb = 0, extensions = []\<rparr>
      ''/tmp'' ''id'' demo_part (\<lambda>_. None) =
      (demo_part\<lparr>mp_data := [], transfer_result := transfer_file_saved\<rparr>,
       ?item\<lparr>data_flag := is_file_temporary_name, fd_data := ''/tmp/id.txt''\<rparr>, [''/tmp/id.txt'' \<mapsto> ''x''])"
    by (simp add: transfer_part_def i d IsNeedSave_def MakeUploadFileTemporaryName_def SaveDataToFile_def demo_files_def Let_def)
  from upload_reads_back[OF i _ this] show ?thesis
    by (auto simp: demo_files_def d IsSavedFile_def)
qed

text \<open>
  \<open>ToStream\<close> of a file in memory makes an empty file, while it reports success.
\<close>

lemma ToStream_empties_file:
  assumes "up_status u = in_memory" "dir_ready E temp = Inr True" "can_write E temp" "can_read E temp"
  shows "ToStream E temp u fs = (u\<lparr>up_stream := Some [], saved_filename := temp\<rparr>, True, fs(temp \<mapsto> []))"
  using assms by (simp add: ToStream_def SaveDataToFile_def open_stream_def Let_def)

end
