(* ===== verification/Application.thy ===== *)
theory Application
  imports Render Intercept
begin

text \<open>
  \<^verbatim>\<open>include/daqi/application.hpp\<close> and \<^verbatim>\<open>src/application.cpp\<close>: the routing tables of an
  application and the choice of the handler for a request, and the applications of a server.
  A handler is a value of the type \<open>'h\<close>; \<open>callable\<close> tells whether the \<^verbatim>\<open>std::function\<close> holds
  a target.  The parts that set up directories, log files and template files are in
  \<open>AppSetup\<close> and \<open>Templates\<close>.
\<close>

section \<open>The application\<close>

record ('h, 'r, 'i) Application =
  app_disabled :: bool
  app_mounted :: bool
  app_name :: string
  default_charset :: string
  root_url :: string
  root_log :: string
  root_static :: string
  root_template :: string
  root_upload :: string
  root_temporary :: string
  app_template_ext :: string
  upload_max_size_limit_kb :: nat
  upload_file_save_opt :: UploadFileSaveOptions
  equalRouter :: "'h string_table"
  startwithsRouter :: "'h string_table"
  regexRouter :: "('h, 'r) RegexRouterItem list"
  intercepters :: "'i list"

definition IsRuning :: "('h, 'r, 'i, 'z) Application_scheme \<Rightarrow> bool" where
  "IsRuning a \<longleftrightarrow> app_mounted a \<and> \<not> app_disabled a"

definition AppMount :: "('h, 'r, 'i) Application \<Rightarrow> ('h, 'r, 'i) Application" where
  "AppMount a = a\<lparr>app_mounted := True\<rparr>"
definition AppDisable :: "('h, 'r, 'i) Application \<Rightarrow> ('h, 'r, 'i) Application" where
  "AppDisable a = a\<lparr>app_disabled := True\<rparr>"
definition AppEnable :: "('h, 'r, 'i) Application \<Rightarrow> ('h, 'r, 'i) Application" where
  "AppEnable a = a\<lparr>app_disabled := False\<rparr>"

text \<open>The settings: those of the directories and the charset are ignored while it runs.\<close>

definition SetStaticRoot :: "string \<Rightarrow> ('h, 'r, 'i) Application \<Rightarrow> ('h, 'r, 'i) Application" where
  "SetStaticRoot v a = a\<lparr>root_static := v\<rparr>"
definition SetLogRoot :: "bool \<Rightarrow> string \<Rightarrow> ('h, 'r, 'i) Application \<Rightarrow> ('h, 'r, 'i) Application" where
  "SetLogRoot no_logger v a = (if \<not> IsRuning a \<and> no_logger then a\<lparr>root_log := v\<rparr> else a)"
definition SetTemplateRoot :: "string \<Rightarrow> ('h, 'r, 'i) Application \<Rightarrow> ('h, 'r, 'i) Application" where
  "SetTemplateRoot v a = (if \<not> IsRuning a then a\<lparr>root_template := v\<rparr> else a)"
definition SetTemplateExt :: "string \<Rightarrow> ('h, 'r, 'i) Application \<Rightarrow> ('h, 'r, 'i) Application" where
  "SetTemplateExt v a = (if \<not> IsRuning a \<and> app_template_ext a \<noteq> v then a\<lparr>app_template_ext := v\<rparr> else a)"
definition SetTemporaryRoot :: "string \<Rightarrow> ('h, 'r, 'i) Application \<Rightarrow> ('h, 'r, 'i) Application" where
  "SetTemporaryRoot v a = (if \<not> IsRuning a then a\<lparr>root_temporary := v\<rparr> else a)"
definition SetDefaultCharset :: "string \<Rightarrow> ('h, 'r, 'i) Application \<Rightarrow> ('h, 'r, 'i) Application" where
  "SetDefaultCharset v a = (if \<not> IsRuning a then a\<lparr>default_charset := v\<rparr> else a)"
definition SetUploadRoot :: "string \<Rightarrow> ('h, 'r, 'i) Application \<Rightarrow> ('h, 'r, 'i) Application" where
  "SetUploadRoot v a = (if \<not> IsRuning a then a\<lparr>root_upload := v\<rparr> else a)"

definition AddIntercepter :: "'i \<Rightarrow> ('h, 'r, 'i) Application \<Rightarrow> ('h, 'r, 'i) Application \<times> bool" where
  "AddIntercepter i a = (if IsRuning a then (a, False) else (a\<lparr>intercepters := intercepters a @ [i]\<rparr>, True))"

text \<open>A request of the application goes through its intercepters.\<close>

definition StartIn :: "('h, 'r, 'i) Application \<Rightarrow> chain_state" where
  "StartIn a = ContextStart (length (intercepters a))"

section \<open>Adding handlers\<close>

datatype router = router_equals string | router_starts string | router_regex string

definition Equals_Add where
  "Equals_Add B = routing_Add True (Equals_Exists B) (Equals_Insert B) (Equals_update B)"
definition Starts_Add where
  "Starts_Add B = routing_Add False (Starts_Exists B) (Starts_Insert B) (Starts_update B)"
definition Regex_Add where
  "Regex_Add R = routing_Add False Regex_Exists (Regex_Insert R) Regex_update"

text \<open>The overloads of \<open>AddHandler\<close> for one method, by the kind of the route.\<close>

fun AddHandler :: "boost_algo \<Rightarrow> 'r regex_lib \<Rightarrow> HandlerMethod \<Rightarrow> router \<Rightarrow> 'h \<Rightarrow> string \<Rightarrow>
    ('h, 'r, 'i) Application \<Rightarrow> ('h, 'r, 'i) Application \<times> bool" where
  "AddHandler B R m (router_equals u) h t a =
     (if IsRuning a then (a, False)
      else case Equals_Add B (equalRouter a) (JoinUrlPath (root_url a) u) m h t [] of
        (tbl, ok, err) \<Rightarrow> (a\<lparr>equalRouter := tbl\<rparr>, ok))"
| "AddHandler B R m (router_starts u) h t a =
     (if IsRuning a then (a, False)
      else case Starts_Add B (startwithsRouter a) (JoinUrlPath (root_url a) u) m h t [] of
        (tbl, ok, err) \<Rightarrow> (a\<lparr>startwithsRouter := tbl\<rparr>, ok))"
| "AddHandler B R m (router_regex u) h t a =
     (if IsRuning a then (a, False)
      else case Regex_Add R (regexRouter a) (JoinUrlPath (root_url a) u) m h t [] of
        (tbl, ok, err) \<Rightarrow> (a\<lparr>regexRouter := tbl\<rparr>, ok))"

text \<open>The overloads for a set of methods.\<close>

fun AddHandlers :: "boost_algo \<Rightarrow> 'r regex_lib \<Rightarrow> HandlerMethods \<Rightarrow> router \<Rightarrow> 'h \<Rightarrow> string \<Rightarrow>
    ('h, 'r, 'i) Application \<Rightarrow> ('h, 'r, 'i) Application \<times> bool" where
  "AddHandlers B R ms (router_equals u) h t a =
     (if IsRuning a then (a, False)
      else case Equals_AddAll B (equalRouter a) (JoinUrlPath (root_url a) u) ms h t [] of
        (tbl, ok, err) \<Rightarrow> (a\<lparr>equalRouter := tbl\<rparr>, ok))"
| "AddHandlers B R ms (router_starts u) h t a =
     (if IsRuning a then (a, False)
      else case Starts_AddAll B (startwithsRouter a) (JoinUrlPath (root_url a) u) ms h t [] of
        (tbl, ok, err) \<Rightarrow> (a\<lparr>startwithsRouter := tbl\<rparr>, ok))"
| "AddHandlers B R ms (router_regex u) h t a =
     (if IsRuning a then (a, False)
      else case Regex_AddAll R (regexRouter a) (JoinUrlPath (root_url a) u) ms h t [] of
        (tbl, ok, err) \<Rightarrow> (a\<lparr>regexRouter := tbl\<rparr>, ok))"

text \<open>Several routes for one handler: up to the first that fails.\<close>

fun AddRoutes :: "boost_algo \<Rightarrow> 'r regex_lib \<Rightarrow> HandlerMethod \<Rightarrow> router list \<Rightarrow> 'h \<Rightarrow> string \<Rightarrow>
    ('h, 'r, 'i) Application \<Rightarrow> ('h, 'r, 'i) Application \<times> bool" where
  "AddRoutes B R m [] h t a = (a, True)"
| "AddRoutes B R m (r # rs) h t a =
     (case AddHandler B R m r h t a of
        (a', False) \<Rightarrow> (a', False)
      | (a', True) \<Rightarrow> AddRoutes B R m rs h t a')"

definition AddEqualsRouter :: "boost_algo \<Rightarrow> 'r regex_lib \<Rightarrow> HandlerMethod \<Rightarrow> string list \<Rightarrow> 'h \<Rightarrow> string \<Rightarrow>
    ('h, 'r, 'i) Application \<Rightarrow> ('h, 'r, 'i) Application \<times> bool" where
  "AddEqualsRouter B R m urls = AddRoutes B R m (map router_equals urls)"
definition AddStartsRouter :: "boost_algo \<Rightarrow> 'r regex_lib \<Rightarrow> HandlerMethod \<Rightarrow> string list \<Rightarrow> 'h \<Rightarrow> string \<Rightarrow>
    ('h, 'r, 'i) Application \<Rightarrow> ('h, 'r, 'i) Application \<times> bool" where
  "AddStartsRouter B R m urls = AddRoutes B R m (map router_starts urls)"
definition AddRegexRouter :: "boost_algo \<Rightarrow> 'r regex_lib \<Rightarrow> HandlerMethod \<Rightarrow> string list \<Rightarrow> 'h \<Rightarrow> string \<Rightarrow>
    ('h, 'r, 'i) Application \<Rightarrow> ('h, 'r, 'i) Application \<times> bool" where
  "AddRegexRouter B R m urls = AddRoutes B R m (map router_regex urls)"

section \<open>Finding the handler of a request\<close>

definition init_path_parameters :: "string list \<Rightarrow> string list \<Rightarrow> 'j Context \<Rightarrow> 'j Context" where
  "init_path_parameters names values c =
     c\<lparr>request := (request c)\<lparr>path_parameters := InitParameters names values\<rparr>\<rparr>"

definition set_template_name :: "string \<Rightarrow> 'j Context \<Rightarrow> 'j Context" where
  "set_template_name t c = c\<lparr>Context.template_name := t\<rparr>"

record 'h found =
  found_handler :: "'h option"
  url_exists :: bool
  unsupport_method :: bool

definition ctx_path :: "'j Context \<Rightarrow> string" where
  "ctx_path c = url_path (req_url (request c))"

text \<open>
  \<open>find_handler\<close>: the three tables in turn.  The flags \<open>url_exists\<close> and \<open>unsupport_method\<close> are
  the caller's variables.
\<close>

definition find_handler :: "boost_algo \<Rightarrow> 'r regex_lib \<Rightarrow> ('h, 'r, 'i) Application \<Rightarrow> string \<Rightarrow>
    bool \<Rightarrow> bool \<Rightarrow> 'j Context \<Rightarrow> 'h found \<times> 'j Context" where
  "find_handler B R a retry_path ue um c =
     (let m = from_http_method (req_method (request c))
      in if m = UNSUPPORT
         then (\<lparr>found_handler = None, url_exists = ue, unsupport_method = True\<rparr>, set_template_name [] c)
         else
           let url = (if retry_path = [] then ctx_path c else retry_path);
               (rr, ue1) = Equals_Match B (equalRouter a) url m ue
           in case rr_handler rr of
             Some h \<Rightarrow> (\<lparr>found_handler = Some h, url_exists = ue1, unsupport_method = um\<rparr>,
                       set_template_name (rr_template_name rr) c)
           | None \<Rightarrow>
             let (srr, ue2) = Starts_Match B (startwithsRouter a) url m ue1
             in case rr_handler srr of
               Some h \<Rightarrow> (\<lparr>found_handler = Some h, url_exists = ue2, unsupport_method = um\<rparr>,
                         init_path_parameters [[]] [drop (length (rr_key srr)) url]
                           (set_template_name (rr_template_name srr) c))
             | None \<Rightarrow>
               let (rrr, ue3) = Regex_Match R (regexRouter a) url m ue2
               in case rr_handler rrr of
                 Some h \<Rightarrow> (\<lparr>found_handler = Some h, url_exists = ue3, unsupport_method = um\<rparr>,
                           init_path_parameters (rr_parameters rrr) (rr_values rrr)
                             (set_template_name (rr_template_name rrr) c))
               | None \<Rightarrow> (\<lparr>found_handler = None, url_exists = ue3, unsupport_method = um\<rparr>, c))"

text \<open>
  \<open>do_handle\<close>: a request is answered with a page and passed on, or it is the handler's.  The
  loop runs at most twice, the flag \<open>retring\<close> ends it.
\<close>

datatype ('h, 'j) handled = Replied "'j Context" | HandlerCalled 'h "'j Context"

definition callable_handler :: "('h \<Rightarrow> bool) \<Rightarrow> 'h found \<Rightarrow> 'h option" where
  "callable_handler callable f =
     (case found_handler f of Some h \<Rightarrow> if callable h then Some h else None | None \<Rightarrow> None)"

definition try_index :: "boost_algo \<Rightarrow> 'r regex_lib \<Rightarrow> ('h, 'r, 'i) Application \<Rightarrow> 'h found \<times> 'j Context \<Rightarrow>
    'h found \<times> 'j Context" where
  "try_index B R a fc =
     (case fc of (f, c) \<Rightarrow>
        if EndsWith B (ctx_path c) ''/index''
        then find_handler B R a (take (length (ctx_path c) - 5) (ctx_path c))
               (url_exists f) (unsupport_method f) c
        else fc)"

function do_handle_loop :: "('t, 'j) render_env \<Rightarrow> 'r regex_lib \<Rightarrow> ('h \<Rightarrow> bool) \<Rightarrow> ('h, 'r, 'i) Application \<Rightarrow>
    bool \<Rightarrow> 'h found \<times> 'j Context \<Rightarrow> ('h, 'j) handled" where
  "do_handle_loop E R callable a retring fc =
     (case callable_handler callable (fst fc) of
        Some h \<Rightarrow> HandlerCalled h (snd fc)
      | None \<Rightarrow>
          if url_exists (fst fc) \<or> unsupport_method (fst fc)
          then Replied (RenderNotImplemented E (null_json E) (snd fc))
          else if retring then Replied (render_default E (null_json E) (snd fc))
          else do_handle_loop E R callable a True (try_index (algo E) R a fc))"
  by pat_completeness auto
termination
  by (relation "measure (\<lambda>(E, R, callable, a, retring, fc). if retring then 0 else 1)") auto

declare do_handle_loop.simps [simp del]

definition do_handle :: "('t, 'j) render_env \<Rightarrow> 'r regex_lib \<Rightarrow> ('h \<Rightarrow> bool) \<Rightarrow> ('h, 'r, 'i) Application \<Rightarrow>
    'j Context \<Rightarrow> ('h, 'j) handled" where
  "do_handle E R callable a c =
     do_handle_loop E R callable a False (find_handler (algo E) R a [] False False c)"

section \<open>The applications of a server\<close>

text \<open>
  \<open>ApplicationMgr\<close>: the applications by their root, in descending order without regard to
  case.  \<open>abortive\<close> is what a release build answers for a URL of no application, and a debug
  build has none.
\<close>

record ('h, 'r, 'i) ApplicationMgr =
  apps :: "(string, ('h, 'r, 'i) Application) omap"
  mgr_mounted :: bool
  abortive :: "('h, 'r, 'i) Application option"

definition FindByName :: "string \<Rightarrow> ('h, 'r, 'i) ApplicationMgr \<Rightarrow> ('h, 'r, 'i) Application option" where
  "FindByName name mgr =
     (case find (\<lambda>(u, a). app_name a = name) (apps mgr) of
        Some (u, a) \<Rightarrow> Some a
      | None \<Rightarrow> if name = ''ABORTIVE-APP'' then abortive mgr else None)"

definition IsExistsApp :: "string \<Rightarrow> ('h, 'r, 'i) ApplicationMgr \<Rightarrow> bool" where
  "IsExistsApp name mgr = (FindByName name mgr \<noteq> None)"

definition IsEnableApp :: "string \<Rightarrow> ('h, 'r, 'i) ApplicationMgr \<Rightarrow> bool" where
  "IsEnableApp name mgr = (case FindByName name mgr of Some a \<Rightarrow> \<not> app_disabled a | None \<Rightarrow> False)"

definition CreateDefault :: "boost_algo \<Rightarrow> (string \<Rightarrow> ('h, 'r, 'i) Application) \<Rightarrow> string \<Rightarrow>
    ('h, 'r, 'i) ApplicationMgr \<Rightarrow> ('h, 'r, 'i) ApplicationMgr" where
  "CreateDefault B new_app name mgr =
     (let app = new_app (if name \<noteq> [] then name else ''DAQI-APP'')
      in mgr\<lparr>apps := omap_insert (IgnoreCaseCompareDESC B) (apps mgr) (root_url app) app\<rparr>)"

definition MountApplication :: "boost_algo \<Rightarrow> ('h, 'r, 'i) Application \<Rightarrow> ('h, 'r, 'i) ApplicationMgr \<Rightarrow>
    ('h, 'r, 'i) ApplicationMgr \<times> bool" where
  "MountApplication B app mgr =
     (if mgr_mounted mgr then (mgr, False)
      else if \<not> IsExistsApp (app_name app) mgr
      then (mgr\<lparr>apps := omap_insert (IgnoreCaseCompareDESC B) (apps mgr) (root_url app) app\<rparr>, True)
      else (mgr, False))"

definition MgrMount :: "('h, 'r, 'i) ApplicationMgr \<Rightarrow> ('h, 'r, 'i) ApplicationMgr" where
  "MgrMount mgr = mgr\<lparr>mgr_mounted := True, apps := map (\<lambda>(u, a). (u, AppMount a)) (apps mgr)\<rparr>"

fun change_app :: "string \<Rightarrow> (('h, 'r, 'i) Application \<Rightarrow> ('h, 'r, 'i) Application) \<Rightarrow>
    (string \<times> ('h, 'r, 'i) Application) list \<Rightarrow> (string \<times> ('h, 'r, 'i) Application) list" where
  "change_app name f [] = []"
| "change_app name f ((u, a) # m) = (if app_name a = name then (u, f a) # m else (u, a) # change_app name f m)"

text \<open>\<open>Enable\<close> and \<open>Disable\<close> of an application by its name; the abortive one is left out here.\<close>

definition MgrEnable :: "string \<Rightarrow> ('h, 'r, 'i) ApplicationMgr \<Rightarrow> ('h, 'r, 'i) ApplicationMgr" where
  "MgrEnable name mgr = mgr\<lparr>apps := change_app name (\<lambda>a. if app_disabled a then AppEnable a else a) (apps mgr)\<rparr>"
definition MgrDisable :: "string \<Rightarrow> ('h, 'r, 'i) ApplicationMgr \<Rightarrow> ('h, 'r, 'i) ApplicationMgr" where
  "MgrDisable name mgr = mgr\<lparr>apps := change_app name (\<lambda>a. if \<not> app_disabled a then AppDisable a else a) (apps mgr)\<rparr>"

text \<open>\<open>FindByURL\<close>: from the first root that is not greater than the URL on.\<close>

fun first_root :: "boost_algo \<Rightarrow> string \<Rightarrow> (string \<times> 'a) list \<Rightarrow> 'a option" where
  "first_root B url [] = None"
| "first_root B url ((k, a) # m) = (if iStartsWith B url k then Some a else first_root B url m)"

definition FindByURL :: "boost_algo \<Rightarrow> string \<Rightarrow> ('h, 'r, 'i) ApplicationMgr \<Rightarrow> ('h, 'r, 'i) Application option" where
  "FindByURL B url mgr =
     (case omap_lower_bound (IgnoreCaseCompareDESC B) (apps mgr) url of
        [] \<Rightarrow> abortive mgr
      | (k, a) # m \<Rightarrow>
          if iStartsWith B url k then Some a
          else case first_root B url m of Some a' \<Rightarrow> Some a' | None \<Rightarrow> abortive mgr)"

end
