(* ===== verification/ApplicationProofs.thy ===== *)
theory ApplicationProofs
  imports Application RouterProofs
begin

text \<open>
  What an application promises: the application of a URL, the handler of a request, and the
  pages of requests without one.
\<close>

section \<open>The application of a URL\<close>

lemma first_root_skip:
  assumes "boost_laws B"
  shows "first_root B url (omap_lower_bound (IgnoreCaseCompareDESC B) m url) = first_root B url m"
proof (induction m)
  case (Cons p m)
  obtain k a where p: "p = (k, a)" by (cases p)
  have "\<not> iStartsWith B url k" if "IgnoreCaseCompareDESC B k url"
  proof
    assume "iStartsWith B url k"
    then obtain t where t: "upper url = upper k @ t" using iStartsWith_upper[OF assms] by blast
    have "\<not> IgnoreCaseCompare B url k"
    proof (cases t)
      case Nil
      then show ?thesis using t IgnoreCaseCompare_equiv[OF assms, of url k] by simp
    next
      case (Cons x xs)
      have "map (\<lambda>c. schar (std_toupper c)) s = map schar (upper s)" for s by (simp add: upper_def)
      with t Cons have "lex_less (\<lambda>c. schar (std_toupper c)) k url"
        by (intro lex_less_extend[of _ _ _ "map schar t"]) simp_all
      then have "IgnoreCaseCompare B k url" using assms by (simp add: iLess_lex)
      then show ?thesis
        by (rule strict_weak_order.asym[OF IgnoreCaseCompare_order[OF assms]])
    qed
    then show False using that by (simp add: IgnoreCaseCompareDESC_def)
  qed
  then show ?case
    using Cons by (auto simp: omap_lower_bound_def p)
qed (simp add: omap_lower_bound_def)

lemma FindByURL_first_root:
  assumes "boost_laws B"
  shows "FindByURL B url mgr = (case first_root B url (apps mgr) of Some a \<Rightarrow> Some a | None \<Rightarrow> abortive mgr)"
proof -
  have "FindByURL B url mgr = (case first_root B url (omap_lower_bound (IgnoreCaseCompareDESC B) (apps mgr) url)
      of Some a \<Rightarrow> Some a | None \<Rightarrow> abortive mgr)"
    by (auto simp: FindByURL_def split: list.split option.split)
  then show ?thesis by (simp only: first_root_skip[OF assms])
qed

lemma first_root_longest:
  assumes "boost_laws B" "omap_sorted (IgnoreCaseCompareDESC B) m" "(k0, a0) \<in> set m" "iStartsWith B url k0"
  shows "\<exists>k a. (k, a) \<in> set m \<and> iStartsWith B url k \<and> first_root B url m = Some a \<and>
     (\<forall>(k', a') \<in> set m. iStartsWith B url k' \<longrightarrow> length k' \<le> length k)"
  using assms(2,3)
proof (induction m)
  case (Cons p m)
  obtain k a where p: "p = (k, a)" by (cases p)
  show ?case
  proof (cases "iStartsWith B url k")
    case True
    have "length k' \<le> length k" if "(k', a') \<in> set m" "iStartsWith B url k'" for k' a'
    proof (rule ccontr)
      assume "\<not> length k' \<le> length k"
      then have "IgnoreCaseCompareDESC B k' k" using longer_prefix_first[OF assms(1) True that(2)] by simp
      moreover have "IgnoreCaseCompareDESC B k k'" using Cons.prems(1) that(1) by (fastforce simp: p)
      ultimately show False
        using strict_weak_order.asym[OF IgnoreCaseCompare_order[OF assms(1)]]
        by (simp add: IgnoreCaseCompareDESC_def)
    qed
    with True show ?thesis unfolding p by (intro exI[of _ k] exI[of _ a]) auto
  next
    case False
    then have "(k0, a0) \<in> set m" using Cons.prems(2) assms(4) by (auto simp: p)
    moreover have "omap_sorted (IgnoreCaseCompareDESC B) m" using Cons.prems(1) by (simp add: p)
    ultimately obtain k1 a1 where r: "(k1, a1) \<in> set m" "iStartsWith B url k1" "first_root B url m = Some a1"
      "\<forall>(k', a') \<in> set m. iStartsWith B url k' \<longrightarrow> length k' \<le> length k1"
      using Cons.IH by blast
    have "\<forall>(k', a') \<in> set (p # m). iStartsWith B url k' \<longrightarrow> length k' \<le> length k1"
      using r(4) False by (simp add: p)
    with r(1-3) False show ?thesis
      unfolding p by (intro exI[of _ k1] exI[of _ a1]) simp
  qed
qed simp

text \<open>
  The application of a URL is the one with the longest root.  If the root of some
  application is, up to case, a prefix of the URL, the search finds an application whose root is such a
  prefix and as long as any; the jump of the search to the first root that is not greater than
  the URL loses nothing.  If no root is a prefix, the answer is the abortive application of a
  release build, or none.
\<close>

theorem application_of_url:
  assumes "boost_laws B" "omap_sorted (IgnoreCaseCompareDESC B) (apps mgr)"
  shows "if \<exists>(k, a) \<in> set (apps mgr). iStartsWith B url k
     then \<exists>(k, a) \<in> set (apps mgr). iStartsWith B url k \<and> FindByURL B url mgr = Some a \<and>
        (\<forall>(k', a') \<in> set (apps mgr). iStartsWith B url k' \<longrightarrow> length k' \<le> length k)
     else FindByURL B url mgr = abortive mgr"
proof (cases "\<exists>(k, a) \<in> set (apps mgr). iStartsWith B url k")
  case True
  then obtain k0 a0 where "(k0, a0) \<in> set (apps mgr)" "iStartsWith B url k0" by blast
  from first_root_longest[OF assms this] obtain k a where "(k, a) \<in> set (apps mgr)" "iStartsWith B url k"
    "first_root B url (apps mgr) = Some a"
    "\<forall>(k', a') \<in> set (apps mgr). iStartsWith B url k' \<longrightarrow> length k' \<le> length k" by blast
  with True show ?thesis
    by (subst if_P) (auto simp: FindByURL_first_root[OF assms(1)] intro!: bexI[of _ "(k, a)"])
next
  case False
  have "first_root B url m = None" if "\<not> (\<exists>(k, a) \<in> set m. iStartsWith B url k)" for m :: "(string \<times> ('a, 'b, 'c) Application) list"
    using that by (induction m) auto
  with False show ?thesis by (simp add: FindByURL_first_root[OF assms(1)])
qed

definition blank_app :: "string \<Rightarrow> string \<Rightarrow> (nat, nat, nat) Application" where
  "blank_app name root = \<lparr>app_disabled = False, app_mounted = False, app_name = name,
     default_charset = ''utf-8'', root_url = root, root_log = [], root_static = [], root_template = [],
     root_upload = [], root_temporary = [], app_template_ext = [], upload_max_size_limit_kb = 1048576,
     upload_file_save_opt = \<lparr>strategy = always_save, size_base_kb = 0, extensions = []\<rparr>,
     equalRouter = [], startwithsRouter = [], regexRouter = [], intercepters = []\<rparr>"

theorem application_of_url_witness:
  "FindByURL boost_classic ''/Shop/cart'' \<lparr>apps = [(''/shop/'', blank_app ''a'' ''/shop/'')],
     mgr_mounted = False, abortive = None\<rparr> = Some (blank_app ''a'' ''/shop/'')"
proof -
  have "iStartsWith boost_classic ''/Shop/cart'' ''/shop/''" by code_simp
  then show ?thesis
    using application_of_url[OF boost_classic_laws, of "\<lparr>apps = [(''/shop/'', blank_app ''a'' ''/shop/'')],
      mgr_mounted = False, abortive = None\<rparr>" "''/Shop/cart''"] by simp
qed

text \<open>
  Mounting an application whose root is taken is reported as done, and the application is not
  there: only names are compared.
\<close>

lemma mount_on_taken_root:
  assumes "boost_laws B"
  shows "MountApplication B (blank_app ''b'' ''/'')
      \<lparr>apps = [(''/'', blank_app ''a'' ''/'')], mgr_mounted = False, abortive = None\<rparr> =
    (\<lparr>apps = [(''/'', blank_app ''a'' ''/'')], mgr_mounted = False, abortive = None\<rparr>, True)"
  using strict_weak_order.irrefl[OF IgnoreCaseCompare_order[OF assms], of "''/''"]
  by (simp add: MountApplication_def IsExistsApp_def FindByName_def blank_app_def IgnoreCaseCompareDESC_def)

lemma MountApplication_sorted:
  assumes "boost_laws B" "omap_sorted (IgnoreCaseCompareDESC B) (apps mgr)"
  shows "omap_sorted (IgnoreCaseCompareDESC B) (apps (fst (MountApplication B app mgr)))"
  using strict_weak_order.sorted_insert[OF boost.nocase_desc_order[OF boost.intro[OF assms(1)]] assms(2)]
  by (simp add: MountApplication_def assms(2))

section \<open>The handler of a request\<close>

definition router_inv :: "boost_algo \<Rightarrow> ('h, 'r, 'i) Application \<Rightarrow> bool" where
  "router_inv B a \<longleftrightarrow> table_inv (IgnoreCaseCompare B) (equalRouter a) \<and>
     table_inv (IgnoreCaseCompareDESC B) (startwithsRouter a) \<and> regex_inv (regexRouter a)"

context boost
begin

lemma Equals_Add_ok:
  assumes "table_inv (IgnoreCaseCompare B) t" "Equals_Add B t u m h tn e = (t', ok, e')"
  shows "ok \<and> table_inv (IgnoreCaseCompare B) t' \<and>
     (iEquals B url u \<longrightarrow> handler_at (Equals_Exists B) t' url m = Some h)"
proof -
  have ok: "ok" using assms(2)
    by (auto simp: Equals_Add_def routing_Add_def Equals_Insert_def split: option.splits)
  with assms(2) have add: "routing_Add True (Equals_Exists B) (Equals_Insert B) (Equals_update B) t u m h tn e = (t', True, e')"
    by (simp add: Equals_Add_def)
  note A = equals.Add_ok[OF assms(1) add]
  show ?thesis
    using ok A equals.handler_at_same[of t' u url m] same_nocase_iEquals[OF laws, of u url] by auto
qed

lemma Starts_Add_ok:
  assumes "table_inv (IgnoreCaseCompareDESC B) t" "Starts_Add B t u m h tn e = (t', ok, e')"
  shows "ok \<and> table_inv (IgnoreCaseCompareDESC B) t' \<and>
     (iEquals B url u \<longrightarrow> handler_at (Starts_Exists B) t' url m = Some h)"
proof -
  have ok: "ok" using assms(2)
    by (auto simp: Starts_Add_def routing_Add_def Starts_Insert_def split: option.splits)
  with assms(2) have add: "routing_Add False (Starts_Exists B) (Starts_Insert B) (Starts_update B) t u m h tn e = (t', True, e')"
    by (simp add: Starts_Add_def)
  note A = starts.Add_ok[OF assms(1) add]
  show ?thesis
    using ok A starts.handler_at_same[of t' u url m] same_nocase_iEquals[OF laws, of u url] by auto
qed

end

lemma Regex_Add_ok:
  "regex_inv t \<Longrightarrow> Regex_Add R t u m h tn e = (t', True, e') \<Longrightarrow> regex_inv t'"
  unfolding Regex_Add_def by (drule (1) regexes.Add_ok) simp

lemma Regex_Add_fails:
  "Regex_Add R t u m h tn e = (t', False, e') \<Longrightarrow> t' = t"
  by (auto simp: Regex_Add_def routing_Add_def Regex_Insert_def split: option.splits sum.splits prod.splits)

lemma AddHandler_inv:
  assumes "boost_laws B" "router_inv B a" "AddHandler B R m r h t a = (a', ok)"
  shows "router_inv B a'"
proof (cases r)
  case (router_equals u)
  then show ?thesis
    using assms(2,3) boost.Equals_Add_ok[OF boost.intro[OF assms(1)], of "equalRouter a"]
    by (auto simp: router_inv_def split: if_splits prod.splits)
next
  case (router_starts u)
  then show ?thesis
    using assms(2,3) boost.Starts_Add_ok[OF boost.intro[OF assms(1)], of "startwithsRouter a"]
    by (auto simp: router_inv_def split: if_splits prod.splits)
next
  case (router_regex u)
  then show ?thesis
    using assms(2,3) Regex_Add_ok Regex_Add_fails
    by (cases ok) (fastforce simp: router_inv_def split: if_splits prod.splits)+
qed

lemma find_equals:
  assumes "from_http_method (req_method (request c)) = m" "m \<noteq> UNSUPPORT"
    and "handler_at (Equals_Exists B) (equalRouter a) (if p = [] then ctx_path c else p) m = Some h"
  shows "\<exists>f tn. find_handler B R a p ue um c = (f, set_template_name tn c) \<and> found_handler f = Some h"
  using assms Equals_Match_handler[of B "equalRouter a" "if p = [] then ctx_path c else p" m ue]
  by (auto simp: find_handler_def Let_def split: prod.splits)

text \<open>
  A handler that was added is called.  While the application is not running, adding a
  handler for a path always succeeds; from then on a request with the method whose path is, up
  to case, the root of the application joined with the path of the route is given to that
  handler, whatever other routes there are, and nothing but the template's name is changed in
  its context.
\<close>

theorem added_handler_is_called:
  assumes "boost_laws (algo E)" "router_inv (algo E) a" "\<not> IsRuning a"
    and "AddHandler (algo E) R m (router_equals u) h t a = (a', ok)"
    and "from_http_method (req_method (request c)) = m" "m \<noteq> UNSUPPORT"
    and "iEquals (algo E) (ctx_path c) (JoinUrlPath (root_url a) u)" "callable h"
  shows "ok \<and> (\<exists>tn. do_handle E R callable a' c = HandlerCalled h (set_template_name tn c))"
proof -
  obtain tbl ok' err where add: "Equals_Add (algo E) (equalRouter a) (JoinUrlPath (root_url a) u) m h t [] = (tbl, ok', err)"
    by (metis prod_cases3)
  have inv: "table_inv (IgnoreCaseCompare (algo E)) (equalRouter a)"
    using assms(2) by (simp add: router_inv_def)
  have a': "a' = a\<lparr>equalRouter := tbl\<rparr>" "ok = ok'"
    using assms(3,4) by (simp_all add: add)
  note A = boost.Equals_Add_ok[OF boost.intro[OF assms(1)] inv add, of "ctx_path c"]
  then have "handler_at (Equals_Exists (algo E)) (equalRouter a') (if [] = [] then ctx_path c else []) m = Some h"
    using assms(7) by (simp add: a')
  from find_equals[OF assms(5,6) this, of R False False] obtain f tn where
    "find_handler (algo E) R a' [] False False c = (f, set_template_name tn c)" "found_handler f = Some h"
    by blast
  then show ?thesis
    using A assms(8) by (auto simp: a' do_handle_def do_handle_loop.simps callable_handler_def)
qed

definition demo_render :: "(unit, unit) render_env" where
  "demo_render = \<lparr>algo = boost_classic, templates = (\<lambda>n. None), engine = (\<lambda>t d. Inr []),
     is_null = (\<lambda>j. True), null_json = (), error_json = (\<lambda>e. ())\<rparr>"

definition demo_get :: "string \<Rightarrow> unit Context" where
  "demo_get p = \<lparr>request = blank_Request\<lparr>req_url := UrlBase.extend (empty_url\<lparr>url_path := p\<rparr>)
       \<lparr>full_under_app = [], path_under_app = []\<rparr>\<rparr>,
     template_name = [], model_data = (), response = blank_Response\<rparr>"

lemma demo_get_facts: "ctx_path (demo_get p) = p" "from_http_method (req_method (request (demo_get p))) = GET"
  by (simp_all add: demo_get_def ctx_path_def blank_Request_def UrlBase.defs from_http_method_def)

definition demo_regex :: "unit regex_lib" where
  "demo_regex = \<lparr>rx_assign = (\<lambda>p. Inr ()), rx_match = (\<lambda>r u. Inr None)\<rparr>"

definition demo_app :: "(nat, unit, unit) Application" where
  "demo_app = \<lparr>app_disabled = False, app_mounted = False, app_name = ''shop'',
     default_charset = ''utf-8'', root_url = ''/shop/'', root_log = [], root_static = [], root_template = [],
     root_upload = [], root_temporary = [], app_template_ext = [], upload_max_size_limit_kb = 1048576,
     upload_file_save_opt = \<lparr>strategy = always_save, size_base_kb = 0, extensions = []\<rparr>,
     equalRouter = [], startwithsRouter = [], regexRouter = [], intercepters = []\<rparr>"

theorem added_handler_is_called_witness:
  "\<exists>tn. do_handle demo_render demo_regex (\<lambda>h. True)
     (fst (AddHandler boost_classic demo_regex GET (router_equals ''/cart'') 7 [] demo_app))
     (demo_get ''/Shop/cart'') = HandlerCalled 7 (set_template_name tn (demo_get ''/Shop/cart''))"
proof -
  have "iEquals boost_classic ''/Shop/cart'' (JoinUrlPath ''/shop/'' ''/cart'')" by code_simp
  moreover obtain a' ok where "AddHandler boost_classic demo_regex GET (router_equals ''/cart'') 7 [] demo_app = (a', ok)"
    by fastforce
  moreover have "router_inv boost_classic demo_app" "\<not> IsRuning demo_app" "root_url demo_app = ''/shop/''"
    by (simp_all add: demo_app_def router_inv_def table_inv_def regex_inv_def IsRuning_def)
  moreover have "algo demo_render = boost_classic" by (simp add: demo_render_def)
  ultimately show ?thesis
    using added_handler_is_called[of demo_render demo_app demo_regex GET "''/cart''" 7 "[]" a' ok
        "demo_get ''/Shop/cart''" "\<lambda>h. True"]
    by (simp add: demo_get_facts boost_classic_laws del: AddHandler.simps)
qed

lemma find_none_keeps_context:
  assumes "find_handler B R a p ue um c = (f, c')" "found_handler f = None"
    "from_http_method (req_method (request c)) \<noteq> UNSUPPORT"
  shows "c' = c" "unsupport_method f = um"
  using assms by (auto simp: find_handler_def Let_def split: prod.splits option.splits)

lemma take_index: "take (length (p @ ''/index'') - 5) (p @ ''/index'') = p @ ''/''"
  by simp

text \<open>
  The index of a directory.  A request for a path ending in \<^verbatim>\<open>/index\<close> that no route has is
  tried once more without the word \<^verbatim>\<open>index\<close>: if a handler is registered for the path with the
  slash at its end, it is called.
\<close>

theorem index_path_is_retried:
  assumes "boost_laws (algo E)" "from_http_method (req_method (request c)) = m" "m \<noteq> UNSUPPORT"
    and "ctx_path c = p @ ''/index''"
    and "find_handler (algo E) R a [] False False c = (f, c')" "found_handler f = None" "\<not> url_exists f"
    and "handler_at (Equals_Exists (algo E)) (equalRouter a) (p @ ''/'') m = Some h" "callable h"
  shows "\<exists>tn. do_handle E R callable a c = HandlerCalled h (set_template_name tn c)"
proof -
  have k: "c' = c" "unsupport_method f = False"
    using find_none_keeps_context[OF assms(5,6)] assms(2,3) by simp_all
  have e: "EndsWith (algo E) (ctx_path c) ''/index''"
    using assms(1) by (simp add: EndsWith_def boost_laws_def assms(4))
  have "handler_at (Equals_Exists (algo E)) (equalRouter a) (if p @ ''/'' = [] then ctx_path c else p @ ''/'') m = Some h"
    using assms(8) by simp
  from find_equals[OF assms(2,3) this, of R False False] obtain g tn where
    g: "find_handler (algo E) R a (p @ ''/'') False False c = (g, set_template_name tn c)" "found_handler g = Some h"
    by blast
  have t: "take (length (ctx_path c) - 5) (ctx_path c) = p @ ''/''"
    unfolding assms(4) by (rule take_index)
  have "try_index (algo E) R a (f, c') = (g, set_template_name tn c)"
    using g(1) e assms(7) k t by (simp add: try_index_def)
  then have "do_handle E R callable a c = HandlerCalled h (set_template_name tn c)"
    unfolding do_handle_def assms(5)
    using assms(6,7,9) k g(2)
    by (subst do_handle_loop.simps) (simp add: callable_handler_def do_handle_loop.simps)
  then show ?thesis by blast
qed

theorem index_path_is_retried_witness:
  "\<exists>tn. do_handle demo_render demo_regex (\<lambda>h. True)
     (demo_app\<lparr>equalRouter := [(''/shop/'', \<lparr>handlers = [(GET, 7)], template_name = []\<rparr>)]\<rparr>)
     (demo_get ''/shop/index'') = HandlerCalled 7 (set_template_name tn (demo_get ''/shop/index''))"
proof -
  let ?a = "demo_app\<lparr>equalRouter := [(''/shop/'', \<lparr>handlers = [(GET, 7)], template_name = []\<rparr>)]\<rparr>"
  have u: "upper ''/shop/'' \<noteq> upper ''/shop/index''" by (simp add: upper_def)
  then have "IgnoreCaseCompare boost_classic ''/shop/'' ''/shop/index'' \<or>
      IgnoreCaseCompare boost_classic ''/shop/index'' ''/shop/''"
    using IgnoreCaseCompare_equiv[OF boost_classic_laws] by blast
  then have n: "Equals_Exists boost_classic (equalRouter ?a) ''/shop/index'' = None"
    by (elim disjE) (simp_all add: Equals_Exists_def)
  have "\<not> IgnoreCaseCompare boost_classic ''/shop/'' ''/shop/''"
    by (rule strict_weak_order.irrefl[OF IgnoreCaseCompare_order[OF boost_classic_laws]])
  then have h: "handler_at (Equals_Exists boost_classic) (equalRouter ?a) ''/shop/'' GET = Some 7"
    by (simp add: handler_at_def Equals_Exists_def)
  have b: "algo demo_render = boost_classic" by (simp add: demo_render_def)
  have f: "find_handler boost_classic demo_regex ?a [] False False (demo_get ''/shop/index'') =
      (\<lparr>found_handler = None, url_exists = False, unsupport_method = False\<rparr>, demo_get ''/shop/index'')"
    using n by (simp add: find_handler_def demo_get_facts Equals_Match_def router_result_def empty_result_def
        demo_app_def starts_result_def regex_result_def RouterResult.defs Let_def)
  show ?thesis
    using index_path_is_retried[of demo_render "demo_get ''/shop/index''" GET "''/shop''" demo_regex ?a _ _ 7 "\<lambda>h. True"]
      f h by (simp add: b boost_classic_laws demo_get_facts)
qed

section \<open>Requests without a handler\<close>

lemma status_render_default:
  "status_code (response (render_default E d c)) \<in> {200, 404, 500}"
  by (auto simp: render_default_def RenderNofound_def Let_def split: option.splits sum.splits)

lemma status_not_implemented:
  "status_code (response (RenderNotImplemented E d c)) \<in> {500, 501}"
  by (auto simp: RenderNotImplemented_def split: option.splits sum.splits)

lemma loop_replies:
  "do_handle_loop E R callable a retring fc = Replied c' \<Longrightarrow> status_code (response c') \<in> {200, 404, 500, 501}"
proof (induction E R callable a retring fc rule: do_handle_loop.induct)
  case (1 E R callable a retring fc)
  then show ?case
    using status_render_default[of E] status_not_implemented[of E]
    by (subst (asm) (2) do_handle_loop.simps) (auto split: option.splits if_splits)
qed

text \<open>
  A request that no handler takes is answered at once: with the page of its path, or 404
  when there is none, with 501 when the path is known but not with this method, or with 500
  when a template fails; the loop that looks twice always ends.
\<close>

theorem unhandled_request_status:
  assumes "do_handle E R callable a c = Replied c'"
  shows "status_code (response c') \<in> {200, 404, 500, 501}"
  using assms unfolding do_handle_def by (rule loop_replies)

theorem unhandled_request_status_witness:
  "\<exists>c'. do_handle demo_render demo_regex (\<lambda>h. True) demo_app (demo_get ''/none'') = Replied c' \<and>
     status_code (response c') \<in> {200, 404, 500, 501}"
proof -
  have f: "find_handler boost_classic demo_regex demo_app [] False False (demo_get ''/none'') =
      (\<lparr>found_handler = None, url_exists = False, unsupport_method = False\<rparr>, demo_get ''/none'')"
    by (simp add: find_handler_def demo_get_facts Equals_Match_def Equals_Exists_def router_result_def
        empty_result_def demo_app_def starts_result_def regex_result_def RouterResult.defs Let_def)
  have "\<not> EndsWith boost_classic ''/none'' ''/index''" by code_simp
  then have "\<exists>c'. do_handle demo_render demo_regex (\<lambda>h. True) demo_app (demo_get ''/none'') = Replied c'"
    using f by (simp add: do_handle_def demo_render_def do_handle_loop.simps callable_handler_def try_index_def
        demo_get_facts)
  then show ?thesis using unhandled_request_status by blast
qed

section \<open>A running application\<close>

text \<open>
  The routes of a running application are fixed: adding a handler of any kind, for one
  method or several, and adding an intercepter are refused and change nothing.
\<close>

theorem running_application_is_fixed:
  assumes "IsRuning a"
  shows "AddHandler B R m r h t a = (a, False) \<and> AddHandlers B R ms r h t a = (a, False) \<and>
     AddIntercepter i a = (a, False)"
  using assms by (cases r) (simp_all add: AddIntercepter_def)

theorem running_application_is_fixed_witness:
  "AddHandler boost_classic demo_regex GET (router_starts ''/'') 1 [] (AppMount demo_app) = (AppMount demo_app, False)"
  using running_application_is_fixed[of "AppMount demo_app" boost_classic demo_regex GET "router_starts ''/''" 1 "[]" 0 "()"]
  by (simp add: IsRuning_def AppMount_def demo_app_def)

end
