(* ===== verification/MultipartParser.thy ===== *)
theory MultipartParser
  imports StringUtil "HOL-Library.Sublist"
begin

text \<open>
  \<^verbatim>\<open>multipart-parser/multipart_parser.c\<close>: the incremental parser of multipart bodies that the
  connection drives.  A callback is a value; every callback that the server installs returns 0,
  so the early returns of the two macros that call them are not taken.  The memory behind the
  boundary that the parser uses to look behind is the string written there so far.
\<close>

section \<open>The state\<close>

datatype mp_callback = MpDataBegin | MpHeaderField string | MpHeaderValue string | MpHeadersComplete
  | MpData string | MpDataEnd | MpBodyEnd

datatype mp_state = s_uninitialized | s_start | s_start_boundary | s_header_field_start | s_header_field
  | s_headers_almost_done | s_header_value_start | s_header_value | s_header_value_almost_done
  | s_part_data_start | s_part_data | s_part_data_almost_boundary | s_part_data_boundary
  | s_part_data_almost_end | s_part_data_end | s_part_data_final_hyphen | s_end

record multipart_parser =
  mp_index :: nat
  mp_state :: mp_state
  lookbehind :: string
  multipart_boundary :: string

abbreviation CR :: char where "CR \<equiv> CHR 0x0D"
abbreviation LF :: char where "LF \<equiv> CHR 0x0A"

text \<open>\<^verbatim>\<open>strcpy\<close> takes the boundary up to its first zero byte.\<close>

definition multipart_parser_init :: "string \<Rightarrow> multipart_parser" where
  "multipart_parser_init b =
     \<lparr>mp_index = 0, mp_state = s_start, lookbehind = [], multipart_boundary = takeWhile (\<lambda>c. c \<noteq> CHR 0x00) b\<rparr>"

definition boundary_length :: "multipart_parser \<Rightarrow> nat" where
  "boundary_length p = length (multipart_boundary p)"

text \<open>The byte at a position of the boundary; after the last one is the zero byte.\<close>

definition boundary_at :: "multipart_parser \<Rightarrow> nat \<Rightarrow> char" where
  "boundary_at p i = (if i < boundary_length p then multipart_boundary p ! i else CHR 0x00)"

definition look :: "nat \<Rightarrow> char \<Rightarrow> multipart_parser \<Rightarrow> multipart_parser" where
  "look i c p = p\<lparr>lookbehind := take i (lookbehind p) @ [c]\<rparr>"

section \<open>One byte\<close>

text \<open>
  What the body of the loop does with the byte at \<open>i\<close>: it goes on behind it, it looks at it
  again (the code sets \<open>i\<close> back before the increment), or the function returns.  \<open>mark\<close> is where
  the piece begins that the next callback gets.
\<close>

datatype mp_outcome = Advance "mp_callback list" multipart_parser nat
  | Again "mp_callback list" multipart_parser nat
  | Return "mp_callback list" multipart_parser nat

definition piece :: "string \<Rightarrow> nat \<Rightarrow> nat \<Rightarrow> string" where
  "piece buf mark n = take n (drop mark buf)"

definition in_start_boundary :: "char \<Rightarrow> nat \<Rightarrow> nat \<Rightarrow> multipart_parser \<Rightarrow> mp_outcome" where
  "in_start_boundary c i mark p =
     (if mp_index p = boundary_length p then
        (if c \<noteq> CR then Return [] p i else Advance [] (p\<lparr>mp_index := mp_index p + 1\<rparr>) mark)
      else if mp_index p = boundary_length p + 1 then
        (if c \<noteq> LF then Return [] p i
         else Advance [MpDataBegin] (p\<lparr>mp_index := 0, mp_state := s_header_field_start\<rparr>) mark)
      else if c \<noteq> boundary_at p (mp_index p) then Return [] p i
      else Advance [] (p\<lparr>mp_index := mp_index p + 1\<rparr>) mark)"

text \<open>
  \<^verbatim>\<open>tolower\<close> in the C locale, where the bytes from 128 on, negative as \<open>char\<close>, are no letters.
\<close>

definition c_tolower :: "char \<Rightarrow> char" where
  "c_tolower c = (if 65 \<le> code c \<and> code c \<le> 90 then char_of (code c + 32) else c)"

definition header_name_char :: "char \<Rightarrow> bool" where
  "header_name_char c \<longleftrightarrow> c = CHR ''-'' \<or> (97 \<le> code (c_tolower c) \<and> code (c_tolower c) \<le> 122)"

definition in_header_field :: "string \<Rightarrow> char \<Rightarrow> bool \<Rightarrow> nat \<Rightarrow> nat \<Rightarrow> multipart_parser \<Rightarrow> mp_outcome" where
  "in_header_field buf c is_last i mark p =
     (if c = CR then Advance [] (p\<lparr>mp_state := s_headers_almost_done\<rparr>) mark
      else if c = CHR '':'' then
        Advance [MpHeaderField (piece buf mark (i - mark))] (p\<lparr>mp_state := s_header_value_start\<rparr>) mark
      else if \<not> header_name_char c then Return [] p i
      else Advance (if is_last then [MpHeaderField (piece buf mark (i - mark + 1))] else []) p mark)"

definition in_header_value :: "string \<Rightarrow> char \<Rightarrow> bool \<Rightarrow> nat \<Rightarrow> nat \<Rightarrow> multipart_parser \<Rightarrow> mp_outcome" where
  "in_header_value buf c is_last i mark p =
     (if c = CR then
        Advance [MpHeaderValue (piece buf mark (i - mark))] (p\<lparr>mp_state := s_header_value_almost_done\<rparr>) mark
      else Advance (if is_last then [MpHeaderValue (piece buf mark (i - mark + 1))] else []) p mark)"

definition in_part_data :: "string \<Rightarrow> char \<Rightarrow> bool \<Rightarrow> nat \<Rightarrow> nat \<Rightarrow> multipart_parser \<Rightarrow> mp_callback list \<Rightarrow> mp_outcome" where
  "in_part_data buf c is_last i mark p evs =
     (if c = CR then
        Advance (evs @ [MpData (piece buf mark (i - mark))])
          (look 0 CR (p\<lparr>mp_state := s_part_data_almost_boundary\<rparr>)) i
      else Advance (evs @ (if is_last then [MpData (piece buf mark (i - mark + 1))] else [])) p mark)"

definition in_part_data_boundary :: "char \<Rightarrow> nat \<Rightarrow> nat \<Rightarrow> multipart_parser \<Rightarrow> mp_outcome" where
  "in_part_data_boundary c i mark p =
     (if boundary_at p (mp_index p) \<noteq> c
      then Again [MpData (take (2 + mp_index p) (lookbehind p))] (p\<lparr>mp_state := s_part_data\<rparr>) i
      else (let p1 = (look (2 + mp_index p) c p)\<lparr>mp_index := mp_index p + 1\<rparr>
            in if mp_index p1 = boundary_length p1
               then Advance [MpDataEnd] (p1\<lparr>mp_state := s_part_data_almost_end\<rparr>) mark
               else Advance [] p1 mark))"

definition mp_step :: "string \<Rightarrow> nat \<Rightarrow> nat \<Rightarrow> multipart_parser \<Rightarrow> mp_outcome" where
  "mp_step buf i mark p =
     (let c = buf ! i; is_last = (i = length buf - 1)
      in case mp_state p of
           s_start \<Rightarrow> in_start_boundary c i mark (p\<lparr>mp_index := 0, mp_state := s_start_boundary\<rparr>)
         | s_start_boundary \<Rightarrow> in_start_boundary c i mark p
         | s_header_field_start \<Rightarrow> in_header_field buf c is_last i i (p\<lparr>mp_state := s_header_field\<rparr>)
         | s_header_field \<Rightarrow> in_header_field buf c is_last i mark p
         | s_headers_almost_done \<Rightarrow>
             if c \<noteq> LF then Return [] p i else Advance [] (p\<lparr>mp_state := s_part_data_start\<rparr>) mark
         | s_header_value_start \<Rightarrow>
             if c = CHR '' '' then Advance [] p mark
             else in_header_value buf c is_last i i (p\<lparr>mp_state := s_header_value\<rparr>)
         | s_header_value \<Rightarrow> in_header_value buf c is_last i mark p
         | s_header_value_almost_done \<Rightarrow>
             if c \<noteq> LF then Return [] p i else Advance [] (p\<lparr>mp_state := s_header_field_start\<rparr>) mark
         | s_part_data_start \<Rightarrow>
             in_part_data buf c is_last i i (p\<lparr>mp_state := s_part_data\<rparr>) [MpHeadersComplete]
         | s_part_data \<Rightarrow> in_part_data buf c is_last i mark p []
         | s_part_data_almost_boundary \<Rightarrow>
             if c = LF then Advance [] ((look 1 LF p)\<lparr>mp_state := s_part_data_boundary, mp_index := 0\<rparr>) mark
             else Again [MpData (take 1 (lookbehind p))] (p\<lparr>mp_state := s_part_data\<rparr>) i
         | s_part_data_boundary \<Rightarrow> in_part_data_boundary c i mark p
         | s_part_data_almost_end \<Rightarrow>
             if c = CHR ''-'' then Advance [] (p\<lparr>mp_state := s_part_data_final_hyphen\<rparr>) mark
             else if c = CR then Advance [] (p\<lparr>mp_state := s_part_data_end\<rparr>) mark
             else Return [] p i
         | s_part_data_final_hyphen \<Rightarrow>
             if c = CHR ''-'' then Advance [MpBodyEnd] (p\<lparr>mp_state := s_end\<rparr>) mark else Return [] p i
         | s_part_data_end \<Rightarrow>
             if c = LF then Advance [MpDataBegin] (p\<lparr>mp_state := s_header_field_start\<rparr>) mark
             else Return [] p i
         | s_end \<Rightarrow> Advance [] p mark
         | s_uninitialized \<Rightarrow> Return [] p 0)"

section \<open>A buffer\<close>

text \<open>A byte is looked at again in the states of a possible boundary only, and then in \<open>s_part_data\<close>.\<close>

definition may_look_again :: "multipart_parser \<Rightarrow> nat" where
  "may_look_again p = (if mp_state p = s_part_data_almost_boundary \<or> mp_state p = s_part_data_boundary then 1 else 0)"

lemmas mp_step_defs = mp_step_def in_start_boundary_def in_header_field_def in_header_value_def
  in_part_data_def in_part_data_boundary_def Let_def

lemma Again_less: "mp_step buf i mark p = Again evs p' mark' \<Longrightarrow> may_look_again p' < may_look_again p"
  by (auto simp: mp_step_defs may_look_again_def split: mp_state.splits if_splits)

function mp_loop :: "string \<Rightarrow> nat \<Rightarrow> nat \<Rightarrow> multipart_parser \<Rightarrow> mp_callback list \<Rightarrow>
    mp_callback list \<times> nat \<times> multipart_parser" where
  "mp_loop buf i mark p evs =
     (if i < length buf
      then (case mp_step buf i mark p of
              Advance es p' mark' \<Rightarrow> mp_loop buf (i + 1) mark' p' (evs @ es)
            | Again es p' mark' \<Rightarrow> mp_loop buf i mark' p' (evs @ es)
            | Return es p' n \<Rightarrow> (evs @ es, n, p'))
      else (evs, length buf, p))"
  by pat_completeness auto
termination
proof (relation "measure (\<lambda>(buf, i, mark, p, evs). 2 * (length buf - i) + may_look_again p)", goal_cases)
  case (2 buf i mark p evs es p' mark')
  have "may_look_again p' \<le> 1" by (simp add: may_look_again_def)
  then show ?case using 2(1) by (auto intro: le_less_trans)
next
  case (3 buf i mark p evs es p' mark')
  then show ?case using Again_less[OF 3(2)] by simp
qed simp

declare mp_loop.simps [simp del]

definition multipart_parser_execute :: "multipart_parser \<Rightarrow> string \<Rightarrow> mp_callback list \<times> nat \<times> multipart_parser" where
  "multipart_parser_execute p buf = mp_loop buf 0 0 p []"

end
