(* ===== verification/HttpConn.thy ===== *)
theory HttpConn
  imports Application MultipartParser
begin

text \<open>
  \<^verbatim>\<open>include/daqi/connection.hpp\<close> and \<^verbatim>\<open>src/connection.cpp\<close>: one HTTP connection of the
  server.  The parser of HTTP is a vendored library that calls back
  while it runs over the bytes of a read; a read is the list of the callbacks the parser makes
  for it.  The socket is the list of the outstanding reads and writes, completed by the
  environment; \<open>started\<close> counts the contexts handed to the application.
\<close>

datatype ReadingHeaderPart = header_none_part | header_field_part | header_value_part
datatype ReadCompletePart = read_none_complete | read_header_complete | read_message_complete
datatype MultipartParsePart = mp_parse_none | mp_parse_header_field | mp_parse_header_value
  | mp_parse_headers_complete | mp_parse_data_begin | mp_parse_data | mp_parse_data_end | mp_parse_body_end
datatype MultpartParseStatus = mp_cannot_init | mp_parsing | mp_parse_fail

text \<open>What the HTTP parser knows of the message when its headers are complete.\<close>

record parser_info =
  p_flags :: u32
  p_content_length :: u64
  p_should_keep_alive :: bool
  p_upgrade :: bool
  p_method :: nat
  p_major :: u16
  p_minor :: u16

datatype callback = MessageBegin | Url string | HeaderField string | HeaderValue string
  | HeadersComplete parser_info | Body string | MessageComplete

text \<open>
  \<open>mp_init\<close> and \<open>mp_execute\<close> are the multipart parser: its state for a boundary, and for a
  buffer the callbacks it makes, the number of bytes it parsed and its next state.
\<close>

record ('m, 'h, 'r, 'i) conn_env =
  c_algo :: boost_algo
  c_parse_url :: "string \<Rightarrow> http_parser_url option"
  c_find_app :: "string \<Rightarrow> ('h, 'r, 'i) Application option"
  c_mp_init :: "string \<Rightarrow> 'm"
  c_mp_execute :: "'m \<Rightarrow> string \<Rightarrow> mp_callback list \<times> nat \<times> 'm"
  c_files :: file_env
  c_uuids :: "nat \<Rightarrow> string"
  c_clock :: clock_env

datatype write_op = WriteResponse | WriteChunkHeader | WriteChunk

record ('m, 'h, 'r, 'i) Connection =
  url_buffer :: string
  reading_header_part :: ReadingHeaderPart
  reading_header_field :: string
  reading_header_value :: string
  body_buffer :: string
  read_complete :: ReadCompletePart
  mp_parser :: "'m option"
  reading_part :: MultiPart
  reading_part_buffer :: string
  multipart_parse_part :: MultipartParsePart
  conn_request :: Request
  conn_response :: Response
  conn_app :: "('h, 'r, 'i) Application option"
  reads :: nat
  writes :: "(write_op \<times> string) list"
  polls :: "int list"
  started :: nat
  upgraded :: bool
  disk :: files

definition new_Connection :: "boost_algo \<Rightarrow> files \<Rightarrow> ('m, 'h, 'r, 'i) Connection" where
  "new_Connection B fs = \<lparr>url_buffer = [], reading_header_part = header_none_part,
     reading_header_field = [], reading_header_value = [], body_buffer = [],
     read_complete = read_none_complete, mp_parser = None, reading_part = new_MultiPart,
     reading_part_buffer = [], multipart_parse_part = mp_parse_none,
     conn_request = blank_Request, conn_response = new_Response B, conn_app = None,
     reads = 0, writes = [], polls = [], started = 0, upgraded = False, disk = fs\<rparr>"

section \<open>Headers\<close>

text \<open>
  \<open>Request::AppendHeader\<close> takes both strings by move.  A new field is moved into the map, both
  strings are empty afterwards; for a field that is already there only the value is moved, and
  the field stays in the buffer.
\<close>

definition after_append :: "boost_algo \<Rightarrow> ICHeaders \<Rightarrow> string \<Rightarrow> string" where
  "after_append B hs field = (if omap_find (IgnoreCaseCompare B) hs field = None then [] else field)"

definition try_commit_reading_request_header :: "('m, 'h, 'r, 'i) conn_env \<Rightarrow> ('m, 'h, 'r, 'i) Connection \<Rightarrow>
    ('m, 'h, 'r, 'i) Connection" where
  "try_commit_reading_request_header E c =
     (if reading_header_part c = header_value_part \<and> reading_header_field c \<noteq> []
      then c\<lparr>conn_request := ReqAppendHeader (c_algo E) (reading_header_field c) (reading_header_value c) (conn_request c),
             reading_header_field := after_append (c_algo E) (req_headers (conn_request c)) (reading_header_field c),
             reading_header_value := [],
             reading_header_part := header_none_part\<rparr>
      else c)"

definition on_header_field :: "('m, 'h, 'r, 'i) conn_env \<Rightarrow> string \<Rightarrow> ('m, 'h, 'r, 'i) Connection \<Rightarrow>
    ('m, 'h, 'r, 'i) Connection" where
  "on_header_field E at c =
     (let c = try_commit_reading_request_header E c
      in if at \<noteq> [] then c\<lparr>reading_header_part := header_field_part,
                           reading_header_field := reading_header_field c @ at\<rparr>
         else c)"

definition add_header_value :: "string \<Rightarrow> ('m, 'h, 'r, 'i) Connection \<Rightarrow> ('m, 'h, 'r, 'i) Connection" where
  "add_header_value at c =
     (let v = (if reading_header_part c = header_field_part \<and> reading_header_value c \<noteq> [] then []
               else reading_header_value c)
      in c\<lparr>reading_header_value := v @ at, reading_header_part := header_value_part\<rparr>)"

definition on_header_value :: "string \<Rightarrow> ('m, 'h, 'r, 'i) Connection \<Rightarrow> ('m, 'h, 'r, 'i) Connection" where
  "on_header_value at c = add_header_value at c"

section \<open>Multipart bodies\<close>

definition commit_part_header :: "boost_algo \<Rightarrow> ReadingHeaderPart \<Rightarrow> ('m, 'h, 'r, 'i) Connection \<Rightarrow>
    ('m, 'h, 'r, 'i) Connection" where
  "commit_part_header B next c =
     (if reading_header_part c = header_value_part \<and> reading_header_field c \<noteq> []
      then c\<lparr>reading_part := MpAppendHeader B (reading_header_field c) (reading_header_value c) (reading_part c),
             reading_header_field := after_append B (mp_headers (reading_part c)) (reading_header_field c),
             reading_header_value := [],
             reading_header_part := next\<rparr>
      else c)"

definition on_multipart_header_field :: "boost_algo \<Rightarrow> string \<Rightarrow> ('m, 'h, 'r, 'i) Connection \<Rightarrow>
    ('m, 'h, 'r, 'i) Connection" where
  "on_multipart_header_field B at c =
     (let c = commit_part_header B header_field_part (c\<lparr>multipart_parse_part := mp_parse_header_field\<rparr>)
      in c\<lparr>reading_header_field := reading_header_field c @ at\<rparr>)"

definition on_multipart_header_value :: "string \<Rightarrow> ('m, 'h, 'r, 'i) Connection \<Rightarrow> ('m, 'h, 'r, 'i) Connection" where
  "on_multipart_header_value at c = add_header_value at (c\<lparr>multipart_parse_part := mp_parse_header_value\<rparr>)"

definition on_multipart_headers_complete :: "boost_algo \<Rightarrow> ('m, 'h, 'r, 'i) Connection \<Rightarrow>
    ('m, 'h, 'r, 'i) Connection" where
  "on_multipart_headers_complete B c =
     commit_part_header B header_none_part (c\<lparr>multipart_parse_part := mp_parse_headers_complete\<rparr>)"

definition on_multipart_data_begin :: "('m, 'h, 'r, 'i) Connection \<Rightarrow> ('m, 'h, 'r, 'i) Connection" where
  "on_multipart_data_begin c = c\<lparr>multipart_parse_part := mp_parse_data_begin,
     reading_header_part := header_none_part, reading_header_field := [], reading_header_value := [],
     reading_part_buffer := []\<rparr>"

definition on_multipart_data :: "string \<Rightarrow> ('m, 'h, 'r, 'i) Connection \<Rightarrow> ('m, 'h, 'r, 'i) Connection" where
  "on_multipart_data at c = c\<lparr>multipart_parse_part := mp_parse_data,
     reading_part_buffer := reading_part_buffer c @ at\<rparr>"

text \<open>The part is moved into the request, and what is left of it is empty.\<close>

definition on_multipart_data_end :: "('m, 'h, 'r, 'i) Connection \<Rightarrow> ('m, 'h, 'r, 'i) Connection" where
  "on_multipart_data_end c = c\<lparr>multipart_parse_part := mp_parse_data_end,
     reading_part := (reading_part c)\<lparr>mp_headers := [], mp_data := []\<rparr>,
     reading_part_buffer := [],
     conn_request := AddMultiPart ((reading_part c)\<lparr>mp_data := reading_part_buffer c\<rparr>) (conn_request c)\<rparr>"

definition on_multipart_body_end :: "('m, 'h, 'r, 'i) Connection \<Rightarrow> ('m, 'h, 'r, 'i) Connection" where
  "on_multipart_body_end c = c\<lparr>multipart_parse_part := mp_parse_body_end\<rparr>"

fun on_mp_callback :: "boost_algo \<Rightarrow> mp_callback \<Rightarrow> ('m, 'h, 'r, 'i) Connection \<Rightarrow> ('m, 'h, 'r, 'i) Connection" where
  "on_mp_callback B MpDataBegin c = on_multipart_data_begin c"
| "on_mp_callback B (MpHeaderField at) c = on_multipart_header_field B at c"
| "on_mp_callback B (MpHeaderValue at) c = on_multipart_header_value at c"
| "on_mp_callback B MpHeadersComplete c = on_multipart_headers_complete B c"
| "on_mp_callback B (MpData at) c = on_multipart_data at c"
| "on_mp_callback B MpDataEnd c = on_multipart_data_end c"
| "on_mp_callback B MpBodyEnd c = on_multipart_body_end c"

text \<open>The settings of the parser are made once and kept, so only the parser decides.\<close>

definition init_multipart_parser :: "('m, 'h, 'r, 'i) conn_env \<Rightarrow> string \<Rightarrow> ('m, 'h, 'r, 'i) Connection \<Rightarrow>
    ('m, 'h, 'r, 'i) Connection" where
  "init_multipart_parser E b c =
     (if mp_parser c = None then c\<lparr>mp_parser := Some (c_mp_init E (''--'' @ b))\<rparr> else c)"

definition free_multipart_parser :: "('m, 'h, 'r, 'i) Connection \<Rightarrow> ('m, 'h, 'r, 'i) Connection" where
  "free_multipart_parser c = c\<lparr>mp_parser := None\<rparr>"

definition try_init_multipart_parser :: "('m, 'h, 'r, 'i) conn_env \<Rightarrow> ('m, 'h, 'r, 'i) Connection \<Rightarrow>
    ('m, 'h, 'r, 'i) Connection" where
  "try_init_multipart_parser E c =
     (if boundary (conn_request c) \<noteq> [] then init_multipart_parser E (boundary (conn_request c)) c else c)"

definition try_fix_multipart_bad_request_without_boundary :: "('m, 'h, 'r, 'i) conn_env \<Rightarrow>
    ('m, 'h, 'r, 'i) Connection \<Rightarrow> ('m, 'h, 'r, 'i) Connection" where
  "try_fix_multipart_bad_request_without_boundary E c =
     (if find_sub ''--'' (body_buffer c) = Some 0 then
        (case find_sub_from nl (body_buffer c) 2 of
           None \<Rightarrow> c
         | Some endln_pos \<Rightarrow>
             (let b = take (endln_pos - 2) (drop 2 (body_buffer c));
                  len = (if 2 < length b \<and> b ! (length b - 2) = CHR ''-'' \<and> b ! (length b - 1) = CHR ''-''
                         then length b - 2 else length b);
                  c1 = c\<lparr>conn_request := (conn_request c)\<lparr>boundary := take len b\<rparr>\<rparr>
              in init_multipart_parser E (boundary (conn_request c1)) c1))
      else c)"

definition do_multipart_parse :: "('m, 'h, 'r, 'i) conn_env \<Rightarrow> ('m, 'h, 'r, 'i) Connection \<Rightarrow>
    ('m, 'h, 'r, 'i) Connection \<times> MultpartParseStatus" where
  "do_multipart_parse E c =
     (let c1 = (if mp_parser c = None then try_fix_multipart_bad_request_without_boundary E c else c)
      in case mp_parser c1 of
           None \<Rightarrow> (c1, mp_cannot_init)
         | Some m \<Rightarrow>
             (case c_mp_execute E m (body_buffer c1) of
                (evs, parsed_bytes, m') \<Rightarrow>
                  let c2 = fold (on_mp_callback (c_algo E)) evs (c1\<lparr>mp_parser := Some m'\<rparr>)
                  in if parsed_bytes \<noteq> length (body_buffer c1) then (c2, mp_parse_fail)
                     else (c2\<lparr>body_buffer := []\<rparr>, mp_parsing)))"

section \<open>Writing\<close>

definition prepare_response_headers_about_connection :: "boost_algo \<Rightarrow> Request \<Rightarrow> Response \<Rightarrow> Response" where
  "prepare_response_headers_about_connection B req res =
     (if req_major req < 1 \<or> (req_major req = 1 \<and> req_minor req = 0)
      then (let res = SetVersion 1 0 res in if keepalive_bit req then MarkKeepAlive B res else res)
      else (let res = SetVersion 1 1 res in if \<not> keepalive_bit req then MarkClose B res else res))"

definition do_write :: "('m, 'h, 'r, 'i) conn_env \<Rightarrow> ('m, 'h, 'r, 'i) Connection \<Rightarrow> ('m, 'h, 'r, 'i) Connection" where
  "do_write E c =
     (let res = prepare_response_headers_about_connection (c_algo E) (conn_request c) (conn_response c)
      in c\<lparr>conn_response := res,
           writes := writes c @ [(WriteResponse, show_Response (c_algo E) (c_clock E) res)]\<rparr>)"

definition prepare_response_headers_for_chunked_write :: "boost_algo \<Rightarrow> Response \<Rightarrow> Response" where
  "prepare_response_headers_for_chunked_write B res =
     (let res = (if \<not> IsChunked B res then MarkChunked B res else res);
          res = (if version_major res < 1 \<or> (version_major res = 1 \<and> version_minor res = 0)
                 then SetVersion 1 1 res else res)
      in if \<not> ResIsClose B res then MarkKeepAlive B res else res)"

definition do_write_header_for_chunked :: "('m, 'h, 'r, 'i) conn_env \<Rightarrow> ('m, 'h, 'r, 'i) Connection \<Rightarrow>
    ('m, 'h, 'r, 'i) Connection" where
  "do_write_header_for_chunked E c =
     (let res = prepare_response_headers_for_chunked_write (c_algo E) (conn_response c)
      in c\<lparr>conn_response := res,
           writes := writes c @ [(WriteChunkHeader, show_Response (c_algo E) (c_clock E) res)]\<rparr>)"

definition StartWrite :: "('m, 'h, 'r, 'i) conn_env \<Rightarrow> ('m, 'h, 'r, 'i) Connection \<Rightarrow> ('m, 'h, 'r, 'i) Connection" where
  "StartWrite E c =
     (if \<not> IsChunked (c_algo E) (conn_response c) then do_write E c else do_write_header_for_chunked E c)"

text \<open>
  The next chunk.  Without one the function posts itself, with the processor time at which
  the wait began (0 at first), and it gives up after five seconds.
\<close>

definition do_write_next_chunked_body :: "int \<Rightarrow> int \<Rightarrow> int \<Rightarrow> ('m, 'h, 'r, 'i) Connection \<Rightarrow>
    ('m, 'h, 'r, 'i) Connection" where
  "do_write_next_chunked_body clocks_per_sec clock start_wait_clock c =
     (case PopChunkedBody (conn_response c) of
        (body, is_last, res) \<Rightarrow>
          let c1 = c\<lparr>conn_response := res\<rparr>
          in if is_last then c1
             else if body = [] then
               (if start_wait_clock > 0 \<and> (clock - start_wait_clock) div clocks_per_sec > 5 then c1
                else c1\<lparr>polls := polls c1 @ [if start_wait_clock = 0 then clock else start_wait_clock]\<rparr>)
             else c1\<lparr>writes := writes c1 @ [(WriteChunk, body)]\<rparr>)"

definition conn_reset :: "boost_algo \<Rightarrow> ('m, 'h, 'r, 'i) Connection \<Rightarrow> ('m, 'h, 'r, 'i) Connection" where
  "conn_reset B c = c\<lparr>url_buffer := [], body_buffer := [], reading_header_part := header_none_part,
     reading_header_field := [], reading_header_value := [], read_complete := read_none_complete,
     reading_part := (reading_part c)\<lparr>mp_headers := [], mp_data := []\<rparr>, reading_part_buffer := [],
     multipart_parse_part := mp_parse_none, conn_request := RequestReset (conn_request c),
     conn_response := ResponseReset B (conn_response c), conn_app := None\<rparr>"

definition do_read :: "('m, 'h, 'r, 'i) Connection \<Rightarrow> ('m, 'h, 'r, 'i) Connection" where
  "do_read c = c\<lparr>reads := reads c + 1\<rparr>"

definition finish_write :: "('m, 'h, 'r, 'i) Connection \<Rightarrow> ('m, 'h, 'r, 'i) Connection" where
  "finish_write c = c\<lparr>writes := tl (writes c)\<rparr>"

text \<open>The completion of the first outstanding write.\<close>

definition on_written :: "('m, 'h, 'r, 'i) conn_env \<Rightarrow> int \<Rightarrow> int \<Rightarrow> bool \<Rightarrow> ('m, 'h, 'r, 'i) Connection \<Rightarrow>
    ('m, 'h, 'r, 'i) Connection" where
  "on_written E cps clock ec c =
     (case writes c of
        [] \<Rightarrow> c
      | (op, bytes) # ws \<Rightarrow>
          let c1 = finish_write c
          in if ec then c1
             else case op of
               WriteResponse \<Rightarrow>
                 if keepalive_bit (conn_request c1) \<and> ResIsKeepAlive (c_algo E) (conn_response c1)
                 then do_read (conn_reset (c_algo E) c1) else c1
             | _ \<Rightarrow> do_write_next_chunked_body cps clock 0 c1)"

definition on_poll :: "int \<Rightarrow> int \<Rightarrow> ('m, 'h, 'r, 'i) Connection \<Rightarrow> ('m, 'h, 'r, 'i) Connection" where
  "on_poll cps clock c =
     (case polls c of
        [] \<Rightarrow> c
      | start # ps \<Rightarrow> do_write_next_chunked_body cps clock start (c\<lparr>polls := ps\<rparr>))"

section \<open>Reading\<close>

definition is_100_continue :: "boost_algo \<Rightarrow> Request \<Rightarrow> bool" where
  "is_100_continue B req =
     (case TryGetHeader B (req_headers req) ''Expect'' of
        Some v \<Rightarrow> iEquals B v ''100-continue'' | None \<Rightarrow> False)"

definition process_100_continue_request :: "('m, 'h, 'r, 'i) conn_env \<Rightarrow> ('m, 'h, 'r, 'i) Connection \<Rightarrow>
    ('m, 'h, 'r, 'i) Connection" where
  "process_100_continue_request E c = StartWrite E (c\<lparr>conn_response := ReplyContinue (conn_response c)\<rparr>)"

definition process_app_no_found :: "('m, 'h, 'r, 'i) conn_env \<Rightarrow> ('m, 'h, 'r, 'i) Connection \<Rightarrow>
    ('m, 'h, 'r, 'i) Connection" where
  "process_app_no_found E c = StartWrite E (c\<lparr>conn_response := ReplyNofound (c_algo E) [] (conn_response c)\<rparr>)"

definition process_too_large_size_upload :: "('m, 'h, 'r, 'i) conn_env \<Rightarrow> ('m, 'h, 'r, 'i) Connection \<Rightarrow>
    ('m, 'h, 'r, 'i) Connection" where
  "process_too_large_size_upload E c =
     StartWrite E (c\<lparr>conn_response := ReplyPayloadTooLarge (c_algo E) [] (conn_response c)\<rparr>)"

definition update_request_after_header_parsed :: "('m, 'h, 'r, 'i) conn_env \<Rightarrow> parser_info \<Rightarrow>
    ('m, 'h, 'r, 'i) Connection \<Rightarrow> ('m, 'h, 'r, 'i) Connection" where
  "update_request_after_header_parsed E p c =
     (let req = (if url_buffer c \<noteq> [] then fst (ReqParseUrl (c_algo E) (c_parse_url E) (url_buffer c) (conn_request c))
                 else conn_request c);
          req = req\<lparr>req_flags := p_flags p\<rparr>;
          req = (if bit (p_flags p) 5 then req\<lparr>content_length := p_content_length p\<rparr> else req);
          req = req\<lparr>keepalive_bit := p_should_keep_alive p, upgrade_bit := p_upgrade p,
                   req_method := p_method p, req_major := p_major p, req_minor := p_minor p\<rparr>;
          c1 = c\<lparr>url_buffer := [], conn_request := req,
                conn_response := SetVersion (p_major p) (p_minor p) (conn_response c)\<rparr>;
          c2 = try_commit_reading_request_header E c1
      in c2\<lparr>conn_request := ParseContentType (c_algo E) (TransferHeadersToCookies (c_algo E) (conn_request c2))\<rparr>)"

definition try_route_application :: "('m, 'h, 'r, 'i) conn_env \<Rightarrow> ('m, 'h, 'r, 'i) Connection \<Rightarrow>
    ('m, 'h, 'r, 'i) Connection \<times> bool" where
  "try_route_application E c =
     (let u = req_url (conn_request c)
      in if url_schema u \<noteq> [] \<or> url_host u \<noteq> [] then (c, False)
         else let a = c_find_app E (url_path u) in (c\<lparr>conn_app := a\<rparr>, a \<noteq> None))"

text \<open>A callback goes on, makes the parser stop, or throws (cutting the root off a shorter path).\<close>

datatype callback_result = Go | Fail | Throw

definition on_headers_complete :: "('m, 'h, 'r, 'i) conn_env \<Rightarrow> parser_info \<Rightarrow> ('m, 'h, 'r, 'i) Connection \<Rightarrow>
    ('m, 'h, 'r, 'i) Connection \<times> callback_result" where
  "on_headers_complete E p c =
     (let c1 = (update_request_after_header_parsed E p c)\<lparr>read_complete := read_header_complete\<rparr>;
          (c2, found) = try_route_application E c1
      in if \<not> found then (process_app_no_found E c2, Fail)
         else case conn_app c2 of
           None \<Rightarrow> (c2, Fail)
         | Some app \<Rightarrow>
             (case ApplyApplication (root_url app) (conn_request c2) of
                None \<Rightarrow> (c2, Throw)
              | Some req \<Rightarrow>
                  let c3 = c2\<lparr>conn_request := req\<rparr>
                  in if unat (content_length req) div 1024 > upload_max_size_limit_kb app
                     then (process_too_large_size_upload E c3, Fail)
                     else if is_100_continue (c_algo E) req then (process_100_continue_request E c3, Go)
                     else if multipart_bit req then (try_init_multipart_parser E c3, Go)
                     else (c3, Go)))"

definition on_body :: "('m, 'h, 'r, 'i) conn_env \<Rightarrow> string \<Rightarrow> ('m, 'h, 'r, 'i) Connection \<Rightarrow>
    ('m, 'h, 'r, 'i) Connection \<times> callback_result" where
  "on_body E at c =
     (let limit = (case conn_app c of Some app \<Rightarrow> upload_max_size_limit_kb app | None \<Rightarrow> 15 * 1024);
          total_kb = (length (body_buffer c) + length at) div 1024
      in if total_kb > limit then (process_too_large_size_upload E c, Fail)
         else let c1 = c\<lparr>body_buffer := body_buffer c @ at\<rparr>
           in if multipart_bit (conn_request c1)
              then (case do_multipart_parse E c1 of
                 (c2, mp_parse_fail) \<Rightarrow> (c2, Fail)
               | (c2, _) \<Rightarrow> (c2, Go))
              else (c1, Go))"

fun on_callback :: "('m, 'h, 'r, 'i) conn_env \<Rightarrow> callback \<Rightarrow> ('m, 'h, 'r, 'i) Connection \<Rightarrow>
    ('m, 'h, 'r, 'i) Connection \<times> callback_result" where
  "on_callback E MessageBegin c = (c\<lparr>read_complete := read_none_complete, body_buffer := []\<rparr>, Go)"
| "on_callback E (Url at) c = (c\<lparr>url_buffer := url_buffer c @ at\<rparr>, Go)"
| "on_callback E (HeaderField at) c = (on_header_field E at c, Go)"
| "on_callback E (HeaderValue at) c = (on_header_value at c, Go)"
| "on_callback E (HeadersComplete p) c = on_headers_complete E p c"
| "on_callback E (Body at) c = on_body E at c"
| "on_callback E MessageComplete c =
     (c\<lparr>conn_request := (conn_request c)\<lparr>req_body := body_buffer c\<rparr>,
        body_buffer := req_body (conn_request c), read_complete := read_message_complete\<rparr>, Go)"

text \<open>The callbacks of one read, up to the first that does not go on.\<close>

fun execute :: "('m, 'h, 'r, 'i) conn_env \<Rightarrow> callback list \<Rightarrow> ('m, 'h, 'r, 'i) Connection \<Rightarrow>
    ('m, 'h, 'r, 'i) Connection \<times> callback_result" where
  "execute E [] c = (c, Go)"
| "execute E (cb # cbs) c =
     (case on_callback E cb c of (c', Go) \<Rightarrow> execute E cbs c' | r \<Rightarrow> r)"

text \<open>
  The completion of a read: an error, or the callbacks the parser makes for the bytes and
  whether the parser itself reports an error after them, and the parser's upgrade flag.  The
  upgrade to a WebSocket takes the socket away, which \<open>upgraded\<close> records.
\<close>

datatype read_result = ReadError | Parsed "callback list" bool bool


definition read_form :: "('m, 'h, 'r, 'i) conn_env \<Rightarrow> ('h, 'r, 'i) Application \<Rightarrow> ('m, 'h, 'r, 'i) Connection \<Rightarrow>
    ('m, 'h, 'r, 'i) Connection" where
  "read_form E app c =
     (if formurlencoded_bit (conn_request c)
      then c\<lparr>conn_request := ParseFormUrlEncodedData (c_algo E) (conn_request c)\<rparr>
      else if formdata_bit (conn_request c)
      then (case TransferMultiPartsToFormData (c_algo E) (c_files E) (upload_file_save_opt app)
                   (root_upload app) (c_uuids E) (conn_request c) (disk c) of
              (req, fs) \<Rightarrow> c\<lparr>conn_request := req, disk := fs\<rparr>)
      else c)"

definition on_read :: "('m, 'h, 'r, 'i) conn_env \<Rightarrow> read_result \<Rightarrow> ('m, 'h, 'r, 'i) Connection \<Rightarrow>
    ('m, 'h, 'r, 'i) Connection" where
  "on_read E rr c =
     (let c0 = c\<lparr>reads := reads c - 1\<rparr>
      in case rr of
           ReadError \<Rightarrow> c0
         | Parsed cbs parse_error upgrade \<Rightarrow>
             (case execute E cbs c0 of
                (c1, r) \<Rightarrow>
                  if r \<noteq> Go \<or> parse_error then c1
                  else if read_complete c1 \<noteq> read_message_complete then do_read c1
                  else let c2 = free_multipart_parser c1
                    in if upgrade then c2\<lparr>upgraded := True\<rparr>
                       else case conn_app c2 of
                         None \<Rightarrow> c2
                       | Some app \<Rightarrow>
                           let c3 = read_form E app c2
                           in c3\<lparr>conn_response := SetCharset (c_algo E) (default_charset app) (conn_response c3),
                                started := started c3 + 1\<rparr>))"

text \<open>The start of a connection without SSL, and after the handshake of one with.\<close>

definition conn_start :: "('m, 'h, 'r, 'i) Connection \<Rightarrow> ('m, 'h, 'r, 'i) Connection" where
  "conn_start c = do_read c"

end
