(* ===== verification/HttpConnProofs.thy ===== *)
theory HttpConnProofs
  imports HttpConn RequestProofs
begin

text \<open>
  What a connection guarantees: headers and parts are put together whatever the pieces they
  come in, the answer keeps the connection exactly when the request asked for it, the next
  request starts from nothing, and the chunks are written in order.
\<close>

section \<open>Headers in pieces\<close>

type_synonym pieces = "string list \<times> string list"

definition header_events :: "pieces \<Rightarrow> callback list" where
  "header_events = (\<lambda>(fs, vs). map HeaderField fs @ map HeaderValue vs)"

definition pieces_ok :: "pieces \<Rightarrow> bool" where
  "pieces_ok = (\<lambda>(fs, vs). fs \<noteq> [] \<and> list_all (\<lambda>f. f \<noteq> []) fs \<and> vs \<noteq> [])"

abbreviation whole :: "pieces \<Rightarrow> string \<times> string" where
  "whole p \<equiv> (concat (fst p), concat (snd p))"

lemma execute_append:
  "execute E (xs @ ys) c = (case execute E xs c of (c', Go) \<Rightarrow> execute E ys c' | r \<Rightarrow> r)"
  by (induction xs arbitrary: c) (auto split: prod.splits callback_result.splits)

lemma commit_while_field:
  "reading_header_part c = header_field_part \<Longrightarrow> try_commit_reading_request_header E c = c"
  by (simp add: try_commit_reading_request_header_def)

lemma more_fields:
  "list_all (\<lambda>f. f \<noteq> []) fs \<Longrightarrow> reading_header_part c = header_field_part \<Longrightarrow>
    execute E (map HeaderField fs) c = (c\<lparr>reading_header_field := reading_header_field c @ concat fs\<rparr>, Go)"
proof (induction fs arbitrary: c)
  case (Cons f fs)
  let ?c = "c\<lparr>reading_header_part := header_field_part, reading_header_field := reading_header_field c @ f\<rparr>"
  have "on_header_field E f c = ?c"
    using Cons.prems by (simp add: on_header_field_def commit_while_field)
  then show ?case
    using Cons.IH[of ?c] Cons.prems by (cases c) simp
qed (cases c, simp)

lemma field_pieces:
  assumes "fs \<noteq> []" "list_all (\<lambda>f. f \<noteq> []) fs"
  shows "execute E (map HeaderField fs) c =
    ((try_commit_reading_request_header E c)\<lparr>reading_header_part := header_field_part,
       reading_header_field := reading_header_field (try_commit_reading_request_header E c) @ concat fs\<rparr>, Go)"
proof -
  obtain f fs' where fs: "fs = f # fs'" using assms(1) by (cases fs) auto
  let ?d = "try_commit_reading_request_header E c"
  let ?c = "?d\<lparr>reading_header_part := header_field_part, reading_header_field := reading_header_field ?d @ f\<rparr>"
  have "on_header_field E f c = ?c"
    using assms(2) fs by (simp add: on_header_field_def Let_def)
  then show ?thesis
    using more_fields[of fs' ?c E] assms(2) fs by simp
qed

lemma more_values:
  "reading_header_part c = header_value_part \<Longrightarrow>
    execute E (map HeaderValue vs) c = (c\<lparr>reading_header_value := reading_header_value c @ concat vs\<rparr>, Go)"
proof (induction vs arbitrary: c)
  case (Cons v vs)
  let ?c = "c\<lparr>reading_header_value := reading_header_value c @ v, reading_header_part := header_value_part\<rparr>"
  have "on_header_value v c = ?c"
    using Cons.prems by (simp add: on_header_value_def add_header_value_def)
  then show ?case
    using Cons.IH[of ?c] Cons.prems by (cases c) simp
qed (cases c, simp)

lemma value_pieces:
  assumes "vs \<noteq> []" "reading_header_part c = header_field_part"
  shows "execute E (map HeaderValue vs) c =
    (c\<lparr>reading_header_value := concat vs, reading_header_part := header_value_part\<rparr>, Go)"
proof -
  obtain v vs' where vs: "vs = v # vs'" using assms(1) by (cases vs) auto
  let ?c = "c\<lparr>reading_header_value := v, reading_header_part := header_value_part\<rparr>"
  have "on_header_value v c = ?c"
    using assms(2) by (simp add: on_header_value_def add_header_value_def)
  then show ?thesis
    using more_values[of ?c E vs'] vs by simp
qed

lemma header_pieces:
  assumes "pieces_ok p"
  shows "execute E (header_events p) c =
    (let d = try_commit_reading_request_header E c
     in (d\<lparr>reading_header_part := header_value_part,
           reading_header_field := reading_header_field d @ fst (whole p),
           reading_header_value := snd (whole p)\<rparr>, Go))"
  using assms
  by (cases p) (simp add: header_events_def pieces_ok_def execute_append field_pieces value_pieces Let_def)

text \<open>A header that waits to be put into the map, or none.\<close>

definition waiting :: "('m, 'h, 'r, 'i) Connection \<Rightarrow> (string \<times> string) option \<Rightarrow> bool" where
  "waiting c h = (case h of
      None \<Rightarrow> reading_header_field c = []
    | Some (f, v) \<Rightarrow> f \<noteq> [] \<and> reading_header_part c = header_value_part \<and>
        reading_header_field c = f \<and> reading_header_value c = v)"

abbreviation put_all :: "boost_algo \<Rightarrow> ICHeaders \<Rightarrow> (string \<times> string) list \<Rightarrow> ICHeaders" where
  "put_all B \<equiv> foldl (\<lambda>m (k, v). omap_insert (IgnoreCaseCompare B) m k v)"

text \<open>The pending header as a list, and headers that the map does not have yet.\<close>

abbreviation pending :: "(string \<times> string) option \<Rightarrow> (string \<times> string) list" where
  "pending h \<equiv> (case h of None \<Rightarrow> [] | Some x \<Rightarrow> [x])"

definition unseen :: "boost_algo \<Rightarrow> ICHeaders \<Rightarrow> (string \<times> string) list \<Rightarrow> bool" where
  "unseen B m = list_all (\<lambda>q. omap_find (IgnoreCaseCompare B) m (fst q) = None)"

abbreviation names :: "(string \<times> string) list \<Rightarrow> string list" where
  "names \<equiv> map (\<lambda>q. upper (fst q))"

lemma unseen_insert:
  assumes "boost_laws B" "omap_sorted (IgnoreCaseCompare B) m" "upper f \<notin> set (names ys)" "unseen B m ys"
  shows "unseen B (omap_insert (IgnoreCaseCompare B) m f v) ys"
  using assms(3,4) nocase_find_insert[OF assms(1,2), of f v]
  by (auto simp: unseen_def list_all_iff split: if_splits)

lemma unseen_put:
  assumes "boost_laws B"
  shows "omap_sorted (IgnoreCaseCompare B) m \<Longrightarrow> distinct (names (xs @ ys)) \<Longrightarrow> unseen B m (xs @ ys) \<Longrightarrow>
    unseen B (put_all B m xs) ys"
proof (induction xs arbitrary: m)
  case (Cons x xs)
  obtain f v where x: "x = (f, v)" by (cases x)
  have "unseen B (omap_insert (IgnoreCaseCompare B) m f v) (xs @ ys)"
    using unseen_insert[OF assms Cons.prems(1)] Cons.prems(2,3) by (simp add: x unseen_def)
  moreover have "omap_sorted (IgnoreCaseCompare B) (omap_insert (IgnoreCaseCompare B) m f v)"
    by (rule strict_weak_order.sorted_insert[OF IgnoreCaseCompare_order[OF assms] Cons.prems(1)])
  ultimately show ?case
    using Cons.IH Cons.prems(2) by (simp add: x)
qed simp

lemma headers_sorted_put:
  "boost_laws B \<Longrightarrow> omap_sorted (IgnoreCaseCompare B) m \<Longrightarrow> omap_sorted (IgnoreCaseCompare B) (put_all B m xs)"
  by (rule strict_weak_order.sorted_fold_insert[OF IgnoreCaseCompare_order])

lemma commit_waiting:
  assumes "waiting c h" "unseen (c_algo E) (req_headers (conn_request c)) (pending h)"
  defines "d \<equiv> try_commit_reading_request_header E c"
  shows "reading_header_field d = []"
    "req_headers (conn_request d) = put_all (c_algo E) (req_headers (conn_request c)) (pending h)"
  using assms
  by (auto simp: d_def try_commit_reading_request_header_def waiting_def after_append_def ReqAppendHeader_def
      unseen_def split: option.splits)

lemma headers_run:
  assumes "boost_laws (c_algo E)"
  shows "list_all pieces_ok hs \<Longrightarrow> waiting c h \<Longrightarrow>
    omap_sorted (IgnoreCaseCompare (c_algo E)) (req_headers (conn_request c)) \<Longrightarrow>
    distinct (names (pending h @ map whole hs)) \<Longrightarrow>
    unseen (c_algo E) (req_headers (conn_request c)) (pending h @ map whole hs) \<Longrightarrow>
    \<exists>c'. execute E (concat (map header_events hs)) c = (c', Go) \<and>
      req_headers (conn_request (try_commit_reading_request_header E c')) =
        put_all (c_algo E) (req_headers (conn_request c)) (pending h @ map whole hs)"
proof (induction hs arbitrary: c h)
  case Nil
  then show ?case using commit_waiting(2)[OF Nil(2), of E] by simp
next
  case (Cons p hs)
  let ?B = "c_algo E" and ?m = "req_headers (conn_request c)"
  let ?d = "try_commit_reading_request_header E c"
  let ?e = "?d\<lparr>reading_header_part := header_value_part,
     reading_header_field := reading_header_field ?d @ fst (whole p), reading_header_value := snd (whole p)\<rparr>"
  have "unseen ?B ?m (pending h)"
    using Cons.prems(5) by (simp add: unseen_def)
  note cw = commit_waiting[OF Cons.prems(2) this]
  have h: "execute E (header_events p) c = (?e, Go)"
    using header_pieces[of p E c] Cons.prems(1) by (simp add: Let_def)
  have "fst (whole p) \<noteq> []"
    using Cons.prems(1) by (cases p; cases "fst p") (auto simp: pieces_ok_def)
  then have w: "waiting ?e (Some (whole p))"
    using cw(1) by (simp add: waiting_def)
  have hs: "req_headers (conn_request ?e) = put_all ?B ?m (pending h)"
    using cw(2) by simp
  have s: "omap_sorted (IgnoreCaseCompare ?B) (req_headers (conn_request ?e))"
    unfolding hs by (rule headers_sorted_put[OF assms Cons.prems(3)])
  have fr: "unseen ?B (req_headers (conn_request ?e)) (pending (Some (whole p)) @ map whole hs)"
    unfolding hs using unseen_put[OF assms Cons.prems(3-5)] by simp
  have di: "distinct (names (pending (Some (whole p)) @ map whole hs))"
    using Cons.prems(4) by simp
  from Cons.IH[OF _ w s di fr] Cons.prems(1) obtain c' where
    c': "execute E (concat (map header_events hs)) ?e = (c', Go)"
      "req_headers (conn_request (try_commit_reading_request_header E c')) =
        put_all ?B (req_headers (conn_request ?e)) (whole p # map whole hs)"
    by auto
  have "execute E (concat (map header_events (p # hs))) c = (c', Go)"
    using h c'(1) by (simp add: execute_append)
  moreover have "req_headers (conn_request (try_commit_reading_request_header E c')) =
        put_all ?B ?m (pending h @ map whole (p # hs))"
    using c'(2) unfolding hs by (simp only: foldl_append list.map)
  ultimately show ?case by blast
qed

text \<open>
  The headers of a request are put together whatever the pieces they arrive in.  When the
  parser reports each name and each value in any number of pieces, and no two names are the
  same up to case, then after the last header was committed every name finds the whole of its
  value, and a name that was not sent finds nothing.
\<close>

theorem headers_in_pieces:
  assumes "boost_laws (c_algo E)" "list_all pieces_ok hs" "distinct (map (\<lambda>p. upper (fst (whole p))) hs)"
    and "reading_header_field c = []" "req_headers (conn_request c) = []"
  shows "\<exists>c'. execute E (concat (map header_events hs)) c = (c', Go) \<and>
    TryGetHeader (c_algo E) (req_headers (conn_request (try_commit_reading_request_header E c'))) name =
      map_option snd (find (\<lambda>(k, v). upper k = upper name) (map whole hs))"
proof -
  have "(\<lambda>(k, v). \<not> IgnoreCaseCompare (c_algo E) k name \<and> \<not> IgnoreCaseCompare (c_algo E) name k) =
      (\<lambda>(k, v :: string). upper k = upper name)"
    using IgnoreCaseCompare_equiv[OF assms(1)] by auto
  then have "omap_find (IgnoreCaseCompare (c_algo E)) (put_all (c_algo E) [] (map whole hs)) name =
      map_option snd (find (\<lambda>(k, v). upper k = upper name) (map whole hs))"
    using strict_weak_order.find_fold_insert[OF IgnoreCaseCompare_order[OF assms(1)], of "[]" "map whole hs" name]
    by simp
  then show ?thesis
    using headers_run[OF assms(1,2), of c None] assms(3-5)
    by (auto simp: waiting_def TryGetHeader_def unseen_def comp_def list_all_iff)
qed

definition demo_conn_env :: "(unit, nat, unit, unit) conn_env" where
  "demo_conn_env = \<lparr>c_algo = boost_classic, c_parse_url = (\<lambda>u. None), c_find_app = (\<lambda>u. None),
     c_mp_init = (\<lambda>b. ()), c_mp_execute = (\<lambda>m s. ([], length s, ())), c_files = demo_files,
     c_uuids = (\<lambda>i. []), c_clock = demo_clock\<rparr>"

definition demo_conn :: "(unit, nat, unit, unit) Connection" where
  "demo_conn = new_Connection boost_classic (\<lambda>f. None)"

lemma demo_conn_facts:
  "c_algo demo_conn_env = boost_classic" "reading_header_field demo_conn = []"
  "reading_header_part demo_conn = header_none_part" "reading_header_value demo_conn = []"
  "req_headers (conn_request demo_conn) = []"
  by (simp_all add: demo_conn_env_def demo_conn_def new_Connection_def blank_Request_def)

theorem headers_in_pieces_witness:
  "\<exists>c'. execute demo_conn_env
      [HeaderField ''Ho'', HeaderField ''st'', HeaderValue ''a.b'', HeaderField ''X'', HeaderValue [], HeaderValue ''1'']
      demo_conn = (c', Go) \<and>
    TryGetHeader boost_classic (req_headers (conn_request (try_commit_reading_request_header demo_conn_env c'))) ''HOST'' =
      Some ''a.b''"
proof -
  let ?hs = "[([''Ho'', ''st''], [''a.b'']), ([''X''], [[], ''1''])]"
  have "list_all pieces_ok ?hs" by (simp add: pieces_ok_def)
  moreover have "distinct (map (\<lambda>p. upper (fst (whole p))) ?hs)" by (simp add: upper_def)
  moreover have "map_option snd (find (\<lambda>(k, v). upper k = upper ''HOST'') (map whole ?hs)) = Some ''a.b''"
    by code_simp
  ultimately obtain c' where c': "execute demo_conn_env (concat (map header_events ?hs)) demo_conn = (c', Go)"
      "TryGetHeader boost_classic (req_headers (conn_request (try_commit_reading_request_header demo_conn_env c'))) ''HOST'' =
        Some ''a.b''"
    using headers_in_pieces[of demo_conn_env ?hs demo_conn "''HOST''"]
    unfolding demo_conn_facts using boost_classic_laws by auto
  moreover have "concat (map header_events ?hs) =
      [HeaderField ''Ho'', HeaderField ''st'', HeaderValue ''a.b'', HeaderField ''X'', HeaderValue [], HeaderValue ''1'']"
    by (simp add: header_events_def)
  ultimately show ?thesis by metis
qed

text \<open>
  A header that comes twice spoils the next one: the name of the second stays in the buffer,
  and the next name is appended to it.
\<close>

lemma repeated_header_spoils_next:
  "reading_header_field (fst (execute demo_conn_env
     [HeaderField ''Via'', HeaderValue ''a'', HeaderField ''Via'', HeaderValue ''b'',
      HeaderField ''Cookie'', HeaderValue ''k=v''] demo_conn)) = ''ViaCookie''"
proof -
  have "\<not> IgnoreCaseCompare boost_classic ''Via'' ''Via''"
    by (rule strict_weak_order.irrefl[OF IgnoreCaseCompare_order[OF boost_classic_laws]])
  then show ?thesis
    by (simp add: on_header_field_def on_header_value_def add_header_value_def Let_def
        try_commit_reading_request_header_def demo_conn_facts after_append_def ReqAppendHeader_def)
qed

section \<open>Keeping the connection\<close>

lemma nocase_find_put:
  assumes "boost_laws B" "omap_sorted (IgnoreCaseCompare B) m" "omap_find (IgnoreCaseCompare B) m k = None"
  shows "omap_find (IgnoreCaseCompare B) (omap_insert (IgnoreCaseCompare B) m k v) k = Some v"
  using nocase_find_insert[OF assms(1,2), of k v k] assms(3) by simp

text \<open>
  The answer keeps the connection exactly when the request asked for it.  For a response
  that says nothing of its own about the connection, the headers and the version it is written
  with mean, by the rules of either version of HTTP, that it stays open if and only if the
  request is one to keep alive; so the server reads on in exactly that case.
\<close>

theorem answer_keeps_alive_as_asked:
  assumes "boost_laws B" "omap_sorted (IgnoreCaseCompare B) (res_headers res)"
    and "omap_find (IgnoreCaseCompare B) (res_headers res) ''Connection'' = None"
  shows "ResIsKeepAlive B (prepare_response_headers_about_connection B req res) \<longleftrightarrow> keepalive_bit req"
proof -
  have "upper ''close'' = upper ''close''" "iEquals B s t \<longleftrightarrow> upper s = upper t" for s t
    using assms(1) by (simp_all add: boost_laws_def iEquals_def)
  then show ?thesis
    using assms(3) nocase_find_put[OF assms]
    by (simp add: ResIsKeepAlive_def prepare_response_headers_about_connection_def SetVersion_def Let_def
        MarkKeepAlive_def MarkClose_def AppendHeader_def TryGetHeader_def)
qed

theorem answer_keeps_alive_as_asked_witness:
  "ResIsKeepAlive boost_classic (prepare_response_headers_about_connection boost_classic
     (blank_Request\<lparr>keepalive_bit := True\<rparr>) blank_Response)"
  using answer_keeps_alive_as_asked[OF boost_classic_laws, of blank_Response "blank_Request\<lparr>keepalive_bit := True\<rparr>"]
  by (simp add: blank_Response_def)

text \<open>
  The next request of a connection starts from nothing.  When the answer was written and
  the connection is kept, every buffer, the request with its headers, cookies, form data and
  flags, the response and the application are as on a new connection, and one read is started.
\<close>

theorem kept_connection_starts_fresh:
  assumes "writes c = [(WriteResponse, bytes)]" "reads c = 0"
    and "keepalive_bit (conn_request c)" "ResIsKeepAlive (c_algo E) (conn_response c)"
    and "d = on_written E cps clock False c"
  shows "url_buffer d = [] \<and> body_buffer d = [] \<and> reading_header_part d = header_none_part \<and>
    reading_header_field d = [] \<and> reading_header_value d = [] \<and> read_complete d = read_none_complete \<and>
    reading_part_buffer d = [] \<and> conn_response d = new_Response (c_algo E) \<and> conn_app d = None \<and>
    conn_request d = blank_Request\<lparr>req_url := (req_url blank_Request)
      \<lparr>full_under_app := full_under_app (req_url (conn_request c)),
       path_under_app := path_under_app (req_url (conn_request c))\<rparr>\<rparr> \<and>
    reads d = 1 \<and> writes d = []"
proof -
  have r: "RequestReset q = blank_Request\<lparr>req_url := (req_url blank_Request)
      \<lparr>full_under_app := full_under_app (req_url q), path_under_app := path_under_app (req_url q)\<rparr>\<rparr>" for q
    by (cases q, cases "req_url q") (simp add: RequestReset_def blank_Request_def UrlClear_def empty_url_def UrlBase.defs)
  have s: "ResponseReset (c_algo E) q = new_Response (c_algo E)" for q
    by (cases q) (simp add: ResponseReset_def new_Response_def blank_Response_def)
  have "d = do_read (conn_reset (c_algo E) (finish_write c))"
    using assms(1,3-5) by (simp add: on_written_def finish_write_def)
  then show ?thesis
    using assms(1,2) by (simp add: do_read_def conn_reset_def finish_write_def r s)
qed

theorem kept_connection_starts_fresh_witness:
  "conn_app (on_written demo_conn_env 1 0 False (demo_conn\<lparr>writes := [(WriteResponse, ''x'')],
      conn_request := blank_Request\<lparr>keepalive_bit := True\<rparr>, conn_response := blank_Response\<rparr>)) = None"
  using kept_connection_starts_fresh[of "demo_conn\<lparr>writes := [(WriteResponse, ''x'')],
      conn_request := blank_Request\<lparr>keepalive_bit := True\<rparr>, conn_response := blank_Response\<rparr>" "''x''" demo_conn_env _ 1 0]
  by (simp add: demo_conn_def new_Connection_def ResIsKeepAlive_def TryGetHeader_def blank_Response_def)

section \<open>Chunks\<close>

text \<open>The bytes written while the writes succeed, at most \<open>n\<close> of them.\<close>

fun pump :: "('m, 'h, 'r, 'i) conn_env \<Rightarrow> nat \<Rightarrow> ('m, 'h, 'r, 'i) Connection \<Rightarrow>
    string list \<times> ('m, 'h, 'r, 'i) Connection" where
  "pump E 0 c = ([], c)"
| "pump E (Suc n) c =
     (case writes c of
        [] \<Rightarrow> ([], c)
      | (op, bytes) # ws \<Rightarrow> (case pump E n (on_written E 1 1 False c) of (bs, c') \<Rightarrow> (bytes # bs, c')))"

text \<open>
  (C35) A chunked response is written whole and in order.  Once its header is being written,
  the chunks in the queue are written one after the other up to the mark of the end, each by
  one write that starts when the one before it has finished, and then no write is left.
\<close>

theorem chunks_written_in_order:
  assumes "writes c = [(w, hdr)]" "w \<noteq> WriteResponse" "list_all (\<lambda>t. t \<noteq> []) ts"
    and "chunked_bodies (conn_response c) = map (\<lambda>t. (t, False)) ts @ [([], True)]"
  shows "\<exists>c'. pump E (Suc (length ts)) c = (hdr # ts, c') \<and> writes c' = [] \<and> reads c' = reads c"
  using assms
proof (induction ts arbitrary: c w hdr)
  case Nil
  then show ?case
    by (cases w) (auto simp: on_written_def finish_write_def do_write_next_chunked_body_def
        PopChunkedBody_def ChunkedPopFront_def)
next
  case (Cons t ts)
  let ?d = "on_written E 1 1 False c"
  have d: "writes ?d = [(WriteChunk, t)]" "reads ?d = reads c"
    "chunked_bodies (conn_response ?d) = map (\<lambda>t. (t, False)) ts @ [([], True)]"
    using Cons.prems by (cases w; simp add: on_written_def finish_write_def do_write_next_chunked_body_def
        PopChunkedBody_def ChunkedPopFront_def)+
  obtain c' where "pump E (Suc (length ts)) ?d = (t # ts, c')" "writes c' = []" "reads c' = reads ?d"
    using Cons.IH[OF d(1) _ _ d(3)] Cons.prems(3) by auto
  then show ?case
    using Cons.prems(1) d(2) by (simp del: pump.simps) (simp add: pump.simps(2)[of E "Suc (length ts)" c])
qed


theorem chunks_written_in_order_witness:
  "\<exists>c'. pump demo_conn_env 3 (demo_conn\<lparr>writes := [(WriteChunkHeader, ''HEAD'')],
      conn_response := blank_Response\<lparr>chunked_bodies := [(''ab'', False), (''c'', False), ([], True)]\<rparr>\<rparr>) =
    ([''HEAD'', ''ab'', ''c''], c') \<and> writes c' = []"
  using chunks_written_in_order[of "demo_conn\<lparr>writes := [(WriteChunkHeader, ''HEAD'')],
      conn_response := blank_Response\<lparr>chunked_bodies := [(''ab'', False), (''c'', False), ([], True)]\<rparr>\<rparr>"
      WriteChunkHeader "''HEAD''" "[''ab'', ''c'']" demo_conn_env]
  by (auto simp: numeral_3_eq_3 simp del: pump.simps)

text \<open>
  After the last chunk nothing reads the connection again, although the answer announces that
  the connection is kept.
\<close>

lemma chunked_answer_never_reads_on:
  assumes "boost_laws (c_algo E)" "omap_sorted (IgnoreCaseCompare (c_algo E)) (res_headers res)"
    and "omap_find (IgnoreCaseCompare (c_algo E)) (res_headers res) ''Connection'' = None"
    and "IsChunked (c_algo E) res" "writes c = [(WriteChunk, t)]" "chunked_bodies (conn_response c) = [([], True)]"
  shows "ResIsKeepAlive (c_algo E) (prepare_response_headers_for_chunked_write (c_algo E) res)"
    and "reads (on_written E 1 1 False c) = reads c" "writes (on_written E 1 1 False c) = []"
proof -
  have "iEquals (c_algo E) s t \<longleftrightarrow> upper s = upper t" for s t
    using assms(1) by (simp add: boost_laws_def iEquals_def)
  then show "ResIsKeepAlive (c_algo E) (prepare_response_headers_for_chunked_write (c_algo E) res)"
    using assms(3,4) nocase_find_put[OF assms(1-3)]
    by (simp add: ResIsKeepAlive_def ResIsClose_def prepare_response_headers_for_chunked_write_def SetVersion_def
        Let_def MarkKeepAlive_def AppendHeader_def TryGetHeader_def IsChunked_def upper_def)
qed (use assms in \<open>simp_all add: on_written_def finish_write_def do_write_next_chunked_body_def
      PopChunkedBody_def ChunkedPopFront_def\<close>)

end
