(* ===== verification/HttpMultipart.thy ===== *)
theory HttpMultipart
  imports HttpConnProofs
begin

text \<open>
  The parts of a multipart body over \<^verbatim>\<open>src/connection.cpp\<close>: the body comes in any pieces, the
  multipart parser reports names, values and data in any pieces, and the request ends up with
  the parts that were sent.
\<close>

section \<open>The callbacks of the multipart parser\<close>

type_synonym part_pieces = "pieces list \<times> string list"

definition mp_header_events :: "pieces \<Rightarrow> mp_callback list" where
  "mp_header_events = (\<lambda>(fs, vs). map MpHeaderField fs @ map MpHeaderValue vs)"

definition part_events :: "part_pieces \<Rightarrow> mp_callback list" where
  "part_events = (\<lambda>(hs, ds). MpDataBegin # concat (map mp_header_events hs) @
     [MpHeadersComplete] @ map MpData ds @ [MpDataEnd])"

text \<open>Only the first piece of a name is surely not empty, and a value comes in at least one piece.\<close>

definition mp_pieces_ok :: "pieces \<Rightarrow> bool" where
  "mp_pieces_ok = (\<lambda>(fs, vs). fs \<noteq> [] \<and> hd fs \<noteq> [] \<and> vs \<noteq> [])"

definition part_ok :: "part_pieces \<Rightarrow> bool" where
  "part_ok = (\<lambda>(hs, ds). list_all mp_pieces_ok hs \<and> distinct (names (map whole hs)))"

definition whole_part :: "boost_algo \<Rightarrow> part_pieces \<Rightarrow> MultiPart" where
  "whole_part B = (\<lambda>(hs, ds). \<lparr>mp_headers = put_all B [] (map whole hs), mp_data = concat ds,
     transfer_result = transfer_none\<rparr>)"

abbreviation mp_run :: "boost_algo \<Rightarrow> mp_callback list \<Rightarrow> ('m, 'h, 'r, 'i) Connection \<Rightarrow> ('m, 'h, 'r, 'i) Connection" where
  "mp_run B \<equiv> fold (on_mp_callback B)"

text \<open>
  The header buffers while a part is read: no header yet, or one that waits for its commit.
\<close>

definition mp_waiting :: "('m, 'h, 'r, 'i) Connection \<Rightarrow> (string \<times> string) option \<Rightarrow> bool" where
  "mp_waiting c h = (case h of
      None \<Rightarrow> reading_header_part c = header_none_part \<and> reading_header_field c = [] \<and> reading_header_value c = []
    | Some (f, v) \<Rightarrow> f \<noteq> [] \<and> reading_header_part c = header_value_part \<and>
        reading_header_field c = f \<and> reading_header_value c = v)"

lemma mp_more_fields:
  "reading_header_part c \<noteq> header_value_part \<Longrightarrow> multipart_parse_part c = mp_parse_header_field \<Longrightarrow>
    mp_run B (map MpHeaderField fs) c = c\<lparr>reading_header_field := reading_header_field c @ concat fs\<rparr>"
proof (induction fs arbitrary: c)
  case (Cons f fs)
  have "on_multipart_header_field B f c = c\<lparr>reading_header_field := reading_header_field c @ f\<rparr>"
    using Cons.prems by (cases c) (simp add: on_multipart_header_field_def commit_part_header_def Let_def)
  then show ?case
    using Cons by (cases c) simp
qed simp

lemma mp_more_values:
  "reading_header_part c = header_value_part \<Longrightarrow> multipart_parse_part c = mp_parse_header_value \<Longrightarrow>
    mp_run B (map MpHeaderValue vs) c = c\<lparr>reading_header_value := reading_header_value c @ concat vs\<rparr>"
proof (induction vs arbitrary: c)
  case (Cons v vs)
  have "on_multipart_header_value v c = c\<lparr>reading_header_value := reading_header_value c @ v\<rparr>"
    using Cons.prems by (cases c) (simp add: on_multipart_header_value_def add_header_value_def)
  then show ?case
    using Cons by (cases c) simp
qed simp

text \<open>What the callbacks of a part leave alone until its data ends.\<close>

definition same_outside :: "('m, 'h, 'r, 'i) Connection \<Rightarrow> ('m, 'h, 'r, 'i) Connection \<Rightarrow> bool" where
  "same_outside c d \<longleftrightarrow> conn_request d = conn_request c \<and> mp_data (reading_part d) = mp_data (reading_part c) \<and>
     reading_part_buffer d = reading_part_buffer c"

lemma commit_part_waiting:
  assumes "mp_waiting c h"
    and "unseen B (mp_headers (reading_part c)) (pending h)"
    and d: "d = commit_part_header B next c"
  shows "reading_header_field d = []" "reading_header_value d = []"
    and "reading_header_part d = (case h of None \<Rightarrow> header_none_part | Some _ \<Rightarrow> next)"
    and "mp_headers (reading_part d) = put_all B (mp_headers (reading_part c)) (pending h)"
    and "same_outside c d"
proof -
  have "reading_header_field d = [] \<and> reading_header_value d = [] \<and>
      reading_header_part d = (case h of None \<Rightarrow> header_none_part | Some _ \<Rightarrow> next) \<and>
      mp_headers (reading_part d) = put_all B (mp_headers (reading_part c)) (pending h) \<and> same_outside c d"
  proof (cases h)
    case None
    then have "d = c"
      using assms(1) by (simp add: d commit_part_header_def mp_waiting_def)
    then show ?thesis
      using assms(1) None by (simp add: mp_waiting_def same_outside_def)
  next
    case (Some fv)
    obtain f v where fv: "fv = (f, v)" by (cases fv)
    have n: "omap_find (IgnoreCaseCompare B) (mp_headers (reading_part c)) f = None"
      using assms(2) Some fv by (simp add: unseen_def)
    have w: "f \<noteq> []" "reading_header_part c = header_value_part" "reading_header_field c = f"
      "reading_header_value c = v"
      using assms(1) Some fv by (simp_all add: mp_waiting_def)
    show ?thesis
      using w n by (simp add: Some fv d commit_part_header_def after_append_def MpAppendHeader_def
          same_outside_def)
  qed
  then show "reading_header_field d = []" "reading_header_value d = []"
    "reading_header_part d = (case h of None \<Rightarrow> header_none_part | Some _ \<Rightarrow> next)"
    "mp_headers (reading_part d) = put_all B (mp_headers (reading_part c)) (pending h)" "same_outside c d"
    by blast+
qed

lemma mp_header_step:
  assumes "mp_pieces_ok p" "mp_waiting c h"
    and "unseen B (mp_headers (reading_part c)) (pending h)"
  shows "mp_waiting (mp_run B (mp_header_events p) c) (Some (whole p))"
    and "mp_headers (reading_part (mp_run B (mp_header_events p) c)) = put_all B (mp_headers (reading_part c)) (pending h)"
    and "same_outside c (mp_run B (mp_header_events p) c)"
proof -
  obtain f fs v vs where p: "p = (f # fs, v # vs)" "f \<noteq> []"
    using assms(1) by (cases p; cases "fst p"; cases "snd p") (auto simp: mp_pieces_ok_def)
  let ?d = "on_multipart_header_field B f c"
  have d: "reading_header_part ?d \<noteq> header_value_part" "reading_header_field ?d = f"
    "mp_headers (reading_part ?d) = put_all B (mp_headers (reading_part c)) (pending h)" "same_outside c ?d"
    "reading_header_part ?d = header_field_part \<or> reading_header_value ?d = []"
  proof -
    let ?c = "c\<lparr>multipart_parse_part := mp_parse_header_field\<rparr>"
    have w: "mp_waiting ?c h" using assms(2) by (auto simp: mp_waiting_def split: option.splits)
    have n: "unseen B (mp_headers (reading_part ?c)) (pending h)"
      using assms(3) by simp
    note k = commit_part_waiting[OF w n refl, of header_field_part]
    let ?k = "commit_part_header B header_field_part ?c"
    have d: "?d = ?k\<lparr>reading_header_field := reading_header_field ?k @ f\<rparr>"
      by (simp add: on_multipart_header_field_def Let_def)
    show "reading_header_part ?d \<noteq> header_value_part"
      "reading_header_part ?d = header_field_part \<or> reading_header_value ?d = []"
      unfolding d using k(2,3) by (cases h; simp)+
    show "reading_header_field ?d = f" unfolding d using k(1) by simp
    show "mp_headers (reading_part ?d) = put_all B (mp_headers (reading_part c)) (pending h)" unfolding d using k(4) by simp
    show "same_outside c ?d" unfolding d using k(5) by (simp add: same_outside_def)
  qed
  have m: "multipart_parse_part ?d = mp_parse_header_field"
    by (simp add: on_multipart_header_field_def Let_def commit_part_header_def)
  let ?e = "?d\<lparr>reading_header_field := f @ concat fs\<rparr>"
  have e: "mp_run B (map MpHeaderField (f # fs)) c = ?e"
    using mp_more_fields[OF d(1) m, of B fs] d(2) by simp
  let ?g = "?e\<lparr>multipart_parse_part := mp_parse_header_value, reading_header_part := header_value_part, reading_header_value := v\<rparr>"
  have g: "on_multipart_header_value v ?e = ?g"
    using d(5) by (cases ?d) (auto simp: on_multipart_header_value_def add_header_value_def)
  let ?k = "?g\<lparr>reading_header_value := v @ concat vs\<rparr>"
  have "mp_run B (mp_header_events p) c = mp_run B (map MpHeaderValue (v # vs)) ?e"
    unfolding p mp_header_events_def prod.case fold_append comp_apply e ..
  also have "\<dots> = mp_run B (map MpHeaderValue vs) ?g"
    using g by simp
  also have "\<dots> = ?k"
    using mp_more_values[of ?g B vs] by simp
  finally have r: "mp_run B (mp_header_events p) c = ?k" .
  show "mp_waiting (mp_run B (mp_header_events p) c) (Some (whole p))"
    unfolding r using p by (simp add: mp_waiting_def)
  show "mp_headers (reading_part (mp_run B (mp_header_events p) c)) = put_all B (mp_headers (reading_part c)) (pending h)"
    unfolding r using d(3) by simp
  show "same_outside c (mp_run B (mp_header_events p) c)"
    unfolding r using d(4) by (simp add: same_outside_def)
qed

lemma mp_headers_run:
  assumes "boost_laws B"
  shows "list_all mp_pieces_ok hs \<Longrightarrow> mp_waiting c h \<Longrightarrow>
    omap_sorted (IgnoreCaseCompare B) (mp_headers (reading_part c)) \<Longrightarrow>
    distinct (names (pending h @ map whole hs)) \<Longrightarrow>
    unseen B (mp_headers (reading_part c)) (pending h @ map whole hs) \<Longrightarrow>
    d = mp_run B (concat (map mp_header_events hs)) c \<Longrightarrow>
    same_outside c d \<and> (\<exists>h'. mp_waiting d h' \<and> unseen B (mp_headers (reading_part d)) (pending h') \<and>
      put_all B (mp_headers (reading_part d)) (pending h') =
        put_all B (mp_headers (reading_part c)) (pending h @ map whole hs))"
proof (induction hs arbitrary: c h)
  case Nil
  then show ?case by (auto simp: same_outside_def)
next
  case (Cons p hs)
  let ?m = "mp_headers (reading_part c)" and ?e = "mp_run B (mp_header_events p) c"
  have "unseen B ?m (pending h)" "mp_pieces_ok p"
    using Cons.prems(1,5) by (simp_all add: unseen_def)
  note st = mp_header_step[OF this(2) Cons.prems(2) this(1)]
  have s: "omap_sorted (IgnoreCaseCompare B) (mp_headers (reading_part ?e))"
    unfolding st(2) by (rule headers_sorted_put[OF assms Cons.prems(3)])
  have fr: "unseen B (mp_headers (reading_part ?e)) (pending (Some (whole p)) @ map whole hs)"
    unfolding st(2) using unseen_put[OF assms Cons.prems(3-5)] by simp
  have "same_outside ?e d \<and> (\<exists>h'. mp_waiting d h' \<and> unseen B (mp_headers (reading_part d)) (pending h') \<and>
      put_all B (mp_headers (reading_part d)) (pending h') =
        put_all B (mp_headers (reading_part ?e)) (pending (Some (whole p)) @ map whole hs))"
    by (rule Cons.IH[OF _ st(1) s _ fr]) (use Cons.prems in simp_all)
  then show ?case
    using st(3) unfolding st(2) by (simp add: same_outside_def)
qed

lemma mp_data_run:
  "multipart_parse_part c = mp_parse_data \<Longrightarrow>
    mp_run B (map MpData ds) c = c\<lparr>reading_part_buffer := reading_part_buffer c @ concat ds\<rparr>"
proof (induction ds arbitrary: c)
  case (Cons x ds)
  have "on_multipart_data x c = c\<lparr>reading_part_buffer := reading_part_buffer c @ x\<rparr>"
    using Cons.prems by (cases c) (simp add: on_multipart_data_def)
  then show ?case
    using Cons by (cases c) simp
qed simp

lemma mp_data_run_buffer:
  shows "conn_request (mp_run B (map MpData ds) c) = conn_request c"
    and "reading_part (mp_run B (map MpData ds) c) = reading_part c"
    and "reading_part_buffer (mp_run B (map MpData ds) c) = reading_part_buffer c @ concat ds"
  by (cases ds; simp add: on_multipart_data_def mp_data_run)+

lemma on_mp_callback_result:
  "transfer_result (reading_part (on_mp_callback B ev c)) = transfer_result (reading_part c)"
  by (cases ev) (auto simp: on_multipart_data_begin_def on_multipart_header_field_def commit_part_header_def Let_def
      on_multipart_header_value_def add_header_value_def on_multipart_headers_complete_def on_multipart_data_def
      on_multipart_data_end_def on_multipart_body_end_def MpAppendHeader_def split: option.splits)

lemma mp_run_result:
  "transfer_result (reading_part (mp_run B evs c)) = transfer_result (reading_part c)"
  by (induction evs arbitrary: c) (simp_all add: on_mp_callback_result)

lemma part_step:
  assumes "boost_laws B" "part_ok pt" "mp_headers (reading_part c) = []" "transfer_result (reading_part c) = transfer_none"
    and d: "d = mp_run B (part_events pt) c"
  shows "conn_request d = (conn_request c)\<lparr>multiparts := multiparts (conn_request c) @ [whole_part B pt]\<rparr>"
    and "mp_headers (reading_part d) = []" and "transfer_result (reading_part d) = transfer_none"
proof -
  obtain hs ds where pt: "pt = (hs, ds)" by (cases pt)
  let ?c = "on_multipart_data_begin c"
  have w: "mp_waiting ?c None" and c: "reading_part ?c = reading_part c" "conn_request ?c = conn_request c"
    "reading_part_buffer ?c = []"
    by (simp_all add: mp_waiting_def on_multipart_data_begin_def)
  define e where "e = mp_run B (concat (map mp_header_events hs)) ?c"
  have e: "same_outside ?c e \<and> (\<exists>h'. mp_waiting e h' \<and> unseen B (mp_headers (reading_part e)) (pending h') \<and>
      put_all B (mp_headers (reading_part e)) (pending h') =
        put_all B (mp_headers (reading_part ?c)) (pending None @ map whole hs))"
    by (rule mp_headers_run[OF assms(1) _ w _ _ _ e_def])
      (use assms(2,3) in \<open>simp_all add: c pt part_ok_def unseen_def list_all_iff\<close>)
  then obtain h' where h': "mp_waiting e h'" "unseen B (mp_headers (reading_part e)) (pending h')"
      "put_all B (mp_headers (reading_part e)) (pending h') = put_all B [] (map whole hs)"
    using assms(3) c(1) by auto
  define f where "f = on_multipart_headers_complete B e"
  let ?e = "e\<lparr>multipart_parse_part := mp_parse_headers_complete\<rparr>"
  have "mp_waiting ?e h'" "unseen B (mp_headers (reading_part ?e)) (pending h')"
    using h'(1,2) by (auto simp: mp_waiting_def split: option.splits)
  note k = commit_part_waiting[OF this, of f header_none_part]
  have f: "mp_headers (reading_part f) = put_all B [] (map whole hs)" "same_outside ?c f"
    using k(4,5) h'(3) e by (simp_all add: f_def on_multipart_headers_complete_def same_outside_def)
  let ?g = "mp_run B (map MpData ds) f"
  have d': "d = on_multipart_data_end ?g"
    by (simp add: d pt part_events_def e_def f_def)
  have t: "transfer_result (reading_part f) = transfer_none"
    using on_mp_callback_result[of B MpHeadersComplete e] mp_run_result[of B _ ?c] assms(4) c(1)
    by (simp add: f_def e_def)
  show "conn_request d = (conn_request c)\<lparr>multiparts := multiparts (conn_request c) @ [whole_part B pt]\<rparr>"
    "mp_headers (reading_part d) = []" "transfer_result (reading_part d) = transfer_none"
    using f t c by (simp_all add: d' on_multipart_data_end_def mp_data_run_buffer AddMultiPart_def moved_part_def
        whole_part_def pt same_outside_def)
qed

lemma parts_run:
  assumes "boost_laws B"
  shows "list_all part_ok ps \<Longrightarrow> mp_headers (reading_part c) = [] \<Longrightarrow>
    transfer_result (reading_part c) = transfer_none \<Longrightarrow>
    conn_request (mp_run B (concat (map part_events ps)) c) =
      (conn_request c)\<lparr>multiparts := multiparts (conn_request c) @ map (whole_part B) ps\<rparr>"
proof (induction ps arbitrary: c)
  case (Cons pt ps)
  note p = part_step[OF assms _ Cons.prems(2,3) refl, of pt]
  show ?case
    using p Cons.IH[of "mp_run B (part_events pt) c"] Cons.prems(1) by simp
qed simp

section \<open>The body in pieces\<close>

text \<open>The callbacks the multipart parser makes for the pieces of a body, if it takes all of them.\<close>

fun mp_events :: "('m, 'h, 'r, 'i) conn_env \<Rightarrow> 'm \<Rightarrow> string list \<Rightarrow> mp_callback list option" where
  "mp_events E m [] = Some []"
| "mp_events E m (b # bs) =
     (case c_mp_execute E m b of (evs, n, m') \<Rightarrow>
        if n = length b then map_option ((@) evs) (mp_events E m' bs) else None)"

definition upload_limit_kb :: "('m, 'h, 'r, 'i) Connection \<Rightarrow> nat" where
  "upload_limit_kb c = (case conn_app c of Some app \<Rightarrow> upload_max_size_limit_kb app | None \<Rightarrow> 15 * 1024)"

lemma on_mp_callback_frame:
  "conn_app (on_mp_callback B ev c) = conn_app c"
  "body_buffer (on_mp_callback B ev c) = body_buffer c"
  "multipart_bit (conn_request (on_mp_callback B ev c)) = multipart_bit (conn_request c)"
  "mp_parser (on_mp_callback B ev c) = mp_parser c"
  by (cases ev; simp add: on_multipart_data_begin_def on_multipart_header_field_def commit_part_header_def Let_def
      on_multipart_header_value_def add_header_value_def on_multipart_headers_complete_def on_multipart_data_def
      on_multipart_data_end_def on_multipart_body_end_def AddMultiPart_def)+

lemma mp_run_frame:
  "conn_app (mp_run B evs c) = conn_app c"
  "body_buffer (mp_run B evs c) = body_buffer c"
  "multipart_bit (conn_request (mp_run B evs c)) = multipart_bit (conn_request c)"
  "mp_parser (mp_run B evs c) = mp_parser c"
  by (induction evs arbitrary: c) (simp_all add: on_mp_callback_frame)

text \<open>Neither the parser nor the buffer of the body matters to the callbacks.\<close>

lemma on_mp_callback_outside:
  "on_mp_callback B ev (c\<lparr>mp_parser := m, body_buffer := b\<rparr>) = (on_mp_callback B ev c)\<lparr>mp_parser := m, body_buffer := b\<rparr>"
  by (cases c; cases ev) (simp_all add: on_multipart_data_begin_def on_multipart_header_field_def commit_part_header_def Let_def
      on_multipart_header_value_def add_header_value_def on_multipart_headers_complete_def on_multipart_data_def
      on_multipart_data_end_def on_multipart_body_end_def)

lemma mp_run_outside:
  "mp_run B evs (c\<lparr>mp_parser := m, body_buffer := b\<rparr>) = (mp_run B evs c)\<lparr>mp_parser := m, body_buffer := b\<rparr>"
  by (induction evs arbitrary: c) (simp_all add: on_mp_callback_outside)

lemma body_step:
  assumes "multipart_bit (conn_request c)" "mp_parser c = Some m" "body_buffer c = []"
    and "length at div 1024 \<le> upload_limit_kb c" "c_mp_execute E m at = (evs, length at, m')"
  shows "on_body E at c = ((mp_run (c_algo E) evs c)\<lparr>mp_parser := Some m', body_buffer := []\<rparr>, Go)"
proof -
  have "c\<lparr>body_buffer := at, mp_parser := Some m'\<rparr> = c\<lparr>mp_parser := Some m', body_buffer := at\<rparr>" by simp
  then have "mp_run (c_algo E) evs (c\<lparr>body_buffer := at, mp_parser := Some m'\<rparr>) =
      (mp_run (c_algo E) evs c)\<lparr>mp_parser := Some m', body_buffer := at\<rparr>"
    by (simp only: mp_run_outside)
  then show ?thesis
    using assms
    by (simp add: on_body_def do_multipart_parse_def upload_limit_kb_def Let_def not_less
        split: option.splits)
qed

lemma body_run:
  "multipart_bit (conn_request c) \<Longrightarrow> mp_parser c = Some m \<Longrightarrow> body_buffer c = [] \<Longrightarrow>
    list_all (\<lambda>b. length b div 1024 \<le> upload_limit_kb c) bs \<Longrightarrow> mp_events E m bs = Some evs \<Longrightarrow>
    \<exists>m'. execute E (map Body bs) c = ((mp_run (c_algo E) evs c)\<lparr>mp_parser := Some m', body_buffer := []\<rparr>, Go)"
proof (induction bs arbitrary: c m evs)
  case Nil
  then show ?case by (intro exI[of _ m]) simp
next
  case (Cons b bs)
  obtain ev1 m1 ev2 where ex: "c_mp_execute E m b = (ev1, length b, m1)" "mp_events E m1 bs = Some ev2" "evs = ev1 @ ev2"
    using Cons.prems(5) by (auto split: prod.splits if_splits)
  let ?d = "(mp_run (c_algo E) ev1 c)\<lparr>mp_parser := Some m1, body_buffer := []\<rparr>"
  have st: "on_body E b c = (?d, Go)"
    using body_step[OF Cons.prems(1-3) _ ex(1)] Cons.prems(4) by simp
  have "upload_limit_kb ?d = upload_limit_kb c"
    by (simp add: upload_limit_kb_def mp_run_frame)
  then obtain m' where "execute E (map Body bs) ?d = ((mp_run (c_algo E) ev2 ?d)\<lparr>mp_parser := Some m', body_buffer := []\<rparr>, Go)"
    using Cons.IH[OF _ _ _ _ ex(2), of ?d] Cons.prems(1,4) by (auto simp: mp_run_frame)
  then show ?case
    using st by (intro exI[of _ m']) (simp add: ex(3) mp_run_outside)
qed

text \<open>
  A multipart body is put together whatever its pieces.  When the multipart parser takes
  every piece that the reads deliver, none of them over the limit of the application, and what
  it reports are the parts \<open>ps\<close>, each header name, header value and the data of a part in any
  number of pieces, then the request gains exactly those parts, in order, each with all its
  headers and the whole of its data, and nothing of the body is left over.
\<close>

theorem multipart_body_in_pieces:
  assumes "boost_laws (c_algo E)" "list_all part_ok ps"
    and "multipart_bit (conn_request c)" "mp_parser c = Some m" "body_buffer c = []" "reading_part c = new_MultiPart"
    and "list_all (\<lambda>b. length b div 1024 \<le> upload_limit_kb c) bs"
    and "mp_events E m bs = Some (concat (map part_events ps) @ [MpBodyEnd])"
  shows "\<exists>c'. execute E (map Body bs) c = (c', Go) \<and> body_buffer c' = [] \<and>
    multiparts (conn_request c') = multiparts (conn_request c) @ map (whole_part (c_algo E)) ps"
proof -
  have "conn_request (mp_run (c_algo E) (concat (map part_events ps) @ [MpBodyEnd]) c) =
      (conn_request c)\<lparr>multiparts := multiparts (conn_request c) @ map (whole_part (c_algo E)) ps\<rparr>"
    using parts_run[OF assms(1,2), of c] assms(6)
    by (simp add: on_multipart_body_end_def new_MultiPart_def)
  then show ?thesis
    using body_run[OF assms(3-5,7,8)] by auto
qed

text \<open>The witness has a parser that reports one part of which the data comes in two pieces.\<close>

definition demo_mp_execute :: "nat \<Rightarrow> string \<Rightarrow> mp_callback list \<times> nat \<times> nat" where
  "demo_mp_execute n s =
     (if n = 0 then ([MpDataBegin, MpHeaderField ''Content'', MpHeaderField ''-Type'', MpHeaderValue ''text'',
        MpHeadersComplete, MpData s], length s, 1)
      else ([MpData s, MpDataEnd, MpBodyEnd], length s, 2))"

definition demo_mp_env :: "(nat, nat, unit, unit) conn_env" where
  "demo_mp_env = \<lparr>c_algo = boost_classic, c_parse_url = (\<lambda>u. None), c_find_app = (\<lambda>u. None),
     c_mp_init = (\<lambda>b. 0), c_mp_execute = demo_mp_execute, c_files = demo_files,
     c_uuids = (\<lambda>i. []), c_clock = demo_clock\<rparr>"

definition demo_mp_conn :: "(nat, nat, unit, unit) Connection" where
  "demo_mp_conn = (new_Connection boost_classic (\<lambda>f. None))\<lparr>mp_parser := Some 0,
     conn_request := blank_Request\<lparr>multipart_bit := True\<rparr>\<rparr>"

theorem multipart_body_in_pieces_witness:
  "\<exists>c'. execute demo_mp_env [Body ''hello '', Body ''world''] demo_mp_conn = (c', Go) \<and> body_buffer c' = [] \<and>
    multiparts (conn_request c') =
      [\<lparr>mp_headers = [(''Content-Type'', ''text'')], mp_data = ''hello world'', transfer_result = transfer_none\<rparr>]"
proof -
  let ?ps = "[([([''Content'', ''-Type''], [''text''])], [''hello '', ''world''])]"
  have "list_all part_ok ?ps" by (simp add: part_ok_def mp_pieces_ok_def)
  moreover have "mp_events demo_mp_env 0 [''hello '', ''world''] = Some (concat (map part_events ?ps) @ [MpBodyEnd])"
    by (simp add: demo_mp_env_def demo_mp_execute_def part_events_def mp_header_events_def)
  ultimately show ?thesis
    using multipart_body_in_pieces[of demo_mp_env ?ps demo_mp_conn 0 "[''hello '', ''world'']"] boost_classic_laws
    by (auto simp: demo_mp_env_def demo_mp_conn_def new_Connection_def whole_part_def upload_limit_kb_def
        blank_Request_def)
qed

section \<open>Reads and answers\<close>

text \<open>
  A read starts at most one context.  Two requests that arrive in one read therefore get one
  answer: the callbacks of the second run over the state of the first.
\<close>

lemma started_frame:
  "started (try_commit_reading_request_header E c) = started c"
  "started (StartWrite E c) = started c"
  "started (on_mp_callback B ev c) = started c"
  "started (init_multipart_parser E b c) = started c"
  "started (try_fix_multipart_bad_request_without_boundary E c) = started c"
proof -
  show "started (on_mp_callback B ev c) = started c"
    by (cases ev) (simp_all add: on_multipart_data_begin_def on_multipart_header_field_def commit_part_header_def Let_def
      on_multipart_header_value_def add_header_value_def on_multipart_headers_complete_def on_multipart_data_def
      on_multipart_data_end_def on_multipart_body_end_def)
qed (simp_all add: try_commit_reading_request_header_def StartWrite_def do_write_def do_write_header_for_chunked_def
      init_multipart_parser_def try_fix_multipart_bad_request_without_boundary_def Let_def split: option.splits)

lemma mp_run_started: "started (mp_run B evs c) = started c"
  by (induction evs arbitrary: c) (simp_all add: started_frame)

lemma on_body_started: "started (fst (on_body E at c)) = started c"
proof -
  have "started (fst (do_multipart_parse E d)) = started d" for d
    by (simp add: do_multipart_parse_def Let_def mp_run_started started_frame split: option.splits prod.splits)
  then have m: "do_multipart_parse E d = (d', s) \<Longrightarrow> started d' = started d" for d d' s
    by (metis fst_conv)
  show ?thesis
    by (auto simp: on_body_def Let_def process_too_large_size_upload_def started_frame dest!: m
        split: prod.splits MultpartParseStatus.splits)
qed

lemma update_request_started: "started (update_request_after_header_parsed E p c) = started c"
  by (simp add: update_request_after_header_parsed_def Let_def started_frame)

lemma try_route_started: "started (fst (try_route_application E c)) = started c"
  by (simp add: try_route_application_def Let_def)

lemma process_started:
  "started (process_app_no_found E c) = started c"
  "started (process_too_large_size_upload E c) = started c"
  "started (process_100_continue_request E c) = started c"
  "started (try_init_multipart_parser E c) = started c"
  by (simp_all add: process_app_no_found_def process_too_large_size_upload_def process_100_continue_request_def
      try_init_multipart_parser_def started_frame)

lemma on_headers_complete_started: "started (fst (on_headers_complete E p c)) = started c"
proof -
  obtain c2 found where r: "try_route_application E
      ((update_request_after_header_parsed E p c)\<lparr>read_complete := read_header_complete\<rparr>) = (c2, found)"
    by (cases "try_route_application E ((update_request_after_header_parsed E p c)\<lparr>read_complete := read_header_complete\<rparr>)")
  then have "started c2 = started c"
    using try_route_started[of E "(update_request_after_header_parsed E p c)\<lparr>read_complete := read_header_complete\<rparr>"]
    by (simp add: update_request_started)
  then show ?thesis
    unfolding on_headers_complete_def Let_def r prod.case
    by (simp add: process_started split: option.splits)
qed

lemma on_callback_started: "started (fst (on_callback E cb c)) = started c"
proof (cases cb)
  case (HeaderField at)
  then show ?thesis by (simp add: on_header_field_def Let_def started_frame)
next
  case (HeaderValue at)
  then show ?thesis by (simp add: on_header_value_def add_header_value_def Let_def)
qed (simp_all add: on_body_started on_headers_complete_started)

lemma execute_started: "started (fst (execute E cbs c)) = started c"
proof (induction cbs arbitrary: c)
  case (Cons cb cbs)
  obtain c' r where "on_callback E cb c = (c', r)" by (cases "on_callback E cb c")
  then show ?case
    using Cons.IH[of c'] on_callback_started[of E cb c] by (cases r) simp_all
qed simp

lemma one_context_per_read: "started (on_read E rr c) \<le> started c + 1"
proof -
  have e: "execute E cbs d = (d', r) \<Longrightarrow> started d' = started d" for cbs d d' r
    using execute_started[of E cbs d] by simp
  show ?thesis
    by (cases rr) (auto simp: on_read_def Let_def do_read_def free_multipart_parser_def read_form_def dest!: e
        split: prod.splits option.splits)
qed

text \<open>
  The interim answer to a request that expects one is written by the function of the final
  answer.  Its completion resets the request that is still being read, and starts a second read;
  the body then completes a message without application, and no answer is made.
\<close>

definition expecting_conn :: "(nat, unit, unit) Application \<Rightarrow> (unit, nat, unit, unit) Connection" where
  "expecting_conn app = demo_conn\<lparr>conn_request := blank_Request\<lparr>keepalive_bit := True, req_major := 1, req_minor := 1\<rparr>,
     conn_response := blank_Response, conn_app := Some app\<rparr>"

lemma interim_answer_drops_request:
  assumes c_def: "c = do_read (process_100_continue_request demo_conn_env (expecting_conn app))"
    and d_def: "d = on_written demo_conn_env 1 1 False c"
  shows "reads c = 1" "conn_app c = Some app"
    and "conn_app d = None" "reads d = 2"
    and "started (on_read demo_conn_env (Parsed [Body ''body'', MessageComplete] False False) d) = 0"
    and "writes (on_read demo_conn_env (Parsed [Body ''body'', MessageComplete] False False) d) = []"
proof -
  have c: "\<exists>t. c = (expecting_conn app)\<lparr>conn_response := SetVersion 1 1 (ReplyContinue blank_Response),
      writes := [(WriteResponse, t)], reads := 1\<rparr>"
    by (simp add: c_def do_read_def process_100_continue_request_def StartWrite_def do_write_def
        prepare_response_headers_about_connection_def expecting_conn_def demo_conn_def new_Connection_def
        IsChunked_def TryGetHeader_def blank_Response_def ReplyContinue_def Let_def blank_Request_def)
  then show "reads c = 1" "conn_app c = Some app"
    by (auto simp: expecting_conn_def)
  have d: "\<exists>r q p. d = (expecting_conn app)\<lparr>conn_response := r, conn_request := RequestReset q, writes := [], reads := 2,
      conn_app := None, multipart_parse_part := mp_parse_none, reading_part := p\<rparr>"
    using c by (auto simp: d_def on_written_def finish_write_def do_read_def conn_reset_def expecting_conn_def
        demo_conn_def new_Connection_def ResIsKeepAlive_def TryGetHeader_def SetVersion_def ReplyContinue_def
        blank_Response_def blank_Request_def)
  then show "conn_app d = None" "reads d = 2" by auto
  show "started (on_read demo_conn_env (Parsed [Body ''body'', MessageComplete] False False) d) = 0"
    "writes (on_read demo_conn_env (Parsed [Body ''body'', MessageComplete] False False) d) = []"
    using d by (auto simp: on_read_def on_body_def Let_def free_multipart_parser_def RequestReset_def
        expecting_conn_def demo_conn_def new_Connection_def)
qed

end
