(* ===== verification/MultipartParserProofs.thy ===== *)
theory MultipartParserProofs
  imports MultipartParser
begin

text \<open>
  What the multipart parser guarantees: a body as a client writes it, cut into reads anywhere,
  makes the callbacks of its parts.  The bytes of all reads become one stream, in which a byte
  knows whether it is the last of its read, and the position \<open>mark\<close> becomes the text since then.
\<close>

section \<open>The stream of bytes\<close>

type_synonym fed = "(mp_callback list \<times> multipart_parser \<times> string) option"

definition prepend :: "mp_callback list \<Rightarrow> fed \<Rightarrow> fed" where
  "prepend es = map_option (\<lambda>(es', p, r). (es @ es', p, r))"

definition keep :: "(string \<Rightarrow> mp_callback) \<Rightarrow> multipart_parser \<Rightarrow> string \<Rightarrow> char \<Rightarrow> bool \<Rightarrow> fed" where
  "keep f p r c l = Some (if l then ([f (r @ [c])], p, []) else ([], p, r @ [c]))"

definition feed_name :: "multipart_parser \<Rightarrow> string \<Rightarrow> char \<Rightarrow> bool \<Rightarrow> fed" where
  "feed_name p r c l =
     (if c = CR then Some ([], p\<lparr>mp_state := s_headers_almost_done\<rparr>, [])
      else if c = CHR '':'' then Some ([MpHeaderField r], p\<lparr>mp_state := s_header_value_start\<rparr>, [])
      else if \<not> header_name_char c then None else keep MpHeaderField p r c l)"

definition feed_value :: "multipart_parser \<Rightarrow> string \<Rightarrow> char \<Rightarrow> bool \<Rightarrow> fed" where
  "feed_value p r c l =
     (if c = CR then Some ([MpHeaderValue r], p\<lparr>mp_state := s_header_value_almost_done\<rparr>, [])
      else keep MpHeaderValue p r c l)"

definition feed_data :: "multipart_parser \<Rightarrow> string \<Rightarrow> char \<Rightarrow> bool \<Rightarrow> fed" where
  "feed_data p r c l =
     (if c = CR then Some ([MpData r], look 0 CR (p\<lparr>mp_state := s_part_data_almost_boundary\<rparr>), [])
      else keep MpData p r c l)"

definition advance :: "mp_outcome \<Rightarrow> fed" where
  "advance x = (case x of Advance es q m \<Rightarrow> Some (es, q, []) | _ \<Rightarrow> None)"

definition feed1 :: "multipart_parser \<Rightarrow> string \<Rightarrow> char \<Rightarrow> bool \<Rightarrow> fed" where
  "feed1 p r c l =
     (case mp_state p of
        s_header_field_start \<Rightarrow> feed_name (p\<lparr>mp_state := s_header_field\<rparr>) [] c l
      | s_header_field \<Rightarrow> feed_name p r c l
      | s_header_value_start \<Rightarrow>
          if c = CHR '' '' then Some ([], p, []) else feed_value (p\<lparr>mp_state := s_header_value\<rparr>) [] c l
      | s_header_value \<Rightarrow> feed_value p r c l
      | s_part_data_start \<Rightarrow> prepend [MpHeadersComplete] (feed_data (p\<lparr>mp_state := s_part_data\<rparr>) [] c l)
      | s_part_data \<Rightarrow> feed_data p r c l
      | s_part_data_almost_boundary \<Rightarrow>
          if c = LF then Some ([], (look 1 LF p)\<lparr>mp_state := s_part_data_boundary, mp_index := 0\<rparr>, [])
          else prepend [MpData (take 1 (lookbehind p))] (feed_data (p\<lparr>mp_state := s_part_data\<rparr>) [] c l)
      | s_part_data_boundary \<Rightarrow>
          if boundary_at p (mp_index p) \<noteq> c
          then prepend [MpData (take (2 + mp_index p) (lookbehind p))] (feed_data (p\<lparr>mp_state := s_part_data\<rparr>) [] c l)
          else advance (in_part_data_boundary c 0 0 p)
      | _ \<Rightarrow> advance (mp_step [c] 0 0 p))"

fun feed :: "multipart_parser \<Rightarrow> string \<Rightarrow> (char \<times> bool) list \<Rightarrow> fed" where
  "feed p r [] = Some ([], p, r)"
| "feed p r ((c, l) # xs) = (case feed1 p r c l of None \<Rightarrow> None | Some (es, q, s) \<Rightarrow> prepend es (feed q s xs))"

fun flag :: "string \<Rightarrow> (char \<times> bool) list" where
  "flag [] = []"
| "flag [c] = [(c, True)]"
| "flag (c # d # s) = (c, False) # flag (d # s)"

lemma flag_Cons: "flag (c # s) = (c, s = []) # flag s"
  by (cases s) simp_all

lemma map_fst_flag [simp]: "map fst (flag s) = s"
  by (induction s rule: flag.induct) simp_all

lemma prepend_Nil [simp]: "prepend [] x = x"
  by (cases x) (auto simp: prepend_def)

lemma prepend_prepend [simp]: "prepend a (prepend b x) = prepend (a @ b) x"
  by (cases x) (auto simp: prepend_def)

lemma prepend_Some [simp]: "prepend a (Some (es, q, s)) = Some (a @ es, q, s)"
  by (simp add: prepend_def)

lemma prepend_None [simp]: "prepend a None = None"
  by (simp add: prepend_def)

lemma prepend_eq_Some: "prepend a x = Some (es, q, s) \<longleftrightarrow> (\<exists>es'. x = Some (es', q, s) \<and> es = a @ es')"
  by (cases x) (auto simp: prepend_def)

lemma feed_append:
  "feed p r (xs @ ys) = (case feed p r xs of None \<Rightarrow> None | Some (es, q, s) \<Rightarrow> prepend es (feed q s ys))"
proof (induction xs arbitrary: p r)
  case (Cons x xs)
  then show ?case by (cases x) (auto split: option.splits)
qed simp

lemma feed1_cases:
  "mp_state p = s_header_field_start \<Longrightarrow> feed1 p r c l = feed_name (p\<lparr>mp_state := s_header_field\<rparr>) [] c l"
  "mp_state p = s_header_field \<Longrightarrow> feed1 p r c l = feed_name p r c l"
  "mp_state p = s_header_value_start \<Longrightarrow> feed1 p r c l =
     (if c = CHR '' '' then Some ([], p, []) else feed_value (p\<lparr>mp_state := s_header_value\<rparr>) [] c l)"
  "mp_state p = s_header_value \<Longrightarrow> feed1 p r c l = feed_value p r c l"
  "mp_state p = s_part_data_start \<Longrightarrow>
     feed1 p r c l = prepend [MpHeadersComplete] (feed_data (p\<lparr>mp_state := s_part_data\<rparr>) [] c l)"
  "mp_state p = s_part_data \<Longrightarrow> feed1 p r c l = feed_data p r c l"
  "mp_state p = s_part_data_almost_boundary \<Longrightarrow> feed1 p r c l =
     (if c = LF then Some ([], (look 1 LF p)\<lparr>mp_state := s_part_data_boundary, mp_index := 0\<rparr>, [])
      else prepend [MpData (take 1 (lookbehind p))] (feed_data (p\<lparr>mp_state := s_part_data\<rparr>) [] c l))"
  "mp_state p = s_part_data_boundary \<Longrightarrow> feed1 p r c l =
     (if boundary_at p (mp_index p) \<noteq> c
      then prepend [MpData (take (2 + mp_index p) (lookbehind p))] (feed_data (p\<lparr>mp_state := s_part_data\<rparr>) [] c l)
      else advance (in_part_data_boundary c 0 0 p))"
  "mp_state p \<in> {s_uninitialized, s_start, s_start_boundary, s_headers_almost_done, s_header_value_almost_done,
     s_part_data_almost_end, s_part_data_end, s_part_data_final_hyphen, s_end} \<Longrightarrow>
     feed1 p r c l = advance (mp_step [c] 0 0 p)"
  by (simp_all add: feed1_def) auto

text \<open>At the end of a read nothing is left over.\<close>

definition nothing_left :: "fed \<Rightarrow> bool" where
  "nothing_left x \<longleftrightarrow> (\<forall>es q s. x = Some (es, q, s) \<longrightarrow> s = [])"

lemma nothing_left_pieces:
  "nothing_left (feed_name p r c True)"
  "nothing_left (feed_value p r c True)"
  "nothing_left (feed_data p r c True)"
  "nothing_left (advance y)"
  "nothing_left (Some (es, q, []))"
  "nothing_left x \<Longrightarrow> nothing_left (prepend es x)"
  by (auto simp: nothing_left_def feed_name_def feed_value_def feed_data_def keep_def advance_def prepend_eq_Some
      split: mp_outcome.splits)

lemma feed1_last: "nothing_left (feed1 p r c True)"
  by (cases "mp_state p"; simp add: feed1_cases nothing_left_pieces)

section \<open>The parser reads the stream\<close>

definition pieced :: "mp_state \<Rightarrow> bool" where
  "pieced st \<longleftrightarrow> st = s_header_field \<or> st = s_header_value \<or> st = s_part_data"

definition since :: "string \<Rightarrow> nat \<Rightarrow> nat \<Rightarrow> multipart_parser \<Rightarrow> string \<Rightarrow> bool" where
  "since buf i mark p r \<longleftrightarrow> mark \<le> i \<and> r = (if pieced (mp_state p) then piece buf mark (i - mark) else [])"

lemma piece_0 [simp]: "piece buf i 0 = []"
  by (simp add: piece_def)

lemma piece_Suc: "mark \<le> i \<Longrightarrow> i < length buf \<Longrightarrow> piece buf mark (Suc (i - mark)) = piece buf mark (i - mark) @ [buf ! i]"
  by (simp add: piece_def take_Suc_conv_app_nth)

text \<open>One turn of the loop, or two when the byte is looked at again.\<close>

definition turn :: "string \<Rightarrow> nat \<Rightarrow> nat \<Rightarrow> multipart_parser \<Rightarrow> (mp_callback list \<times> multipart_parser \<times> nat) option" where
  "turn buf i mark p = (case mp_step buf i mark p of
      Advance es q m \<Rightarrow> Some (es, q, m)
    | Again es q m \<Rightarrow> (case mp_step buf i m q of Advance es' q' m' \<Rightarrow> Some (es @ es', q', m') | _ \<Rightarrow> None)
    | Return es q n \<Rightarrow> None)"

lemma mp_loop_turn:
  "i < length buf \<Longrightarrow> turn buf i mark p = Some (es, q, m) \<Longrightarrow>
    mp_loop buf i mark p evs = mp_loop buf (Suc i) m q (evs @ es)"
proof (cases "mp_step buf i mark p")
  case (Again es1 q1 m1)
  assume i: "i < length buf" and t: "turn buf i mark p = Some (es, q, m)"
  obtain es2 where "mp_step buf i m1 q1 = Advance es2 q m" "es = es1 @ es2"
    using t Again by (auto simp: turn_def split: mp_outcome.splits)
  then show ?thesis
    using i Again mp_loop.simps[of buf i mark p evs] mp_loop.simps[of buf i m1 q1 "evs @ es1"] by simp
qed (use mp_loop.simps[of buf i mark p evs] in \<open>simp_all add: turn_def\<close>)

text \<open>The three states with pieces, where \<open>n\<close> is the length of what is pending.\<close>

definition goes_on :: "string \<Rightarrow> nat \<Rightarrow> bool \<Rightarrow> nat \<Rightarrow> multipart_parser \<Rightarrow> string \<Rightarrow> bool" where
  "goes_on buf i l m q s \<longleftrightarrow> (\<not> l \<longrightarrow> since buf (Suc i) m q s)"

lemma name_turn:
  assumes "feed_name p (piece buf mark (i - mark)) (buf ! i) l = Some (es, q, s)" "mp_state p = s_header_field"
    "mark \<le> i" "i < length buf"
  shows "in_header_field buf (buf ! i) l i mark p = Advance es q mark \<and> goes_on buf i l mark q s"
  using assms piece_Suc[OF assms(3,4)]
  by (auto simp: feed_name_def in_header_field_def keep_def goes_on_def since_def pieced_def Suc_diff_le split: if_split_asm)

lemma value_turn:
  assumes "feed_value p (piece buf mark (i - mark)) (buf ! i) l = Some (es, q, s)" "mp_state p = s_header_value"
    "mark \<le> i" "i < length buf"
  shows "in_header_value buf (buf ! i) l i mark p = Advance es q mark \<and> goes_on buf i l mark q s"
  using assms piece_Suc[OF assms(3,4)]
  by (auto simp: feed_value_def in_header_value_def keep_def goes_on_def since_def pieced_def Suc_diff_le split: if_split_asm)

lemma data_turn:
  assumes "feed_data p (piece buf mark (i - mark)) (buf ! i) l = Some (es, q, s)" "mp_state p = s_part_data"
    "mark \<le> i" "i < length buf"
  shows "\<exists>m. in_part_data buf (buf ! i) l i mark p evs = Advance (evs @ es) q m \<and> goes_on buf i l m q s"
  using assms piece_Suc[OF assms(3,4)]
  by (auto simp: feed_data_def in_part_data_def keep_def goes_on_def since_def pieced_def look_def Suc_diff_le
      split: if_split_asm)

lemma turn_Advance: "mp_step buf i mark p = Advance es q m \<Longrightarrow> turn buf i mark p = Some (es, q, m)"
  by (simp add: turn_def)

lemma turn_Again:
  "mp_step buf i mark p = Again es q m \<Longrightarrow> mp_step buf i m q = Advance es' q' m' \<Longrightarrow>
    turn buf i mark p = Some (es @ es', q', m')"
  by (simp add: turn_def)

lemma data_again:
  assumes "feed_data q [] (buf ! i) l = Some (es, q', s)" "mp_state q = s_part_data" "i < length buf"
    "l = (i = length buf - 1)" "mp_step buf i mark p = Again evs q i"
  shows "\<exists>m. turn buf i mark p = Some (evs @ es, q', m) \<and> goes_on buf i l m q' s"
proof -
  obtain m where m: "in_part_data buf (buf ! i) l i i q [] = Advance es q' m" "goes_on buf i l m q' s"
    using data_turn[of q buf i i l es q' s "[]"] assms(1-3) by auto
  then have "mp_step buf i i q = Advance es q' m"
    using assms(2,4) by (simp add: mp_step_def)
  from turn_Again[OF assms(5) this] m(2) show ?thesis by blast
qed

lemma start_boundary_form:
  assumes "mp_state p = s_start_boundary"
  shows "(\<exists>es q. in_start_boundary c i mark p = Advance es q mark \<and> \<not> pieced (mp_state q) \<and>
       in_start_boundary c 0 0 p = Advance es q 0) \<or>
     (\<exists>n. in_start_boundary c i mark p = Return [] p n \<and> (\<exists>n. in_start_boundary c 0 0 p = Return [] p n))"
proof -
  consider "mp_index p = boundary_length p" | "mp_index p = boundary_length p + 1"
    | "mp_index p \<noteq> boundary_length p" "mp_index p \<noteq> boundary_length p + 1" by blast
  then show ?thesis
    using assms by cases (simp_all add: in_start_boundary_def pieced_def)
qed

lemma start_turn:
  assumes "advance (in_start_boundary (buf ! i) 0 0 p') = Some (es, q, s)" "mp_state p' = s_start_boundary" "mark \<le> i"
    "mp_step buf i mark p = in_start_boundary (buf ! i) i mark p'"
  shows "\<exists>m. turn buf i mark p = Some (es, q, m) \<and> goes_on buf i l m q s"
  using start_boundary_form[OF assms(2), of "buf ! i" i mark] assms(1,3,4)
  by (auto simp: advance_def turn_def goes_on_def since_def)

lemma plain_form:
  assumes "mp_state p \<in> {s_uninitialized, s_headers_almost_done, s_header_value_almost_done,
     s_part_data_almost_end, s_part_data_end, s_part_data_final_hyphen, s_end}"
  shows "(\<exists>es q. mp_step buf i mark p = Advance es q mark \<and> \<not> pieced (mp_state q) \<and>
       mp_step [buf ! i] 0 0 p = Advance es q 0) \<or>
     (\<exists>n n'. mp_step buf i mark p = Return [] p n \<and> mp_step [buf ! i] 0 0 p = Return [] p n')"
  using assms by (elim insertE emptyE; simp add: mp_step_def pieced_def Let_def)

lemma plain_turn:
  assumes "mp_state p \<in> {s_uninitialized, s_headers_almost_done, s_header_value_almost_done,
     s_part_data_almost_end, s_part_data_end, s_part_data_final_hyphen, s_end}"
    and "feed1 p r (buf ! i) l = Some (es, q, s)" "mark \<le> i"
  shows "\<exists>m. turn buf i mark p = Some (es, q, m) \<and> goes_on buf i l m q s"
proof -
  have "advance (mp_step [buf ! i] 0 0 p) = Some (es, q, s)"
    using assms(1,2) feed1_cases(9)[of p r "buf ! i" l] by auto
  then show ?thesis
    using plain_form[OF assms(1), of buf i mark] assms(3)
    by (auto simp: advance_def turn_def goes_on_def since_def)
qed

lemma turn_feed1:
  assumes i: "i < length buf" and r: "since buf i mark p r" and l: "l = (i = length buf - 1)"
    and f: "feed1 p r (buf ! i) l = Some (es, q, s)"
  shows "\<exists>m. turn buf i mark p = Some (es, q, m) \<and> goes_on buf i l m q s"
proof -
  have m: "mark \<le> i" using r by (simp add: since_def)
  note st = mp_step_def[of buf i mark p] l[unfolded One_nat_def, symmetric]
  show ?thesis
  proof (cases "mp_state p")
    case s_header_field
    then show ?thesis
      using f r name_turn[OF _ _ m i, of p l es q s] turn_Advance[of buf i mark p es q mark]
      by (auto simp: st feed1_cases since_def pieced_def)
  next
    case s_header_value
    then show ?thesis
      using f r value_turn[OF _ _ m i, of p l es q s] turn_Advance[of buf i mark p es q mark]
      by (auto simp: st feed1_cases since_def pieced_def)
  next
    case s_part_data
    then show ?thesis
      using f r data_turn[OF _ _ m i, of p l es q s "[]"] turn_Advance[of buf i mark p es q]
      by (auto simp: st feed1_cases since_def pieced_def)
  next
    case s_header_field_start
    then show ?thesis
      using f name_turn[of "p\<lparr>mp_state := s_header_field\<rparr>" buf i i l es q s] i turn_Advance[of buf i mark p es q i]
      by (auto simp: st feed1_cases)
  next
    case s_header_value_start
    show ?thesis
    proof (cases "buf ! i = CHR '' ''")
      case True
      then show ?thesis
        using f m s_header_value_start
        by (auto simp: turn_def mp_step_def[of buf i mark] feed1_cases goes_on_def since_def pieced_def)
    next
      case False
      then show ?thesis
        using f s_header_value_start i value_turn[of "p\<lparr>mp_state := s_header_value\<rparr>" buf i i l es q s]
          turn_Advance[of buf i mark p es q i] by (auto simp: st feed1_cases)
    qed
  next
    case s_part_data_start
    then obtain es' where "feed_data (p\<lparr>mp_state := s_part_data\<rparr>) [] (buf ! i) l = Some (es', q, s)" "es = [MpHeadersComplete] @ es'"
      using f by (auto simp: feed1_cases prepend_eq_Some)
    then show ?thesis
      using data_turn[of "p\<lparr>mp_state := s_part_data\<rparr>" buf i i l es' q s "[MpHeadersComplete]"] s_part_data_start i
        turn_Advance[of buf i mark p es q] by (auto simp: st)
  next
    case s_part_data_almost_boundary
    show ?thesis
    proof (cases "buf ! i = LF")
      case True
      then show ?thesis
        using f m s_part_data_almost_boundary
        by (auto simp: turn_def mp_step_def[of buf i mark] feed1_cases goes_on_def since_def pieced_def look_def)
    next
      case False
      then obtain es' where e: "feed_data (p\<lparr>mp_state := s_part_data\<rparr>) [] (buf ! i) l = Some (es', q, s)"
          "es = [MpData (take 1 (lookbehind p))] @ es'"
        using f s_part_data_almost_boundary by (auto simp: feed1_cases prepend_eq_Some)
      show ?thesis unfolding e(2)
        by (rule data_again[OF e(1) _ i l]) (use False s_part_data_almost_boundary in \<open>simp_all add: st\<close>)
    qed
  next
    case s_part_data_boundary
    show ?thesis
    proof (cases "boundary_at p (mp_index p) = buf ! i")
      case True
      then show ?thesis
        using f m s_part_data_boundary
        by (auto simp: st feed1_cases in_part_data_boundary_def Let_def advance_def turn_def goes_on_def since_def
            pieced_def look_def boundary_length_def split: if_split_asm)
    next
      case False
      then obtain es' where e: "feed_data (p\<lparr>mp_state := s_part_data\<rparr>) [] (buf ! i) l = Some (es', q, s)"
          "es = [MpData (take (2 + mp_index p) (lookbehind p))] @ es'"
        using f s_part_data_boundary by (auto simp: feed1_cases prepend_eq_Some)
      show ?thesis unfolding e(2)
        by (rule data_again[OF e(1) _ i l]) (use False s_part_data_boundary in \<open>simp_all add: st in_part_data_boundary_def\<close>)
    qed
  next
    case s_start
    then show ?thesis
      using f by (intro start_turn[where p' = "p\<lparr>mp_index := 0, mp_state := s_start_boundary\<rparr>"])
        (simp_all add: m st feed1_cases mp_step_def)
  next
    case s_start_boundary
    then show ?thesis
      using f by (intro start_turn[where p' = p]) (simp_all add: m st feed1_cases mp_step_def)
  qed (rule plain_turn[OF _ f m]; simp)+
qed

lemma mp_loop_feed:
  "i \<le> length buf \<Longrightarrow> (i < length buf \<Longrightarrow> since buf i mark p r) \<Longrightarrow> (i = length buf \<Longrightarrow> r = []) \<Longrightarrow>
    feed p r (flag (drop i buf)) = Some (es, q, s) \<Longrightarrow>
    mp_loop buf i mark p evs = (evs @ es, length buf, q) \<and> s = []"
proof (induction "length buf - i" arbitrary: i mark p r es evs)
  case 0
  then show ?case by (simp add: mp_loop.simps)
next
  case (Suc n)
  have i: "i < length buf" using Suc(2) by simp
  have d: "drop i buf = buf ! i # drop (Suc i) buf" using i by (simp add: Cons_nth_drop_Suc)
  have l: "(drop (Suc i) buf = []) = (i = length buf - 1)" using i by auto
  obtain e1 q1 s1 e2 where f: "feed1 p r (buf ! i) (i = length buf - 1) = Some (e1, q1, s1)"
      "feed q1 s1 (flag (drop (Suc i) buf)) = Some (e2, q, s)" "es = e1 @ e2"
    using Suc.prems(4) unfolding d flag_Cons l feed.simps by (auto simp: prepend_eq_Some split: option.splits)
  obtain m where m: "turn buf i mark p = Some (e1, q1, m)" "i \<noteq> length buf - 1 \<longrightarrow> since buf (Suc i) m q1 s1"
    using turn_feed1[OF i Suc.prems(2)[OF i] refl f(1)] by (auto simp: goes_on_def)
  have "mp_loop buf (Suc i) m q1 (evs @ e1) = ((evs @ e1) @ e2, length buf, q) \<and> s = []"
  proof (rule Suc(1)[OF _ _ _ _ f(2)])
    show "s1 = []" if "Suc i = length buf"
    proof -
      have "i = length buf - 1" using that by simp
      then show ?thesis using f(1) feed1_last[of p r "buf ! i"] by (simp add: nothing_left_def)
    qed
  qed (use Suc(2) i m(2) in auto)
  then show ?case
    using mp_loop_turn[OF i m(1)] f(3) by simp
qed

lemma execute_feed:
  assumes "feed p [] (flag buf) = Some (es, q, s)"
  shows "multipart_parser_execute p buf = (es, length buf, q) \<and> s = []"
  using mp_loop_feed[of 0 buf 0 p "[]" es q s "[]"] assms
  by (simp add: multipart_parser_execute_def since_def)


end
