(* ===== verification/MultipartBody.thy ===== *)
theory MultipartBody
  imports MultipartParserProofs
begin

text \<open>
  The text of a multipart body as a client writes it, and what it makes the multipart parser
  report whatever the cuts between the reads.
\<close>

section \<open>Texts and what they make the parser report\<close>

text \<open>
  \<open>takes p r w R\<close>: from state \<open>p\<close> with \<open>r\<close> pending the parser takes the text \<open>w\<close>, cut in whatever
  way, and \<open>R\<close> holds of the callbacks, the state and what is pending then.
\<close>

definition takes :: "multipart_parser \<Rightarrow> string \<Rightarrow> string \<Rightarrow> (mp_callback list \<Rightarrow> multipart_parser \<Rightarrow> string \<Rightarrow> bool) \<Rightarrow> bool" where
  "takes p r w R \<longleftrightarrow> (\<forall>xs. map fst xs = w \<longrightarrow> (\<exists>es q s. feed p r xs = Some (es, q, s) \<and> R es q s))"

lemma takes_Nil: "R [] p r \<Longrightarrow> takes p r [] R"
  by (simp add: takes_def)

lemma takesD: "takes p r w R \<Longrightarrow> map fst xs = w \<Longrightarrow> \<exists>es q s. feed p r xs = Some (es, q, s) \<and> R es q s"
  by (simp add: takes_def)

lemma takes_mono: "takes p r w R \<Longrightarrow> (\<And>es q s. R es q s \<Longrightarrow> S es q s) \<Longrightarrow> takes p r w S"
  unfolding takes_def by blast

lemma takes_Cons:
  assumes "\<And>l. \<exists>es q s. feed1 p r c l = Some (es, q, s) \<and> takes q s w (\<lambda>es'. R (es @ es'))"
  shows "takes p r (c # w) R"
  unfolding takes_def
proof (intro allI impI)
  fix xs :: "(char \<times> bool) list" assume "map fst xs = c # w"
  then obtain l ys where xs: "xs = (c, l) # ys" "map fst ys = w" by (auto simp: map_eq_Cons_conv)
  obtain es q s where "feed1 p r c l = Some (es, q, s)" "takes q s w (\<lambda>es'. R (es @ es'))"
    using assms by blast
  then show "\<exists>es q s. feed p r xs = Some (es, q, s) \<and> R es q s"
    using xs by (fastforce simp: takes_def)
qed

lemma takes_step:
  assumes "\<And>l. feed1 p r c l = Some (es, q, s)" "takes q s w (\<lambda>es'. R (es @ es'))"
  shows "takes p r (c # w) R"
  by (rule takes_Cons) (use assms in blast)

lemma takes_silent:
  assumes "\<And>l. feed1 p r c l = Some ([], q, s)" "takes q s w R"
  shows "takes p r (c # w) R"
  by (rule takes_step[OF assms(1)]) (use assms(2) in simp)

lemma takes_append:
  assumes "takes p r v R" "\<And>es q s. R es q s \<Longrightarrow> takes q s w (\<lambda>es'. S (es @ es'))"
  shows "takes p r (v @ w) S"
  unfolding takes_def
proof (intro allI impI)
  fix xs :: "(char \<times> bool) list" assume "map fst xs = v @ w"
  then obtain ys zs where xs: "xs = ys @ zs" "map fst ys = v" "map fst zs = w"
    by (auto simp: map_eq_append_conv)
  obtain es q s where 1: "feed p r ys = Some (es, q, s)" "R es q s"
    using assms(1) xs(2) unfolding takes_def by blast
  obtain es' q' s' where "feed q s zs = Some (es', q', s')" "S (es @ es') q' s'"
    using assms(2)[OF 1(2)] xs(3) unfolding takes_def by blast
  then show "\<exists>es q s. feed p r xs = Some (es, q, s) \<and> S es q s"
    using 1(1) by (simp add: xs(1) feed_append)
qed

text \<open>A first byte that is read as in another state, after some callbacks.\<close>

lemma takes_as:
  assumes "\<And>l. feed1 p r c l = prepend es (feed1 q s c l)" "takes q s (c # w) (\<lambda>es'. R (es @ es'))"
  shows "takes p r (c # w) R"
  unfolding takes_def
proof (intro allI impI)
  fix xs :: "(char \<times> bool) list" assume m: "map fst xs = c # w"
  then obtain l ys where xs: "xs = (c, l) # ys" by (auto simp: map_eq_Cons_conv)
  have "feed p r xs = prepend es (feed q s xs)"
    using assms(1)[of l] by (cases "feed1 q s c l") (auto simp: xs)
  moreover obtain es' q' s' where "feed q s xs = Some (es', q', s')" "R (es @ es') q' s'"
    using takesD[OF assms(2) m] by auto
  ultimately show "\<exists>es q s. feed p r xs = Some (es, q, s) \<and> R es q s"
    by simp
qed

lemma takes_same:
  assumes "takes q s (c # w) R" "\<And>l. feed1 p r c l = feed1 q s c l"
  shows "takes p r (c # w) R"
  using takes_as[of p r c "[]" q s w R] assms by simp

definition at_state :: "string \<Rightarrow> mp_state \<Rightarrow> multipart_parser \<Rightarrow> bool" where
  "at_state b st p \<longleftrightarrow> mp_state p = st \<and> multipart_boundary p = b"

lemma at_state_update [simp]: "at_state b st (p\<lparr>mp_state := st'\<rparr>) \<longleftrightarrow> st' = st \<and> multipart_boundary p = b"
  by (simp add: at_state_def)

subsection \<open>Headers\<close>

abbreviation crlf :: string where "crlf \<equiv> [CR, LF]"

text \<open>The pieces of one header as the parser reports them: only the first of the name is surely not empty.\<close>

definition header_pieces :: "string \<times> string \<Rightarrow> string list \<times> string list \<Rightarrow> bool" where
  "header_pieces h = (\<lambda>(fs, vs). fs \<noteq> [] \<and> hd fs \<noteq> [] \<and> vs \<noteq> [] \<and> (concat fs, concat vs) = h)"

lemma header_name_char_ok: "header_name_char c \<Longrightarrow> c \<noteq> CR \<and> c \<noteq> CHR '':''"
  by (auto simp: header_name_char_def c_tolower_def)

lemma takes_name:
  "at_state b s_header_field p \<Longrightarrow> list_all header_name_char n \<Longrightarrow>
    takes p r n (\<lambda>es q s. q = p \<and> (\<exists>fs. es = map MpHeaderField fs \<and> list_all (\<lambda>f. f \<noteq> []) fs \<and> concat fs @ s = r @ n))"
proof (induction n arbitrary: r)
  case Nil
  then show ?case by (auto intro!: takes_Nil exI[of _ "[]"])
next
  case (Cons c n)
  have f: "feed1 p r c l = keep MpHeaderField p r c l" for l
    using Cons.prems header_name_char_ok[of c] by (simp add: feed1_cases at_state_def feed_name_def)
  show ?case
  proof (rule takes_Cons)
    fix l
    let ?R = "\<lambda>r es q s. q = p \<and> (\<exists>fs. es = map MpHeaderField fs \<and> list_all (\<lambda>f. f \<noteq> []) fs \<and> concat fs @ s = r @ n)"
    have 1: "takes p r' n (?R r')" for r'
      using Cons by simp
    show "\<exists>es q s. feed1 p r c l = Some (es, q, s) \<and> takes q s n (\<lambda>es' q s. q = p \<and>
        (\<exists>fs. es @ es' = map MpHeaderField fs \<and> list_all (\<lambda>f. f \<noteq> []) fs \<and> concat fs @ s = r @ c # n))"
    proof (cases l)
      case True
      have "takes p [] n (\<lambda>es' q s. q = p \<and> (\<exists>fs. [MpHeaderField (r @ [c])] @ es' = map MpHeaderField fs \<and>
          list_all (\<lambda>f. f \<noteq> []) fs \<and> concat fs @ s = r @ c # n))"
        by (rule takes_mono[OF 1], clarify) (rule conjI, rule refl, rule_tac x = "(r @ [c]) # fs" in exI, simp)
      then show ?thesis using True by (simp add: f keep_def)
    next
      case False
      then show ?thesis using 1[of "r @ [c]"] by (simp add: f keep_def)
    qed
  qed
qed

lemma takes_value:
  "at_state b s_header_value p \<Longrightarrow> CR \<notin> set v \<Longrightarrow>
    takes p r (v @ crlf) (\<lambda>es q s. at_state b s_header_field_start q \<and> s = [] \<and>
      (\<exists>vs. es = map MpHeaderValue vs \<and> vs \<noteq> [] \<and> concat vs = r @ v))"
proof (induction v arbitrary: r)
  case Nil
  have "feed1 p r CR l = Some ([MpHeaderValue r], p\<lparr>mp_state := s_header_value_almost_done\<rparr>, [])" for l
    using Nil by (simp add: feed1_cases at_state_def feed_value_def)
  moreover have "feed1 (p\<lparr>mp_state := s_header_value_almost_done\<rparr>) [] LF l = Some ([], p\<lparr>mp_state := s_header_field_start\<rparr>, [])" for l
    by (simp add: feed1_cases advance_def mp_step_def)
  ultimately show ?case
    using Nil by (auto intro!: takes_Cons takes_Nil exI[of _ "[r]"] simp: at_state_def)
next
  case (Cons c v)
  have "c \<noteq> CR" using Cons.prems(2) by auto
  then have f: "feed1 p r c l = keep MpHeaderValue p r c l" for l
    using Cons.prems(1) by (simp add: feed1_cases at_state_def feed_value_def)
  have 1: "takes p r' (v @ crlf) (\<lambda>es q s. at_state b s_header_field_start q \<and> s = [] \<and>
      (\<exists>vs. es = map MpHeaderValue vs \<and> vs \<noteq> [] \<and> concat vs = r' @ v))" for r'
    using Cons by simp
  show ?case unfolding append_Cons
  proof (rule takes_Cons)
    fix l
    show "\<exists>es q s. feed1 p r c l = Some (es, q, s) \<and> takes q s (v @ crlf) (\<lambda>es' q s. at_state b s_header_field_start q \<and> s = [] \<and>
        (\<exists>vs. es @ es' = map MpHeaderValue vs \<and> vs \<noteq> [] \<and> concat vs = r @ c # v))"
    proof (cases l)
      case True
      have "takes p [] (v @ crlf) (\<lambda>es' q s. at_state b s_header_field_start q \<and> s = [] \<and>
          (\<exists>vs. [MpHeaderValue (r @ [c])] @ es' = map MpHeaderValue vs \<and> vs \<noteq> [] \<and> concat vs = r @ c # v))"
        by (rule takes_mono[OF 1], clarify) (simp, rule_tac x = "(r @ [c]) # vs" in exI, simp)
      then show ?thesis using True by (simp add: f keep_def)
    next
      case False
      then show ?thesis using 1[of "r @ [c]"] by (simp add: f keep_def)
    qed
  qed
qed

definition header_text :: "string \<times> string \<Rightarrow> string" where
  "header_text = (\<lambda>(n, v). n @ '': '' @ v @ crlf)"

text \<open>What the parser takes as a header, and gives back whole: it strips spaces before a value.\<close>

definition header_ok :: "string \<times> string \<Rightarrow> bool" where
  "header_ok = (\<lambda>(n, v). n \<noteq> [] \<and> list_all header_name_char n \<and> CR \<notin> set v \<and> (v \<noteq> [] \<longrightarrow> hd v \<noteq> CHR '' ''))"

definition header_callbacks :: "string list \<times> string list \<Rightarrow> mp_callback list" where
  "header_callbacks = (\<lambda>(fs, vs). map MpHeaderField fs @ map MpHeaderValue vs)"

lemma takes_value_start:
  assumes "at_state b s_header_value_start p" "CR \<notin> set v" "v \<noteq> [] \<longrightarrow> hd v \<noteq> CHR '' ''"
  shows "takes p r ('' '' @ v @ crlf) (\<lambda>es q s. at_state b s_header_field_start q \<and> s = [] \<and>
    (\<exists>vs. es = map MpHeaderValue vs \<and> vs \<noteq> [] \<and> concat vs = v))"
proof -
  let ?q = "p\<lparr>mp_state := s_header_value\<rparr>"
  obtain c w where w: "v @ crlf = c # w" "c \<noteq> CHR '' ''"
    using assms(3) by (cases v) auto
  have "takes ?q [] (v @ crlf) (\<lambda>es q s. at_state b s_header_field_start q \<and> s = [] \<and>
    (\<exists>vs. es = map MpHeaderValue vs \<and> vs \<noteq> [] \<and> concat vs = v))"
    using takes_value[of b ?q v "[]"] assms by (simp add: at_state_def)
  then have "takes p [] (v @ crlf) (\<lambda>es q s. at_state b s_header_field_start q \<and> s = [] \<and>
    (\<exists>vs. es = map MpHeaderValue vs \<and> vs \<noteq> [] \<and> concat vs = v))"
    unfolding w(1) by (rule takes_same)
      (use w(2) assms(1) in \<open>simp_all add: feed1_cases at_state_def\<close>)
  then show ?thesis
    using assms(1) by (auto intro!: takes_Cons simp: feed1_cases at_state_def)
qed

lemma takes_header:
  assumes "at_state b s_header_field_start p" "header_ok h"
  shows "takes p [] (header_text h) (\<lambda>es q s. at_state b s_header_field_start q \<and> s = [] \<and>
    (\<exists>x. es = header_callbacks x \<and> header_pieces h x))"
proof -
  obtain m v where m: "h = (m, v)" by (cases h)
  then obtain c n where "m = c # n" using assms(2) by (cases m) (simp_all add: header_ok_def)
  then have h: "h = (c # n, v)" "list_all header_name_char (c # n)" "CR \<notin> set v" "v \<noteq> [] \<longrightarrow> hd v \<noteq> CHR '' ''"
    using assms(2) m by (simp_all add: header_ok_def)
  let ?q = "p\<lparr>mp_state := s_header_field\<rparr>"
  have q: "at_state b s_header_field ?q" using assms(1) by (simp add: at_state_def)
  let ?R = "\<lambda>es q s. at_state b s_header_field_start q \<and> s = [] \<and> (\<exists>x. es = header_callbacks x \<and> header_pieces h x)"
  have "takes ?q [] ((c # n) @ ('':'' @ ('' '' @ v @ crlf))) ?R"
  proof (rule takes_append[OF takes_name[OF q h(2)]], clarify)
    fix s :: string and fs :: "string list"
    assume fs: "list_all (\<lambda>f. f \<noteq> []) fs" "concat fs @ s = [] @ c # n"
    have f: "feed1 ?q s CHR '':'' l = Some ([MpHeaderField s], p\<lparr>mp_state := s_header_value_start\<rparr>, [])" for l
      by (simp add: feed1_cases feed_name_def)
    have v: "takes (p\<lparr>mp_state := s_header_value_start\<rparr>) [] ('' '' @ v @ crlf) (\<lambda>es q s. at_state b s_header_field_start q \<and> s = [] \<and>
        (\<exists>vs. es = map MpHeaderValue vs \<and> vs \<noteq> [] \<and> concat vs = v))"
      by (rule takes_value_start) (use assms(1) h in \<open>simp_all add: at_state_def\<close>)
    have "header_pieces h (fs @ [s], vs)" if "vs \<noteq> []" "concat vs = v" for vs
      using fs that h(1) by (cases fs) (auto simp: header_pieces_def)
    then have "takes (p\<lparr>mp_state := s_header_value_start\<rparr>) [] ('' '' @ v @ crlf)
        (\<lambda>es'. ?R (map MpHeaderField fs @ [MpHeaderField s] @ es'))"
      by (intro takes_mono[OF v], clarify)
        (intro conjI refl exI[of _ "(fs @ [s], vs)" for vs], simp_all add: header_callbacks_def, blast)
    then have "takes ?q s (CHR '':'' # ('' '' @ v @ crlf)) (\<lambda>es'. ?R (map MpHeaderField fs @ es'))"
      by (intro takes_Cons) (simp add: f)
    then show "takes ?q s ('':'' @ '' '' @ v @ crlf) (\<lambda>es'. ?R (map MpHeaderField fs @ es'))"
      by simp
  qed
  then have "takes ?q [] (c # (n @ '': '' @ v @ crlf)) ?R" by simp
  then have "takes p [] (c # (n @ '': '' @ v @ crlf)) ?R"
    by (rule takes_same) (use assms(1) in \<open>simp_all add: feed1_cases at_state_def\<close>)
  then show ?thesis by (simp add: header_text_def h(1))
qed

lemma takes_headers:
  "at_state b s_header_field_start p \<Longrightarrow> list_all header_ok hs \<Longrightarrow>
    takes p [] (concat (map header_text hs)) (\<lambda>es q s. at_state b s_header_field_start q \<and> s = [] \<and>
      (\<exists>xs. es = concat (map header_callbacks xs) \<and> list_all2 header_pieces hs xs))"
proof (induction hs arbitrary: p)
  case Nil
  then show ?case by (auto intro!: takes_Nil)
next
  case (Cons h hs)
  have "takes p [] (header_text h @ concat (map header_text hs)) (\<lambda>es q s. at_state b s_header_field_start q \<and> s = [] \<and>
      (\<exists>xs. es = concat (map header_callbacks xs) \<and> list_all2 header_pieces (h # hs) xs))"
  proof (rule takes_append[OF takes_header], fact, use Cons.prems in simp, clarify)
    fix q fs vs assume q: "at_state b s_header_field_start q" "header_pieces h (fs, vs)"
    have "list_all header_ok hs" using Cons.prems by simp
    then show "takes q [] (concat (map header_text hs)) (\<lambda>es' q s. at_state b s_header_field_start q \<and> s = [] \<and>
      (\<exists>xs. header_callbacks (fs, vs) @ es' = concat (map header_callbacks xs) \<and> list_all2 header_pieces (h # hs) xs))"
      by (rule takes_mono[OF Cons.IH[OF q(1)]], clarify) (simp, rule_tac x = "(fs, vs) # xs" in exI, simp add: q(2))
  qed
  then show ?case by simp
qed

subsection \<open>Data\<close>

text \<open>The delimiter of a part: a line break and the dashed boundary.\<close>

abbreviation delimiter :: "string \<Rightarrow> string" where "delimiter b \<equiv> crlf @ b"

text \<open>
  A boundary the parser can tell from data: not empty, without a line break or a zero byte.
\<close>

definition boundary_ok :: "string \<Rightarrow> bool" where
  "boundary_ok b \<longleftrightarrow> b \<noteq> [] \<and> CR \<notin> set b \<and> CHR 0x00 \<notin> set b"

definition data_read :: "string \<Rightarrow> string \<Rightarrow> mp_callback list \<Rightarrow> multipart_parser \<Rightarrow> string \<Rightarrow> bool" where
  "data_read b d es q s \<longleftrightarrow> at_state b s_part_data_almost_end q \<and> s = [] \<and>
     (\<exists>ds. es = map MpData ds @ [MpDataEnd] \<and> concat ds = d)"

lemma data_read_more: "data_read b d es q s \<Longrightarrow> data_read b (x @ d) (MpData x # es) q s"
  unfolding data_read_def by (metis append_Cons concat.simps(2) list.simps(9))

lemma takes_boundary:
  assumes "boundary_ok b"
  shows "at_state b s_part_data_boundary p \<Longrightarrow> mp_index p < length b \<Longrightarrow>
    takes p [] (drop (mp_index p) b) (data_read b [])"
proof (induction "length b - mp_index p" arbitrary: p)
  case (Suc n)
  let ?k = "mp_index p"
  have d: "drop ?k b = b ! ?k # drop (Suc ?k) b"
    using Suc.prems(2) by (simp add: Cons_nth_drop_Suc)
  let ?q = "(look (2 + ?k) (b ! ?k) p)\<lparr>mp_index := Suc ?k\<rparr>"
  have f: "feed1 p [] (b ! ?k) l = (if Suc ?k = length b then Some ([MpDataEnd], ?q\<lparr>mp_state := s_part_data_almost_end\<rparr>, [])
      else Some ([], ?q, []))" for l
    using Suc.prems by (simp add: feed1_cases at_state_def boundary_at_def boundary_length_def advance_def
        in_part_data_boundary_def look_def Let_def)
  show ?case unfolding d
  proof (rule takes_Cons, cases "Suc ?k = length b")
    case True
    then show "\<exists>es q s. feed1 p [] (b ! ?k) l = Some (es, q, s) \<and> takes q s (drop (Suc ?k) b) (\<lambda>es'. data_read b [] (es @ es'))" for l
      using Suc.prems by (auto intro!: takes_Nil simp: f data_read_def at_state_def look_def)
  next
    case False
    then have "takes ?q [] (drop (Suc ?k) b) (data_read b [])"
      using Suc(1)[of ?q] Suc(2-) by (simp add: at_state_def look_def)
    then show "\<exists>es q s. feed1 p [] (b ! ?k) l = Some (es, q, s) \<and> takes q s (drop (Suc ?k) b) (\<lambda>es'. data_read b [] (es @ es'))" for l
      using False by (simp add: f)
  qed
qed simp

text \<open>What the parser looked at when a possible boundary turns out to be data.\<close>

lemma takes_scan:
  assumes "boundary_ok b"
    and data: "\<And>v q. length v \<le> length u \<Longrightarrow> \<not> sublist (delimiter b) v \<Longrightarrow> at_state b s_part_data q \<Longrightarrow>
      takes q [] (v @ delimiter b) (data_read b v)"
  shows "at_state b s_part_data_boundary p \<Longrightarrow> mp_index p = k \<Longrightarrow> k < length b \<Longrightarrow>
    take (2 + k) (lookbehind p) = crlf @ take k b \<Longrightarrow> \<not> prefix (drop k b) u \<Longrightarrow> \<not> sublist (delimiter b) u \<Longrightarrow>
    takes p [] (u @ delimiter b) (data_read b (crlf @ take k b @ u))"
  using data
proof (induction u arbitrary: p k)
  case Nil
  let ?q = "p\<lparr>mp_state := s_part_data\<rparr>"
  have "b ! k \<noteq> CR"
    using assms(1) nth_mem[OF Nil.prems(3)] by (auto simp: boundary_ok_def)
  then have f: "feed1 p [] CR l = prepend [MpData (crlf @ take k b)] (feed1 ?q [] CR l)" for l
    using Nil.prems by (simp add: feed1_cases at_state_def boundary_at_def boundary_length_def)
  have "takes ?q [] (delimiter b) (data_read b [])"
    using Nil.prems(7)[of "[]" ?q] Nil.prems(1) by (simp add: at_state_def)
  then have "takes ?q [] (CR # LF # b) (\<lambda>es'. data_read b (crlf @ take k b) ([MpData (crlf @ take k b)] @ es'))"
    by (simp, elim takes_mono) (use data_read_more[of b "[]" _ _ _ "crlf @ take k b"] in simp)
  from takes_as[OF f this] show ?case by simp
next
  case (Cons x u)
  show ?case
  proof (cases "b ! k = x")
    case True
    let ?q = "(look (2 + k) x p)\<lparr>mp_index := Suc k\<rparr>"
    have d: "drop k b = x # drop (Suc k) b"
      using Cons.prems(3) True by (simp add: Cons_nth_drop_Suc[symmetric])
    have k: "Suc k < length b"
    proof (rule ccontr)
      assume "\<not> Suc k < length b"
      then have "drop k b = [x]" using d by simp
      then show False using Cons.prems(5) by simp
    qed
    have f: "feed1 p [] x l = Some ([], ?q, [])" for l
      using Cons.prems(1-3) True k by (simp add: feed1_cases at_state_def boundary_at_def boundary_length_def advance_def
        in_part_data_boundary_def look_def Let_def)
    have "takes ?q [] (u @ delimiter b) (data_read b (crlf @ take (Suc k) b @ u))"
    proof (rule Cons.IH[of ?q "Suc k"])
      show "take (2 + Suc k) (lookbehind ?q) = crlf @ take (Suc k) b"
        using Cons.prems(4) True Cons.prems(3)
        by (simp add: look_def take_Suc_conv_app_nth)
      show "\<not> sublist (delimiter b) u" using Cons.prems(6) by (simp add: sublist_Cons_right)
      show "takes q [] (v @ delimiter b) (data_read b v)" if "length v \<le> length u" "\<not> sublist (delimiter b) v" "at_state b s_part_data q" for v q
        using Cons.prems(7) that by simp
    qed (use Cons.prems k d in \<open>simp_all add: at_state_def look_def\<close>)
    then have t: "takes ?q [] (u @ delimiter b) (\<lambda>es'. data_read b (crlf @ take k b @ x # u) ([] @ es'))"
      using True Cons.prems(3) by (simp add: take_Suc_conv_app_nth)
    show ?thesis
      unfolding append_Cons[of x] by (rule takes_step[OF f t])
  next
    case False
    let ?q = "p\<lparr>mp_state := s_part_data\<rparr>"
    have f: "feed1 p [] x l = prepend [MpData (crlf @ take k b)] (feed1 ?q [] x l)" for l
      using Cons.prems(1-4) False by (simp add: feed1_cases at_state_def boundary_at_def boundary_length_def)
    have "takes ?q [] ((x # u) @ delimiter b) (data_read b (x # u))"
      using Cons.prems(7)[of "x # u" ?q] Cons.prems(1,6) by (simp add: at_state_def)
    then have "takes ?q [] (x # u @ delimiter b) (\<lambda>es'. data_read b (crlf @ take k b @ x # u) ([MpData (crlf @ take k b)] @ es'))"
      by (simp, elim takes_mono) (use data_read_more[of b "x # u" _ _ _ "crlf @ take k b"] in simp)
    from takes_as[OF f this] show ?thesis by simp
  qed
qed

lemma takes_data:
  "boundary_ok b \<Longrightarrow> \<not> sublist (delimiter b) d \<Longrightarrow> at_state b s_part_data p \<Longrightarrow>
    takes p r (d @ delimiter b) (data_read b (r @ d))"
proof (induction "length d" arbitrary: d p r rule: less_induct)
  case less
  have data: "takes q [] (v @ delimiter b) (data_read b v)"
    if "length v < length d" "\<not> sublist (delimiter b) v" "at_state b s_part_data q" for v q
    using less(1)[of v q "[]"] that less(2) by simp
  have cr: "feed1 p r CR l = Some ([MpData r], look 0 CR (p\<lparr>mp_state := s_part_data_almost_boundary\<rparr>), [])" for l
    using less(4) by (simp add: feed1_cases at_state_def feed_data_def)
  let ?a = "look 0 CR (p\<lparr>mp_state := s_part_data_almost_boundary\<rparr>)"
  let ?n = "(look 1 LF ?a)\<lparr>mp_state := s_part_data_boundary, mp_index := 0\<rparr>"
  have lf: "feed1 ?a [] LF l = Some ([], ?n, [])" for l
    by (simp add: feed1_cases look_def)
  have n: "at_state b s_part_data_boundary ?n" "mp_index ?n = 0" "take (2 + 0) (lookbehind ?n) = crlf @ take 0 b"
    using less(4) by (simp_all add: at_state_def look_def)
  have b: "0 < length b" using less(2) by (simp add: boundary_ok_def)
  show ?case
  proof (cases d)
    case Nil
    have "takes ?n [] b (data_read b [])"
      using takes_boundary[OF less(2) n(1)] n(2) b by simp
    then have "takes ?a [] (LF # b) (data_read b [])"
      by (intro takes_silent[OF lf]) simp
    then have "takes ?a [] (LF # b) (\<lambda>es'. data_read b r ([MpData r] @ es'))"
      by (elim takes_mono) (use data_read_more[of b "[]" _ _ _ r] in simp)
    then have "takes p r (CR # LF # b) (data_read b r)"
      by (rule takes_step[OF cr])
    then show ?thesis using Nil by simp
  next
    case (Cons c e)
    have e: "\<not> sublist (delimiter b) e" using less(3) Cons by (simp add: sublist_Cons_right)
    show ?thesis
    proof (cases "c = CR")
      case False
      have k: "feed1 p r c l = keep MpData p r c l" for l
        using False less(4) by (simp add: feed1_cases at_state_def feed_data_def)
      have t: "takes p r' (e @ delimiter b) (data_read b (r' @ e))" for r'
        using less(1)[of e p r'] Cons e less(2,4) by simp
      have "\<exists>es q s. feed1 p r c l = Some (es, q, s) \<and> takes q s (e @ delimiter b) (\<lambda>es'. data_read b (r @ c # e) (es @ es'))" for l
      proof (cases l)
        case True
        have "takes p [] (e @ delimiter b) (\<lambda>es'. data_read b (r @ c # e) ([MpData (r @ [c])] @ es'))"
          using t[of "[]"] by (elim takes_mono) (use data_read_more[of b e _ _ _ "r @ [c]"] in simp)
        then show ?thesis using True by (simp add: k keep_def)
      next
        case False
        then show ?thesis using t[of "r @ [c]"] by (simp add: k keep_def)
      qed
      then show ?thesis unfolding Cons append_Cons by (rule takes_Cons)
    next
      case True
      have "takes ?a [] (e @ delimiter b) (data_read b (CR # e))"
      proof (cases "\<exists>u. e = LF # u")
        case True
        then obtain u where u: "e = LF # u" ..
        have "\<not> sublist (delimiter b) u" using e u by (simp add: sublist_Cons_right)
        moreover have "\<not> prefix (drop 0 b) u"
        proof
          assume "prefix (drop 0 b) u"
          then have "prefix (delimiter b) d" using Cons \<open>c = CR\<close> u by simp
          then show False using less(3) prefix_imp_sublist by blast
        qed
        ultimately have "takes ?n [] (u @ delimiter b) (data_read b (crlf @ take 0 b @ u))"
          using Cons u by (intro takes_scan[OF less(2) data n(1,2) b n(3)]) simp_all
        then have "takes ?a [] (LF # u @ delimiter b) (data_read b (crlf @ u))"
          by (intro takes_silent[OF lf]) simp
        then show ?thesis by (simp add: u)
      next
        case False
        obtain x w where w: "e @ delimiter b = x # w" "x \<noteq> LF"
          using False by (cases e) auto
        let ?q = "?a\<lparr>mp_state := s_part_data\<rparr>"
        have f: "feed1 ?a [] x l = prepend [MpData [CR]] (feed1 ?q [] x l)" for l
          using w(2) by (simp add: feed1_cases look_def)
        have "takes ?q [] (e @ delimiter b) (data_read b e)"
          by (rule data) (use Cons e less(4) in \<open>simp_all add: at_state_def look_def\<close>)
        then have "takes ?q [] (x # w) (\<lambda>es'. data_read b (CR # e) ([MpData [CR]] @ es'))"
          unfolding w(1) by (elim takes_mono) (use data_read_more[of b e _ _ _ "[CR]"] in simp)
        from takes_as[OF f this] show ?thesis by (simp only: w(1))
      qed
      then have "takes ?a [] (e @ delimiter b) (\<lambda>es'. data_read b (r @ CR # e) ([MpData r] @ es'))"
        by (elim takes_mono) (use data_read_more[of b "CR # e" _ _ _ r] in simp)
      then have "takes p r (CR # e @ delimiter b) (data_read b (r @ CR # e))"
        by (rule takes_step[OF cr])
      then show ?thesis using Cons \<open>c = CR\<close> by simp
    qed
  qed
qed

section \<open>Parts and bodies\<close>

definition part_text :: "(string \<times> string) list \<times> string \<Rightarrow> string" where
  "part_text = (\<lambda>(hs, d). concat (map header_text hs) @ crlf @ d @ crlf)"

text \<open>A body as RFC 2046 has it: a dashed boundary before every part and, with two more dashes, at the end.\<close>

definition body_text :: "string \<Rightarrow> ((string \<times> string) list \<times> string) list \<Rightarrow> string \<Rightarrow> string" where
  "body_text b ps epilogue = concat (map (\<lambda>p. b @ crlf @ part_text p) ps) @ b @ ''--'' @ epilogue"

definition sent_ok :: "string \<Rightarrow> (string \<times> string) list \<times> string \<Rightarrow> bool" where
  "sent_ok b = (\<lambda>(hs, d). list_all header_ok hs \<and> \<not> sublist (delimiter b) d)"

type_synonym part_cut = "(string list \<times> string list) list \<times> string list"

definition part_callbacks :: "part_cut \<Rightarrow> mp_callback list" where
  "part_callbacks = (\<lambda>(xs, ds). concat (map header_callbacks xs) @ [MpHeadersComplete] @ map MpData ds @ [MpDataEnd])"

definition part_cut :: "(string \<times> string) list \<times> string \<Rightarrow> part_cut \<Rightarrow> bool" where
  "part_cut = (\<lambda>(hs, d) (xs, ds). list_all2 header_pieces hs xs \<and> concat ds = d)"

lemma takes_headers_end:
  assumes "at_state b s_header_field_start p"
  shows "takes p [] crlf (\<lambda>es q s. at_state b s_part_data_start q \<and> es = [] \<and> s = [])"
proof -
  have 1: "feed1 p [] CR l = Some ([], p\<lparr>mp_state := s_headers_almost_done\<rparr>, [])" for l
    using assms by (simp add: feed1_cases at_state_def feed_name_def)
  have 2: "feed1 (p\<lparr>mp_state := s_headers_almost_done\<rparr>) [] LF l = Some ([], p\<lparr>mp_state := s_part_data_start\<rparr>, [])" for l
    by (simp add: feed1_cases advance_def mp_step_def)
  show ?thesis
    by (intro takes_silent[OF 1] takes_silent[OF 2] takes_Nil) (use assms in \<open>simp add: at_state_def\<close>)
qed

lemma takes_part_data:
  assumes "boundary_ok b" "\<not> sublist (delimiter b) d" "at_state b s_part_data_start p"
  shows "takes p [] (d @ delimiter b) (\<lambda>es q s. at_state b s_part_data_almost_end q \<and> s = [] \<and>
    (\<exists>ds. es = [MpHeadersComplete] @ map MpData ds @ [MpDataEnd] \<and> concat ds = d))"
proof -
  let ?q = "p\<lparr>mp_state := s_part_data\<rparr>"
  have "takes ?q [] (d @ delimiter b) (data_read b d)"
    using takes_data[OF assms(1,2), of ?q "[]"] assms(3) by (simp add: at_state_def)
  then have t: "takes ?q [] (d @ delimiter b) (\<lambda>es' q s. at_state b s_part_data_almost_end q \<and> s = [] \<and>
      (\<exists>ds. [MpHeadersComplete] @ es' = [MpHeadersComplete] @ map MpData ds @ [MpDataEnd] \<and> concat ds = d))"
    by (elim takes_mono) (auto simp: data_read_def)
  obtain x w where w: "d @ delimiter b = x # w" by (cases d) auto
  have f: "feed1 p [] x l = prepend [MpHeadersComplete] (feed1 ?q [] x l)" for l
    using assms(3) by (simp add: feed1_cases at_state_def)
  show ?thesis unfolding w by (rule takes_as[OF f t[unfolded w]])
qed

lemma takes_part:
  assumes "boundary_ok b" "sent_ok b part" "at_state b s_header_field_start p"
  shows "takes p [] (part_text part @ b) (\<lambda>es q s. at_state b s_part_data_almost_end q \<and> s = [] \<and>
    (\<exists>x. es = part_callbacks x \<and> part_cut part x))"
proof -
  obtain hs d where p: "part = (hs, d)" "list_all header_ok hs" "\<not> sublist (delimiter b) d"
    using assms(2) by (cases part) (simp add: sent_ok_def)
  let ?R = "\<lambda>es q s. at_state b s_part_data_almost_end q \<and> s = [] \<and> (\<exists>x. es = part_callbacks x \<and> part_cut part x)"
  have "takes p [] (concat (map header_text hs) @ crlf @ d @ delimiter b) ?R"
  proof (rule takes_append[OF takes_headers[OF assms(3) p(2)]], elim conjE exE, hypsubst)
    fix q xs assume q: "at_state b s_header_field_start q" and xs: "list_all2 header_pieces hs xs"
    show "takes q [] (crlf @ d @ delimiter b) (\<lambda>es'. ?R (concat (map header_callbacks xs) @ es'))"
    proof (rule takes_append[OF takes_headers_end[OF q]], elim conjE, hypsubst)
      fix q' assume q': "at_state b s_part_data_start q'"
      show "takes q' [] (d @ delimiter b) (\<lambda>es'. ?R (concat (map header_callbacks xs) @ [] @ es'))"
        by (rule takes_mono[OF takes_part_data[OF assms(1) p(3) q']], elim conjE exE)
          (use xs in \<open>auto simp: p(1) part_callbacks_def part_cut_def\<close>)
    qed
  qed
  then show ?thesis by (simp add: p(1) part_text_def)
qed

text \<open>What follows a boundary: another part, or the end.\<close>

fun after_boundary :: "string \<Rightarrow> ((string \<times> string) list \<times> string) list \<Rightarrow> string \<Rightarrow> string" where
  "after_boundary b [] epilogue = ''--'' @ epilogue"
| "after_boundary b (p # ps) epilogue = crlf @ (part_text p @ b) @ after_boundary b ps epilogue"

lemma body_text_after: "body_text b ps epilogue = b @ after_boundary b ps epilogue"
  by (induction ps) (simp_all add: body_text_def)

definition parts_callbacks :: "part_cut list \<Rightarrow> mp_callback list" where
  "parts_callbacks xs = concat (map (\<lambda>x. MpDataBegin # part_callbacks x) xs) @ [MpBodyEnd]"

lemma takes_end: "mp_state p = s_end \<Longrightarrow> takes p [] w (\<lambda>es q s. es = [] \<and> s = [])"
proof (induction w)
  case (Cons c w)
  then have "feed1 p [] c l = Some ([], p, [])" for l
    by (simp add: feed1_cases advance_def mp_step_def)
  then show ?case using Cons by (intro takes_silent)
qed (simp add: takes_Nil)

lemma takes_parts:
  assumes "boundary_ok b"
  shows "list_all (sent_ok b) ps \<Longrightarrow> at_state b s_part_data_almost_end p \<Longrightarrow>
    takes p [] (after_boundary b ps epilogue) (\<lambda>es q s. s = [] \<and> (\<exists>xs. es = parts_callbacks xs \<and> list_all2 part_cut ps xs))"
proof (induction ps arbitrary: p)
  case Nil
  have 1: "feed1 p [] CHR ''-'' l = Some ([], p\<lparr>mp_state := s_part_data_final_hyphen\<rparr>, [])" for l
    using Nil by (simp add: feed1_cases at_state_def advance_def mp_step_def)
  have 2: "feed1 (p\<lparr>mp_state := s_part_data_final_hyphen\<rparr>) [] CHR ''-'' l = Some ([MpBodyEnd], p\<lparr>mp_state := s_end\<rparr>, [])" for l
    by (simp add: feed1_cases advance_def mp_step_def)
  have "takes (p\<lparr>mp_state := s_end\<rparr>) [] epilogue (\<lambda>es' q s. s = [] \<and>
      (\<exists>xs. [MpBodyEnd] @ es' = parts_callbacks xs \<and> list_all2 part_cut [] xs))"
    by (rule takes_mono[OF takes_end]) (auto simp: parts_callbacks_def)
  from takes_silent[OF 1 takes_step[OF 2 this]] show ?case by simp
next
  case (Cons part ps)
  let ?R = "\<lambda>es q s. s = [] \<and> (\<exists>xs. es = parts_callbacks xs \<and> list_all2 part_cut (part # ps) xs)"
  let ?q = "p\<lparr>mp_state := s_header_field_start\<rparr>"
  have 1: "feed1 p [] CR l = Some ([], p\<lparr>mp_state := s_part_data_end\<rparr>, [])" for l
    using Cons.prems by (simp add: feed1_cases at_state_def advance_def mp_step_def)
  have 2: "feed1 (p\<lparr>mp_state := s_part_data_end\<rparr>) [] LF l = Some ([MpDataBegin], ?q, [])" for l
    by (simp add: feed1_cases advance_def mp_step_def)
  have q: "at_state b s_header_field_start ?q" "sent_ok b part" "list_all (sent_ok b) ps"
    using Cons.prems by (simp_all add: at_state_def)
  have "takes ?q [] ((part_text part @ b) @ after_boundary b ps epilogue) (\<lambda>es'. ?R ([MpDataBegin] @ es'))"
  proof (rule takes_append[OF takes_part[OF assms q(2,1)]], elim conjE exE, hypsubst)
    fix q' x assume q': "at_state b s_part_data_almost_end q'" and x: "part_cut part x"
    show "takes q' [] (after_boundary b ps epilogue) (\<lambda>es'. ?R ([MpDataBegin] @ part_callbacks x @ es'))"
      by (rule takes_mono[OF Cons.IH[OF q(3) q']], elim conjE exE, hypsubst)
        (rule conjI, rule refl, rule_tac x = "x # xs" in exI, simp add: x parts_callbacks_def)
  qed
  from takes_silent[OF 1 takes_step[OF 2 this]] show ?case by simp
qed

text \<open>The boundary before the first part has no line break in front.\<close>

lemma takes_start_boundary:
  "boundary_ok b \<Longrightarrow> at_state b s_start_boundary p \<Longrightarrow> mp_index p \<le> length b \<Longrightarrow>
    takes p [] (drop (mp_index p) b @ crlf) (\<lambda>es q s. at_state b s_header_field_start q \<and> es = [MpDataBegin] \<and> s = [])"
proof (induction "length b - mp_index p" arbitrary: p)
  case 0
  then have i: "mp_index p = length b" by simp
  have 1: "feed1 p [] CR l = Some ([], p\<lparr>mp_index := Suc (length b)\<rparr>, [])" for l
    using 0 i by (simp add: feed1_cases at_state_def advance_def mp_step_def in_start_boundary_def boundary_length_def)
  have 2: "feed1 (p\<lparr>mp_index := Suc (length b)\<rparr>) [] LF l =
      Some ([MpDataBegin], p\<lparr>mp_index := 0, mp_state := s_header_field_start\<rparr>, [])" for l
    using 0 by (simp add: feed1_cases at_state_def advance_def mp_step_def in_start_boundary_def boundary_length_def)
  show ?case
    using takes_silent[OF 1 takes_step[OF 2 takes_Nil]] 0 i by (simp add: at_state_def)
next
  case (Suc n)
  let ?k = "mp_index p"
  have k: "?k < length b" using Suc(2) by simp
  have d: "drop ?k b = b ! ?k # drop (Suc ?k) b" using k by (simp add: Cons_nth_drop_Suc)
  have f: "feed1 p [] (b ! ?k) l = Some ([], p\<lparr>mp_index := Suc ?k\<rparr>, [])" for l
    using Suc.prems k by (simp add: feed1_cases at_state_def advance_def mp_step_def in_start_boundary_def
        boundary_length_def boundary_at_def)
  have "takes (p\<lparr>mp_index := Suc ?k\<rparr>) [] (drop (Suc ?k) b @ crlf)
      (\<lambda>es q s. at_state b s_header_field_start q \<and> es = [MpDataBegin] \<and> s = [])"
    using Suc(1)[of "p\<lparr>mp_index := Suc ?k\<rparr>"] Suc(2-) by (simp add: at_state_def)
  from takes_silent[OF f this] show ?case by (simp add: d)
qed

lemma takes_body:
  assumes "boundary_ok b" "list_all (sent_ok b) ps" "ps \<noteq> []"
  shows "takes (multipart_parser_init b) [] (body_text b ps epilogue)
    (\<lambda>es q s. s = [] \<and> (\<exists>xs. es = parts_callbacks xs \<and> list_all2 part_cut ps xs))"
proof -
  obtain part ps' where ps: "ps = part # ps'" using assms(3) by (cases ps) auto
  let ?p = "multipart_parser_init b" and ?R = "\<lambda>es q s. s = [] \<and> (\<exists>xs. es = parts_callbacks xs \<and> list_all2 part_cut ps xs)"
  have b: "takeWhile (\<lambda>c. c \<noteq> CHR 0x00) b = b"
    using assms(1) by (auto simp: boundary_ok_def takeWhile_eq_all_conv)
  let ?q = "?p\<lparr>mp_state := s_start_boundary\<rparr>"
  have p: "?p = \<lparr>mp_index = 0, mp_state = s_start, lookbehind = [], multipart_boundary = b\<rparr>"
    unfolding multipart_parser_init_def b ..
  obtain x w where w: "b @ crlf = x # w" by (cases b) auto
  have q: "takes ?q [] (b @ crlf) (\<lambda>es q s. at_state b s_header_field_start q \<and> es = [MpDataBegin] \<and> s = [])"
    using takes_start_boundary[OF assms(1), of ?q] unfolding p by (simp add: at_state_def)
  have "feed1 ?p [] x l = feed1 ?q [] x l" for l
    by (simp add: feed1_cases mp_step_def multipart_parser_init_def)
  from takes_same[OF q[unfolded w] this]
  have s: "takes ?p [] (b @ crlf) (\<lambda>es q s. at_state b s_header_field_start q \<and> es = [MpDataBegin] \<and> s = [])"
    by (simp only: w)
  have "takes ?p [] ((b @ crlf) @ (part_text part @ b) @ after_boundary b ps' epilogue) ?R"
  proof (rule takes_append[OF s], elim conjE, hypsubst)
    fix q assume q: "at_state b s_header_field_start q"
    have "sent_ok b part" using assms(2) ps by simp
    then show "takes q [] ((part_text part @ b) @ after_boundary b ps' epilogue) (\<lambda>es'. ?R ([MpDataBegin] @ es'))"
    proof (rule takes_append[OF takes_part[OF assms(1) _ q]], elim conjE exE, hypsubst)
      fix q' y assume q': "at_state b s_part_data_almost_end q'" and y: "part_cut part y"
      have "list_all (sent_ok b) ps'" using assms(2) ps by simp
      then show "takes q' [] (after_boundary b ps' epilogue) (\<lambda>es'. ?R ([MpDataBegin] @ part_callbacks y @ es'))"
        by (rule takes_mono[OF takes_parts[OF assms(1) _ q']], elim conjE exE, hypsubst)
          (rule conjI, rule refl, rule_tac x = "y # xs" in exI, simp add: ps y parts_callbacks_def)
    qed
  qed
  then show ?thesis by (simp add: body_text_after ps)
qed

text \<open>The callbacks for the pieces of a body, if the parser takes all of them.\<close>

fun execute_all :: "multipart_parser \<Rightarrow> string list \<Rightarrow> mp_callback list option" where
  "execute_all p [] = Some []"
| "execute_all p (b # bs) =
     (case multipart_parser_execute p b of (es, n, q) \<Rightarrow>
        if n = length b then map_option ((@) es) (execute_all q bs) else None)"

lemma execute_all_feed:
  "feed p [] (concat (map flag bs)) = Some (es, q, s) \<Longrightarrow> execute_all p bs = Some es"
proof (induction bs arbitrary: p es)
  case (Cons b bs)
  obtain e1 q1 s1 e2 where f: "feed p [] (flag b) = Some (e1, q1, s1)" "feed q1 s1 (concat (map flag bs)) = Some (e2, q, s)"
      "es = e1 @ e2"
    using Cons.prems by (auto simp: feed_append prepend_eq_Some split: option.splits)
  then show ?case
    using execute_feed[OF f(1)] Cons.IH[of q1 e2] by simp
qed simp

end
