(* ===== verification/HttpUpload.thy ===== *)
theory HttpUpload
  imports HttpMultipart MultipartBody
begin

text \<open>
  The connection and the multipart parser together: what a client puts into a multipart body is
  what the request has, whatever the cuts between the reads.
\<close>

section \<open>The parser of the code in the connection\<close>

definition parsing_env :: "(multipart_parser, 'h, 'r, 'i) conn_env \<Rightarrow> (multipart_parser, 'h, 'r, 'i) conn_env" where
  "parsing_env E = E\<lparr>c_mp_init := multipart_parser_init, c_mp_execute := multipart_parser_execute\<rparr>"

lemma parsing_env_fields [simp]:
  "c_mp_init (parsing_env E) = multipart_parser_init"
  "c_mp_execute (parsing_env E) = multipart_parser_execute"
  "c_algo (parsing_env E) = c_algo E"
  by (simp_all add: parsing_env_def)

lemma mp_events_execute_all: "mp_events (parsing_env E) p bs = execute_all p bs"
  by (induction bs arbitrary: p) (simp_all split: prod.splits)

section \<open>Sent parts and received parts\<close>

type_synonym sent_part = "(string \<times> string) list \<times> string"

definition received :: "boost_algo \<Rightarrow> sent_part \<Rightarrow> MultiPart" where
  "received B = (\<lambda>(hs, d). \<lparr>mp_headers = put_all B [] hs, mp_data = d, transfer_result = transfer_none\<rparr>)"

lemma header_callbacks_events: "header_callbacks = mp_header_events"
  by (simp add: header_callbacks_def mp_header_events_def fun_eq_iff)

lemma part_callbacks_events: "MpDataBegin # part_callbacks x = part_events x"
  by (cases x) (simp add: part_callbacks_def part_events_def header_callbacks_events)

lemma header_pieces_whole:
  "list_all2 header_pieces hs xs \<Longrightarrow> map whole xs = hs \<and> list_all mp_pieces_ok xs"
  by (induction rule: list_all2_induct) (auto simp: header_pieces_def mp_pieces_ok_def)

lemma part_cut_received:
  assumes "part_cut p x" "distinct (names (fst p))"
  shows "part_ok x \<and> whole_part B x = received B p"
proof -
  obtain hs d xs ds where p: "p = (hs, d)" "x = (xs, ds)" by (cases p, cases x)
  then have "list_all2 header_pieces hs xs" "concat ds = d"
    using assms(1) by (simp_all add: part_cut_def)
  then show ?thesis
    using header_pieces_whole[of hs xs] assms(2) p by (auto simp: part_ok_def whole_part_def received_def)
qed

lemma parts_cut_received:
  "list_all2 part_cut ps xs \<Longrightarrow> list_all (\<lambda>p. distinct (names (fst p))) ps \<Longrightarrow>
    list_all part_ok xs \<and> map (whole_part B) xs = map (received B) ps"
  by (induction rule: list_all2_induct) (simp_all add: part_cut_received)

text \<open>
  (C26) What is uploaded arrives.  A client sends a multipart body: at least one part, the names
  of its headers of letters and dashes, no value that begins with a space or has a line break,
  no data that contains the delimiter.  However the reads cut the body, as long as no piece is
  over the limit of the application, the connection and its multipart parser take all of it, and
  the request gains exactly the parts that were sent, in order, each with its headers and its
  data byte by byte; what follows the last boundary is ignored.
\<close>

theorem uploaded_parts_arrive:
  assumes "boost_laws (c_algo E)"
    and "multipart_bit (conn_request c)" "mp_parser c = None" "body_buffer c = []" "reading_part c = new_MultiPart"
    and "boundary_ok b" "ps \<noteq> []" "list_all (sent_ok (''--'' @ b)) ps" "list_all (\<lambda>p. distinct (names (fst p))) ps"
    and "concat bs = body_text (''--'' @ b) ps epilogue" "list_all (\<lambda>s. length s div 1024 \<le> upload_limit_kb c) bs"
  shows "\<exists>c'. execute (parsing_env E) (map Body bs) (init_multipart_parser (parsing_env E) b c) = (c', Go) \<and>
    body_buffer c' = [] \<and>
    multiparts (conn_request c') = multiparts (conn_request c) @ map (received (c_algo E)) ps"
proof -
  let ?b = "''--'' @ b" and ?c = "init_multipart_parser (parsing_env E) b c"
  have "boundary_ok ?b" using assms(6) by (auto simp: boundary_ok_def)
  from takes_body[OF this assms(8,7), of epilogue]
  obtain es q xs where x: "feed (multipart_parser_init ?b) [] (concat (map flag bs)) = Some (es, q, [])"
      "es = parts_callbacks xs" "list_all2 part_cut ps xs"
    using assms(10) by (auto simp: takes_def map_concat comp_def dest!: spec[of _ "concat (map flag bs)"])
  have "mp_events (parsing_env E) (multipart_parser_init ?b) bs = Some (concat (map part_events xs) @ [MpBodyEnd])"
    unfolding mp_events_execute_all execute_all_feed[OF x(1)] x(2)
    by (simp add: parts_callbacks_def part_callbacks_events)
  moreover have c: "?c = c\<lparr>mp_parser := Some (multipart_parser_init ?b)\<rparr>"
    using assms(3) by (simp add: init_multipart_parser_def)
  ultimately show ?thesis
    using multipart_body_in_pieces[of "parsing_env E" xs ?c "multipart_parser_init ?b" bs]
      parts_cut_received[OF x(3) assms(9), of "c_algo E"] assms
    by (simp add: upload_limit_kb_def)
qed

text \<open>The witness: two parts, and cuts inside a header name, a delimiter and the data.\<close>

definition demo_upload_conn :: "(multipart_parser, nat, unit, unit) Connection" where
  "demo_upload_conn = (new_Connection boost_classic (\<lambda>f. None))\<lparr>conn_request := blank_Request\<lparr>multipart_bit := True\<rparr>\<rparr>"

definition demo_upload_env :: "(multipart_parser, nat, unit, unit) conn_env" where
  "demo_upload_env = \<lparr>c_algo = boost_classic, c_parse_url = (\<lambda>u. None), c_find_app = (\<lambda>u. None),
     c_mp_init = multipart_parser_init, c_mp_execute = multipart_parser_execute, c_files = demo_files,
     c_uuids = (\<lambda>i. []), c_clock = demo_clock\<rparr>"

theorem uploaded_parts_arrive_witness:
  "\<exists>c'. execute (parsing_env demo_upload_env)
      (map Body [''--x'' @ crlf @ ''Na'', ''me: a'' @ crlf @ crlf @ ''one'' @ [CR],
         [LF] @ ''--x'' @ crlf @ crlf @ ''t'' @ [CR], ''wo'' @ crlf @ ''--x-'', ''-''])
      (init_multipart_parser (parsing_env demo_upload_env) ''x'' demo_upload_conn) = (c', Go) \<and>
    body_buffer c' = [] \<and> multiparts (conn_request c') =
      [\<lparr>mp_headers = [(''Name'', ''a'')], mp_data = ''one'', transfer_result = transfer_none\<rparr>,
       \<lparr>mp_headers = [], mp_data = ''t'' @ [CR] @ ''wo'', transfer_result = transfer_none\<rparr>]"
proof -
  let ?ps = "[([(''Name'', ''a'')], ''one''), ([], ''t'' @ [CR] @ ''wo'')]"
  let ?bs = "[''--x'' @ crlf @ ''Na'', ''me: a'' @ crlf @ crlf @ ''one'' @ [CR],
         [LF] @ ''--x'' @ crlf @ crlf @ ''t'' @ [CR], ''wo'' @ crlf @ ''--x-'', ''-'']"
  have "boundary_ok ''x''" by (simp add: boundary_ok_def)
  moreover have "list_all (sent_ok (''--'' @ ''x'')) ?ps"
    by (simp add: sent_ok_def header_ok_def header_name_char_def c_tolower_def sublist_Cons_right)
  moreover have "concat ?bs = body_text (''--'' @ ''x'') ?ps []"
    by (simp add: body_text_def part_text_def header_text_def)
  ultimately show ?thesis
    using uploaded_parts_arrive[of demo_upload_env demo_upload_conn "''x''" ?ps ?bs "[]"] boost_classic_laws
    by (simp add: demo_upload_env_def demo_upload_conn_def new_Connection_def received_def upload_limit_kb_def
        blank_Request_def)
qed

text \<open>
  What the parser refuses although RFC 2046 allows it: a body without a part, and a header name
  with a digit.  The read then fails, and with it the request.
\<close>

lemma empty_multipart_refused:
  "multipart_parser_execute (multipart_parser_init ''--x'') (body_text ''--x'' [] []) =
    ([], 3, (multipart_parser_init ''--x'')\<lparr>mp_index := 3, mp_state := s_start_boundary\<rparr>)"
  by (simp add: multipart_parser_execute_def multipart_parser_init_def body_text_def mp_loop.simps mp_step_def
      in_start_boundary_def boundary_length_def boundary_at_def Let_def)

lemma header_name_digit_refused: "\<not> header_name_char CHR ''2''"
  by (simp add: header_name_char_def c_tolower_def)

end
