(* ===== verification/WsConnection.thy ===== *)
theory WsConnection
  imports WsFrame Base64 Cookie Response Url
begin

text \<open>
  \<^verbatim>\<open>include/daqi/websocket/connection_websocket.hpp\<close>, \<^verbatim>\<open>src/websocket/connection_websocket.cpp\<close>
  and the sending functions of \<^verbatim>\<open>src/websocket/context_websocket.cpp\<close>: one WebSocket connection
  after the upgrade.  The socket is the list of the outstanding writes and the number of the
  outstanding reads, which the environment completes; \<open>wire\<close> is what was written so far.  The
  program's events handler is a function from the events it has seen to the calls it makes on
  the context during the last of them.
\<close>

datatype WriteDataType = continuation | text_data | binary_data
datatype EventOn = read_event | write_event

datatype ws_event = OnText "byte list" bool | OnBinary "byte list" bool
  | OnError EventOn int string | OnClose EventOn

datatype ws_call = CallWrite "byte list" WriteDataType bool | CallStop

type_synonym ws_handler = "ws_event list \<Rightarrow> ws_call list"

text \<open>The error of a socket operation: the end of the stream, or a code with its message.\<close>

datatype ws_error = Eof | Failed int string

record ws_conn =
  ws_id :: string
  ws_full_url_path :: string
  ws_url :: "UrlUnderApp option"
  ws_headers :: ICHeaders
  ws_cookies :: ICHeaders
  data_4_write :: "byte list list"
  ws_parser :: FrameParser
  last_data_type :: byte
  error_on_parse :: byte
  stop_by_self :: bool
  ws_writing :: "byte list list"
  ws_reading :: nat
  wire :: "byte list list"
  ws_events :: "ws_event list"

definition new_ws_conn :: "UrlUnderApp \<Rightarrow> ICHeaders \<Rightarrow> ICHeaders \<Rightarrow> ws_conn" where
  "new_ws_conn url headers cks = \<lparr>ws_id = [], ws_full_url_path = [], ws_url = Some url,
     ws_headers = headers, ws_cookies = cks, data_4_write = [], ws_parser = reset_parser,
     last_data_type = 0, error_on_parse = 0, stop_by_self = False, ws_writing = [], ws_reading = 0,
     wire = [], ws_events = []\<rparr>"

section \<open>What is kept of the request\<close>

definition GetURLPath :: "ws_conn \<Rightarrow> string" where
  "GetURLPath c =
     (if ws_full_url_path c \<noteq> [] then ws_full_url_path c
      else case ws_url c of Some u \<Rightarrow> url_full u | None \<Rightarrow> [])"

definition makesure_url_path_storaged :: "ws_conn \<Rightarrow> ws_conn" where
  "makesure_url_path_storaged c =
     (case ws_url c of
        Some u \<Rightarrow> if ws_full_url_path c = [] then c\<lparr>ws_full_url_path := url_full u\<rparr> else c
      | None \<Rightarrow> c)"

text \<open>\<open>Clear\<close> is the one of the base class, so what is under the application stays.\<close>

definition ClearURLData :: "ws_conn \<Rightarrow> ws_conn" where
  "ClearURLData c =
     (case ws_url c of
        Some u \<Rightarrow> (makesure_url_path_storaged c)\<lparr>ws_url := Some (UrlClear u)\<rparr> | None \<Rightarrow> c)"

definition ReleaseURLData :: "ws_conn \<Rightarrow> ws_conn" where
  "ReleaseURLData c =
     (case ws_url c of Some u \<Rightarrow> (makesure_url_path_storaged c)\<lparr>ws_url := None\<rparr> | None \<Rightarrow> c)"

definition ClearHeaders :: "ws_conn \<Rightarrow> ws_conn" where "ClearHeaders c = c\<lparr>ws_headers := []\<rparr>"
definition ClearCookies :: "ws_conn \<Rightarrow> ws_conn" where "ClearCookies c = c\<lparr>ws_cookies := []\<rparr>"

definition RemoveHttpInfo :: "ws_conn \<Rightarrow> ws_conn" where
  "RemoveHttpInfo c = ClearCookies (ClearHeaders (ReleaseURLData c))"

section \<open>Writing\<close>

definition start_write :: "ws_conn \<Rightarrow> ws_conn" where
  "start_write c =
     (case data_4_write c of [] \<Rightarrow> c | d # ds \<Rightarrow> c\<lparr>ws_writing := ws_writing c @ [d]\<rparr>)"

definition append_write_data :: "byte list \<Rightarrow> ws_conn \<Rightarrow> ws_conn" where
  "append_write_data data c =
     (let lst_is_empty_bef_this_data = (data_4_write c = []);
          c1 = c\<lparr>data_4_write := data_4_write c @ [data]\<rparr>
      in if lst_is_empty_bef_this_data then start_write c1 else c1)"

fun FromWriteDataType :: "WriteDataType \<Rightarrow> FrameType" where
  "FromWriteDataType continuation = e_continuation"
| "FromWriteDataType text_data = e_text"
| "FromWriteDataType binary_data = e_binary"

definition write_builder :: "WriteDataType \<Rightarrow> bool \<Rightarrow> FrameBuilder" where
  "write_builder type finished = SetFrameType (FromWriteDataType type) (SetFIN finished new_FrameBuilder)"

text \<open>
  A frame of these builders is never masked, so \<open>Build\<close> always gives one.
\<close>

definition append_frame :: "FrameBuilder \<Rightarrow> byte list \<Rightarrow> ws_conn \<Rightarrow> ws_conn" where
  "append_frame b data c = (case Build b data of Some msg \<Rightarrow> append_write_data msg c | None \<Rightarrow> c)"

definition WsWrite :: "byte list \<Rightarrow> WriteDataType \<Rightarrow> bool \<Rightarrow> ws_conn \<Rightarrow> ws_conn" where
  "WsWrite data type finished c = append_frame (write_builder type finished) data c"

definition close_builder :: FrameBuilder where
  "close_builder = SetFrameType e_connection_close (SetFIN True new_FrameBuilder)"

definition WsStop :: "ws_conn \<Rightarrow> ws_conn" where
  "WsStop c = append_frame close_builder [] (c\<lparr>stop_by_self := True\<rparr>)"

definition pong_builder :: FrameBuilder where
  "pong_builder = SetFIN True (SetFrameType e_pong new_FrameBuilder)"

definition pong :: "ws_conn \<Rightarrow> ws_conn" where
  "pong c = append_frame pong_builder [] c"

section \<open>The sending functions of a context\<close>

definition SendText :: "byte list \<Rightarrow> ws_conn \<Rightarrow> ws_conn" where
  "SendText str c = WsWrite str text_data True c"
definition SendFirstText :: "byte list \<Rightarrow> ws_conn \<Rightarrow> ws_conn" where
  "SendFirstText str c = WsWrite str text_data False c"
definition SendNextText :: "byte list \<Rightarrow> ws_conn \<Rightarrow> ws_conn" where
  "SendNextText str c = WsWrite str continuation False c"
definition SendLastText :: "byte list \<Rightarrow> ws_conn \<Rightarrow> ws_conn" where
  "SendLastText str c = WsWrite str continuation True c"
definition SendBinary :: "byte list \<Rightarrow> ws_conn \<Rightarrow> ws_conn" where
  "SendBinary data c = WsWrite data binary_data True c"
definition SendFirstBinary :: "byte list \<Rightarrow> ws_conn \<Rightarrow> ws_conn" where
  "SendFirstBinary data c = WsWrite data binary_data False c"
definition SendNextBinary :: "byte list \<Rightarrow> ws_conn \<Rightarrow> ws_conn" where
  "SendNextBinary data c = WsWrite data continuation False c"
definition SendLastBinary :: "byte list \<Rightarrow> ws_conn \<Rightarrow> ws_conn" where
  "SendLastBinary data c = WsWrite data continuation True c"

section \<open>Events\<close>

fun run_call :: "ws_call \<Rightarrow> ws_conn \<Rightarrow> ws_conn" where
  "run_call (CallWrite data type finished) c = WsWrite data type finished c"
| "run_call CallStop c = WsStop c"

definition fire :: "ws_handler \<Rightarrow> ws_event \<Rightarrow> ws_conn \<Rightarrow> ws_conn" where
  "fire h ev c =
     (let evs = ws_events c @ [ev] in fold run_call (h evs) (c\<lparr>ws_events := evs\<rparr>))"

definition fire_error :: "ws_handler \<Rightarrow> EventOn \<Rightarrow> ws_error \<Rightarrow> ws_conn \<Rightarrow> ws_conn" where
  "fire_error h on ec c =
     (case ec of Eof \<Rightarrow> fire h (OnClose on) c | Failed n msg \<Rightarrow> fire h (OnError on n msg) c)"

text \<open>The completion of the first outstanding write.\<close>

definition finish_ws_write :: "ws_conn \<Rightarrow> ws_conn" where
  "finish_ws_write c = c\<lparr>ws_writing := tl (ws_writing c)\<rparr>"

definition on_ws_written :: "ws_handler \<Rightarrow> ws_error option \<Rightarrow> ws_conn \<Rightarrow> ws_conn" where
  "on_ws_written h ec c =
     (case ws_writing c of
        [] \<Rightarrow> c
      | d # ds \<Rightarrow>
          (case ec of
             Some e \<Rightarrow> fire_error h write_event e (finish_ws_write c)
           | None \<Rightarrow>
               let c1 = (finish_ws_write c)\<lparr>wire := wire c @ [d], data_4_write := tl (data_4_write c)\<rparr>
               in if data_4_write c1 \<noteq> [] then start_write c1 else c1))"

section \<open>Reading\<close>

definition start_read :: "ws_conn \<Rightarrow> ws_conn" where
  "start_read c = c\<lparr>ws_reading := ws_reading c + 1\<rparr>"

definition on_read_frame :: "ws_handler \<Rightarrow> ws_msg \<Rightarrow> ws_conn \<Rightarrow> ws_conn" where
  "on_read_frame h m c0 =
     (case m of (data, ft, is_finished_frame) \<Rightarrow>
        let c = c0\<lparr>error_on_parse := 0\<rparr>
        in if ft = e_connection_close then (if \<not> stop_by_self c then WsStop c else c)
           else if ft = e_ping then pong c
           else if ft = e_continuation \<or> ft = e_text \<or> ft = e_binary then
             (let c1 = (if ft = e_text then c\<lparr>last_data_type := e_text\<rparr>
                        else if ft = e_binary then c\<lparr>last_data_type := e_binary\<rparr> else c)
              in if last_data_type c1 = e_text then fire h (OnText data is_finished_frame) c1
                 else if last_data_type c1 = e_binary then fire h (OnBinary data is_finished_frame) c1
                 else c1\<lparr>error_on_parse := 2\<rparr>)
           else c\<lparr>error_on_parse := 1\<rparr>)"

text \<open>
  The completion of a read.  The message callback leaves the parser alone, so the messages of
  one call of \<open>Parse\<close> are taken over after it.  \<open>None\<close>: the parser does not return.
\<close>

definition on_ws_read :: "(nat \<Rightarrow> bool) \<Rightarrow> ws_handler \<Rightarrow> ws_error option \<Rightarrow> byte list \<Rightarrow> ws_conn \<Rightarrow> ws_conn option" where
  "on_ws_read alloc h ec bytes c0 =
     (let c = c0\<lparr>ws_reading := ws_reading c0 - 1\<rparr>
      in case ec of
           Some e \<Rightarrow> Some (fire_error h read_event e c)
         | None \<Rightarrow>
             (if bytes = [] then Some (if error_on_parse c = 0 then start_read c else c)
              else case Parse alloc (2 * length bytes + 1) (ws_parser c) bytes of
                None \<Rightarrow> None
              | Some (ok, p, ms) \<Rightarrow>
                  let c1 = fold (on_read_frame h) ms (c\<lparr>ws_parser := p\<rparr>)
                  in Some (if ok \<and> error_on_parse c1 = 0 then start_read c1 else c1)))"

section \<open>The handshake\<close>

definition crlf_text :: string where "crlf_text = [CHR 0x0D, CHR 0x0A]"

definition ws_guid :: string where "ws_guid = ''258EAFA5-E914-47DA-95CA-C5AB0DC85B11''"

text \<open>\<open>sha1\<close> is the digest of OpenSSL, 20 bytes; encoding them cannot leave the buffer.\<close>

definition accept_value :: "(string \<Rightarrow> byte list) \<Rightarrow> string \<Rightarrow> string" where
  "accept_value sha1 key =
     (case base64_encode (take 20 (sha1 (key @ ws_guid))) of Inr s \<Rightarrow> s | Inl _ \<Rightarrow> [])"

definition make_handshake_http_response :: "(string \<Rightarrow> byte list) \<Rightarrow> string \<Rightarrow> string \<Rightarrow> string" where
  "make_handshake_http_response sha1 key protocol =
     ''HTTP/1.1 101 Switching Protocols'' @ crlf_text @
     ''Upgrade: websocket'' @ crlf_text @
     ''Connection: Upgrade'' @ crlf_text @
     ''Server: da4qi4'' @ crlf_text @
     ''Sec-WebSocket-Accept: '' @ accept_value sha1 key @ crlf_text @
     (if protocol \<noteq> [] then ''Sec-WebSocket-Protocol: '' @ protocol @ crlf_text else []) @
     crlf_text"

definition start_handshake :: "boost_algo \<Rightarrow> (string \<Rightarrow> byte list) \<Rightarrow> string \<Rightarrow> ws_conn \<Rightarrow> ws_conn" where
  "start_handshake B sha1 key c =
     (let protocol = (case omap_find (IgnoreCaseCompare B) (ws_headers c) ''Sec-WebSocket-Protocol'' of
                        Some p \<Rightarrow> p | None \<Rightarrow> [])
      in start_read (append_write_data
           (map byte_of_char (make_handshake_http_response sha1 key protocol)) c))"

definition WsStart :: "boost_algo \<Rightarrow> (string \<Rightarrow> byte list) \<Rightarrow> string \<Rightarrow> ws_conn \<Rightarrow> ws_conn" where
  "WsStart B sha1 key c = start_handshake B sha1 key c"

end
