(* ===== verification/WsRegistry.thy ===== *)
theory WsRegistry
  imports WsConnection HttpConn
begin

text \<open>
  The connections of an application: \<open>Websocket::Connections\<close> of
  \<^verbatim>\<open>src/websocket/connection_websocket.cpp\<close>, the WebSocket functions of \<^verbatim>\<open>src/application.cpp\<close>, the
  functions of \<^verbatim>\<open>src/websocket/context_websocket.cpp\<close> that use them, and the upgrade of
  \<^verbatim>\<open>src/connection.cpp\<close>.  A shared pointer to a connection is a number; \<open>ws_heap\<close> holds the
  connections that are alive, so locking a weak pointer looks there.
\<close>

type_synonym conn_ref = nat
type_synonym conn_heap = "conn_ref \<Rightarrow> ws_conn option"
type_synonym Connections = "(string, conn_ref) omap"

definition lock_ref :: "conn_heap \<Rightarrow> conn_ref \<Rightarrow> conn_ref option" where
  "lock_ref heap r = (if heap r = None then None else Some r)"

section \<open>The connections of one URL\<close>

definition Connections_one :: "string \<Rightarrow> conn_ref \<Rightarrow> Connections" where
  "Connections_one ident cnt = [(ident, cnt)]"

definition Connections_Add :: "string \<Rightarrow> conn_ref \<Rightarrow> Connections \<Rightarrow> Connections" where
  "Connections_Add ident cnt m = omap_insert str_less m ident cnt"

definition Connections_Get :: "conn_heap \<Rightarrow> string \<Rightarrow> Connections \<Rightarrow> conn_ref option" where
  "Connections_Get heap ident m =
     (case omap_find str_less m ident of None \<Rightarrow> None | Some r \<Rightarrow> lock_ref heap r)"

text \<open>\<open>rand\<close> is the number the random generator gave.\<close>

definition Connections_RandOne :: "conn_heap \<Rightarrow> nat \<Rightarrow> Connections \<Rightarrow> conn_ref option" where
  "Connections_RandOne heap rand m =
     (if m = [] then None else lock_ref heap (snd (m ! (rand mod length m))))"

definition Connections_All :: "conn_heap \<Rightarrow> Connections \<Rightarrow> conn_ref option list" where
  "Connections_All heap m = map (\<lambda>(ident, r). lock_ref heap r) m"

definition Connections_AllID :: "Connections \<Rightarrow> string list" where
  "Connections_AllID m = map fst m"

definition Connections_Remove :: "string \<Rightarrow> Connections \<Rightarrow> Connections \<times> bool" where
  "Connections_Remove ident m =
     (case omap_find str_less m ident of
        None \<Rightarrow> (m, False) | Some _ \<Rightarrow> (omap_erase str_less m ident, True))"

definition Connections_RenameID :: "string \<Rightarrow> string \<Rightarrow> Connections \<Rightarrow> conn_heap \<Rightarrow> Connections \<times> conn_heap \<times> bool" where
  "Connections_RenameID old_id new_id m heap =
     (case omap_find str_less m old_id of
        None \<Rightarrow> (m, heap, False)
      | Some r \<Rightarrow>
          let m1 = omap_erase str_less m old_id
          in case heap r of
               None \<Rightarrow> (m1, heap, False)
             | Some cnt \<Rightarrow>
                 (omap_put str_less m1 new_id r,
                  (if ws_id cnt \<noteq> new_id then heap(r \<mapsto> cnt\<lparr>ws_id := new_id\<rparr>) else heap), True))"

section \<open>The part of an application\<close>

record 'f ws_app =
  ws_root :: string
  ws_runing :: bool
  websocket_handlers_factory :: "(string, 'f) omap"
  websocket_connections :: "(string, Connections) omap"
  ws_heap :: conn_heap

definition RegistWebSocket :: "string \<Rightarrow> UrlFlag \<Rightarrow> 'f \<Rightarrow> 'f ws_app \<Rightarrow> 'f ws_app \<times> bool" where
  "RegistWebSocket url urlflag factory a =
     (if ws_runing a then (a, False)
      else let fullpath = MakesureFullUrlPath url urlflag (ws_root a)
        in (a\<lparr>websocket_handlers_factory := omap_insert str_less (websocket_handlers_factory a) fullpath factory\<rparr>, True))"

definition IsWebSocketRegistered :: "string \<Rightarrow> UrlFlag \<Rightarrow> 'f ws_app \<Rightarrow> bool" where
  "IsWebSocketRegistered url urlflag a =
     (omap_find str_less (websocket_handlers_factory a) (MakesureFullUrlPath url urlflag (ws_root a)) \<noteq> None)"

definition CreateWebSocketHandler :: "string \<Rightarrow> UrlFlag \<Rightarrow> 'f ws_app \<Rightarrow> 'f option" where
  "CreateWebSocketHandler url urlflag a =
     omap_find str_less (websocket_handlers_factory a) (MakesureFullUrlPath url urlflag (ws_root a))"

definition AddWebSocketConnection :: "conn_ref \<Rightarrow> ws_conn \<Rightarrow> 'f ws_app \<Rightarrow> 'f ws_app" where
  "AddWebSocketConnection r cnt a =
     (let full_url_path = GetURLPath cnt; m = websocket_connections a
      in case omap_find str_less m full_url_path of
           Some cs \<Rightarrow> a\<lparr>websocket_connections := omap_put str_less m full_url_path (Connections_Add (ws_id cnt) r cs)\<rparr>
         | None \<Rightarrow> a\<lparr>websocket_connections := omap_insert str_less m full_url_path (Connections_one (ws_id cnt) r)\<rparr>)"

definition RemoveWebSocketConnection :: "string \<Rightarrow> UrlFlag \<Rightarrow> string \<Rightarrow> 'f ws_app \<Rightarrow> 'f ws_app \<times> bool" where
  "RemoveWebSocketConnection url urlflag ident a =
     (let fullpath = MakesureFullUrlPath url urlflag (ws_root a); m = websocket_connections a
      in case omap_find str_less m fullpath of
           None \<Rightarrow> (a, False)
         | Some cs \<Rightarrow>
             (case Connections_Remove ident cs of
                (cs', b) \<Rightarrow> (a\<lparr>websocket_connections := omap_put str_less m fullpath cs'\<rparr>, b)))"

definition RenameWebSocketConnectionID :: "string \<Rightarrow> UrlFlag \<Rightarrow> string \<Rightarrow> string \<Rightarrow> 'f ws_app \<Rightarrow> 'f ws_app \<times> bool" where
  "RenameWebSocketConnectionID url urlflag old_id new_id a =
     (let fullpath = MakesureFullUrlPath url urlflag (ws_root a); m = websocket_connections a
      in case omap_find str_less m fullpath of
           None \<Rightarrow> (a, False)
         | Some cs \<Rightarrow>
             (case Connections_RenameID old_id new_id cs (ws_heap a) of
                (cs', heap', b) \<Rightarrow>
                  (a\<lparr>websocket_connections := omap_put str_less m fullpath cs', ws_heap := heap'\<rparr>, b)))"

definition WebsocketConnection :: "string \<Rightarrow> UrlFlag \<Rightarrow> string \<Rightarrow> 'f ws_app \<Rightarrow> conn_ref option" where
  "WebsocketConnection url urlflag ident a =
     (case omap_find str_less (websocket_connections a) (MakesureFullUrlPath url urlflag (ws_root a)) of
        None \<Rightarrow> None | Some cs \<Rightarrow> Connections_Get (ws_heap a) ident cs)"

definition AllWebSocketConnections :: "string \<Rightarrow> UrlFlag \<Rightarrow> 'f ws_app \<Rightarrow> conn_ref option list" where
  "AllWebSocketConnections url urlflag a =
     (case omap_find str_less (websocket_connections a) (MakesureFullUrlPath url urlflag (ws_root a)) of
        None \<Rightarrow> [] | Some cs \<Rightarrow> Connections_All (ws_heap a) cs)"

definition AllWebSocketConnectionsID :: "string \<Rightarrow> UrlFlag \<Rightarrow> 'f ws_app \<Rightarrow> string list" where
  "AllWebSocketConnectionsID url urlflag a =
     (case omap_find str_less (websocket_connections a) (MakesureFullUrlPath url urlflag (ws_root a)) of
        None \<Rightarrow> [] | Some cs \<Rightarrow> Connections_AllID cs)"

section \<open>Contexts\<close>

text \<open>
  A context is the reference of its connection and whether it holds it; the last context that
  holds a connection takes it out of the application when it goes, and the connection with it.
\<close>

definition ContextRenameID :: "conn_ref \<Rightarrow> string \<Rightarrow> 'f ws_app \<Rightarrow> 'f ws_app \<times> bool" where
  "ContextRenameID r new_id a =
     (case ws_heap a r of
        None \<Rightarrow> (a, False)
      | Some cnt \<Rightarrow> RenameWebSocketConnectionID (GetURLPath cnt) url_full_path (ws_id cnt) new_id a)"

definition destroy_context :: "bool \<Rightarrow> conn_ref \<Rightarrow> 'f ws_app \<Rightarrow> 'f ws_app" where
  "destroy_context hold_connection_life r a =
     (case ws_heap a r of
        None \<Rightarrow> a
      | Some cnt \<Rightarrow>
          if hold_connection_life then
            (let a1 = (if GetURLPath cnt \<noteq> [] \<and> ws_id cnt \<noteq> []
                       then fst (RemoveWebSocketConnection (GetURLPath cnt) url_full_path (ws_id cnt) a) else a)
             in a1\<lparr>ws_heap := (ws_heap a1)(r := None)\<rparr>)
          else a)"

definition OtherOne :: "conn_ref \<Rightarrow> string \<Rightarrow> 'f ws_app \<Rightarrow> conn_ref option" where
  "OtherOne r ident a =
     (case ws_heap a r of
        None \<Rightarrow> None
      | Some cnt \<Rightarrow>
          if ident = ws_id cnt then Some r
          else WebsocketConnection (GetURLPath cnt) url_full_path ident a)"

definition OtherOneAt :: "conn_ref \<Rightarrow> string \<Rightarrow> UrlFlag \<Rightarrow> string \<Rightarrow> 'f ws_app \<Rightarrow> conn_ref option" where
  "OtherOneAt r url url_flag ident a =
     (case ws_heap a r of
        None \<Rightarrow> None
      | Some cnt \<Rightarrow>
          if ident = ws_id cnt \<and> MakesureFullUrlPath url url_flag (ws_root a) = GetURLPath cnt then Some r
          else WebsocketConnection url url_flag ident a)"

section \<open>The upgrade\<close>

text \<open>
  \<open>on_open\<close> is the handler's \<open>OnOpen\<close>: the calls it makes on the context and whether it agrees;
  \<open>uuid\<close> is the identity drawn for a connection that has none.  The request's URL, headers and
  cookies are moved into the new connection, \<open>r\<close> is its reference.
\<close>

definition do_upgrade :: "boost_algo \<Rightarrow> (string \<Rightarrow> byte list) \<Rightarrow> ('f \<Rightarrow> ws_call list \<times> bool) \<Rightarrow> string \<Rightarrow> conn_ref \<Rightarrow>
    Request \<Rightarrow> 'f ws_app \<Rightarrow> 'f ws_app \<times> bool" where
  "do_upgrade B sha1 on_open uuid r req a =
     (let ws_upgrade_value = GetHeader B (req_headers req) ''Upgrade'';
          ws_key_value = GetHeader B (req_headers req) ''Sec-WebSocket-Key''
      in if ws_upgrade_value = [] \<or> \<not> iEquals B ws_upgrade_value ''websocket'' then (a, False)
         else if ws_key_value = [] then (a, False)
         else case CreateWebSocketHandler (url_full (req_url req)) url_full_path a of
           None \<Rightarrow> (a, False)
         | Some f \<Rightarrow>
             let cnt = new_ws_conn (req_url req) (req_headers req) (req_cookies req);
                 (calls, agreed) = on_open f;
                 cnt1 = fold run_call calls cnt
             in if \<not> agreed then (a, False)
                else let cnt2 = (if ws_id cnt1 = [] then cnt1\<lparr>ws_id := uuid\<rparr> else cnt1);
                         a1 = AddWebSocketConnection r cnt2 a
                  in (a1\<lparr>ws_heap := (ws_heap a1)(r \<mapsto> WsStart B sha1 ws_key_value cnt2)\<rparr>, True))"

end
