(* ===== verification/WriteQueue.thy ===== *)
theory WriteQueue
  imports Main
begin

text \<open>
  The contract of a writer that keeps a queue of buffers and at most one outstanding write, the
  front of the queue: appending to an empty queue starts a write, the completion of a write
  takes the front off and starts the next one.
\<close>

locale write_queue =
  fixes queue :: "'s \<Rightarrow> 'd list" and writing :: "'s \<Rightarrow> 'd list" and written :: "'s \<Rightarrow> 'd list"
    and append :: "'d \<Rightarrow> 's \<Rightarrow> 's" and finish :: "'s \<Rightarrow> 's"
  assumes queue_append: "queue (append d s) = queue s @ [d]"
    and written_append: "written (append d s) = written s"
    and writing_append: "writing (append d s) = (if queue s = [] then writing s @ [d] else writing s)"
    and finish_first: "queue s = d # q \<Longrightarrow> writing s = [d] \<Longrightarrow>
      queue (finish s) = q \<and> written (finish s) = written s @ [d] \<and> writing (finish s) = take 1 q"
    and finish_idle: "writing s = [] \<Longrightarrow> finish s = s"
begin

lemma append_all:
  "queue (fold append ds s) = queue s @ ds \<and> written (fold append ds s) = written s"
  by (induction ds arbitrary: s) (simp_all add: queue_append written_append)

lemma append_busy:
  assumes "writing s = take 1 (queue s)"
  shows "writing (append d s) = take 1 (queue (append d s))"
  using assms by (cases "queue s") (simp_all add: queue_append writing_append)

lemma append_all_busy:
  "writing s = take 1 (queue s) \<Longrightarrow> writing (fold append ds s) = take 1 (queue (fold append ds s))"
  by (induction ds arbitrary: s) (simp_all add: append_busy)

lemma append_all_stalled:
  "writing s = [] \<Longrightarrow> queue s \<noteq> [] \<Longrightarrow> writing (fold append ds s) = []"
  by (induction ds arbitrary: s) (simp_all add: queue_append writing_append)

lemma finish_busy:
  assumes "writing s = take 1 (queue s)"
  shows "writing (finish s) = take 1 (queue (finish s))" "queue (finish s) = tl (queue s)"
    "written (finish s) = written s @ take 1 (queue s)"
  using assms finish_first finish_idle by (cases "queue s"; simp)+

lemma drain:
  "writing s = take 1 (queue s) \<Longrightarrow> length (queue s) \<le> n \<Longrightarrow>
    queue ((finish ^^ n) s) = [] \<and> writing ((finish ^^ n) s) = [] \<and>
    written ((finish ^^ n) s) = written s @ queue s"
proof (induction n arbitrary: s)
  case (Suc n)
  note f = finish_busy[OF Suc.prems(1)]
  have "(finish ^^ Suc n) s = (finish ^^ n) (finish s)"
    by (simp add: funpow_swap1)
  moreover have "length (queue (finish s)) \<le> n"
    using Suc.prems(2) by (simp add: f(2))
  moreover have "take 1 (queue s) @ tl (queue s) = queue s"
    by (cases "queue s") simp_all
  ultimately show ?case
    using Suc.IH[OF f(1)] by (simp add: f(2,3))
qed simp

end

end
