(* ===== verification/WsConnectionProofs.thy ===== *)
theory WsConnectionProofs
  imports WsConnection WsFrameProofs WriteQueue
begin

text \<open>
  What a WebSocket connection promises: it is a channel that delivers what was sent whole and in
  order, every frame read is answered or handed to the handler as the protocol says, and what
  one end sends the other end hears.
\<close>

section \<open>The queue of writes\<close>

interpretation wsq: write_queue data_4_write ws_writing wire append_write_data "on_ws_written h None" for h
  by unfold_locales
    (auto simp: append_write_data_def start_write_def on_ws_written_def finish_ws_write_def Let_def split: list.splits)

text \<open>The part of a connection that its writes depend on, and its name, which they keep.\<close>

definition view :: "ws_conn \<Rightarrow>
    byte list list \<times> byte list list \<times> byte list list \<times> string \<times> string \<times> UrlUnderApp option" where
  "view c = (data_4_write c, ws_writing c, wire c, ws_id c, ws_full_url_path c, ws_url c)"

definition is_frame :: "byte list \<Rightarrow> bool" where
  "is_frame m \<longleftrightarrow> (\<exists>b d. frame_params b \<and> Build b d = Some m)"

definition sends :: "ws_conn \<Rightarrow> ws_conn \<Rightarrow> bool" where
  "sends c c' \<longleftrightarrow> (\<exists>ms. list_all is_frame ms \<and> view c' = view (fold append_write_data ms c))"

lemma view_append_eq:
  "view (append_write_data d c) = (case view c of (q, w, r) \<Rightarrow> (q @ [d], if q = [] then w @ [d] else w, r))"
  by (cases "data_4_write c") (simp_all add: view_def append_write_data_def start_write_def)

lemma view_append: "view c = view c' \<Longrightarrow> view (append_write_data d c) = view (append_write_data d c')"
  by (simp add: view_append_eq)

lemma view_append_all: "view c = view c' \<Longrightarrow> view (fold append_write_data ms c) = view (fold append_write_data ms c')"
proof (induction ms arbitrary: c c')
  case (Cons m ms)
  show ?case using Cons.IH[OF view_append[OF Cons.prems]] by simp
qed simp

lemma sends_view: "view c' = view c \<Longrightarrow> sends c c'"
  unfolding sends_def by (rule exI[of _ "[]"]) simp

lemma sends_trans: "sends c d \<Longrightarrow> sends d e \<Longrightarrow> sends c e"
proof -
  assume "sends c d" "sends d e"
  then obtain ms ns where "list_all is_frame ms" "view d = view (fold append_write_data ms c)"
      "list_all is_frame ns" "view e = view (fold append_write_data ns d)"
    by (auto simp: sends_def)
  then show "sends c e"
    unfolding sends_def using view_append_all[of d "fold append_write_data ms c" ns]
    by (intro exI[of _ "ms @ ns"]) simp
qed

lemma builder_params:
  "frame_params (write_builder t fin)" "frame_params close_builder" "frame_params pong_builder"
  by (cases t; simp add: frame_params_def write_builder_def close_builder_def pong_builder_def SetFrameType_def SetFIN_def
      new_FrameBuilder_def e_continuation_def e_text_def e_binary_def e_connection_close_def e_pong_def)+

lemma sends_append_frame: "frame_params b \<Longrightarrow> sends c (append_frame b d c)"
proof (cases "Build b d")
  case (Some m)
  moreover assume "frame_params b"
  ultimately show ?thesis
    unfolding append_frame_def sends_def by (intro exI[of _ "[m]"]) (auto simp: is_frame_def)
qed (simp add: append_frame_def sends_view)

lemma sends_WsWrite: "sends c (WsWrite d t fin c)"
  by (simp add: WsWrite_def sends_append_frame builder_params)

lemma sends_WsStop: "sends c (WsStop c)"
  unfolding WsStop_def
  by (rule sends_trans[OF sends_view sends_append_frame]) (simp_all add: view_def builder_params)

lemma sends_pong: "sends c (pong c)"
  by (simp add: pong_def sends_append_frame builder_params)

lemma sends_run_call: "sends c (run_call call c)"
  by (cases call) (simp_all add: sends_WsWrite sends_WsStop)

lemma sends_run_calls: "sends c (fold run_call calls c)"
proof (induction calls arbitrary: c)
  case (Cons call calls)
  show ?case using sends_trans[OF sends_run_call Cons.IH] by simp
qed (simp add: sends_view)

lemma sends_fire: "sends c (fire h ev c)"
  unfolding fire_def Let_def
  by (rule sends_trans[OF sends_view sends_run_calls]) (simp add: view_def)

lemma sends_fire_error: "sends c (fire_error h on ec c)"
  by (cases ec) (simp_all add: fire_error_def sends_fire)

lemma sends_read_frame: "sends c (on_read_frame h m c)"
proof -
  obtain d ft fin where m: "m = (d, ft, fin)" by (cases m)
  have k: "sends c x" if "sends (c\<lparr>error_on_parse := 0, last_data_type := t\<rparr>) x" for x t
    by (rule sends_trans[OF sends_view that]) (simp add: view_def)
  have k0: "sends c x" if "sends (c\<lparr>error_on_parse := 0\<rparr>) x" for x
    by (rule sends_trans[OF sends_view that]) (simp add: view_def)
  have v: "sends c x" if "view x = view c" for x using that by (rule sends_view)
  show ?thesis
    by (auto simp: m on_read_frame_def Let_def view_def intro: k k0 v sends_WsStop sends_pong sends_fire)
qed

lemma sends_read_frames: "sends c (fold (on_read_frame h) ms c)"
proof (induction ms arbitrary: c)
  case (Cons m ms)
  show ?case using sends_trans[OF sends_read_frame Cons.IH] by simp
qed (simp add: sends_view)

section \<open>Steps, and the channel they implement\<close>

datatype ws_input = AppCall ws_call | WriteDone "ws_error option" | ReadDone "ws_error option" "byte list"

definition ws_step :: "(nat \<Rightarrow> bool) \<Rightarrow> ws_handler \<Rightarrow> ws_input \<Rightarrow> ws_conn \<Rightarrow> ws_conn option" where
  "ws_step alloc h inp c =
     (case inp of
        AppCall call \<Rightarrow> Some (run_call call c)
      | WriteDone ec \<Rightarrow> (if ws_writing c \<noteq> [] then Some (on_ws_written h ec c) else None)
      | ReadDone ec bytes \<Rightarrow> (if ws_reading c \<noteq> 0 then on_ws_read alloc h ec bytes c else None))"

fun ws_run :: "(nat \<Rightarrow> bool) \<Rightarrow> ws_handler \<Rightarrow> ws_input list \<Rightarrow> ws_conn \<Rightarrow> ws_conn option" where
  "ws_run alloc h [] c = Some c"
| "ws_run alloc h (inp # inps) c =
     (case ws_step alloc h inp c of None \<Rightarrow> None | Some c' \<Rightarrow> ws_run alloc h inps c')"

text \<open>
  The abstract channel: what was delivered and what is pending.  A step delivers the first
  pending buffer or adds frames at the end.
\<close>

type_synonym channel = "byte list list \<times> byte list list"

fun chan_deliver :: "channel \<Rightarrow> channel" where
  "chan_deliver (w, q) = (w @ take 1 q, tl q)"

fun chan_send :: "byte list list \<Rightarrow> channel \<Rightarrow> channel" where
  "chan_send ms (w, q) = (w, q @ ms)"

definition chan_of :: "ws_conn \<Rightarrow> channel" where
  "chan_of c = (wire c, data_4_write c)"

text \<open>One write is outstanding, that of the first pending buffer, or none after a failed write.\<close>

definition writes_first :: "ws_conn \<Rightarrow> bool" where
  "writes_first c \<longleftrightarrow> ws_writing c = take 1 (data_4_write c)"

definition stalled :: "ws_conn \<Rightarrow> bool" where
  "stalled c \<longleftrightarrow> ws_writing c = [] \<and> data_4_write c \<noteq> []"

lemma view_fields:
  "view c = view c' \<longleftrightarrow> data_4_write c = data_4_write c' \<and> ws_writing c = ws_writing c' \<and> wire c = wire c' \<and>
     ws_id c = ws_id c' \<and> ws_full_url_path c = ws_full_url_path c' \<and> ws_url c = ws_url c'"
  by (simp add: view_def)

lemma sends_chan:
  assumes "sends c c'"
  shows "\<exists>ms. list_all is_frame ms \<and> chan_of c' = chan_send ms (chan_of c)"
    and "writes_first c \<Longrightarrow> writes_first c'" and "stalled c \<Longrightarrow> stalled c'"
proof -
  obtain ms where ms: "list_all is_frame ms" "view c' = view (fold append_write_data ms c)"
    using assms by (auto simp: sends_def)
  show "\<exists>ms. list_all is_frame ms \<and> chan_of c' = chan_send ms (chan_of c)"
    using ms wsq.append_all[of ms c] by (intro exI[of _ ms]) (simp add: view_fields chan_of_def)
  show "writes_first c'" if "writes_first c"
    using that ms(2) wsq.append_all_busy[of c ms] by (simp add: view_fields writes_first_def)
  show "stalled c'" if "stalled c"
    using that ms(2) wsq.append_all_stalled[of c ms] wsq.append_all[of ms c] by (simp add: view_fields stalled_def)
qed

lemma sends_on_read:
  assumes "on_ws_read alloc h ec bytes c = Some c'"
  shows "sends c c'"
proof -
  let ?c = "c\<lparr>ws_reading := ws_reading c - 1\<rparr>"
  have s: "sends c ?c" and r: "sends x (start_read x)" for x
    by (rule sends_view, simp add: view_def start_read_def)+
  show ?thesis
  proof (cases ec)
    case (Some e)
    then have "c' = fire_error h read_event e ?c" using assms by (simp add: on_ws_read_def Let_def)
    then show ?thesis using sends_trans[OF s sends_fire_error] by simp
  next
    case None
    show ?thesis
    proof (cases "bytes = []")
      case True
      then show ?thesis using assms None s sends_trans[OF s r] by (auto simp: on_ws_read_def Let_def split: if_splits)
    next
      case False
      then obtain ok p ms where p: "Parse alloc (2 * length bytes + 1) (ws_parser ?c) bytes = Some (ok, p, ms)"
        using assms None by (auto simp: on_ws_read_def Let_def split: option.splits)
      let ?d = "fold (on_read_frame h) ms (?c\<lparr>ws_parser := p\<rparr>)"
      have "sends ?c (?c\<lparr>ws_parser := p\<rparr>)" by (rule sends_view) (simp add: view_def)
      then have d: "sends c ?d" using sends_trans[OF s] sends_trans sends_read_frames by blast
      have "c' = ?d \<or> c' = start_read ?d"
        using assms None False p by (auto simp: on_ws_read_def Let_def)
      then show ?thesis using d sends_trans[OF d r] by blast
    qed
  qed
qed

lemma sends_write_failed: "\<exists>d. view d = view (c\<lparr>ws_writing := tl (ws_writing c)\<rparr>) \<and>
    sends d (on_ws_written h (Some e) c)" if "ws_writing c \<noteq> []"
  using that sends_fire_error[of "finish_ws_write c" h write_event e]
  by (cases "ws_writing c") (auto simp: on_ws_written_def view_def finish_ws_write_def intro!: exI[of _ "finish_ws_write c"])

lemma step_channel:
  assumes "writes_first c \<or> stalled c" "ws_step alloc h inp c = Some c'"
  shows "(if inp = WriteDone None then chan_of c' = chan_deliver (chan_of c)
      else \<exists>ms. list_all is_frame ms \<and> chan_of c' = chan_send ms (chan_of c)) \<and>
    ((\<forall>e. inp \<noteq> WriteDone (Some e)) \<and> writes_first c \<longrightarrow> writes_first c') \<and> (writes_first c' \<or> stalled c')"
proof (cases inp)
  case (AppCall call)
  then have "sends c c'" using assms(2) by (auto simp: ws_step_def sends_run_call)
  from sends_chan[OF this] show ?thesis using assms(1) AppCall by auto
next
  case (ReadDone ec bytes)
  then have "sends c c'" using assms(2) sends_on_read by (auto simp: ws_step_def split: if_splits)
  from sends_chan[OF this] show ?thesis using assms(1) ReadDone by auto
next
  case (WriteDone ec)
  then have w: "ws_writing c \<noteq> []" and c': "c' = on_ws_written h ec c"
    using assms(2) by (auto simp: ws_step_def split: if_splits)
  then have busy: "writes_first c" using assms(1) by (auto simp: stalled_def)
  then obtain d q where q: "data_4_write c = d # q" "ws_writing c = [d]"
    using w by (cases "data_4_write c") (auto simp: writes_first_def)
  show ?thesis
  proof (cases ec)
    case None
    then show ?thesis
      using wsq.finish_busy[of c h] busy by (simp add: WriteDone c' writes_first_def chan_of_def)
  next
    case (Some e)
    obtain x where x: "view x = view (c\<lparr>ws_writing := tl (ws_writing c)\<rparr>)" "sends x c'"
      using sends_write_failed[OF w, of h e] c' Some by auto
    then have "stalled x" "chan_of x = chan_of c" using q by (simp_all add: view_def stalled_def chan_of_def)
    then show ?thesis
      using sends_chan[OF x(2)] by (simp add: WriteDone Some)
  qed
qed

text \<open>
  (C3) A connection implements a channel.  Whatever the handler does, a call of the program, a
  read, and a failed write only add whole frames at the end of what is pending; a successful
  write delivers exactly the first pending buffer; and there is always one write outstanding,
  that of the first pending buffer, until a write fails, after which there is none.
\<close>

theorem ws_refines_channel:
  assumes "writes_first c \<or> stalled c" "ws_step alloc h inp c = Some c'"
  shows "(if inp = WriteDone None then chan_of c' = chan_deliver (chan_of c)
      else \<exists>ms. list_all is_frame ms \<and> chan_of c' = chan_send ms (chan_of c)) \<and>
    ((\<forall>e. inp \<noteq> WriteDone (Some e)) \<and> writes_first c \<longrightarrow> writes_first c') \<and> (writes_first c' \<or> stalled c')"
  using assms by (rule step_channel)

definition demo_ws_conn :: ws_conn where
  "demo_ws_conn = new_ws_conn (UrlBase.extend empty_url \<lparr>full_under_app = [], path_under_app = []\<rparr>) [] []"

theorem ws_refines_channel_witness:
  "\<exists>c'. ws_step (\<lambda>_. True) (\<lambda>_. []) (WriteDone None)
      (demo_ws_conn\<lparr>data_4_write := [[1], [2]], ws_writing := [[1]]\<rparr>) = Some c' \<and> chan_of c' = ([[1]], [[2]])"
proof -
  let ?c = "demo_ws_conn\<lparr>data_4_write := [[1], [2]], ws_writing := [[1]]\<rparr>"
  obtain c' where c': "ws_step (\<lambda>_. True) (\<lambda>_. []) (WriteDone None) ?c = Some c'"
    by (auto simp: ws_step_def)
  have "chan_of ?c = ([], [[1], [2]])" "writes_first ?c"
    by (simp_all add: chan_of_def demo_ws_conn_def new_ws_conn_def writes_first_def)
  then show ?thesis
    using ws_refines_channel[OF _ c'] c' by auto
qed

lemma run_channel:
  "ws_run alloc h inps c = Some c' \<Longrightarrow> \<forall>e. WriteDone (Some e) \<notin> set inps \<Longrightarrow> writes_first c \<Longrightarrow>
    writes_first c' \<and> (\<exists>ms. list_all is_frame ms \<and> wire c' @ data_4_write c' = wire c @ data_4_write c @ ms)"
proof (induction inps arbitrary: c)
  case (Cons inp inps)
  obtain d where d: "ws_step alloc h inp c = Some d" "ws_run alloc h inps d = Some c'"
    using Cons.prems(1) by (auto split: option.splits)
  have st: "writes_first d" "if inp = WriteDone None then chan_of d = chan_deliver (chan_of c)
      else \<exists>ms. list_all is_frame ms \<and> chan_of d = chan_send ms (chan_of c)"
    using step_channel[OF _ d(1)] Cons.prems(2,3) by auto
  have "\<exists>ms. list_all is_frame ms \<and> wire d @ data_4_write d = wire c @ data_4_write c @ ms"
  proof (cases "inp = WriteDone None")
    case True
    then show ?thesis using st(2) by (cases "data_4_write c") (auto simp: chan_of_def intro: exI[of _ "[]"])
  qed (use st(2) in \<open>auto simp: chan_of_def\<close>)
  then obtain ms where ms: "list_all is_frame ms" "wire d @ data_4_write d = wire c @ data_4_write c @ ms" by blast
  obtain ns where ns: "list_all is_frame ns" "wire c' @ data_4_write c' = wire d @ data_4_write d @ ns"
    and "writes_first c'"
    using Cons.IH[OF d(2) _ st(1)] Cons.prems(2) by auto
  then show ?case
    using ms by (intro conjI exI[of _ "ms @ ns"]) simp_all
qed (auto intro: exI[of _ "[]"])



text \<open>No step changes the name of a connection or what is kept of its request's URL.\<close>

lemma append_all_names:
  "ws_id (fold append_write_data ms c) = ws_id c"
  "ws_full_url_path (fold append_write_data ms c) = ws_full_url_path c"
  "ws_url (fold append_write_data ms c) = ws_url c"
  by (induction ms arbitrary: c; simp add: append_write_data_def start_write_def Let_def split: list.splits)+

lemma sends_names: "sends c c' \<Longrightarrow> ws_id c' = ws_id c \<and> GetURLPath c' = GetURLPath c"
  unfolding sends_def by (auto simp: view_fields GetURLPath_def append_all_names)

lemma step_names:
  assumes "ws_step alloc h inp c = Some c'"
  shows "ws_id c' = ws_id c \<and> GetURLPath c' = GetURLPath c"
proof (cases inp)
  case (AppCall call)
  then show ?thesis using assms sends_names[OF sends_run_call] by (auto simp: ws_step_def)
next
  case (ReadDone ec bytes)
  then show ?thesis using assms sends_names[OF sends_on_read] by (auto simp: ws_step_def split: if_splits)
next
  case (WriteDone ec)
  then have w: "ws_writing c \<noteq> []" and c': "c' = on_ws_written h ec c"
    using assms by (auto simp: ws_step_def split: if_splits)
  show ?thesis
  proof (cases ec)
    case (Some e)
    then obtain x where "view x = view (c\<lparr>ws_writing := tl (ws_writing c)\<rparr>)" "sends x c'"
      using sends_write_failed[OF w, of h e] c' by auto
    then show ?thesis using sends_names[of x c'] by (simp add: view_fields GetURLPath_def)
  qed (auto simp: c' on_ws_written_def finish_ws_write_def start_write_def GetURLPath_def Let_def split: list.splits)
qed

section \<open>What a read frame does\<close>

text \<open>
  What the protocol asks for: the frames to answer with, given whether this end has already
  asked to close, and the events the program is to see, given the type of the last data frame.
\<close>

fun answered :: "bool \<Rightarrow> ws_msg list \<Rightarrow> byte list list" where
  "answered stop [] = []"
| "answered stop ((d, ft, fin) # ms) =
     (if ft = e_connection_close then (if stop then [] else [[0x88, 0]]) @ answered True ms
      else if ft = e_ping then [0x8a, 0] # answered stop ms
      else answered stop ms)"

definition data_type_after :: "byte \<Rightarrow> FrameType \<Rightarrow> byte" where
  "data_type_after lst ft = (if ft = e_text \<or> ft = e_binary then ft else lst)"

fun heard :: "byte \<Rightarrow> ws_msg list \<Rightarrow> ws_event list" where
  "heard lst [] = []"
| "heard lst ((d, ft, fin) # ms) =
     (if ft = e_continuation \<or> ft = e_text \<or> ft = e_binary then
        (if data_type_after lst ft = e_text then [OnText d fin]
         else if data_type_after lst ft = e_binary then [OnBinary d fin] else [])
      else []) @ heard (data_type_after lst ft) ms"

lemma frame_types_distinct:
  "e_text \<noteq> e_binary" "e_text \<noteq> e_ping" "e_text \<noteq> e_connection_close" "e_binary \<noteq> e_ping"
  "e_binary \<noteq> e_connection_close" "e_continuation \<noteq> e_ping" "e_continuation \<noteq> e_connection_close"
  "e_ping \<noteq> e_connection_close" "e_continuation \<noteq> e_text" "e_continuation \<noteq> e_binary"
  by (simp_all add: e_text_def e_binary_def e_ping_def e_connection_close_def e_continuation_def)

lemma control_frames:
  "append_frame close_builder [] c = append_write_data [0x88, 0] c"
  "append_frame pong_builder [] c = append_write_data [0x8a, 0] c"
  by (simp_all add: append_frame_def Build_def close_builder_def pong_builder_def SetFrameType_def SetFIN_def
      new_FrameBuilder_def e_connection_close_def e_pong_def)

lemma append_write_fields:
  "ws_events (append_write_data d c) = ws_events c" "last_data_type (append_write_data d c) = last_data_type c"
  "stop_by_self (append_write_data d c) = stop_by_self c"
  by (simp_all add: append_write_data_def start_write_def Let_def split: list.splits)

lemma fire_quiet: "fire (\<lambda>_. []) ev c = c\<lparr>ws_events := ws_events c @ [ev]\<rparr>"
  by (simp add: fire_def)

lemma read_frame_quiet:
  assumes d_def: "d = on_read_frame (\<lambda>_. []) m c"
  shows "ws_events d = ws_events c @ heard (last_data_type c) [m]"
    and "view d = view (fold append_write_data (answered (stop_by_self c) [m]) c)"
    and "last_data_type d = data_type_after (last_data_type c) (fst (snd m))"
    and "stop_by_self d = (stop_by_self c \<or> fst (snd m) = e_connection_close)"
proof -
  obtain x ft fin where m: "m = (x, ft, fin)" by (cases m)
  have a: "view (append_write_data y (c\<lparr>error_on_parse := e, stop_by_self := b\<rparr>)) = view (append_write_data y c)"
    "view (append_write_data y (c\<lparr>error_on_parse := e\<rparr>)) = view (append_write_data y c)" for y e b
    by (rule view_append, simp add: view_def)+
  have "ws_events d = ws_events c @ heard (last_data_type c) [m] \<and>
    view d = view (fold append_write_data (answered (stop_by_self c) [m]) c) \<and>
    last_data_type d = data_type_after (last_data_type c) ft \<and>
    stop_by_self d = (stop_by_self c \<or> ft = e_connection_close)"
  proof (cases "ft = e_connection_close \<or> ft = e_ping")
    case True
    then show ?thesis
      using frame_types_distinct frame_types_distinct[symmetric]
      by (auto simp: d_def m on_read_frame_def WsStop_def pong_def control_frames append_write_fields a view_def[of "c\<lparr>error_on_parse := 0\<rparr>"]
          view_def[of c] data_type_after_def)
  next
    case False
    have v: "view (c\<lparr>error_on_parse := e\<rparr>) = view c" "view (c\<lparr>error_on_parse := e, last_data_type := t\<rparr>) = view c"
      "view (y\<lparr>ws_events := evs\<rparr>) = view y" for e t y evs
      by (simp_all add: view_def)
    show ?thesis
      using False frame_types_distinct
      by (auto simp: d_def m on_read_frame_def fire_quiet data_type_after_def view_def Let_def)
  qed
  then show "ws_events d = ws_events c @ heard (last_data_type c) [m]"
    "view d = view (fold append_write_data (answered (stop_by_self c) [m]) c)"
    "last_data_type d = data_type_after (last_data_type c) (fst (snd m))"
    "stop_by_self d = (stop_by_self c \<or> fst (snd m) = e_connection_close)"
    by (simp_all add: m)
qed

lemma read_frames_quiet:
  "ws_events (fold (on_read_frame (\<lambda>_. [])) ms c) = ws_events c @ heard (last_data_type c) ms \<and>
   view (fold (on_read_frame (\<lambda>_. [])) ms c) = view (fold append_write_data (answered (stop_by_self c) ms) c)"
proof (induction ms arbitrary: c)
  case (Cons m ms)
  obtain x ft fin where m: "m = (x, ft, fin)" by (cases m)
  let ?d = "on_read_frame (\<lambda>_. []) m c"
  note q = read_frame_quiet[OF refl, of m c]
  have hd: "heard (last_data_type c) (m # ms) = heard (last_data_type c) [m] @ heard (last_data_type ?d) ms"
    unfolding q(3) by (simp add: m)
  have an: "answered (stop_by_self c) (m # ms) = answered (stop_by_self c) [m] @ answered (stop_by_self ?d) ms"
    unfolding q(4) by (simp add: m)
  have "view (fold append_write_data (answered (stop_by_self ?d) ms) ?d) =
      view (fold append_write_data (answered (stop_by_self c) (m # ms)) c)"
    unfolding an fold_append comp_apply using view_append_all[OF q(2)] .
  then show ?case
    using Cons.IH[of ?d] q(1) unfolding hd by simp
qed simp

text \<open>
  Every frame that is read is dealt with as the protocol says.  Beside a handler that
  makes no calls, reading frames queues exactly the answers: a pong for each ping, one close
  for the first close unless this end asked for it before, and nothing else; and the handler
  gets each data frame, a continuation under the type of the data frame before it.
\<close>

theorem ws_frames_handled:
  "ws_events (fold (on_read_frame (\<lambda>_. [])) ms c) = ws_events c @ heard (last_data_type c) ms \<and>
   data_4_write (fold (on_read_frame (\<lambda>_. [])) ms c) = data_4_write c @ answered (stop_by_self c) ms"
  using read_frames_quiet[of ms c] wsq.append_all[of "answered (stop_by_self c) ms" c] by (simp add: view_fields)

section \<open>From one end to the other\<close>

abbreviation sent_frame :: "byte list \<times> WriteDataType \<times> bool \<Rightarrow> ws_msg" where
  "sent_frame x \<equiv> (fst x, FromWriteDataType (fst (snd x)), snd (snd x))"

abbreviation write_msg :: "byte list \<times> WriteDataType \<times> bool \<Rightarrow> ws_conn \<Rightarrow> ws_conn" where
  "write_msg x \<equiv> WsWrite (fst x) (fst (snd x)) (snd (snd x))"

lemma write_builder_fields:
  "fb_OPCODE (write_builder t fin) = FromWriteDataType t" "fb_FIN (write_builder t fin) \<noteq> 0 \<longleftrightarrow> fin"
  "fb_MASK (write_builder t fin) = 0"
  by (simp_all add: write_builder_def SetFrameType_def SetFIN_def new_FrameBuilder_def)

lemma Build_unmasked: "fb_MASK b = 0 \<Longrightarrow> \<exists>f. Build b d = Some f \<and> 2 \<le> length f"
  by (auto simp: Build_def Let_def)

lemma writes_are_frames:
  "\<exists>fs. data_4_write (fold write_msg xs c) = data_4_write c @ fs \<and>
     map (\<lambda>x. Build (write_builder (fst (snd x)) (snd (snd x))) (fst x)) xs = map Some fs \<and>
     2 * length xs \<le> length (concat fs)"
proof (induction xs arbitrary: c)
  case (Cons x xs)
  obtain f where f: "Build (write_builder (fst (snd x)) (snd (snd x))) (fst x) = Some f" "2 \<le> length f"
    using Build_unmasked[OF write_builder_fields(3)] by blast
  obtain fs where fs: "data_4_write (fold write_msg xs (write_msg x c)) = data_4_write (write_msg x c) @ fs"
      "map (\<lambda>x. Build (write_builder (fst (snd x)) (snd (snd x))) (fst x)) xs = map Some fs"
      "2 * length xs \<le> length (concat fs)"
    using Cons.IH[of "write_msg x c"] by blast
  have "data_4_write (write_msg x c) = data_4_write c @ [f]"
    using f(1) by (simp add: WsWrite_def append_frame_def wsq.queue_append)
  then show ?case using f fs by (intro exI[of _ "f # fs"]) simp
qed simp

text \<open>
  (C5) What one end sends the other end hears.  The frames that a connection queues for the
  messages of its program, read in one piece by another connection between two frames, give
  the handler there exactly those messages, in order, with their bytes and their last-frame
  flags, a continuation under the type of what it continues, and nothing is answered.
\<close>

theorem ws_messages_heard:
  assumes "xs \<noteq> []" "list_all (\<lambda>x. length (fst x) < 2 ^ 32 \<and> alloc (length (fst x))) xs"
    and "data_4_write c = []" "ws_parser r = reset_parser"
  shows "\<exists>r'. on_ws_read alloc (\<lambda>_. []) None (concat (data_4_write (fold write_msg xs c))) r = Some r' \<and>
    ws_events r' = ws_events r @ heard (last_data_type r) (map sent_frame xs) \<and>
    data_4_write r' = data_4_write r \<and> ws_parser r' = reset_parser"
proof -
  let ?ys = "map (\<lambda>x. (write_builder (fst (snd x)) (snd (snd x)), fst x)) xs"
  obtain fs where fs: "data_4_write (fold write_msg xs c) = fs"
      "map (\<lambda>(b, d). Build b d) ?ys = map Some fs" "2 * length xs \<le> length (concat fs)"
    using writes_are_frames[of xs c] assms(3) by (auto simp: comp_def)
  have "Parse alloc (2 * length (concat fs) + 1) reset_parser (concat fs) =
      Some (True, reset_parser, map sent_frame xs)"
    unfolding Parse_def
    using parse_loop_frames[OF fs(2), of "2 * length (concat fs) + 1" alloc "[]"] assms(1,2) fs(3)
    by (simp add: list_all_iff builder_params write_builder_fields comp_def)
  moreover have "concat fs \<noteq> []"
  proof
    assume "concat fs = []"
    then have "2 * length xs \<le> 0" using fs(3) by (simp only: list.size)
    then show False using assms(1) by simp
  qed
  ultimately have e: "on_ws_read alloc (\<lambda>_. []) None (concat fs) r =
      (let d = fold (on_read_frame (\<lambda>_. [])) (map sent_frame xs) (r\<lparr>ws_reading := ws_reading r - 1, ws_parser := reset_parser\<rparr>)
       in Some (if error_on_parse d = 0 then start_read d else d))"
    using assms(4) by (simp add: on_ws_read_def Let_def del: concat_eq_Nil_conv)
  let ?r = "r\<lparr>ws_reading := ws_reading r - 1, ws_parser := reset_parser\<rparr>"
  have quiet: "answered b (map sent_frame xs) = []" for b
  proof (induction xs arbitrary: b)
    case (Cons x xs)
    then show ?case using frame_types_distinct by (cases "fst (snd x)") simp_all
  qed simp
  have p: "ws_parser (fold (on_read_frame (\<lambda>_. [])) (map sent_frame ys) d) = ws_parser d" for ys d
  proof (induction ys arbitrary: d)
    case (Cons y ys)
    have "ws_parser (on_read_frame (\<lambda>_. []) (sent_frame y) d) = ws_parser d"
      using frame_types_distinct by (cases "fst (snd y)") (simp_all add: on_read_frame_def fire_quiet Let_def)
    then show ?case using Cons by simp
  qed simp
  show ?thesis
    unfolding fs(1) e Let_def
    using read_frames_quiet[of "map sent_frame xs" ?r] quiet p[of xs ?r]
    by (simp add: view_fields start_read_def)
qed

theorem ws_messages_heard_witness:
  "\<exists>r'. on_ws_read (\<lambda>_. True) (\<lambda>_. []) None
      (concat (data_4_write (SendLastText [33] (SendFirstText [72, 105] demo_ws_conn)))) demo_ws_conn = Some r' \<and>
    ws_events r' = [OnText [72, 105] False, OnText [33] True]"
  using ws_messages_heard[of "[([72, 105], text_data, False), ([33], continuation, True)]" "\<lambda>_. True" demo_ws_conn demo_ws_conn]
    frame_types_distinct
  by (auto simp: demo_ws_conn_def new_ws_conn_def SendFirstText_def SendLastText_def data_type_after_def)

section \<open>Departures from the protocol\<close>

text \<open>A pong that was not asked for, which the protocol allows, ends the reading of a connection.\<close>

lemma pong_ends_reading:
  "map_option ws_reading (on_ws_read (\<lambda>_. True) (\<lambda>_. []) None [0x8a, 0] (demo_ws_conn\<lparr>ws_reading := 1\<rparr>)) = Some 0"
proof -
  have "Parse (\<lambda>_. True) 5 reset_parser [0x8a, 0] = Some (True, reset_parser, [([], 10, True)])"
    by code_simp
  then show ?thesis
    by (simp add: on_ws_read_def demo_ws_conn_def new_ws_conn_def on_read_frame_def e_connection_close_def e_ping_def
        e_continuation_def e_text_def e_binary_def)
qed

text \<open>A frame that the connection refuses is forgotten when a good one follows in the same read.\<close>

lemma later_frame_clears_error:
  "error_on_parse (fold (on_read_frame (\<lambda>_. [])) [([], 3, True), ([1], e_text, True)] c) = 0"
  by (simp add: on_read_frame_def fire_quiet e_connection_close_def e_ping_def e_continuation_def e_text_def
      e_binary_def Let_def)

text \<open>What the program sends while the connection is opened goes out before the handshake.\<close>

lemma sent_before_handshake:
  assumes "data_4_write c = []" "ws_writing c = []"
  shows "\<exists>f hs. ws_writing (WsStart B sha1 key (SendText d c)) = [f] \<and>
    data_4_write (WsStart B sha1 key (SendText d c)) = [f, hs] \<and> is_frame f"
proof -
  obtain f where f: "Build (write_builder text_data True) d = Some f"
    using Build_unmasked[OF write_builder_fields(3)] by blast
  then have "is_frame f" using builder_params by (auto simp: is_frame_def)
  then show ?thesis
    using assms f by (simp add: WsStart_def start_handshake_def SendText_def WsWrite_def append_frame_def
        append_write_data_def start_write_def start_read_def Let_def)
qed

end
