(* ===== verification/WsRegistryProofs.thy ===== *)
theory WsRegistryProofs
  imports WsRegistry WsConnectionProofs RequestProofs
begin

text \<open>
  The two levels of maps of an application implement one finite map from URLs and identities
  to connections, and what is registered is alive and under its own name.
\<close>

section \<open>One finite map\<close>

definition registered :: "'f ws_app \<Rightarrow> string \<times> string \<Rightarrow> conn_ref option" where
  "registered a = (\<lambda>(u, i). case omap_find str_less (websocket_connections a) u of
      None \<Rightarrow> None | Some cs \<Rightarrow> omap_find str_less cs i)"

definition maps_sorted :: "'f ws_app \<Rightarrow> bool" where
  "maps_sorted a \<longleftrightarrow> omap_sorted str_less (websocket_connections a) \<and>
     (\<forall>u cs. omap_find str_less (websocket_connections a) u = Some cs \<longrightarrow> omap_sorted str_less cs)"

lemma put_connections:
  assumes "maps_sorted a" "omap_sorted str_less cs"
    and b: "b = a\<lparr>websocket_connections := omap_put str_less (websocket_connections a) u cs\<rparr>"
  shows "maps_sorted b"
    and "registered b = (\<lambda>(v, i). if v = u then omap_find str_less cs i else registered a (v, i))"
  using assms strs.sorted_put[of "websocket_connections a" u cs]
  by (auto simp: maps_sorted_def b registered_def strm.map_put)

lemma ident_MakesureFullUrlPath [simp]: "MakesureFullUrlPath u url_full_path root = u"
  by (simp add: MakesureFullUrlPath_def)

lemma AddWebSocketConnection_map:
  assumes "maps_sorted a"
  shows "maps_sorted (AddWebSocketConnection r cnt a)"
    and "registered (AddWebSocketConnection r cnt a) =
      (if registered a (GetURLPath cnt, ws_id cnt) = None then (registered a)((GetURLPath cnt, ws_id cnt) \<mapsto> r)
       else registered a)"
proof -
  let ?m = "websocket_connections a" and ?u = "GetURLPath cnt"
  have "maps_sorted (AddWebSocketConnection r cnt a) \<and> registered (AddWebSocketConnection r cnt a) =
      (if registered a (?u, ws_id cnt) = None then (registered a)((?u, ws_id cnt) \<mapsto> r) else registered a)"
  proof (cases "omap_find str_less ?m ?u")
    case None
    then have e: "AddWebSocketConnection r cnt a =
        a\<lparr>websocket_connections := omap_put str_less ?m ?u [(ws_id cnt, r)]\<rparr>"
      by (simp add: AddWebSocketConnection_def Connections_one_def)
    have "omap_sorted str_less [(ws_id cnt, r)]" by simp
    note p = put_connections[OF assms this refl, of ?u]
    have "omap_find str_less [(ws_id cnt, r)] i = (if i = ws_id cnt then Some r else None)" for i
      using strm.total[of i "ws_id cnt"] strs.irrefl by auto
    then show ?thesis
      using p None unfolding e by (auto simp: registered_def)
  next
    case (Some cs)
    then have cs: "omap_sorted str_less cs" using assms by (simp add: maps_sorted_def)
    have e: "AddWebSocketConnection r cnt a =
        a\<lparr>websocket_connections := omap_put str_less ?m ?u (omap_insert str_less cs (ws_id cnt) r)\<rparr>"
      using Some by (simp add: AddWebSocketConnection_def Connections_Add_def)
    note p = put_connections[OF assms strs.sorted_insert[OF cs] refl, of ?u "ws_id cnt" r]
    show ?thesis
      using p Some unfolding e by (auto simp: registered_def strm.map_insert[OF cs] fun_eq_iff)
  qed
  then show "maps_sorted (AddWebSocketConnection r cnt a)"
    "registered (AddWebSocketConnection r cnt a) =
      (if registered a (?u, ws_id cnt) = None then (registered a)((?u, ws_id cnt) \<mapsto> r) else registered a)"
    by blast+
qed

lemma RemoveWebSocketConnection_map:
  assumes "maps_sorted a" "RemoveWebSocketConnection u url_full_path i a = (b, removed)"
  shows "maps_sorted b" "registered b = (registered a)((u, i) := None)" "ws_heap b = ws_heap a"
    "removed \<longleftrightarrow> registered a (u, i) \<noteq> None"
proof -
  let ?m = "websocket_connections a"
  have "maps_sorted b \<and> registered b = (registered a)((u, i) := None) \<and> ws_heap b = ws_heap a \<and>
      (removed \<longleftrightarrow> registered a (u, i) \<noteq> None)"
  proof (cases "omap_find str_less ?m u")
    case None
    then show ?thesis using assms by (auto simp: RemoveWebSocketConnection_def registered_def fun_eq_iff)
  next
    case (Some cs)
    then have cs: "omap_sorted str_less cs" using assms(1) by (simp add: maps_sorted_def)
    show ?thesis
    proof (cases "omap_find str_less cs i")
      case None
      then have "b = a\<lparr>websocket_connections := omap_put str_less ?m u cs\<rparr>" "\<not> removed"
        using Some assms(2) by (auto simp: RemoveWebSocketConnection_def Connections_Remove_def)
      then show ?thesis
        using put_connections[OF assms(1) cs refl, of u] Some None by (auto simp: registered_def fun_eq_iff)
    next
      case f: (Some r)
      then have "b = a\<lparr>websocket_connections := omap_put str_less ?m u (omap_erase str_less cs i)\<rparr>" "removed"
        using Some assms(2) by (auto simp: RemoveWebSocketConnection_def Connections_Remove_def)
      then show ?thesis
        using put_connections[OF assms(1) strs.sorted_erase[OF cs] refl, of u i] Some f
        by (auto simp: registered_def fun_eq_iff strm.map_erase[OF cs])
    qed
  qed
  then show "maps_sorted b" "registered b = (registered a)((u, i) := None)" "ws_heap b = ws_heap a"
    "removed \<longleftrightarrow> registered a (u, i) \<noteq> None" by blast+
qed

lemma RenameWebSocketConnectionID_map:
  assumes "maps_sorted a" "RenameWebSocketConnectionID u url_full_path i j a = (b, renamed)"
  shows "maps_sorted b"
    "(registered b, ws_heap b, renamed) =
      (case registered a (u, i) of
         None \<Rightarrow> (registered a, ws_heap a, False)
       | Some r \<Rightarrow>
           (case ws_heap a r of
              None \<Rightarrow> ((registered a)((u, i) := None), ws_heap a, False)
            | Some cnt \<Rightarrow> ((registered a)((u, i) := None, (u, j) \<mapsto> r), (ws_heap a)(r \<mapsto> cnt\<lparr>ws_id := j\<rparr>), True)))"
proof -
  let ?m = "websocket_connections a"
  have "maps_sorted b \<and> (registered b, ws_heap b, renamed) =
      (case registered a (u, i) of
         None \<Rightarrow> (registered a, ws_heap a, False)
       | Some r \<Rightarrow>
           (case ws_heap a r of
              None \<Rightarrow> ((registered a)((u, i) := None), ws_heap a, False)
            | Some cnt \<Rightarrow> ((registered a)((u, i) := None, (u, j) \<mapsto> r), (ws_heap a)(r \<mapsto> cnt\<lparr>ws_id := j\<rparr>), True)))"
  proof (cases "omap_find str_less ?m u")
    case None
    then show ?thesis using assms by (auto simp: RenameWebSocketConnectionID_def registered_def)
  next
    case (Some cs)
    then have cs: "omap_sorted str_less cs" using assms(1) by (simp add: maps_sorted_def)
    note er = strs.sorted_erase[OF cs, of i] and pe = strs.sorted_put[OF strs.sorted_erase[OF cs, of i]]
    obtain cs' h' where rn: "Connections_RenameID i j cs (ws_heap a) = (cs', h', renamed)"
      and b: "b = a\<lparr>websocket_connections := omap_put str_less ?m u cs', ws_heap := h'\<rparr>"
      using assms(2) Some by (cases "Connections_RenameID i j cs (ws_heap a)") (auto simp: RenameWebSocketConnectionID_def)
    have reg: "registered b = registered (a\<lparr>websocket_connections := omap_put str_less ?m u cs'\<rparr>)"
      "maps_sorted b \<longleftrightarrow> maps_sorted (a\<lparr>websocket_connections := omap_put str_less ?m u cs'\<rparr>)"
      by (simp_all add: registered_def b maps_sorted_def)
    show ?thesis
    proof (cases "omap_find str_less cs i")
      case None
      then have "cs' = cs" "h' = ws_heap a" "\<not> renamed"
        using rn by (auto simp: Connections_RenameID_def)
      then show ?thesis
        using reg put_connections[OF assms(1) cs refl, of u] Some None b by (auto simp: registered_def fun_eq_iff)
    next
      case f: (Some r)
      show ?thesis
      proof (cases "ws_heap a r")
        case None
        then have "cs' = omap_erase str_less cs i" "h' = ws_heap a" "\<not> renamed"
          using rn f by (auto simp: Connections_RenameID_def)
        then show ?thesis
          using reg put_connections[OF assms(1) er refl, of u] Some None f b
          by (auto simp: registered_def fun_eq_iff strm.map_erase[OF cs])
      next
        case (Some cnt)
        have "(ws_heap a)(r \<mapsto> cnt\<lparr>ws_id := j\<rparr>) = ws_heap a" if "ws_id cnt = j"
          using that Some by (auto simp: fun_eq_iff)
        then have "cs' = omap_put str_less (omap_erase str_less cs i) j r" "h' = (ws_heap a)(r \<mapsto> cnt\<lparr>ws_id := j\<rparr>)" "renamed"
          using rn f Some by (auto simp: Connections_RenameID_def split: if_splits)
        then show ?thesis
          using reg put_connections[OF assms(1) pe refl, of u j r] \<open>omap_find str_less ?m u = Some cs\<close> Some f b
          by (auto simp: registered_def fun_eq_iff strm.map_put[OF er] strm.map_erase[OF cs])
      qed
    qed
  qed
  then show "maps_sorted b"
    "(registered b, ws_heap b, renamed) =
      (case registered a (u, i) of
         None \<Rightarrow> (registered a, ws_heap a, False)
       | Some r \<Rightarrow>
           (case ws_heap a r of
              None \<Rightarrow> ((registered a)((u, i) := None), ws_heap a, False)
            | Some cnt \<Rightarrow> ((registered a)((u, i) := None, (u, j) \<mapsto> r), (ws_heap a)(r \<mapsto> cnt\<lparr>ws_id := j\<rparr>), True)))"
    by blast+
qed

text \<open>
  (C6) The connections of an application are one finite map from URLs and identities to
  connections, whatever the two levels it is kept in: adding puts an entry where there is none
  and changes nothing where there is one, removing takes the entry out and says whether there
  was one, and looking up gives the entry when its connection is alive.
\<close>

theorem registry_refines_map:
  assumes "maps_sorted a"
  shows "registered (AddWebSocketConnection r cnt a) =
      (if registered a (GetURLPath cnt, ws_id cnt) = None then (registered a)((GetURLPath cnt, ws_id cnt) \<mapsto> r)
       else registered a) \<and>
    maps_sorted (AddWebSocketConnection r cnt a) \<and>
    registered (fst (RemoveWebSocketConnection u url_full_path i a)) = (registered a)((u, i) := None) \<and>
    snd (RemoveWebSocketConnection u url_full_path i a) = (registered a (u, i) \<noteq> None) \<and>
    maps_sorted (fst (RemoveWebSocketConnection u url_full_path i a)) \<and>
    WebsocketConnection u url_full_path i a =
      (case registered a (u, i) of None \<Rightarrow> None | Some q \<Rightarrow> lock_ref (ws_heap a) q)"
proof -
  have "WebsocketConnection u url_full_path i a =
      (case registered a (u, i) of None \<Rightarrow> None | Some q \<Rightarrow> lock_ref (ws_heap a) q)"
    by (auto simp: WebsocketConnection_def registered_def Connections_Get_def split: option.splits)
  then show ?thesis
    using AddWebSocketConnection_map[OF assms] RemoveWebSocketConnection_map[OF assms surjective_pairing, of u i]
    by blast
qed

definition demo_ws_app :: "unit ws_app" where
  "demo_ws_app = \<lparr>ws_root = ''/'', ws_runing = False, websocket_handlers_factory = [],
     websocket_connections = [(''/a'', [(''x'', 1)])], ws_heap = (\<lambda>r. if r = 1 then Some (demo_ws_conn\<lparr>ws_id := ''x'',
       ws_full_url_path := ''/a''\<rparr>) else None)\<rparr>"

lemma demo_ws_app_sorted: "maps_sorted demo_ws_app"
  by (auto simp: maps_sorted_def demo_ws_app_def split: if_splits)

lemma demo_registered: "registered demo_ws_app (''/a'', ''x'') = Some 1"
  by (simp add: registered_def demo_ws_app_def strs.irrefl)

theorem registry_refines_map_witness:
  "registered (fst (RemoveWebSocketConnection ''/a'' url_full_path ''x'' demo_ws_app)) (''/a'', ''x'') = None \<and>
   snd (RemoveWebSocketConnection ''/a'' url_full_path ''x'' demo_ws_app)"
  using registry_refines_map[OF demo_ws_app_sorted, of _ _ "''/a''" "''x''"] demo_registered by simp

section \<open>Every entry is under its own name\<close>

text \<open>
  What happens to the connections of an application: an upgrade makes a new one, a context or
  the application's own functions rename one or take one out, the last context of one goes, and
  each works on its own (a call, a read, a write) or drops what it kept of its request.  Any
  identity can be asked for, the empty one included.  The number of a new connection is one that
  no connection and no entry has: a weak pointer to a connection that is gone never comes to
  point to another.
\<close>

definition fresh_ref :: "'f ws_app \<Rightarrow> conn_ref \<Rightarrow> bool" where
  "fresh_ref a r \<longleftrightarrow> ws_heap a r = None \<and> (\<forall>u i. registered a (u, i) \<noteq> Some r)"

inductive app_step :: "boost_algo \<Rightarrow> (string \<Rightarrow> byte list) \<Rightarrow> 'f ws_app \<Rightarrow> 'f ws_app \<Rightarrow> bool" for B sha1 where
  upgrade: "fresh_ref a r \<Longrightarrow> app_step B sha1 a (fst (do_upgrade B sha1 on_open uuid r req a))"
| rename: "app_step B sha1 a (fst (ContextRenameID r new_id a))"
| rename_named: "app_step B sha1 a (fst (RenameWebSocketConnectionID url flag old_id new_id a))"
| remove_named: "app_step B sha1 a (fst (RemoveWebSocketConnection url flag ident a))"
| gone: "app_step B sha1 a (destroy_context True r a)"
| work: "ws_heap a r = Some c \<Longrightarrow> ws_step alloc h inp c = Some c' \<Longrightarrow>
    app_step B sha1 a (a\<lparr>ws_heap := (ws_heap a)(r \<mapsto> c')\<rparr>)"
| forget: "ws_heap a r = Some c \<Longrightarrow> app_step B sha1 a (a\<lparr>ws_heap := (ws_heap a)(r \<mapsto> RemoveHttpInfo c)\<rparr>)"

text \<open>
  An entry is that of a living connection with its URL and identity, or of one that is gone and had
  no identity (or no URL), which nothing takes out.
\<close>

definition entry_ok :: "conn_heap \<Rightarrow> string \<Rightarrow> string \<Rightarrow> conn_ref \<Rightarrow> bool" where
  "entry_ok heap u i r \<longleftrightarrow>
     (case heap r of Some c \<Rightarrow> GetURLPath c = u \<and> ws_id c = i | None \<Rightarrow> u = [] \<or> i = [])"

definition names_own :: "'f ws_app \<Rightarrow> bool" where
  "names_own a \<longleftrightarrow> (\<forall>u i r. registered a (u, i) = Some r \<longrightarrow> entry_ok (ws_heap a) u i r)"

definition registry_inv :: "'f ws_app \<Rightarrow> bool" where
  "registry_inv a \<longleftrightarrow> maps_sorted a \<and> names_own a"

lemma names_ownD: "names_own a \<Longrightarrow> registered a (u, i) = Some r \<Longrightarrow> entry_ok (ws_heap a) u i r"
  unfolding names_own_def by blast

lemma entry_ok_alive: "entry_ok h u i r \<Longrightarrow> h r = Some c \<Longrightarrow> GetURLPath c = u \<and> ws_id c = i"
  by (simp add: entry_ok_def)

lemma entry_ok_cong: "h' r = h r \<Longrightarrow> entry_ok h' u i r = entry_ok h u i r"
  by (simp add: entry_ok_def)

lemma GetURLPath_RemoveHttpInfo: "GetURLPath (RemoveHttpInfo c) = GetURLPath c \<and> ws_id (RemoveHttpInfo c) = ws_id c"
  by (auto simp: RemoveHttpInfo_def ClearCookies_def ClearHeaders_def ReleaseURLData_def
      makesure_url_path_storaged_def GetURLPath_def split: option.splits)

lemma GetURLPath_ws_id [simp]: "GetURLPath (c\<lparr>ws_id := i\<rparr>) = GetURLPath c"
  by (simp add: GetURLPath_def)

lemma registered_heap [simp]:
  "registered (a\<lparr>ws_heap := h\<rparr>) = registered a" "maps_sorted (a\<lparr>ws_heap := h\<rparr>) = maps_sorted a"
  by (simp_all add: registered_def maps_sorted_def)

lemma inv_work:
  assumes "registry_inv a" "ws_heap a r = Some c" "GetURLPath c' = GetURLPath c" "ws_id c' = ws_id c"
  shows "registry_inv (a\<lparr>ws_heap := (ws_heap a)(r \<mapsto> c')\<rparr>)"
  using assms by (fastforce simp: registry_inv_def names_own_def entry_ok_def)

lemma full_path_only:
  "RemoveWebSocketConnection url flag i a = RemoveWebSocketConnection (MakesureFullUrlPath url flag (ws_root a)) url_full_path i a"
  "RenameWebSocketConnectionID url flag i j a =
     RenameWebSocketConnectionID (MakesureFullUrlPath url flag (ws_root a)) url_full_path i j a"
  by (simp_all add: RemoveWebSocketConnection_def RenameWebSocketConnectionID_def)

lemma inv_remove:
  assumes "registry_inv a"
  shows "registry_inv (fst (RemoveWebSocketConnection url flag i a))"
proof -
  let ?u = "MakesureFullUrlPath url flag (ws_root a)"
  obtain b q where b: "RemoveWebSocketConnection ?u url_full_path i a = (b, q)"
    by (cases "RemoveWebSocketConnection ?u url_full_path i a")
  have "maps_sorted a" using assms by (simp add: registry_inv_def)
  note m = RemoveWebSocketConnection_map[OF this b]
  show ?thesis
    using assms m unfolding full_path_only(1) [of url] b
    by (auto simp: registry_inv_def names_own_def split: if_splits)
qed

lemma inv_gone:
  assumes "registry_inv a"
  shows "registry_inv (destroy_context True r a)"
proof (cases "ws_heap a r")
  case None
  then show ?thesis using assms by (simp add: destroy_context_def)
next
  case (Some c)
  let ?u = "GetURLPath c" and ?i = "ws_id c"
  have ms: "maps_sorted a" and no: "names_own a" using assms by (simp_all add: registry_inv_def)
  define b where "b = (if ?u \<noteq> [] \<and> ?i \<noteq> [] then fst (RemoveWebSocketConnection ?u url_full_path ?i a) else a)"
  have e: "destroy_context True r a = b\<lparr>ws_heap := (ws_heap b)(r := None)\<rparr>"
    using Some by (simp add: destroy_context_def b_def Let_def)
  note m = RemoveWebSocketConnection_map[OF ms surjective_pairing]
  have b: "maps_sorted b" "ws_heap b = ws_heap a"
    "registered b = (if ?u \<noteq> [] \<and> ?i \<noteq> [] then (registered a)((?u, ?i) := None) else registered a)"
    using ms m(1-3) by (simp_all add: b_def)
  have "entry_ok ((ws_heap b)(r := None)) u i s" if s: "registered b (u, i) = Some s" for u i s
  proof -
    have reg: "registered a (u, i) = Some s" using s b(3) by (auto split: if_splits)
    note ok = names_ownD [OF no reg]
    show ?thesis
    proof (cases "s = r")
      case True
      then have "u = ?u" "i = ?i" using entry_ok_alive [OF ok] Some by auto
      then show ?thesis using s b(3) True by (auto simp: entry_ok_def split: if_splits)
    next
      case False
      then show ?thesis using ok b(2) by (simp add: entry_ok_def)
    qed
  qed
  then show ?thesis using b(1) by (simp add: registry_inv_def names_own_def e)
qed

lemma inv_rename_full:
  assumes "registry_inv a"
  shows "registry_inv (fst (RenameWebSocketConnectionID u url_full_path i j a))"
proof -
  obtain b q where b: "RenameWebSocketConnectionID u url_full_path i j a = (b, q)"
    by (cases "RenameWebSocketConnectionID u url_full_path i j a")
  have ms: "maps_sorted a" and no: "names_own a" using assms by (simp_all add: registry_inv_def)
  note m = RenameWebSocketConnectionID_map[OF ms b]
  consider (none) "registered a (u, i) = None" | (dead) r where "registered a (u, i) = Some r" "ws_heap a r = None"
    | (alive) r c where "registered a (u, i) = Some r" "ws_heap a r = Some c" by (metis option.exhaust)
  then have "names_own b"
  proof cases
    case none
    then show ?thesis using m(2) no by (simp add: names_own_def)
  next
    case dead
    then show ?thesis using m(2) no by (auto simp: names_own_def split: if_splits)
  next
    case (alive r c)
    have c: "GetURLPath c = u" "ws_id c = i" using entry_ok_alive [OF names_ownD [OF no alive(1)] alive(2)] by simp_all
    have reg: "registered b = (registered a)((u, i) := None, (u, j) \<mapsto> r)"
      and hp: "ws_heap b = (ws_heap a)(r \<mapsto> c\<lparr>ws_id := j\<rparr>)"
      using m(2) alive by simp_all
    have "entry_ok (ws_heap b) v k t" if t: "registered b (v, k) = Some t" for v k t
    proof (cases "(v, k) = (u, j)")
      case True
      then show ?thesis using t c by (simp add: reg hp entry_ok_def)
    next
      case False
      then have vk: "(v, k) \<noteq> (u, i)" and old: "registered a (v, k) = Some t" using t by (auto simp: reg split: if_splits)
      have "t \<noteq> r" using entry_ok_alive [OF names_ownD [OF no old]] alive(2) c vk by auto
      then show ?thesis using names_ownD [OF no old] by (simp add: hp entry_ok_def)
    qed
    then show ?thesis by (simp add: names_own_def)
  qed
  then show ?thesis using m(1) by (simp add: registry_inv_def b)
qed

lemma inv_rename:
  "registry_inv a \<Longrightarrow> registry_inv (fst (RenameWebSocketConnectionID url flag i j a))"
  "registry_inv a \<Longrightarrow> registry_inv (fst (ContextRenameID r j a))"
  unfolding full_path_only(2) [of url] by (auto simp: ContextRenameID_def inv_rename_full split: option.splits)

lemma opened_names:
  "GetURLPath (fold run_call cs (new_ws_conn u hs cks)) = url_full u"
  "ws_id (fold run_call cs (new_ws_conn u hs cks)) = []"
  using sends_names[OF sends_run_calls, of cs "new_ws_conn u hs cks"]
  by (simp_all add: GetURLPath_def[of "new_ws_conn u hs cks"]) (simp_all add: new_ws_conn_def)

lemma inv_upgrade:
  assumes "registry_inv a" "fresh_ref a r"
  shows "registry_inv (fst (do_upgrade B sha1 on_open uuid r req a))"
proof -
  let ?cnt = "new_ws_conn (req_url req) (req_headers req) (req_cookies req)"
  have "fst (do_upgrade B sha1 on_open uuid r req a) = a \<or>
    (\<exists>cs key. fst (do_upgrade B sha1 on_open uuid r req a) =
      (AddWebSocketConnection r ((fold run_call cs ?cnt)\<lparr>ws_id := uuid\<rparr>) a)
        \<lparr>ws_heap := (ws_heap a)(r \<mapsto> WsStart B sha1 key ((fold run_call cs ?cnt)\<lparr>ws_id := uuid\<rparr>))\<rparr>)"
  proof -
    have "ws_heap (AddWebSocketConnection s d a) = ws_heap a" for s d
      by (simp add: AddWebSocketConnection_def Let_def split: option.splits)
    then show ?thesis
      by (auto simp: do_upgrade_def Let_def opened_names split: option.splits prod.splits)
  qed
  then show ?thesis
  proof
    assume "\<exists>cs key. fst (do_upgrade B sha1 on_open uuid r req a) =
      (AddWebSocketConnection r ((fold run_call cs ?cnt)\<lparr>ws_id := uuid\<rparr>) a)
        \<lparr>ws_heap := (ws_heap a)(r \<mapsto> WsStart B sha1 key ((fold run_call cs ?cnt)\<lparr>ws_id := uuid\<rparr>))\<rparr>"
    then obtain cs key where e: "fst (do_upgrade B sha1 on_open uuid r req a) =
      (AddWebSocketConnection r ((fold run_call cs ?cnt)\<lparr>ws_id := uuid\<rparr>) a)
        \<lparr>ws_heap := (ws_heap a)(r \<mapsto> WsStart B sha1 key ((fold run_call cs ?cnt)\<lparr>ws_id := uuid\<rparr>))\<rparr>" by blast
    let ?c = "(fold run_call cs ?cnt)\<lparr>ws_id := uuid\<rparr>" and ?d = "WsStart B sha1 key"
    have p: "GetURLPath ?c = url_full (req_url req)" "ws_id ?c = uuid"
      by (simp_all add: opened_names)
    have d: "GetURLPath (?d ?c) = GetURLPath ?c" "ws_id (?d ?c) = ws_id ?c"
      by (simp_all add: WsStart_def start_handshake_def Let_def start_read_def append_write_data_def start_write_def
          GetURLPath_def split: list.splits)
    have ms: "maps_sorted a" and no: "names_own a" using assms(1) by (simp_all add: registry_inv_def)
    note m = AddWebSocketConnection_map[OF ms, of r ?c]
    have "entry_ok ((ws_heap a)(r \<mapsto> ?d ?c)) u i s"
      if s: "(if registered a (GetURLPath ?c, ws_id ?c) = None then (registered a)((GetURLPath ?c, ws_id ?c) \<mapsto> r)
        else registered a) (u, i) = Some s" for u i s
    proof (cases "registered a (u, i) = Some s")
      case True
      then have "s \<noteq> r" using assms(2) by (auto simp: fresh_ref_def)
      then show ?thesis using names_ownD[OF no True] by (simp add: entry_ok_def)
    next
      case False
      then have "u = GetURLPath ?c" "i = ws_id ?c" "s = r" using s by (auto split: if_splits)
      then show ?thesis using d by (simp add: entry_ok_def)
    qed
    then show ?thesis
      using m(1) unfolding e by (simp add: registry_inv_def names_own_def m(2))
  qed (use assms(1) in simp)
qed

lemma registry_reach_inv: "(app_step B sha1)\<^sup>*\<^sup>* a b \<Longrightarrow> registry_inv a \<Longrightarrow> registry_inv b"
proof (induction rule: rtranclp_induct)
  case (step b c)
  from step(2) show ?case
    by cases (use step inv_upgrade inv_rename inv_gone inv_remove in
      \<open>auto intro: inv_work dest: step_names simp: GetURLPath_RemoveHttpInfo\<close>)
qed simp


definition empty_ws_app :: "unit ws_app" where
  "empty_ws_app = \<lparr>ws_root = ''/'', ws_runing = True, websocket_handlers_factory = [(''/chat'', ())],
     websocket_connections = [], ws_heap = (\<lambda>r. None)\<rparr>"

definition demo_upgrade_request :: Request where
  "demo_upgrade_request = blank_Request\<lparr>req_url := (req_url blank_Request)\<lparr>url_full := ''/chat''\<rparr>,
     req_headers := omap_insert (IgnoreCaseCompare boost_classic)
       (omap_insert (IgnoreCaseCompare boost_classic) [] ''Upgrade'' ''websocket'') ''Sec-WebSocket-Key'' ''k''\<rparr>"

lemma demo_upgrade_headers:
  "GetHeader boost_classic (req_headers demo_upgrade_request) ''Upgrade'' = ''websocket''"
  "GetHeader boost_classic (req_headers demo_upgrade_request) ''Sec-WebSocket-Key'' = ''k''"
proof -
  let ?lt = "IgnoreCaseCompare boost_classic"
  have s: "omap_sorted ?lt (omap_insert ?lt [] ''Upgrade'' ''websocket'')" by simp
  have u: "upper ''Sec-WebSocket-Key'' \<noteq> upper ''Upgrade''"
    by (simp add: upper_def std_toupper_def)
  have h: "req_headers demo_upgrade_request =
      omap_insert ?lt (omap_insert ?lt [] ''Upgrade'' ''websocket'') ''Sec-WebSocket-Key'' ''k''"
    by (simp add: demo_upgrade_request_def del: omap_insert.simps)
  note f = nocase_find_insert[OF boost_classic_laws s] nocase_find_insert[OF boost_classic_laws omap_sorted_Nil]
  show "GetHeader boost_classic (req_headers demo_upgrade_request) ''Upgrade'' = ''websocket''"
    "GetHeader boost_classic (req_headers demo_upgrade_request) ''Sec-WebSocket-Key'' = ''k''"
    using u u[symmetric]
    by (simp_all only: GetHeader_def h f omap_find_Nil option.case refl if_True if_False)
qed

lemma demo_upgraded:
  "\<exists>b :: unit ws_app. (app_step boost_classic (\<lambda>s. replicate 20 0))\<^sup>*\<^sup>* empty_ws_app b \<and>
    (\<forall>u i. registered b (u, i) = (if u = ''/chat'' \<and> i = ''id'' then Some 7 else None))"
proof -
  let ?b = "fst (do_upgrade boost_classic (\<lambda>s. replicate 20 0) (\<lambda>f. ([], True)) ''id'' 7 demo_upgrade_request empty_ws_app)"
  let ?cnt = "(new_ws_conn (req_url demo_upgrade_request) (req_headers demo_upgrade_request)
      (req_cookies demo_upgrade_request))\<lparr>ws_id := ''id''\<rparr>"
  have u: "url_full (req_url demo_upgrade_request) = ''/chat''"
    by (simp add: demo_upgrade_request_def blank_Request_def)
  have "app_step boost_classic (\<lambda>s. replicate 20 0) empty_ws_app ?b"
    by (rule app_step.upgrade) (simp add: fresh_ref_def registered_def empty_ws_app_def)
  then have r: "(app_step boost_classic (\<lambda>s. replicate 20 0))\<^sup>*\<^sup>* empty_ws_app ?b" by simp
  have i: "iEquals boost_classic ''websocket'' ''websocket''"
    using boost_classic_laws by (simp add: iEquals_def boost_laws_def)
  have "registered ?b = registered (AddWebSocketConnection 7 ?cnt empty_ws_app)"
    using i strs.irrefl by (simp add: do_upgrade_def demo_upgrade_headers u CreateWebSocketHandler_def empty_ws_app_def
        registered_def new_ws_conn_def Let_def)
  also have "\<dots> = (\<lambda>(u, i). if u = ''/chat'' \<and> i = ''id'' then Some 7 else None)"
    using AddWebSocketConnection_map(2)[of empty_ws_app 7 ?cnt]
    by (auto simp: maps_sorted_def empty_ws_app_def registered_def GetURLPath_def new_ws_conn_def u)
  finally show ?thesis using r by fastforce
qed


section \<open>The empty identity\<close>

text \<open>
  A connection can be renamed to the empty identity.  It then stays registered when its last
  context goes: what is looked up under that identity is gone, and the list of the connections of
  the URL holds an empty pointer.
\<close>

lemma renamed_to_empty_stays:
  assumes "maps_sorted a" "registered a (u, i) = Some r" "ws_heap a r = Some c"
    and "GetURLPath c = u" "ws_id c = i"
  shows "let b = destroy_context True r (fst (ContextRenameID r [] a)) in
    registered b (u, []) = Some r \<and> ws_heap b r = None \<and>
    WebsocketConnection u url_full_path [] b = None \<and> None \<in> set (AllWebSocketConnections u url_full_path b)"
proof -
  obtain b q where b: "RenameWebSocketConnectionID u url_full_path i [] a = (b, q)"
    by (cases "RenameWebSocketConnectionID u url_full_path i [] a")
  note m = RenameWebSocketConnectionID_map[OF assms(1) b]
  let ?d = "destroy_context True r b"
  have d: "?d = b\<lparr>ws_heap := (ws_heap b)(r := None)\<rparr>"
    using m(2) assms(2,3) by (simp add: destroy_context_def Let_def)
  have reg: "registered b (u, []) = Some r" using m(2) assms(2,3) by simp
  then obtain cs where cs: "omap_find str_less (websocket_connections b) u = Some cs" "omap_find str_less cs [] = Some r"
    by (auto simp: registered_def split: option.splits)
  have "omap_sorted str_less cs" using m(1) cs(1) by (simp add: maps_sorted_def)
  then have "([], r) \<in> set cs" using cs(2) strm.find_in by metis
  then have "None \<in> set (AllWebSocketConnections u url_full_path ?d)"
    using cs(1) by (force simp: d AllWebSocketConnections_def Connections_All_def lock_ref_def)
  then show ?thesis
    using reg cs b by (simp add: d ContextRenameID_def assms(3-5) WebsocketConnection_def Connections_Get_def lock_ref_def)
qed

section \<open>Two connections under one name\<close>

text \<open>
  A connection whose identity is taken is not registered, and when it goes it takes the entry
  of the other one with it.
\<close>

lemma taken_identity_unregisters_other:
  assumes "maps_sorted a" "registered a (u, i) = Some s" "ws_heap a r = Some c"
    and "GetURLPath c = u" "ws_id c = i" "u \<noteq> []" "i \<noteq> []"
  shows "registered (AddWebSocketConnection r c a) = registered a"
    and "registered (destroy_context True r a) (u, i) = None"
proof -
  show "registered (AddWebSocketConnection r c a) = registered a"
    using AddWebSocketConnection_map(2)[OF assms(1), of r c] assms(2,4,5) by simp
  obtain b q where b: "RemoveWebSocketConnection u url_full_path i a = (b, q)"
    by (cases "RemoveWebSocketConnection u url_full_path i a")
  have "registered (destroy_context True r a) = registered b"
    using assms(3-7) b by (simp add: destroy_context_def Let_def registered_def)
  then show "registered (destroy_context True r a) (u, i) = None"
    using RemoveWebSocketConnection_map(2)[OF assms(1) b] by simp
qed

text \<open>Renaming to an identity that is taken puts the other connection out of the application.\<close>

lemma rename_to_taken_identity:
  assumes "maps_sorted a" "registered a (u, i) = Some r" "ws_heap a r = Some c" "registered a (u, j) = Some s"
    and "RenameWebSocketConnectionID u url_full_path i j a = (b, q)"
  shows "q \<and> registered b (u, j) = Some r"
  using RenameWebSocketConnectionID_map(2)[OF assms(1,5)] assms(2,3) by simp

end
