(* ===== verification/Session.thy ===== *)
theory Session
  imports Render Intercept RedisValue
begin

text \<open>
  \<^verbatim>\<open>include/daqi/session.hpp\<close>, \<^verbatim>\<open>src/session.cpp\<close>, \<^verbatim>\<open>src/intercepters/session_redis.cpp\<close>, and
  the named data of a context, \<^verbatim>\<open>include/daqi/context.hpp\<close>.  The intercepter answers a call by a
  decision for the chain, or by a command to Redis whose reply continues it.  The text form of
  JSON, the clock and the UUIDs are parameters.
\<close>

section \<open>JSON values\<close>

text \<open>The object of a cookie has no nesting, a session has: its cookie is one of its members.\<close>

datatype json = Leaf json_value | JArr "json list" | JObj "(string \<times> json) list"

definition json_null :: json where "json_null = Leaf JNull"

text \<open>\<open>empty()\<close>: of the values that are neither object nor array only null is empty.\<close>

fun json_empty :: "json \<Rightarrow> bool" where
  "json_empty (Leaf v) = (v = JNull)"
| "json_empty (JArr vs) = (vs = [])"
| "json_empty (JObj m) = (m = [])"

definition json_is_object :: "json \<Rightarrow> bool" where
  "json_is_object j = (case j of JObj m \<Rightarrow> True | _ \<Rightarrow> False)"

text \<open>\<open>find\<close> of anything but an object finds nothing.\<close>

definition json_find :: "string \<Rightarrow> json \<Rightarrow> json option" where
  "json_find k j = (case j of JObj m \<Rightarrow> omap_find str_less m k | _ \<Rightarrow> None)"

text \<open>
  A nested value in the place of a string, number or flag does not convert, like null.
\<close>

definition leaf_value :: "json \<Rightarrow> json_value" where
  "leaf_value j = (case j of Leaf v \<Rightarrow> v | _ \<Rightarrow> JNull)"

definition flat_object :: "json \<Rightarrow> json_object option" where
  "flat_object j = (case j of JObj m \<Rightarrow> Some (map (\<lambda>(k, v). (k, leaf_value v)) m) | _ \<Rightarrow> None)"

definition cookie_json :: "Cookie \<Rightarrow> json" where
  "cookie_json c = JObj (map (\<lambda>(k, v). (k, Leaf v)) (cookie_to_json c []))"

section \<open>The session and its cookie\<close>

definition session_cookie_name :: string where "session_cookie_name = ''_cookie_''"

definition MakeNewSession :: "Cookie \<Rightarrow> json" where
  "MakeNewSession cookie = JObj [(session_cookie_name, cookie_json cookie)]"

text \<open>The cookie of a session, a default one when it has none; \<open>None\<close> when the conversion throws.\<close>

definition GetSessionCookie :: "json \<Rightarrow> Cookie option" where
  "GetSessionCookie session =
     (case json_find session_cookie_name session of
        None \<Rightarrow> Some default_Cookie
      | Some j \<Rightarrow> (case flat_object j of None \<Rightarrow> None | Some m \<Rightarrow> cookie_from_json m default_Cookie))"

record SessionOptions =
  so_name :: string
  so_prefix :: string
  so_prefix_with_time :: bool
  so_domain :: string
  so_path :: string
  so_max_age :: int
  so_http_only :: HttpOnly
  so_secure :: Secure
  so_samesite :: SameSite

definition default_SessionOptions :: SessionOptions where
  "default_SessionOptions = \<lparr>so_name = ''session_id'', so_prefix = ''sid:'', so_prefix_with_time = True,
     so_domain = [], so_path = ''/'', so_max_age = 1800, so_http_only = for_http_only,
     so_secure = for_http_and_https, so_samesite = ss_none\<rparr>"

section \<open>The named data of a context\<close>

text \<open>\<open>page\<close> is the context of \<open>Render\<close>, \<open>ctx_data\<close> the object of the data saved by name.\<close>

record SessionContext =
  page :: "json Context"
  ctx_data :: "(string, json) omap"
  has_redis :: bool

definition session_data_name :: string where "session_data_name = ''_session_data_''"

definition LoadData :: "string \<Rightarrow> SessionContext \<Rightarrow> json" where
  "LoadData name c = (case omap_find str_less (ctx_data c) name of None \<Rightarrow> json_null | Some j \<Rightarrow> j)"

text \<open>The other \<open>Data\<close> gives a reference, and adds a null value first if there is none.\<close>

definition DataRef :: "string \<Rightarrow> SessionContext \<Rightarrow> SessionContext" where
  "DataRef name c = c\<lparr>ctx_data := omap_insert str_less (ctx_data c) name json_null\<rparr>"

definition SaveData :: "string \<Rightarrow> json \<Rightarrow> SessionContext \<Rightarrow> SessionContext" where
  "SaveData name j c = c\<lparr>ctx_data := omap_put str_less (ctx_data c) name j\<rparr>"

definition RemoveData :: "string \<Rightarrow> SessionContext \<Rightarrow> SessionContext" where
  "RemoveData name c = c\<lparr>ctx_data := omap_erase str_less (ctx_data c) name\<rparr>"

definition LoadSessionData :: "SessionContext \<Rightarrow> json" where
  "LoadSessionData c = LoadData session_data_name c"

definition SaveSessionData :: "json \<Rightarrow> SessionContext \<Rightarrow> SessionContext" where
  "SaveSessionData j c = SaveData session_data_name j c"

definition ctx_GetSessionID :: "SessionContext \<Rightarrow> string option" where
  "ctx_GetSessionID c =
     (let session = LoadSessionData c
      in if \<not> json_is_object session then Some []
         else map_option (\<lambda>k. if CookieIsEmpty k then [] else cookie_value k) (GetSessionCookie session))"

definition ctx_GetSessionCookie :: "SessionContext \<Rightarrow> Cookie option" where
  "ctx_GetSessionCookie c =
     (let session = LoadSessionData c
      in if \<not> json_is_object session then Some default_Cookie else GetSessionCookie session)"

text \<open>
  The loop erases the members other than the cookie; the key of an element that is not a member
  throws, so a session that is neither an object nor empty is not cleared: \<open>None\<close>.
\<close>

definition ClearSessionData :: "SessionContext \<Rightarrow> SessionContext option" where
  "ClearSessionData c =
     (let c1 = DataRef session_data_name c
      in case LoadSessionData c1 of
           JObj m \<Rightarrow> Some (SaveSessionData (JObj (filter (\<lambda>(k, v). k = session_cookie_name) m)) c1)
         | j \<Rightarrow> if json_empty j then Some c1 else None)"

section \<open>The intercepter\<close>

text \<open>
  \<open>s_parse\<close> gives \<open>None\<close> where the parser throws, \<open>s_dump\<close> where the writer throws on a string
  that is no UTF-8.  \<open>s_time\<close> is the formatted local time, \<open>s_uuid\<close> the next UUID.
\<close>

record 't session_env =
  s_render :: "('t, json) render_env"
  s_options :: SessionOptions
  s_parse :: "string \<Rightarrow> json option"
  s_dump :: "json \<Rightarrow> string option"
  s_time :: string
  s_uuid :: string

datatype session_answer = Decide "Result list" | AskRedis "string list" | Throws

definition make_session_id :: "string \<Rightarrow> bool \<Rightarrow> string \<Rightarrow> string \<Rightarrow> string" where
  "make_session_id prefix prefix_with_time time uuid =
     (if \<not> prefix_with_time then prefix @ uuid else (prefix @ time @ '':'') @ uuid)"

definition create_new_session :: "'t session_env \<Rightarrow> json" where
  "create_new_session E =
     (let opts = s_options E;
          sid = make_session_id (so_prefix opts) (so_prefix_with_time opts) (s_time E) (s_uuid E);
          cookie = new_Cookie (so_name opts) sid (so_domain opts) (so_path opts);
          cookie = SetMaxAge (so_max_age opts) cookie;
          cookie = SetHttpOnly (so_http_only opts) cookie;
          cookie = SetSecure (so_secure opts) cookie
      in MakeNewSession (SetSameSite (so_samesite opts) cookie))"

definition render_500_page :: "'t session_env \<Rightarrow> SessionContext \<Rightarrow> SessionContext" where
  "render_500_page E c = c\<lparr>page := RenderInternalServerError (s_render E) json_null (page c)\<rparr>"

definition session_on_request :: "'t session_env \<Rightarrow> SessionContext \<Rightarrow> SessionContext \<times> session_answer" where
  "session_on_request E c =
     (let session_id = GetCookie (algo (s_render E)) (request (page c)) (so_name (s_options E))
      in if session_id = [] then (SaveSessionData (create_new_session E) c, Decide [Pass])
         else if has_redis c then (c, AskRedis [''GET'', session_id])
         else (c, Decide []))"

text \<open>
  The reply to \<open>GET\<close>.  An exception of the parser stops the chain, and then the code goes on
  behind the handler: what was parsed so far, null, is saved, and the chain is passed.
\<close>

definition on_get_reply :: "'t session_env \<Rightarrow> RedisValue \<Rightarrow> SessionContext \<Rightarrow> SessionContext \<times> session_answer" where
  "on_get_reply E value c =
     (if IsError value then (render_500_page E c, Decide [Stop])
      else case (if RedisToString value \<noteq> [] then s_parse E (RedisToString value) else Some json_null) of
             None \<Rightarrow> (SaveSessionData json_null (render_500_page E c), Decide [Stop, Pass])
           | Some session \<Rightarrow>
               (SaveSessionData (if json_empty session then create_new_session E else session) c, Decide [Pass]))"

definition session_on_response :: "'t session_env \<Rightarrow> SessionContext \<Rightarrow> SessionContext \<times> session_answer" where
  "session_on_response E c =
     (let session = LoadSessionData c
      in if json_empty session then (c, Decide [Pass])
         else case GetSessionCookie session of
                None \<Rightarrow> (c, Throws)
              | Some cookie \<Rightarrow>
                  if CookieIsEmpty cookie then (c, Decide [Pass])
                  else (let c1 = c\<lparr>page := (page c)\<lparr>response :=
                                     SetCookie (algo (s_render E)) cookie (response (page c))\<rparr>\<rparr>
                        in case s_dump E session of
                             None \<Rightarrow> (c1, Throws)
                           | Some session_value \<Rightarrow>
                               if has_redis c1
                               then (c1, AskRedis [''SETEX'', cookie_value cookie, to_string (max_age cookie), session_value])
                               else (c1, Decide [])))"

definition on_setex_reply :: "'t session_env \<Rightarrow> RedisValue \<Rightarrow> SessionContext \<Rightarrow> SessionContext \<times> session_answer" where
  "on_setex_reply E value c =
     (if IsError value then (render_500_page E c, Decide [Stop, Pass]) else (c, Decide [Pass]))"

definition SessionOnRedis :: "'t session_env \<Rightarrow> On \<Rightarrow> SessionContext \<Rightarrow> SessionContext \<times> session_answer" where
  "SessionOnRedis E on c =
     (if so_name (s_options E) = [] then (c, Decide [Pass])
      else if \<not> iStartsWith (algo (s_render E)) (url_path (req_url (request (page c)))) (so_path (s_options E))
      then (c, Decide [Pass])
      else if \<not> has_redis c then (c, Decide [Pass])
      else if on = OnRequest then session_on_request E c
      else session_on_response E c)"

end
