(* ===== verification/StaticFile.thy ===== *)
theory StaticFile
  imports Session Html Files Handler
begin

text \<open>
  \<^verbatim>\<open>include/daqi/intercepters/static_file.hpp\<close> and \<^verbatim>\<open>src/intercepters/static_file.cpp\<close>: the
  intercepter that answers a request by a file.  On the way in it chooses the file by the URL
  and stops the chain; on the way out it sends the file in chunks.  The operations of
  \<^verbatim>\<open>boost::filesystem::path\<close> and the file system are parameters.
\<close>

section \<open>The entries\<close>

datatype PathResolve = is_relative | is_absolute

record StaticFile =
  cache_max_age :: int
  url_resolve_type :: PathResolve
  dir_resolve_type :: PathResolve
  root_entries :: "(string, string) omap"
  default_filenames :: "string list"

definition new_StaticFile :: StaticFile where
  "new_StaticFile = \<lparr>cache_max_age = 300, url_resolve_type = is_relative, dir_resolve_type = is_relative,
     root_entries = [], default_filenames = []\<rparr>"

definition StaticFile_of :: "int \<Rightarrow> PathResolve \<Rightarrow> PathResolve \<Rightarrow> StaticFile" where
  "StaticFile_of age u d = \<lparr>cache_max_age = age, url_resolve_type = u, dir_resolve_type = d,
     root_entries = [], default_filenames = []\<rparr>"

text \<open>The map is in descending order, so a longer root comes before its prefixes.\<close>

definition CompareDESC :: "string \<Rightarrow> string \<Rightarrow> bool" where
  "CompareDESC l r = str_less r l"

definition AddEntry :: "string \<Rightarrow> string \<Rightarrow> StaticFile \<Rightarrow> StaticFile" where
  "AddEntry url_root dir_root s = s\<lparr>root_entries :=
     omap_insert CompareDESC (root_entries s) url_root (if dir_root = [] then url_root else dir_root)\<rparr>"

definition AddDefaultFileName :: "string \<Rightarrow> StaticFile \<Rightarrow> StaticFile" where
  "AddDefaultFileName fn s =
     (if fn \<in> set (default_filenames s) then s else s\<lparr>default_filenames := default_filenames s @ [fn]\<rparr>)"

definition AddDefaultFileNames :: "string list \<Rightarrow> StaticFile \<Rightarrow> StaticFile" where
  "AddDefaultFileNames fns s = fold AddDefaultFileName fns s"

section \<open>The way in\<close>

text \<open>
  \<open>sf_exists\<close> is the existence of a file or a directory; \<open>exists_throws\<close> of the environment of
  files says where asking for it throws.
\<close>

record 't static_env =
  sf_render :: "('t, json) render_env"
  sf_files :: file_env
  sf_has_filename :: "string \<Rightarrow> bool"
  sf_filename :: "string \<Rightarrow> string"
  sf_exists :: "string \<Rightarrow> bool"
  sf_url_root :: string
  sf_static_root :: string

definition static_data_name :: string where "static_data_name = ''static-file''"

definition url_starts :: "'t static_env \<Rightarrow> StaticFile \<Rightarrow> string \<Rightarrow> string" where
  "url_starts E s root = (if url_resolve_type s = is_relative then sf_url_root E @ root else root)"

text \<open>The path under the root: what follows it in the URL, up to the query.\<close>

definition path_under_root :: "string \<Rightarrow> string \<Rightarrow> string" where
  "path_under_root url starts =
     (let beg_pos = length starts; url_size = length url;
          sub_len = url_size - beg_pos -
            (case find_sub_from ''?'' url beg_pos of Some end_pos \<Rightarrow> url_size - end_pos | None \<Rightarrow> 0)
      in take sub_len (drop beg_pos url))"

fun find_entry :: "'t static_env \<Rightarrow> StaticFile \<Rightarrow> string \<Rightarrow> (string, string) omap \<Rightarrow> string option" where
  "find_entry E s url [] = None"
| "find_entry E s url ((root, dir) # entries) =
     (if iStartsWith (algo (sf_render E)) url (url_starts E s root)
      then Some (path_join (sf_files E) (if dir_resolve_type s = is_relative then sf_static_root E @ dir else dir)
        (path_under_root url (url_starts E s root)))
      else find_entry E s url entries)"

definition static_on_request :: "'t static_env \<Rightarrow> StaticFile \<Rightarrow> SessionContext \<Rightarrow> SessionContext \<times> session_answer" where
  "static_on_request E s c =
     (if from_http_method (req_method (request (page c))) \<noteq> GET then (c, Decide [Pass])
      else case find_entry E s (url_full (req_url (request (page c)))) (root_entries s) of
             Some dst_file \<Rightarrow>
               (SaveData static_data_name
                  (JObj [(''file'', Leaf (JString dst_file)), (''found'', Leaf (JBool True))]) c, Decide [Stop])
           | None \<Rightarrow> (c, Decide [Pass]))"

section \<open>The way out\<close>

text \<open>
  The members of the saved object; one of another type throws: \<open>None\<close>.
\<close>

definition found_member :: "json \<Rightarrow> bool option" where
  "found_member j = (case json_find ''found'' j of None \<Rightarrow> Some False | Some v \<Rightarrow> get_bool (leaf_value v))"

definition file_member :: "json \<Rightarrow> string option" where
  "file_member j = (case json_find ''file'' j of None \<Rightarrow> Some [] | Some v \<Rightarrow> get_string (leaf_value v))"

datatype located = Located string | NoFound | LocateThrows

text \<open>A file name, or the first default file that is in the directory.\<close>

definition no_file_name :: "'t static_env \<Rightarrow> string \<Rightarrow> bool" where
  "no_file_name E f \<longleftrightarrow> \<not> sf_has_filename E f \<or> sf_filename E f = ''.''"

fun find_default :: "'t static_env \<Rightarrow> string \<Rightarrow> string list \<Rightarrow> located" where
  "find_default E dst [] = NoFound"
| "find_default E dst (fn # fns) =
     (let f = path_join (sf_files E) dst fn
      in if exists_throws (sf_files E) f then LocateThrows
         else if sf_exists E f then Located f else find_default E dst fns)"

definition locate_file :: "'t static_env \<Rightarrow> StaticFile \<Rightarrow> string \<Rightarrow> located" where
  "locate_file E s dst =
     (if no_file_name E dst then find_default E dst (default_filenames s)
      else if exists_throws (sf_files E) dst then LocateThrows
      else if sf_exists E dst then Located dst
      else NoFound)"

text \<open>
  The loop over the file: a read takes \<open>block\<close> bytes or what is left, and only one that comes
  short ends it; what is read is pushed as a chunk when it is more than \<open>limit\<close> bytes.
\<close>

function read_chunks :: "nat \<Rightarrow> nat \<Rightarrow> string \<Rightarrow> string \<Rightarrow> string list" where
  "read_chunks block limit chunk rest =
     (let count = min block (length rest);
          chunk1 = chunk @ take count rest;
          full = length chunk1 > limit;
          chunk2 = (if full then [] else chunk1);
          pushed = (if full then [chunk1] else [])
      in if count < block \<or> block = 0 then pushed @ (if chunk2 \<noteq> [] then [chunk2] else [])
         else pushed @ read_chunks block limit chunk2 (drop count rest))"
  by pat_completeness auto
termination
  by (relation "measure (\<lambda>(block, limit, chunk, rest). length rest)") auto

declare read_chunks.simps [simp del]

definition max_byte_read_one_time :: nat where "max_byte_read_one_time = 1024 * 10"
definition max_byte_one_chunked_body :: nat where "max_byte_one_chunked_body = 1024 * 100"

definition send_file :: "'t static_env \<Rightarrow> StaticFile \<Rightarrow> string \<Rightarrow> string \<Rightarrow> json Context \<Rightarrow> json Context" where
  "send_file E s dst_file contents p =
     (let B = algo (sf_render E);
          content_type = GetMIMEType (path_extension (sf_files E) dst_file);
          r = (if content_type \<noteq> [] then SetContentType B content_type (response p) else response p);
          r = CacheControlMaxAge B (cache_max_age s) Public r;
          p = StartChunkedResponse (sf_render E) (p\<lparr>response := r\<rparr>)
      in fold NextChunkedResponse
           (read_chunks max_byte_read_one_time max_byte_one_chunked_body [] contents) p)"

text \<open>A file whose name is empty is answered, but the chain is not continued.\<close>

definition static_on_response :: "'t static_env \<Rightarrow> StaticFile \<Rightarrow> files \<Rightarrow> SessionContext \<Rightarrow> SessionContext \<times> session_answer" where
  "static_on_response E s fs c =
     (let status_data = LoadData static_data_name c;
          R = sf_render E;
          answer = (\<lambda>f. c\<lparr>page := f (page c)\<rparr>)
      in if json_empty status_data then (c, Decide [Pass])
         else case found_member status_data of
                None \<Rightarrow> (c, Throws)
              | Some False \<Rightarrow> (c, Decide [Pass])
              | Some True \<Rightarrow>
                  (case file_member status_data of
                     None \<Rightarrow> (c, Throws)
                   | Some dst \<Rightarrow>
                       if dst = [] then (answer (RenderBadRequest R json_null), Decide [])
                       else case locate_file E s dst of
                              NoFound \<Rightarrow> (answer (RenderNofound R json_null), Decide [Pass])
                            | LocateThrows \<Rightarrow> (answer (RenderInternalServerError R json_null), Decide [Pass])
                            | Located f \<Rightarrow>
                                (case open_stream (sf_files E) fs f of
                                   None \<Rightarrow> (answer (RenderInternalServerError R json_null), Decide [Pass])
                                 | Some contents \<Rightarrow>
                                     (let c1 = RemoveData static_data_name (answer (send_file E s f contents))
                                      in (c1\<lparr>page := StopChunkedResponse (page c1)\<rparr>, Decide [Pass])))))"

definition StaticFile_call :: "'t static_env \<Rightarrow> StaticFile \<Rightarrow> files \<Rightarrow> On \<Rightarrow> SessionContext \<Rightarrow> SessionContext \<times> session_answer" where
  "StaticFile_call E s fs on c =
     (if on = OnRequest then static_on_request E s c else static_on_response E s fs c)"

end
