(* ===== verification/SessionProofs.thy ===== *)
theory SessionProofs
  imports Session RequestProofs
begin

text \<open>
  What the session intercepter guarantees: a first visit opens a session, and what was saved
  comes back with the next request of the client.
\<close>

section \<open>The data of a context\<close>

definition data_ok :: "SessionContext \<Rightarrow> bool" where
  "data_ok c \<longleftrightarrow> omap_sorted str_less (ctx_data c)"

lemma LoadSessionData_Save: "data_ok c \<Longrightarrow> LoadSessionData (SaveSessionData j c) = j"
  by (simp add: data_ok_def LoadSessionData_def SaveSessionData_def LoadData_def SaveData_def strm.map_put)

lemma SaveSessionData_frame [simp]:
  "page (SaveSessionData j c) = page c" "has_redis (SaveSessionData j c) = has_redis c"
  by (simp_all add: SaveSessionData_def SaveData_def)

section \<open>The cookie of a session\<close>

lemma flat_cookie: "flat_object (cookie_json k) = Some (cookie_to_json k [])"
  by (simp add: flat_object_def cookie_json_def leaf_value_def comp_def case_prod_beta)

lemma session_cookie_read:
  assumes "json_find session_cookie_name j = Some (cookie_json k)" "- (2 ^ 31) \<le> max_age k" "max_age k < 2 ^ 31"
  shows "GetSessionCookie j = Some k"
  using assms by (simp add: GetSessionCookie_def flat_cookie cookie_json_read)

lemma json_find_not_empty: "json_find k j = Some v \<Longrightarrow> \<not> json_empty j \<and> json_is_object j"
  by (cases j) (auto simp: json_find_def json_is_object_def)

lemma change_first_in: "k \<in> set (change_first p (\<lambda>c. k) k ks)"
  by (induction ks) auto

lemma SetCookie_in: "k \<in> set (cookies (SetCookie B k r))"
  by (simp add: SetCookie_def change_first_in)

text \<open>The answer to a session that has a cookie: it is set, and the session is stored under its value.\<close>

definition cookie_set :: "'t session_env \<Rightarrow> Cookie \<Rightarrow> SessionContext \<Rightarrow> SessionContext" where
  "cookie_set E k c = c\<lparr>page := (page c)\<lparr>response := SetCookie (algo (s_render E)) k (response (page c))\<rparr>\<rparr>"

definition guarded :: "'t session_env \<Rightarrow> SessionContext \<Rightarrow> bool" where
  "guarded E c \<longleftrightarrow> so_name (s_options E) \<noteq> [] \<and> has_redis c \<and>
     iStartsWith (algo (s_render E)) (url_path (req_url (request (page c)))) (so_path (s_options E))"

lemma session_stored:
  assumes "guarded E c" "json_find session_cookie_name (LoadSessionData c) = Some (cookie_json k)"
    and "- (2 ^ 31) \<le> max_age k" "max_age k < 2 ^ 31" "cookie_value k \<noteq> []" "s_dump E (LoadSessionData c) = Some text"
  shows "SessionOnRedis E OnResponse c =
    (cookie_set E k c, AskRedis [''SETEX'', cookie_value k, to_string (max_age k), text])"
  using assms json_find_not_empty[OF assms(2)] session_cookie_read[OF assms(2-4)]
  by (simp add: SessionOnRedis_def session_on_response_def guarded_def CookieIsEmpty_def cookie_set_def)

text \<open>
  (C19) A session survives until the next request.  The session of a context has the cookie \<open>k\<close> that
  names it, and any other members.  On the way out the response gets the cookie, and Redis is
  asked to keep the text of the session under the value of the cookie for its age.  When the
  client comes back with that cookie, among others, Redis is asked for that value; and when it
  answers with the text, the session of the new context is the old one, all its members
  included, under the same ID.  The JSON library is relied on to read what it wrote.
\<close>

theorem session_comes_back:
  assumes "boost_laws B" "algo (s_render E) = B" "guarded E c" "guarded E c'" "data_ok c'"
    and "json_find session_cookie_name (LoadSessionData c) = Some (cookie_json k)"
    and "- (2 ^ 31) \<le> max_age k" "max_age k < 2 ^ 31" "cookie_value k \<noteq> []" "cookie_name k = so_name (s_options E)"
    and "s_dump E (LoadSessionData c) = Some text" "s_parse E text = Some (LoadSessionData c)" "text \<noteq> []"
    and "request (page c') = TransferHeadersToCookies B r" "req_cookies r = []"
    and "omap_find (IgnoreCaseCompare B) (req_headers r) ''Cookie'' = Some (cookie_header kvs)"
    and "kvs \<noteq> []" "list_all (\<lambda>(n, v). cookie_text n \<and> cookie_text v) kvs"
    and "find (\<lambda>(n, v). upper n = upper (cookie_name k)) kvs = Some (n, cookie_value k)"
  shows "SessionOnRedis E OnResponse c =
      (cookie_set E k c, AskRedis [''SETEX'', cookie_value k, to_string (max_age k), text]) \<and>
    k \<in> set (cookies (response (page (cookie_set E k c)))) \<and>
    SessionOnRedis E OnRequest c' = (c', AskRedis [''GET'', cookie_value k]) \<and>
    (\<exists>d. on_get_reply E (bytes_value text) c' = (d, Decide [Pass]) \<and>
      LoadSessionData d = LoadSessionData c \<and> ctx_GetSessionID d = Some (cookie_value k))"
proof (intro conjI)
  show "SessionOnRedis E OnResponse c =
      (cookie_set E k c, AskRedis [''SETEX'', cookie_value k, to_string (max_age k), text])"
    by (rule session_stored) fact+
  show "k \<in> set (cookies (response (page (cookie_set E k c))))"
    by (simp add: cookie_set_def SetCookie_in)
  have "cookie_header kvs \<noteq> []"
    using assms(17) by (cases kvs rule: cookie_header.cases) simp_all
  then have "req_cookies (request (page c')) = foldl (\<lambda>m (n, v). omap_insert (IgnoreCaseCompare B) m n v) [] kvs"
    using assms(14-16) cookie_header_parts[OF assms(1,17,18), of "[]"]
    by (simp add: TransferHeadersToCookies_def GetHeader_def)
  moreover have "(\<lambda>(n, v). \<not> IgnoreCaseCompare B n (cookie_name k) \<and> \<not> IgnoreCaseCompare B (cookie_name k) n) =
      (\<lambda>(n, v :: string). upper n = upper (cookie_name k))"
    using IgnoreCaseCompare_equiv[OF assms(1)] by auto
  ultimately have "GetCookie B (request (page c')) (so_name (s_options E)) = cookie_value k"
    using strict_weak_order.find_fold_insert[OF IgnoreCaseCompare_order[OF assms(1)], of "[]" kvs "cookie_name k"] assms(10,19)
    by (simp add: GetCookie_def GetHeader_def)
  then show "SessionOnRedis E OnRequest c' = (c', AskRedis [''GET'', cookie_value k])"
    using assms(2,4,9) by (simp add: SessionOnRedis_def session_on_request_def guarded_def)
  note e = json_find_not_empty[OF assms(6)]
  let ?d = "SaveSessionData (LoadSessionData c) c'"
  have "on_get_reply E (bytes_value text) c' = (?d, Decide [Pass])"
    using e assms(12,13) by (simp add: on_get_reply_def bytes_value_def IsError_def RedisToString_def ToByteArray_def)
  moreover have l: "LoadSessionData ?d = LoadSessionData c"
    using assms(5) by (rule LoadSessionData_Save)
  moreover have "ctx_GetSessionID ?d = Some (cookie_value k)"
    using e session_cookie_read[OF assms(6-8)] assms(9) by (simp add: ctx_GetSessionID_def l CookieIsEmpty_def)
  ultimately show "\<exists>d. on_get_reply E (bytes_value text) c' = (d, Decide [Pass]) \<and>
      LoadSessionData d = LoadSessionData c \<and> ctx_GetSessionID d = Some (cookie_value k)"
    by blast
qed

text \<open>The witness: a session with a member of the user's, and a client with two cookies.\<close>

definition demo_session_cookie :: Cookie where
  "demo_session_cookie = SetMaxAge 60 (new_Cookie ''sid'' ''x1'' [] ''/'')"

definition demo_session :: json where
  "demo_session = JObj [(session_cookie_name, cookie_json demo_session_cookie), (''user'', Leaf (JInt 7))]"

definition demo_session_env :: "nat session_env" where
  "demo_session_env = \<lparr>s_render = \<lparr>algo = boost_classic, templates = (\<lambda>n. None), engine = (\<lambda>t d. Inr []),
       is_null = (\<lambda>j. j = json_null), null_json = json_null, error_json = (\<lambda>e. Leaf (JString e))\<rparr>,
     s_options = default_SessionOptions\<lparr>so_name := ''sid'', so_path := []\<rparr>,
     s_parse = (\<lambda>s. if s = ''text'' then Some demo_session else None), s_dump = (\<lambda>j. Some ''text''),
     s_time = ''20200101-000000'', s_uuid = ''u''\<rparr>"

definition demo_session_request :: Request where
  "demo_session_request = blank_Request\<lparr>req_headers := [(''Cookie'', ''a=b; SID=x1'')]\<rparr>"

definition demo_session_ctx :: SessionContext where
  "demo_session_ctx = \<lparr>page = \<lparr>request = TransferHeadersToCookies boost_classic demo_session_request,
     template_name = [], model_data = json_null, response = blank_Response\<rparr>,
     ctx_data = [(session_data_name, demo_session)], has_redis = True\<rparr>"

theorem session_comes_back_witness:
  "SessionOnRedis demo_session_env OnRequest demo_session_ctx = (demo_session_ctx, AskRedis [''GET'', ''x1'']) \<and>
    (\<exists>d. on_get_reply demo_session_env (bytes_value ''text'') demo_session_ctx = (d, Decide [Pass]) \<and>
      LoadSessionData d = demo_session \<and> ctx_GetSessionID d = Some ''x1'')"
proof -
  let ?E = demo_session_env and ?c = demo_session_ctx and ?k = demo_session_cookie
  have g: "guarded ?E ?c"
    using boost_classic_laws by (auto simp: guarded_def demo_session_env_def demo_session_ctx_def iStartsWith_def
        boost_laws_def)
  have l: "LoadSessionData ?c = demo_session"
    by (simp add: LoadSessionData_def LoadData_def demo_session_ctx_def strs.irrefl)
  have "omap_find (IgnoreCaseCompare boost_classic) (req_headers demo_session_request) ''Cookie'' =
      Some (cookie_header [(''a'', ''b''), (''SID'', ''x1'')])"
    using strict_weak_order.irrefl[OF IgnoreCaseCompare_order[OF boost_classic_laws]]
    by (simp add: demo_session_request_def)
  moreover have "list_all (\<lambda>(n, v). cookie_text n \<and> cookie_text v) [(''a'', ''b''), (''SID'', ''x1'')]"
    by code_simp
  moreover have "find (\<lambda>(n, v). upper n = upper (cookie_name ?k)) [(''a'', ''b''), (''SID'', ''x1'')] = Some (''SID'', ''x1'')"
    by code_simp
  moreover have "omap_sorted str_less (ctx_data ?c)"
    by (simp add: demo_session_ctx_def omap_sorted_def)
  ultimately show ?thesis
    using session_comes_back[OF boost_classic_laws _ g g, of ?k "''text''" demo_session_request
        "[(''a'', ''b''), (''SID'', ''x1'')]" "''SID''"] l
    by (simp add: data_ok_def demo_session_env_def demo_session_cookie_def SetMaxAge_def new_Cookie_def
        demo_session_def json_find_def strs.irrefl demo_session_ctx_def demo_session_request_def blank_Request_def)
qed

section \<open>A first visit\<close>

definition new_session_id :: "'t session_env \<Rightarrow> string" where
  "new_session_id E = so_prefix (s_options E) @
     (if so_prefix_with_time (s_options E) then s_time E @ '':'' else []) @ s_uuid E"

definition session_cookie :: "'t session_env \<Rightarrow> Cookie" where
  "session_cookie E = \<lparr>old_version = False, cookie_name = so_name (s_options E), cookie_value = new_session_id E,
     cookie_domain = so_domain (s_options E), cookie_path = so_path (s_options E),
     max_age = max 0 (so_max_age (s_options E)), http_only = (so_http_only (s_options E) = for_http_only),
     secure = (so_secure (s_options E) = for_https_only), samesite = so_samesite (s_options E)\<rparr>"

lemma create_new_session_cookie:
  "json_find session_cookie_name (create_new_session E) = Some (cookie_json (session_cookie E))"
  by (simp add: create_new_session_def MakeNewSession_def json_find_def strs.irrefl session_cookie_def Let_def
      new_session_id_def make_session_id_def new_Cookie_def default_Cookie_def SetMaxAge_def SetHttpOnly_def
      SetSecure_def SetSameSite_def max_def)

text \<open>
  A first visit opens a session.  A request without the cookie passes the intercepter, with a
  session that has a fresh ID.  Whatever the handler makes of the page, unless it replaces the
  session, the response gets the cookie that the options describe, and Redis is asked to keep
  the session under the ID for the age of the options.
\<close>

theorem first_visit_opens_session:
  assumes "guarded E c" "data_ok c" "GetCookie (algo (s_render E)) (request (page c)) (so_name (s_options E)) = []"
    and "so_max_age (s_options E) < 2 ^ 31" "new_session_id E \<noteq> []" "s_dump E (create_new_session E) = Some text"
  shows "\<exists>c1. SessionOnRedis E OnRequest c = (c1, Decide [Pass]) \<and> ctx_GetSessionID c1 = Some (new_session_id E) \<and>
    (\<forall>p. guarded E (c1\<lparr>page := p\<rparr>) \<longrightarrow> SessionOnRedis E OnResponse (c1\<lparr>page := p\<rparr>) =
       (cookie_set E (session_cookie E) (c1\<lparr>page := p\<rparr>),
        AskRedis [''SETEX'', new_session_id E, to_string (max 0 (so_max_age (s_options E))), text]))"
proof -
  let ?c = "SaveSessionData (create_new_session E) c" and ?k = "session_cookie E"
  have l: "LoadSessionData ?c = create_new_session E" using assms(2) by (rule LoadSessionData_Save)
  note f = create_new_session_cookie[of E]
  have k: "- (2 ^ 31) \<le> max_age ?k" "max_age ?k < 2 ^ 31" "cookie_value ?k \<noteq> []"
    using assms(4,5) by (simp_all add: session_cookie_def)
  have "SessionOnRedis E OnRequest c = (?c, Decide [Pass])"
    using assms(1,3) by (simp add: SessionOnRedis_def session_on_request_def guarded_def)
  moreover have "ctx_GetSessionID ?c = Some (new_session_id E)"
    using session_cookie_read[OF f k(1,2)] json_find_not_empty[OF f] k(3)
    by (simp add: ctx_GetSessionID_def l CookieIsEmpty_def) (simp add: session_cookie_def)
  moreover have "SessionOnRedis E OnResponse (?c\<lparr>page := p\<rparr>) = (cookie_set E ?k (?c\<lparr>page := p\<rparr>),
        AskRedis [''SETEX'', new_session_id E, to_string (max 0 (so_max_age (s_options E))), text])"
    if g: "guarded E (?c\<lparr>page := p\<rparr>)" for p
  proof -
    have "LoadSessionData (?c\<lparr>page := p\<rparr>) = create_new_session E"
      using l by (simp add: LoadSessionData_def LoadData_def)
    then show ?thesis
      using session_stored[OF g _ k, of "text"] f assms(6) by (simp add: session_cookie_def)
  qed
  ultimately show ?thesis by blast
qed

theorem first_visit_opens_session_witness:
  "\<exists>c1. SessionOnRedis demo_session_env OnRequest (demo_session_ctx\<lparr>page := (page demo_session_ctx)\<lparr>request := blank_Request\<rparr>\<rparr>) =
      (c1, Decide [Pass]) \<and> ctx_GetSessionID c1 = Some ''sid:20200101-000000:u''"
proof -
  let ?E = demo_session_env and ?c = "demo_session_ctx\<lparr>page := (page demo_session_ctx)\<lparr>request := blank_Request\<rparr>\<rparr>"
  have g: "guarded ?E ?c"
    using boost_classic_laws by (auto simp: guarded_def demo_session_env_def demo_session_ctx_def iStartsWith_def
        boost_laws_def)
  have "data_ok ?c" by (simp add: data_ok_def demo_session_ctx_def omap_sorted_def)
  moreover have "new_session_id ?E = ''sid:20200101-000000:u''"
    by (simp add: new_session_id_def demo_session_env_def default_SessionOptions_def)
  ultimately show ?thesis
    using first_visit_opens_session[OF g, of "''text''"]
    by (auto simp: demo_session_env_def default_SessionOptions_def GetCookie_def GetHeader_def blank_Request_def)
qed

section \<open>Where the promise is not kept\<close>

text \<open>
  A text in Redis that is no JSON, and a refused \<open>SETEX\<close>, decide twice: the chain is stopped and
  then passed.  An age of zero, which a negative one becomes, asks Redis for \<open>SETEX\<close> with zero
  seconds, which Redis refuses: every response is then decided twice.
\<close>

lemma malformed_session_decides_twice:
  "\<not> IsError v \<Longrightarrow> RedisToString v \<noteq> [] \<Longrightarrow> s_parse E (RedisToString v) = None \<Longrightarrow>
    snd (on_get_reply E v c) = Decide [Stop, Pass]"
  by (simp add: on_get_reply_def)

lemma refused_setex_decides_twice: "IsError v \<Longrightarrow> snd (on_setex_reply E v c) = Decide [Stop, Pass]"
  by (simp add: on_setex_reply_def)

lemma age_zero_asks_zero_seconds:
  assumes "so_max_age (s_options E) \<le> 0" "guarded E c" "new_session_id E \<noteq> []"
    "LoadSessionData c = create_new_session E" "s_dump E (create_new_session E) = Some text"
  shows "snd (SessionOnRedis E OnResponse c) = AskRedis [''SETEX'', new_session_id E, ''0'', text]"
proof -
  have "max_age (session_cookie E) = 0" "cookie_value (session_cookie E) = new_session_id E"
    using assms(1) by (simp_all add: session_cookie_def)
  moreover have "to_string 0 = ''0''"
    by code_simp
  ultimately show ?thesis
    using session_stored[OF assms(2), of "session_cookie E" "text"] create_new_session_cookie[of E] assms(3-5) by simp
qed

end
