(* ===== verification/StaticFileProofs.thy ===== *)
theory StaticFileProofs
  imports StaticFile SessionProofs
begin

text \<open>
  What the intercepter of static files guarantees: the file that the URL names reaches the
  client byte by byte, in chunks of a bounded size.
\<close>

section \<open>The chunks of a file\<close>

lemma read_chunks_last:
  "length rest < block \<Longrightarrow> read_chunks block limit chunk rest = (if chunk @ rest \<noteq> [] then [chunk @ rest] else [])"
  by (subst read_chunks.simps) (auto simp: Let_def)

lemma read_chunks_more:
  "0 < block \<Longrightarrow> block \<le> length rest \<Longrightarrow> read_chunks block limit chunk rest =
     (if limit < length (chunk @ take block rest)
      then (chunk @ take block rest) # read_chunks block limit [] (drop block rest)
      else read_chunks block limit (chunk @ take block rest) (drop block rest))"
  by (subst read_chunks.simps) (simp add: Let_def min_absorb1)

lemma read_chunks_all:
  assumes "0 < block"
  shows "concat (read_chunks block limit chunk rest) = chunk @ rest \<and>
     list_all (\<lambda>b. b \<noteq> []) (read_chunks block limit chunk rest)"
proof (induction "length rest" arbitrary: chunk rest rule: less_induct)
  case less
  show ?case
  proof (cases "length rest < block")
    case False
    then show ?thesis
      using less[of "drop block rest"] assms
      by (simp add: read_chunks_more) (metis append_Nil2 append_eq_append_conv2 append_is_Nil_conv append_take_drop_id
        bot_nat_0.not_eq_extremum length_0_conv less_nat_zero_code take_eq_Nil)
  qed (simp add: read_chunks_last)
qed

lemma read_chunks_bounded:
  assumes "0 < block"
  shows "length chunk \<le> limit \<Longrightarrow> list_all (\<lambda>b. length b \<le> limit + block) (read_chunks block limit chunk rest)"
proof (induction "length rest" arbitrary: chunk rest rule: less_induct)
  case less
  show ?case
  proof (cases "length rest < block")
    case False
    then show ?thesis
      using less(1)[of "drop block rest" "[]"] less(1)[of "drop block rest" "chunk @ take block rest"] less(2) assms
      by (simp add: read_chunks_more min_absorb1)
  qed (use less(2) in \<open>simp add: read_chunks_last\<close>)
qed

lemma chunked_SetContentType [simp]: "chunked_bodies (SetContentType B t r) = chunked_bodies r"
  and chunked_CacheControl [simp]: "chunked_bodies (CacheControlMaxAge B n cc r) = chunked_bodies r"
  and chunked_MarkChunked [simp]: "chunked_bodies (MarkChunked B r) = chunked_bodies r"
proof -
  have a: "chunked_bodies (AppendHeader B f v r) = chunked_bodies r" for f v r
    by (simp add: AppendHeader_def split: option.splits)
  show "chunked_bodies (SetContentType B t r) = chunked_bodies r"
    by (simp add: SetContentType_def a)
  show "chunked_bodies (CacheControlMaxAge B n cc r) = chunked_bodies r"
    by (simp add: CacheControlMaxAge_def a)
  show "chunked_bodies (MarkChunked B r) = chunked_bodies r"
    by (simp add: MarkChunked_def Let_def a)
qed

lemma fold_NextChunked:
  "chunked_bodies (response (fold NextChunkedResponse bs p)) =
     fold (\<lambda>b. ChunkedPushBack b False) bs (chunked_bodies (response p))"
  by (induction bs arbitrary: p) (simp_all add: NextChunkedResponse_def PushChunkedBody_def)

definition file_chunks :: "string \<Rightarrow> string list" where
  "file_chunks contents = read_chunks max_byte_read_one_time max_byte_one_chunked_body [] contents"

lemma send_file_chunks:
  "chunked_bodies (response (StopChunkedResponse (send_file E s f contents p))) =
     ChunkedPushBack [] True (fold (\<lambda>b. ChunkedPushBack b False) (file_chunks contents) (chunked_bodies (response p)))"
  by (simp add: send_file_def Let_def StopChunkedResponse_def PushChunkedBody_def fold_NextChunked file_chunks_def
      StartChunkedResponse_def)

section \<open>The file of a URL\<close>

text \<open>
  (C20) A file is served whole.  A GET whose URL falls under an entry stops the chain, and on the way
  back, whatever the response is by then, as long as no chunk was pushed, the file that the URL
  names (or the default file of the directory that it names) is sent: a reader of the chunked
  coding gets its bytes, all of them and in order, from chunks of at most 110 KB, none empty.
  The chain goes on with the intercepters before, and the saved data are removed.
\<close>

theorem served_file_arrives:
  assumes "from_http_method (req_method (request (page c))) = GET" "data_ok c"
    and "find_entry E s (url_full (req_url (request (page c)))) (root_entries s) = Some f" "f \<noteq> []"
    and "locate_file E s f = Located g" "open_stream (sf_files E) fs g = Some contents"
    and "chunked_bodies (response p) = []"
  shows "\<exists>c1 c2 bs. StaticFile_call E s fs OnRequest c = (c1, Decide [Stop]) \<and>
    StaticFile_call E s fs OnResponse (c1\<lparr>page := p\<rparr>) = (c2, Decide [Pass]) \<and>
    chunked_bodies (response (page c2)) = ChunkedPushBack [] True (fold (\<lambda>b. ChunkedPushBack b False) bs []) \<and>
    chunk_decode (pop_chunks (length bs + 2) (chunked_bodies (response (page c2)))) = Some contents \<and>
    list_all (\<lambda>b. b \<noteq> [] \<and> length b \<le> 110 * 1024) bs \<and> LoadData static_data_name c2 = json_null"
proof -
  let ?j = "JObj [(''file'', Leaf (JString f)), (''found'', Leaf (JBool True))]"
  let ?c1 = "SaveData static_data_name ?j c" and ?bs = "file_chunks contents"
  have l: "LoadData static_data_name (?c1\<lparr>page := p\<rparr>) = ?j"
    using assms(2) by (simp add: LoadData_def SaveData_def data_ok_def strm.map_put)
  have m: "found_member ?j = Some True" "file_member ?j = Some f"
    by (simp_all add: found_member_def file_member_def json_find_def leaf_value_def strs.irrefl) (code_simp)+
  let ?c2 = "(RemoveData static_data_name (?c1\<lparr>page := send_file E s g contents p\<rparr>))"
  let ?d = "?c2\<lparr>page := StopChunkedResponse (page ?c2)\<rparr>"
  have "StaticFile_call E s fs OnRequest c = (?c1, Decide [Stop])"
    using assms(1,3) by (simp add: StaticFile_call_def static_on_request_def)
  moreover have "StaticFile_call E s fs OnResponse (?c1\<lparr>page := p\<rparr>) = (?d, Decide [Pass])"
    using assms(4-6) by (simp add: StaticFile_call_def static_on_response_def l m Let_def)
  moreover have q: "chunked_bodies (response (page ?d)) = ChunkedPushBack [] True (fold (\<lambda>b. ChunkedPushBack b False) ?bs [])"
    using assms(7) by (simp add: send_file_chunks RemoveData_def)
  moreover have r: "concat ?bs = contents" "list_all (\<lambda>b. b \<noteq> []) ?bs"
    using read_chunks_all[of max_byte_read_one_time max_byte_one_chunked_body "[]" contents]
    by (simp_all add: file_chunks_def max_byte_read_one_time_def)
  then have "chunk_decode (pop_chunks (length ?bs + 2) (chunked_bodies (response (page ?d)))) = Some contents"
    unfolding q using chunks_decode[of ?bs "[]"] by simp
  moreover have "list_all (\<lambda>b. b \<noteq> [] \<and> length b \<le> 110 * 1024) ?bs"
    using r(2) read_chunks_bounded[of max_byte_read_one_time "[]" max_byte_one_chunked_body contents]
    by (auto simp: list_all_iff file_chunks_def max_byte_read_one_time_def max_byte_one_chunked_body_def)
  moreover have "LoadData static_data_name ?d = json_null"
    using assms(2) by (simp add: LoadData_def SaveData_def RemoveData_def data_ok_def strm.map_erase strs.sorted_put)
  ultimately show ?thesis by blast
qed

text \<open>The witness: a file under an entry, asked for with a query and in other letters.\<close>

definition demo_static_env :: "nat static_env" where
  "demo_static_env = \<lparr>sf_render = s_render demo_session_env,
     sf_files = \<lparr>dir_ready = (\<lambda>f. Inr True), can_write = (\<lambda>f. False), can_read = (\<lambda>f. True), stored = (\<lambda>f d. d),
       status_error = (\<lambda>f. False), copy_error = (\<lambda>a b. None), path_join = (@), path_extension = (\<lambda>f. ''.txt''), exists_throws = (\<lambda>f. False)\<rparr>,
     sf_has_filename = (\<lambda>f. True), sf_filename = id, sf_exists = (\<lambda>f. f = ''/www/f/a''),
     sf_url_root = ''/'', sf_static_root = ''/www/''\<rparr>"

definition demo_static :: StaticFile where
  "demo_static = AddEntry ''s'' ''f'' new_StaticFile"

definition demo_static_ctx :: SessionContext where
  "demo_static_ctx = \<lparr>page = \<lparr>request = blank_Request\<lparr>req_method := 1,
       req_url := (req_url blank_Request)\<lparr>url_full := ''/S/a?b''\<rparr>\<rparr>,
     template_name = [], model_data = json_null, response = blank_Response\<rparr>, ctx_data = [], has_redis = False\<rparr>"

lemma demo_entries:
  "root_entries demo_static = [(''s'', ''f'')]" "url_resolve_type demo_static = is_relative"
  "dir_resolve_type demo_static = is_relative"
  by (simp_all add: demo_static_def AddEntry_def new_StaticFile_def)

lemma demo_letters: "char_of (83 :: nat) = CHR ''S''" "char_of (84 :: nat) = CHR ''T''"
  by code_simp+

lemmas demo_find = demo_letters demo_entries demo_static_env_def demo_session_env_def url_starts_def iStartsWith_def
  boost_classic_def upper_def std_toupper_def

lemma demo_static_entry:
  "find_entry demo_static_env demo_static ''/S/a?b'' (root_entries demo_static) = Some ''/www/f/a''"
proof -
  have "path_under_root ''/S/a?b'' ''/s'' = ''/a''" by code_simp
  then show ?thesis by (simp add: demo_find)
qed

theorem served_file_arrives_witness:
  "\<exists>c1 c2 bs. StaticFile_call demo_static_env demo_static [''/www/f/a'' \<mapsto> ''hi''] OnRequest demo_static_ctx = (c1, Decide [Stop]) \<and>
    StaticFile_call demo_static_env demo_static [''/www/f/a'' \<mapsto> ''hi''] OnResponse (c1\<lparr>page := page demo_static_ctx\<rparr>) =
      (c2, Decide [Pass]) \<and>
    chunked_bodies (response (page c2)) = ChunkedPushBack [] True (fold (\<lambda>b. ChunkedPushBack b False) bs []) \<and>
    chunk_decode (pop_chunks (length bs + 2) (chunked_bodies (response (page c2)))) = Some ''hi'' \<and>
    list_all (\<lambda>b. b \<noteq> [] \<and> length b \<le> 110 * 1024) bs \<and> LoadData static_data_name c2 = json_null"
proof (rule served_file_arrives[where f = "''/www/f/a''" and g = "''/www/f/a''"])
  show "find_entry demo_static_env demo_static (url_full (req_url (request (page demo_static_ctx)))) (root_entries demo_static) =
      Some ''/www/f/a''"
    using demo_static_entry by (simp add: demo_static_ctx_def)
qed (simp_all add: demo_static_ctx_def from_http_method_def data_ok_def omap_sorted_def locate_file_def no_file_name_def
    demo_static_env_def open_stream_def blank_Response_def)

section \<open>Where care is needed\<close>

text \<open>
  The path of the URL is not normalized: two dots lead out of the directory of the entry, to any
  file that the server can read.
\<close>

lemma dots_leave_directory:
  "find_entry demo_static_env demo_static ''/s/../../key'' (root_entries demo_static) = Some ''/www/f/../../key''"
proof -
  have "path_under_root ''/s/../../key'' ''/s'' = ''/../../key''" by code_simp
  then show ?thesis by (simp add: demo_find)
qed

text \<open>
  The roots are compared without regard to case, but ordered with: a shorter root in small
  letters comes before a longer one in capitals, and takes its URLs.
\<close>

lemma shorter_root_first:
  assumes s: "s = AddEntry ''s/T'' ''long'' (AddEntry ''s'' ''short'' new_StaticFile)"
    and t: "t = AddEntry ''S/T'' ''long'' (AddEntry ''s'' ''short'' new_StaticFile)"
  shows "find_entry demo_static_env s ''/s/t/a'' (root_entries s) = Some ''/www/long/a''"
    and "find_entry demo_static_env t ''/s/t/a'' (root_entries t) = Some ''/www/short/t/a''"
proof -
  have "\<not> CompareDESC ''s'' ''s/T''" "CompareDESC ''s/T'' ''s''" "CompareDESC ''s'' ''S/T''" "\<not> CompareDESC ''S/T'' ''s''"
    by code_simp+
  then have r: "root_entries s = [(''s/T'', ''long''), (''s'', ''short'')]" "root_entries t = [(''s'', ''short''), (''S/T'', ''long'')]"
    by (simp_all add: s t AddEntry_def new_StaticFile_def omap_insert.simps)
  have u: "url_resolve_type s = is_relative" "dir_resolve_type s = is_relative"
    "url_resolve_type t = is_relative" "dir_resolve_type t = is_relative"
    by (simp_all add: s t AddEntry_def new_StaticFile_def)
  have "path_under_root ''/s/t/a'' ''/s/T'' = ''/a''" "path_under_root ''/s/t/a'' ''/s'' = ''/t/a''"
    by code_simp+
  then show "find_entry demo_static_env s ''/s/t/a'' (root_entries s) = Some ''/www/long/a''"
    "find_entry demo_static_env t ''/s/t/a'' (root_entries t) = Some ''/www/short/t/a''"
    unfolding r by (simp_all add: u url_starts_def demo_static_env_def demo_session_env_def iStartsWith_def
        boost_classic_def upper_def std_toupper_def demo_letters)
qed

text \<open>After the page for an empty file name the chain waits forever.\<close>

lemma empty_file_name_not_continued:
  assumes "LoadData static_data_name c = JObj [(''file'', Leaf (JString [])), (''found'', Leaf (JBool True))]"
  shows "snd (static_on_response E s fs c) = Decide []"
proof -
  have "''file'' \<noteq> ''found''" "str_less ''file'' ''found''" by code_simp+
  then show ?thesis
    by (simp add: static_on_response_def assms found_member_def file_member_def json_find_def leaf_value_def strs.irrefl Let_def)
qed

end
