(* ===== verification/Client.thy ===== *)
theory Client
  imports Response
begin

text \<open>
  \<^verbatim>\<open>include/daqi/client/connection_client.hpp\<close> and \<^verbatim>\<open>src/client/connection_client.cpp\<close>: the HTTP
  client.  The socket and the resolver are the completions they give: an asynchronous call is an
  outstanding operation with the functions that wait for it, a synchronous one takes its results
  from an environment.  The vendored HTTP parser is the list of the callbacks it makes for a
  read, and whether it refused the read.  The texts of errors are left out.
\<close>

section \<open>The connection\<close>

datatype ReadingHeaderPart = header_none_part | header_field_part | header_value_part
datatype ReadCompletePart = read_none_complete | read_header_complete | read_message_complete
datatype ClientError = on_none | on_resolver | on_connect | on_write | on_read | on_close

type_synonym errorcode = "string option"

record ClientConn =
  with_ssl :: bool
  server :: string
  service :: string
  server_endpoint :: "string option"
  is_connected :: bool
  cl_header_part :: ReadingHeaderPart
  cl_header_field :: string
  cl_header_value :: string
  cl_read_complete :: ReadCompletePart
  cl_method :: string
  cl_uri :: string
  http_version :: string
  request_headers :: ICHeaders
  request_body :: string
  status_buffer :: string
  response_headers :: ICHeaders
  response_body :: string
  cl_error :: ClientError

definition HasError :: "ClientConn \<Rightarrow> bool" where "HasError c \<longleftrightarrow> cl_error c \<noteq> on_none"

section \<open>The request\<close>

definition ResetHeaders :: "boost_algo \<Rightarrow> ClientConn \<Rightarrow> ClientConn" where
  "ResetHeaders B c = c\<lparr>request_headers :=
     omap_insert (IgnoreCaseCompare B) [] ''User-Agent'' (''da4qi4'' @ ''/'' @ ''1.10'')\<rparr>"

text \<open>No constructor sets the error: \<open>memory\<close> is what the new object finds there.\<close>

definition new_Client :: "boost_algo \<Rightarrow> ClientError \<Rightarrow> bool \<Rightarrow> string \<Rightarrow> string \<Rightarrow> ClientConn" where
  "new_Client B memory ssl srv svc = ResetHeaders B
     \<lparr>with_ssl = ssl, server = srv, service = svc, server_endpoint = None, is_connected = False,
      cl_header_part = header_none_part, cl_header_field = [], cl_header_value = [],
      cl_read_complete = read_none_complete, cl_method = ''GET'', cl_uri = ''/'', http_version = ''1.1'',
      request_headers = [], request_body = [], status_buffer = [], response_headers = [],
      response_body = [], cl_error = memory\<rparr>"

definition SetMethod :: "string \<Rightarrow> string \<Rightarrow> ClientConn \<Rightarrow> ClientConn" where
  "SetMethod method uri c = c\<lparr>cl_method := method, cl_uri := (if uri = [] then ''/'' else uri)\<rparr>"

definition SetHTTPVersion :: "string \<Rightarrow> ClientConn \<Rightarrow> ClientConn" where
  "SetHTTPVersion v c = c\<lparr>http_version := v\<rparr>"

definition AddHeader :: "boost_algo \<Rightarrow> string \<Rightarrow> string \<Rightarrow> ClientConn \<Rightarrow> ClientConn" where
  "AddHeader B name val c =
     c\<lparr>request_headers := omap_put (IgnoreCaseCompare B) (request_headers c) name val\<rparr>"

datatype BodySetAction = action_none | reset_content_length

definition SetBody :: "boost_algo \<Rightarrow> string \<Rightarrow> BodySetAction \<Rightarrow> ClientConn \<Rightarrow> ClientConn" where
  "SetBody B body action c =
     (let c1 = (if action = reset_content_length
                then AddHeader B ''Content-Length'' (to_string (int (length body))) c else c)
      in c1\<lparr>request_body := body\<rparr>)"

definition make_request_buffer :: "ClientConn \<Rightarrow> string" where
  "make_request_buffer c =
     cl_method c @ '' '' @ cl_uri c @ '' HTTP/'' @ http_version c @ nl @ ''Host:'' @ server c @ nl @
     concat (map (\<lambda>(k, v). k @ '':'' @ v @ nl) (request_headers c)) @ nl @
     (if request_body c \<noteq> [] then request_body c else [])"

section \<open>The response\<close>

definition reset :: "ClientConn \<Rightarrow> ClientConn" where
  "reset c = c\<lparr>cl_error := on_none, status_buffer := [], response_headers := [], response_body := [],
     cl_header_part := header_none_part, cl_header_field := [], cl_header_value := [],
     cl_read_complete := read_none_complete\<rparr>"

datatype client_callback = MessageBegin | Status string | HeaderField string | HeaderValue string
  | HeadersComplete | Body string | MessageComplete

text \<open>The pair is made of the moved buffers, whether or not it is inserted.\<close>

definition try_commit_reading_response_header :: "boost_algo \<Rightarrow> ClientConn \<Rightarrow> ClientConn" where
  "try_commit_reading_response_header B c =
     (if cl_header_part c = header_value_part \<and> cl_header_field c \<noteq> []
      then c\<lparr>response_headers := omap_insert (IgnoreCaseCompare B) (response_headers c)
                (cl_header_field c) (cl_header_value c),
             cl_header_field := [], cl_header_value := [], cl_header_part := header_none_part\<rparr>
      else c)"

definition on_header_field :: "boost_algo \<Rightarrow> string \<Rightarrow> ClientConn \<Rightarrow> ClientConn" where
  "on_header_field B at c =
     (let c1 = try_commit_reading_response_header B c
      in if at \<noteq> [] then c1\<lparr>cl_header_part := header_field_part, cl_header_field := cl_header_field c1 @ at\<rparr>
         else c1)"

definition on_header_value :: "string \<Rightarrow> ClientConn \<Rightarrow> ClientConn" where
  "on_header_value at c =
     (let v = (if cl_header_part c = header_field_part \<and> cl_header_value c \<noteq> [] then [] else cl_header_value c)
      in c\<lparr>cl_header_value := v @ at, cl_header_part := header_value_part\<rparr>)"

fun on_callback :: "boost_algo \<Rightarrow> client_callback \<Rightarrow> ClientConn \<Rightarrow> ClientConn" where
  "on_callback B MessageBegin c = c\<lparr>cl_read_complete := read_none_complete, response_body := []\<rparr>"
| "on_callback B (Status at) c = c\<lparr>status_buffer := status_buffer c @ at\<rparr>"
| "on_callback B (HeaderField at) c = on_header_field B at c"
| "on_callback B (HeaderValue at) c = on_header_value at c"
| "on_callback B HeadersComplete c =
     (try_commit_reading_response_header B c)\<lparr>cl_read_complete := read_header_complete\<rparr>"
| "on_callback B (Body at) c = c\<lparr>response_body := response_body c @ at\<rparr>"
| "on_callback B MessageComplete c = c\<lparr>cl_read_complete := read_message_complete\<rparr>"

definition llhttp_execute :: "boost_algo \<Rightarrow> client_callback list \<Rightarrow> ClientConn \<Rightarrow> ClientConn" where
  "llhttp_execute B cbs c = fold (on_callback B) cbs c"

text \<open>A read fails, or gives the callbacks of its bytes and whether the parser took them.\<close>

datatype read_result = ReadError string | Parsed "client_callback list" bool

definition do_close :: "errorcode \<Rightarrow> ClientConn \<Rightarrow> ClientConn" where
  "do_close ec c =
     (if \<not> is_connected c then c
      else (if ec \<noteq> None then c\<lparr>cl_error := on_close\<rparr> else c)\<lparr>is_connected := False\<rparr>)"

section \<open>Synchronous calls\<close>

record sync_env =
  se_resolve :: "errorcode \<times> string list"
  se_connect :: errorcode
  se_write :: "errorcode \<times> nat"
  se_close :: errorcode

definition do_resolver_sync :: "sync_env \<Rightarrow> ClientConn \<Rightarrow> errorcode \<times> ClientConn" where
  "do_resolver_sync E c =
     (case se_resolve E of
        (Some e, rs) \<Rightarrow> (Some e, c\<lparr>cl_error := on_resolver\<rparr>)
      | (None, []) \<Rightarrow> (None, c\<lparr>cl_error := on_resolver\<rparr>)
      | (None, r # rs) \<Rightarrow> (None, c\<lparr>server_endpoint := Some r\<rparr>))"

definition do_connect_sync :: "sync_env \<Rightarrow> ClientConn \<Rightarrow> errorcode \<times> ClientConn" where
  "do_connect_sync E c =
     (if is_connected c then (None, c)
      else case se_connect E of
             None \<Rightarrow> (None, reset (c\<lparr>is_connected := True\<rparr>))
           | Some e \<Rightarrow> (Some e, c\<lparr>cl_error := on_connect\<rparr>))"

definition ConnectSync :: "sync_env \<Rightarrow> ClientConn \<Rightarrow> bool \<times> ClientConn" where
  "ConnectSync E c =
     (let (ec, c1) = (if server_endpoint c = None then do_resolver_sync E c else (None, c))
      in if server_endpoint c = None \<and> (ec \<noteq> None \<or> HasError c1) then (False, c1)
         else let (ec, c2) = do_connect_sync E c1 in (ec = None \<and> \<not> HasError c2, c2))"

definition do_write_sync :: "sync_env \<Rightarrow> ClientConn \<Rightarrow> errorcode \<times> ClientConn" where
  "do_write_sync E c =
     (fst (se_write E), if fst (se_write E) \<noteq> None then c\<lparr>cl_error := on_write\<rparr> else c)"

definition WriteSync :: "sync_env \<Rightarrow> ClientConn \<Rightarrow> bool \<times> ClientConn" where
  "WriteSync E c = (let (ec, c1) = do_write_sync E c in (ec = None \<and> \<not> HasError c1, c1))"

text \<open>The loop over the reads; \<open>None\<close> when they run out before the message is complete.\<close>

fun do_read_sync :: "boost_algo \<Rightarrow> read_result list \<Rightarrow> ClientConn \<Rightarrow> (errorcode \<times> ClientConn) option" where
  "do_read_sync B [] c = None"
| "do_read_sync B (ReadError e # rs) c = Some (Some e, c\<lparr>cl_error := on_read\<rparr>)"
| "do_read_sync B (Parsed cbs ok # rs) c =
     (let c1 = llhttp_execute B cbs c
      in if \<not> ok then Some (None, c1\<lparr>cl_error := on_read\<rparr>)
         else if cl_read_complete c1 \<noteq> read_message_complete then do_read_sync B rs c1
         else Some (None, c1))"

definition ReadSync :: "boost_algo \<Rightarrow> read_result list \<Rightarrow> ClientConn \<Rightarrow> (bool \<times> ClientConn) option" where
  "ReadSync B rs c = map_option (\<lambda>(ec, c1). (ec = None \<and> \<not> HasError c1, c1)) (do_read_sync B rs c)"

datatype ActionAfterRequest = keep_connection | close_connection

definition RequestSync :: "boost_algo \<Rightarrow> sync_env \<Rightarrow> read_result list \<Rightarrow> ActionAfterRequest \<Rightarrow> ClientConn \<Rightarrow>
    (bool \<times> ClientConn) option" where
  "RequestSync B E rs action c =
     (let (ok, c1) = (if \<not> is_connected c then ConnectSync E c else (True, c))
      in if \<not> ok then Some (False, c1)
         else let (w, c2) = WriteSync E c1
              in map_option (\<lambda>(success, c3).
                   (success, if action = close_connection then do_close (se_close E) c3 else c3))
                 (if w then ReadSync B rs c2 else Some (False, c2)))"

section \<open>Asynchronous calls\<close>

text \<open>
  The functions that wait for an operation, the innermost first: those of \<open>Connect\<close> and
  \<open>Request\<close>; at the end of the list is the notify function of the user.
\<close>

datatype waiting = Resolved | Connected ActionAfterRequest | Written ActionAfterRequest | ReadDone ActionAfterRequest

datatype operation = Resolving | Connecting | Writing string | Reading

record client_state =
  conn :: ClientConn
  outstanding :: "(operation \<times> waiting list) list"
  notified :: "errorcode list"

definition start :: "operation \<Rightarrow> waiting list \<Rightarrow> client_state \<Rightarrow> client_state" where
  "start op ks s = s\<lparr>outstanding := outstanding s @ [(op, ks)]\<rparr>"

definition do_write :: "waiting list \<Rightarrow> client_state \<Rightarrow> client_state" where
  "do_write ks s = start (Writing (make_request_buffer (conn s))) ks s"

definition do_read :: "waiting list \<Rightarrow> client_state \<Rightarrow> client_state" where
  "do_read ks s = start Reading ks s"

definition close_state :: "errorcode \<Rightarrow> client_state \<Rightarrow> client_state" where
  "close_state ec s = s\<lparr>conn := do_close ec (conn s)\<rparr>"

text \<open>
  \<open>deliver\<close> calls the functions with an error code.  The function of \<open>Connect\<close> connects again,
  which on a connection that is open only calls on.  \<open>cc\<close> is what closing the socket gives.
\<close>

function deliver :: "errorcode \<Rightarrow> errorcode \<Rightarrow> waiting list \<Rightarrow> client_state \<Rightarrow> client_state"
  and do_connect :: "errorcode \<Rightarrow> waiting list \<Rightarrow> client_state \<Rightarrow> client_state" where
  "deliver cc ec [] s = s\<lparr>notified := notified s @ [ec]\<rparr>"
| "deliver cc ec (Resolved # ks) s = (if ec \<noteq> None then deliver cc ec ks s else do_connect cc ks s)"
| "deliver cc ec (Connected a # ks) s =
     (if ec \<noteq> None then deliver cc ec ks s else do_write (Written a # ks) s)"
| "deliver cc ec (Written a # ks) s =
     (if ec \<noteq> None then deliver cc ec ks s else do_read (ReadDone a # ks) s)"
| "deliver cc ec (ReadDone a # ks) s =
     (let s1 = deliver cc ec ks s in if a = close_connection then close_state cc s1 else s1)"
| "do_connect cc ks s =
     (if is_connected (conn s) then deliver cc None ks s else start Connecting ks s)"
  by pat_completeness auto
termination
  by (relation "measure (\<lambda>x. case x of Inl (cc, ec, ks, s) \<Rightarrow> 2 * length ks | Inr (cc, ks, s) \<Rightarrow> 2 * length ks + 1)")
    simp_all

definition Connect :: "errorcode \<Rightarrow> waiting list \<Rightarrow> client_state \<Rightarrow> client_state" where
  "Connect cc ks s =
     (if server_endpoint (conn s) \<noteq> None then do_connect cc ks s else start Resolving (Resolved # ks) s)"

definition Write :: "client_state \<Rightarrow> client_state" where "Write s = do_write [] s"
definition Read :: "client_state \<Rightarrow> client_state" where "Read s = do_read [] s"

definition Request :: "errorcode \<Rightarrow> ActionAfterRequest \<Rightarrow> client_state \<Rightarrow> client_state" where
  "Request cc a s = Connect cc [Connected a] s"

subsection \<open>Completions\<close>

definition set_error :: "ClientError \<Rightarrow> client_state \<Rightarrow> client_state" where
  "set_error e s = s\<lparr>conn := (conn s)\<lparr>cl_error := e\<rparr>\<rparr>"

text \<open>An empty result is an error, but the code that is passed on is that of success.\<close>

definition on_resolved :: "errorcode \<Rightarrow> errorcode \<Rightarrow> string list \<Rightarrow> waiting list \<Rightarrow> client_state \<Rightarrow> client_state" where
  "on_resolved cc ec results ks s =
     (if ec \<noteq> None then deliver cc ec ks (set_error on_resolver s)
      else case results of
             [] \<Rightarrow> deliver cc ec ks (set_error on_resolver s)
           | r # rs \<Rightarrow> do_connect cc ks (s\<lparr>conn := (conn s)\<lparr>server_endpoint := Some r\<rparr>\<rparr>))"

definition on_connected :: "errorcode \<Rightarrow> errorcode \<Rightarrow> waiting list \<Rightarrow> client_state \<Rightarrow> client_state" where
  "on_connected cc ec ks s = deliver cc ec ks
     (if ec \<noteq> None then set_error on_connect s else s\<lparr>conn := reset ((conn s)\<lparr>is_connected := True\<rparr>)\<rparr>)"

definition on_wrote :: "errorcode \<Rightarrow> errorcode \<Rightarrow> waiting list \<Rightarrow> client_state \<Rightarrow> client_state" where
  "on_wrote cc ec ks s = deliver cc ec ks (if ec \<noteq> None then set_error on_write s else s)"

text \<open>After a parse error, too, the code that is passed on is that of success.\<close>

definition on_read_some :: "boost_algo \<Rightarrow> errorcode \<Rightarrow> read_result \<Rightarrow> waiting list \<Rightarrow> client_state \<Rightarrow> client_state" where
  "on_read_some B cc r ks s =
     (case r of
        ReadError e \<Rightarrow> deliver cc (Some e) ks (set_error on_read s)
      | Parsed cbs ok \<Rightarrow>
          (let s1 = s\<lparr>conn := llhttp_execute B cbs (conn s)\<rparr>
           in if \<not> ok then deliver cc None ks (set_error on_read s1)
              else if cl_read_complete (conn s1) \<noteq> read_message_complete then do_read ks s1
              else deliver cc None ks s1))"

datatype completion = ResolveDone errorcode "string list" | ConnectDone errorcode | WriteDone errorcode
  | ReadCompletion read_result

text \<open>The completion of the outstanding operation; a completion of another kind cannot come.\<close>

definition complete :: "boost_algo \<Rightarrow> errorcode \<Rightarrow> completion \<Rightarrow> client_state \<Rightarrow> client_state option" where
  "complete B cc x s =
     (case outstanding s of
        [(op, ks)] \<Rightarrow>
          (let s1 = s\<lparr>outstanding := []\<rparr>
           in case (op, x) of
                (Resolving, ResolveDone ec rs) \<Rightarrow> Some (on_resolved cc ec rs ks s1)
              | (Connecting, ConnectDone ec) \<Rightarrow> Some (on_connected cc ec ks s1)
              | (Writing b, WriteDone ec) \<Rightarrow> Some (on_wrote cc ec ks s1)
              | (Reading, ReadCompletion r) \<Rightarrow> Some (on_read_some B cc r ks s1)
              | _ \<Rightarrow> None)
      | _ \<Rightarrow> None)"

fun complete_all :: "boost_algo \<Rightarrow> errorcode \<Rightarrow> completion list \<Rightarrow> client_state \<Rightarrow> client_state option" where
  "complete_all B cc [] s = Some s"
| "complete_all B cc (x # xs) s =
     (case complete B cc x s of None \<Rightarrow> None | Some s1 \<Rightarrow> complete_all B cc xs s1)"

end
