(* ===== verification/ClientProofs.thy ===== *)
theory ClientProofs
  imports Client ResponseProofs RequestProofs
begin

text \<open>
  The HTTP client: what it reads is the response that was sent, whatever the reads; a request is
  notified once; the asynchronous functions do what the synchronous ones do; what it writes reads
  back as the request.
\<close>

section \<open>The response in pieces\<close>

type_synonym header_pieces = "string list \<times> string list"

definition response_header_events :: "header_pieces \<Rightarrow> client_callback list" where
  "response_header_events = (\<lambda>(fs, vs). map HeaderField fs @ map HeaderValue vs)"

definition response_pieces_ok :: "header_pieces \<Rightarrow> bool" where
  "response_pieces_ok = (\<lambda>(fs, vs). fs \<noteq> [] \<and> list_all (\<lambda>f. f \<noteq> []) fs \<and> vs \<noteq> [])"

definition whole_header :: "header_pieces \<Rightarrow> string \<times> string" where
  "whole_header = (\<lambda>(fs, vs). (concat fs, concat vs))"

definition response_events :: "string list \<Rightarrow> header_pieces list \<Rightarrow> string list \<Rightarrow> client_callback list" where
  "response_events ss hs bs =
     MessageBegin # map Status ss @ concat (map response_header_events hs) @ HeadersComplete # map Body bs"

lemma cl_more_fields:
  "list_all (\<lambda>f. f \<noteq> []) fs \<Longrightarrow> cl_header_part c = header_field_part \<Longrightarrow>
    fold (on_callback B) (map HeaderField fs) c = c\<lparr>cl_header_field := cl_header_field c @ concat fs\<rparr>"
proof (induction fs arbitrary: c)
  case (Cons f fs)
  have "on_header_field B f c = c\<lparr>cl_header_field := cl_header_field c @ f\<rparr>"
    using Cons.prems by (simp add: on_header_field_def try_commit_reading_response_header_def)
  with Cons show ?case by simp
qed simp

lemma cl_field_pieces:
  assumes "fs \<noteq> []" "list_all (\<lambda>f. f \<noteq> []) fs"
  shows "fold (on_callback B) (map HeaderField fs) c =
    (let d = try_commit_reading_response_header B c
     in d\<lparr>cl_header_part := header_field_part, cl_header_field := cl_header_field d @ concat fs\<rparr>)"
proof -
  obtain f fs' where fs: "fs = f # fs'" using assms(1) by (cases fs) auto
  with assms(2) show ?thesis by (simp add: on_header_field_def Let_def cl_more_fields)
qed

lemma cl_more_values:
  "cl_header_part c = header_value_part \<Longrightarrow>
    fold (on_callback B) (map HeaderValue vs) c = c\<lparr>cl_header_value := cl_header_value c @ concat vs\<rparr>"
  by (induction vs arbitrary: c) (simp_all add: on_header_value_def)

lemma cl_value_pieces:
  assumes "vs \<noteq> []" "cl_header_part c = header_field_part"
  shows "fold (on_callback B) (map HeaderValue vs) c =
    c\<lparr>cl_header_part := header_value_part, cl_header_value := concat vs\<rparr>"
proof -
  obtain v vs' where "vs = v # vs'" using assms(1) by (cases vs) auto
  with assms(2) show ?thesis by (simp add: on_header_value_def Let_def cl_more_values)
qed

text \<open>The headers are put in as they come; of equal names the first stays.\<close>

abbreviation put_all :: "boost_algo \<Rightarrow> ICHeaders \<Rightarrow> (string \<times> string) list \<Rightarrow> ICHeaders" where
  "put_all B \<equiv> foldl (\<lambda>m (k, v). omap_insert (IgnoreCaseCompare B) m k v)"

lemma header_pieces_end:
  assumes "response_pieces_ok p" "cl_header_field (try_commit_reading_response_header B c) = []"
  shows "try_commit_reading_response_header B (fold (on_callback B) (response_header_events p) c) =
    (let d = try_commit_reading_response_header B c
     in d\<lparr>cl_header_part := header_none_part, cl_header_field := [], cl_header_value := [],
          response_headers := put_all B (response_headers d) [whole_header p]\<rparr>)"
proof -
  have "concat (fst p) \<noteq> []" if "fst p \<noteq> []" "list_all (\<lambda>f. f \<noteq> []) (fst p)"
    using that by (cases "fst p") simp_all
  with assms show ?thesis
    by (cases p) (simp add: response_header_events_def response_pieces_ok_def cl_field_pieces cl_value_pieces Let_def
      whole_header_def try_commit_reading_response_header_def)
qed

lemma headers_end:
  assumes "list_all response_pieces_ok hs" "cl_header_field (try_commit_reading_response_header B c) = []"
  shows "try_commit_reading_response_header B (fold (on_callback B) (concat (map response_header_events hs)) c) =
    (let d = try_commit_reading_response_header B c
     in if hs = [] then d
        else d\<lparr>cl_header_part := header_none_part, cl_header_field := [], cl_header_value := [],
               response_headers := put_all B (response_headers d) (map whole_header hs)\<rparr>)"
  using assms
proof (induction hs arbitrary: c)
  case (Cons p hs)
  let ?d = "fold (on_callback B) (response_header_events p) c"
  have "cl_header_field (try_commit_reading_response_header B ?d) = []"
    using header_pieces_end [of p B c] Cons.prems by (simp add: Let_def)
  with Cons.IH [of ?d] Cons.prems header_pieces_end [of p B c] show ?case
    by (simp add: Let_def)
qed simp

lemma status_pieces:
  "fold (on_callback B) (map Status ss) c = c\<lparr>status_buffer := status_buffer c @ concat ss\<rparr>"
  by (induction ss arbitrary: c) simp_all

lemma body_pieces:
  "fold (on_callback B) (map Body bs) c = c\<lparr>response_body := response_body c @ concat bs\<rparr>"
  by (induction bs arbitrary: c) simp_all

text \<open>What the events of a response make of a connection between headers.\<close>

lemma response_events_run:
  assumes "list_all response_pieces_ok hs" "cl_header_field c = []" "cl_header_part c = header_none_part"
    "cl_header_value c = []"
  shows "fold (on_callback B) (response_events ss hs bs) c =
    c\<lparr>cl_read_complete := read_header_complete, status_buffer := status_buffer c @ concat ss,
      response_headers := put_all B (response_headers c) (map whole_header hs),
      response_body := concat bs\<rparr>"
proof -
  let ?c = "c\<lparr>cl_read_complete := read_none_complete, response_body := [], status_buffer := status_buffer c @ concat ss\<rparr>"
  have "try_commit_reading_response_header B ?c = ?c"
    using assms by (simp add: try_commit_reading_response_header_def)
  with assms headers_end [OF assms(1), of B ?c] show ?thesis
    by (cases c) (simp add: response_events_def status_pieces body_pieces Let_def)
qed

lemma not_complete_yet:
  "MessageComplete \<notin> set cs \<Longrightarrow> cl_read_complete c \<noteq> read_message_complete \<Longrightarrow>
    cl_read_complete (fold (on_callback B) cs c) \<noteq> read_message_complete"
proof (induction cs arbitrary: c)
  case (Cons x cs)
  then have "cl_read_complete (on_callback B x c) \<noteq> read_message_complete"
    by (cases x) (auto simp: on_header_field_def on_header_value_def Let_def try_commit_reading_response_header_def)
  with Cons show ?case by simp
qed simp

lemma reads_until_complete:
  assumes "concat css = pre @ [MessageComplete]" "MessageComplete \<notin> set pre"
    "cl_read_complete c \<noteq> read_message_complete"
  shows "do_read_sync B (map (\<lambda>cs. Parsed cs True) css) c =
    Some (None, (fold (on_callback B) pre c)\<lparr>cl_read_complete := read_message_complete\<rparr>)"
  using assms
proof (induction css arbitrary: pre c)
  case (Cons cs css)
  consider "cs = pre @ [MessageComplete]" "concat css = []"
    | us where "pre = cs @ us" "concat css = us @ [MessageComplete]"
    using Cons.prems(1) by (auto simp: append_eq_append_conv2 append_eq_Cons_conv Cons_eq_append_conv)
  then show ?case
  proof cases
    case 1
    then show ?thesis by (simp add: llhttp_execute_def)
  next
    case (2 us)
    with Cons.prems not_complete_yet [of cs c B]
    have "cl_read_complete (fold (on_callback B) cs c) \<noteq> read_message_complete" by simp
    with 2 Cons show ?thesis by (simp add: llhttp_execute_def)
  qed
qed simp

text \<open>
  (C27) A response arrives whole.  Whatever the pieces in which the reads and the parser give the
  status, the headers and the body of a response, and wherever the reads are cut, a client that
  starts reading afresh finds the whole status, the whole body and, for each name, the value of
  the first header of that name.
\<close>

theorem response_read_back:
  assumes "boost_laws B" "list_all response_pieces_ok hs"
    and "concat css = response_events ss hs bs @ [MessageComplete]"
  shows "\<exists>r. ReadSync B (map (\<lambda>cs. Parsed cs True) css) (reset c) = Some (True, r) \<and>
    status_buffer r = concat ss \<and> response_body r = concat bs \<and>
    (\<forall>name. omap_find (IgnoreCaseCompare B) (response_headers r) name
       = map_option snd (find (\<lambda>(k, v). upper k = upper name) (map whole_header hs)))"
proof -
  have events: "MessageComplete \<notin> set (response_events ss hs bs)"
    by (auto simp: response_events_def response_header_events_def)
  have "strict_weak_order (IgnoreCaseCompare B)" by (rule IgnoreCaseCompare_order [OF assms(1)])
  note found = strict_weak_order.find_fold_insert [OF this omap_sorted_Nil, of "map whole_header hs"]
  have same: "\<not> IgnoreCaseCompare B a b \<and> \<not> IgnoreCaseCompare B b a \<longleftrightarrow> upper a = upper b" for a b
    by (rule IgnoreCaseCompare_equiv [OF assms(1)])
  show ?thesis
    using reads_until_complete [OF assms(3) events, of "reset c" B]
      response_events_run [OF assms(2), of "reset c" B ss bs]
    by (simp add: ReadSync_def HasError_def reset_def found same)
qed

section \<open>One notification\<close>

abbreviation owed :: "client_state \<Rightarrow> nat" where
  "owed s \<equiv> length (outstanding s) + length (notified s)"

lemma owed_deliver: "owed (deliver cc ec ks s) = Suc (owed s)"
  and owed_do_connect: "owed (do_connect cc ks s) = Suc (owed s)"
  by (induction cc ec ks s and cc ks s rule: deliver_do_connect.induct)
    (simp_all add: start_def do_write_def do_read_def close_state_def Let_def)

lemma owed_complete: "complete B cc x s = Some s' \<Longrightarrow> owed s' = owed s"
  by (auto simp: complete_def on_resolved_def on_connected_def on_wrote_def on_read_some_def set_error_def Let_def
    owed_deliver owed_do_connect do_read_def start_def
    split: list.splits prod.splits operation.splits completion.splits read_result.splits if_splits)

lemma owed_complete_all: "complete_all B cc xs s = Some s' \<Longrightarrow> owed s' = owed s"
  by (induction xs arbitrary: s) (auto simp: owed_complete split: option.splits)

lemma owed_Connect: "owed (Connect cc ks s) = Suc (owed s)"
  by (simp add: Connect_def owed_do_connect del: do_connect.simps) (simp add: start_def)

text \<open>
  (C29) A request is answered for once.  From a connection with nothing outstanding, and for every
  sequence of completions, either exactly one operation is outstanding and the user was not
  notified, or nothing is and the user was notified exactly once.
\<close>

theorem request_notifies_once:
  assumes "complete_all B cc xs (Request cc a \<lparr>conn = c, outstanding = [], notified = []\<rparr>) = Some s"
  shows "(\<exists>op. outstanding s = [op]) \<and> notified s = [] \<or> outstanding s = [] \<and> (\<exists>ec. notified s = [ec])"
proof -
  have "owed s = 1"
    using owed_complete_all [OF assms] by (simp add: Request_def owed_Connect)
  then show ?thesis by (auto simp: add_is_1 length_Suc_conv)
qed

section \<open>Synchronous and asynchronous calls\<close>

text \<open>The completions that an environment of the synchronous calls stands for.\<close>

definition sync_completions :: "sync_env \<Rightarrow> read_result list \<Rightarrow> ClientConn \<Rightarrow> completion list" where
  "sync_completions E rs c =
     (if is_connected c then []
      else (if server_endpoint c = None then [ResolveDone (fst (se_resolve E)) (snd (se_resolve E))] else [])
        @ [ConnectDone (se_connect E)]) @
     WriteDone (fst (se_write E)) # map ReadCompletion rs"

abbreviation waits :: "ClientConn \<Rightarrow> operation \<Rightarrow> waiting list \<Rightarrow> client_state" where
  "waits c op ks \<equiv> \<lparr>conn = c, outstanding = [(op, ks)], notified = []\<rparr>"

abbreviation told :: "ClientConn \<Rightarrow> errorcode \<Rightarrow> client_state" where
  "told c ec \<equiv> \<lparr>conn = c, outstanding = [], notified = [ec]\<rparr>"

abbreviation close_if :: "ActionAfterRequest \<Rightarrow> errorcode \<Rightarrow> ClientConn \<Rightarrow> ClientConn" where
  "close_if a cc c \<equiv> (if a = close_connection then do_close cc c else c)"

lemma deliver_read_done: "deliver cc ec [ReadDone a] \<lparr>conn = c, outstanding = [], notified = []\<rparr> = told (close_if a cc c) ec"
  by (simp add: close_state_def)

lemma complete_all_append:
  "complete_all B cc (xs @ ys) s = (case complete_all B cc xs s of None \<Rightarrow> None | Some s1 \<Rightarrow> complete_all B cc ys s1)"
  by (induction xs arbitrary: s) (auto split: option.splits)

lemma async_read:
  "do_read_sync B rs c = Some (ec, c') \<Longrightarrow>
    \<exists>n. complete_all B cc (take n (map ReadCompletion rs)) (waits c Reading [ReadDone a]) = Some (told (close_if a cc c') ec)"
proof (induction B rs c rule: do_read_sync.induct)
  case (2 B e rs c)
  then show ?case
    by (intro exI [of _ 1]) (simp add: complete_def on_read_some_def set_error_def deliver_read_done del: deliver.simps)
next
  case (3 B cbs ok rs c)
  let ?c = "llhttp_execute B cbs c"
  show ?case
  proof (cases "ok \<and> cl_read_complete ?c \<noteq> read_message_complete")
    case True
    with 3 obtain n where
      "complete_all B cc (take n (map ReadCompletion rs)) (waits ?c Reading [ReadDone a]) = Some (told (close_if a cc c') ec)"
      by (auto simp: Let_def)
    with True show ?thesis
      by (intro exI [of _ "Suc n"]) (simp add: complete_def on_read_some_def do_read_def start_def del: deliver.simps)
  next
    case False
    with 3 show ?thesis
      by (intro exI [of _ 1])
        (auto simp: complete_def on_read_some_def set_error_def deliver_read_done Let_def simp del: deliver.simps split: if_splits)
  qed
qed simp

text \<open>What the two kinds of a request have in common when both have come to an end.\<close>

definition same_end :: "ActionAfterRequest \<Rightarrow> bool \<Rightarrow> ClientConn \<Rightarrow> client_state \<Rightarrow> bool" where
  "same_end a ok c s \<longleftrightarrow> outstanding s = [] \<and> (\<exists>ec. notified s = [ec] \<and> (ok \<longrightarrow> ec = None \<and> conn s = c) \<and>
     (a = keep_connection \<longrightarrow> conn s = c \<and> (ok \<longleftrightarrow> ec = None \<and> \<not> HasError c)))"

definition after_connect :: "boost_algo \<Rightarrow> sync_env \<Rightarrow> read_result list \<Rightarrow> ActionAfterRequest \<Rightarrow> ClientConn \<Rightarrow>
    (bool \<times> ClientConn) option" where
  "after_connect B E rs a c =
     (let (w, c2) = WriteSync E c
      in map_option (\<lambda>(success, c3). (success, close_if a (se_close E) c3))
           (if w then ReadSync B rs c2 else Some (False, c2)))"

lemma async_after_connect:
  assumes "after_connect B E rs a c = Some (ok, c')" "\<not> HasError c"
  shows "\<exists>n s. complete_all B (se_close E) (take n (WriteDone (fst (se_write E)) # map ReadCompletion rs))
      (waits c (Writing b) [Written a]) = Some s \<and> same_end a ok c' s"
proof (cases "fst (se_write E)")
  case (Some e)
  with assms show ?thesis
    by (intro exI [of _ 1]) (auto simp: complete_def on_wrote_def set_error_def after_connect_def WriteSync_def
      do_write_sync_def same_end_def HasError_def)
next
  case None
  with assms(2) have "after_connect B E rs a c = map_option (\<lambda>(ec, c1).
      (ec = None \<and> \<not> HasError c1, close_if a (se_close E) c1)) (do_read_sync B rs c)"
    by (cases "do_read_sync B rs c")
      (auto simp: after_connect_def WriteSync_def do_write_sync_def ReadSync_def)
  with assms(1) obtain ec c1 where sync: "do_read_sync B rs c = Some (ec, c1)"
    and ok: "ok = (ec = None \<and> \<not> HasError c1)" "c' = close_if a (se_close E) c1"
    by (auto simp only: option.map_sel map_option_eq_Some prod.case prod.inject)
  obtain n where "complete_all B (se_close E) (take n (map ReadCompletion rs)) (waits c Reading [ReadDone a])
      = Some (told (close_if a (se_close E) c1) ec)"
    using async_read [OF sync] by blast
  with None ok show ?thesis
    by (intro exI [of _ "Suc n"]) (auto simp: complete_def on_wrote_def do_read_def start_def same_end_def)
qed

lemma async_connect:
  assumes "c1 = reset (c\<lparr>is_connected := True\<rparr>)" "se_connect E = None"
    and "after_connect B E rs a c1 = Some (ok, c')"
  shows "\<exists>n s. complete_all B (se_close E)
      (take n (ConnectDone (se_connect E) # WriteDone (fst (se_write E)) # map ReadCompletion rs))
      (waits c Connecting [Connected a]) = Some s \<and> same_end a ok c' s"
proof -
  have "\<not> HasError c1" by (simp add: assms(1) reset_def HasError_def)
  from async_after_connect [OF assms(3) this, of "make_request_buffer c1"] obtain n s where
    "complete_all B (se_close E) (take n (WriteDone (fst (se_write E)) # map ReadCompletion rs))
      (waits c1 (Writing (make_request_buffer c1)) [Written a]) = Some s" "same_end a ok c' s" by blast
  then show ?thesis
    by (intro exI [of _ "Suc n"] exI [of _ s]) (simp add: complete_def on_connected_def do_write_def start_def assms)
qed

lemma RequestSync_cases:
  "RequestSync B E rs a c =
     (if is_connected c then after_connect B E rs a c
      else case ConnectSync E c of (ok, c1) \<Rightarrow> if ok then after_connect B E rs a c1 else Some (False, c1))"
  by (simp add: RequestSync_def after_connect_def Let_def split: prod.split)

lemma async_connecting:
  assumes "(case do_connect_sync E c of (ec, c1) \<Rightarrow>
      if ec = None \<and> \<not> HasError c1 then after_connect B E rs a c1 else Some (False, c1)) = Some (ok, c')"
    and "\<not> is_connected c"
  shows "\<exists>n s. complete_all B (se_close E)
      (take n (ConnectDone (se_connect E) # WriteDone (fst (se_write E)) # map ReadCompletion rs))
      (waits c Connecting [Connected a]) = Some s \<and> same_end a ok c' s"
proof (cases "se_connect E")
  case None
  have "\<not> HasError (reset (c\<lparr>is_connected := True\<rparr>))" by (simp add: reset_def HasError_def)
  with None assms have "after_connect B E rs a (reset (c\<lparr>is_connected := True\<rparr>)) = Some (ok, c')"
    by (simp add: do_connect_sync_def)
  from async_connect [OF refl None this] show ?thesis .
next
  case (Some e)
  with assms show ?thesis
    by (intro exI [of _ 1]) (auto simp: do_connect_sync_def complete_def on_connected_def set_error_def same_end_def HasError_def)
qed

text \<open>The second connect, which \<open>Connect\<close> makes after the resolver's, only calls on.\<close>

lemma resolved_calls_on:
  "complete B cc x (waits c Connecting (Resolved # ks)) = complete B cc x (waits c Connecting ks)"
proof (cases x)
  case (ConnectDone ec)
  then show ?thesis by (cases ec) (simp_all add: complete_def on_connected_def reset_def)
qed (simp_all add: complete_def)

lemma resolved_calls_on_all:
  assumes "complete_all B cc xs (waits c Connecting ks) = Some s" "outstanding s = []"
  shows "complete_all B cc xs (waits c Connecting (Resolved # ks)) = Some s"
  using assms by (cases xs) (auto simp: resolved_calls_on)

text \<open>
  (C28) The asynchronous request does what the synchronous one does.  For a client without an
  error and a resolver that gives an address, whenever the synchronous request ends, the
  asynchronous one has ended after some of the same completions: after a success with the code of
  success and the same connection; and always with the same connection, and telling of the same
  outcome by its code or its error, when the connection is to be kept.
\<close>

theorem async_agrees_with_sync:
  assumes "RequestSync B E rs a c = Some (ok, c')" "\<not> HasError c" "snd (se_resolve E) \<noteq> []"
    and "is_connected c \<longrightarrow> server_endpoint c \<noteq> None"
  shows "\<exists>n s. complete_all B (se_close E) (take n (sync_completions E rs c))
      (Request (se_close E) a \<lparr>conn = c, outstanding = [], notified = []\<rparr>) = Some s \<and> same_end a ok c' s"
proof -
  let ?s = "Request (se_close E) a \<lparr>conn = c, outstanding = [], notified = []\<rparr>"
  let ?rest = "WriteDone (fst (se_write E)) # map ReadCompletion rs"
  consider "is_connected c" | r where "\<not> is_connected c" "server_endpoint c = Some r"
    | e rs' where "\<not> is_connected c" "server_endpoint c = None" "se_resolve E = (Some e, rs')"
    | r rs' where "\<not> is_connected c" "server_endpoint c = None" "se_resolve E = (None, r # rs')"
    using assms(3) by (cases "se_resolve E"; cases "snd (se_resolve E)"; cases "fst (se_resolve E)"; fastforce)
  then show ?thesis
  proof cases
    case 1
    with assms(1,4) have "after_connect B E rs a c = Some (ok, c')" "server_endpoint c \<noteq> None"
      by (simp_all add: RequestSync_cases)
    with 1 async_after_connect [OF this(1) assms(2), of "make_request_buffer c"] show ?thesis
      by (simp add: sync_completions_def Request_def Connect_def do_write_def start_def del: take_Suc_Cons)
  next
    case (2 r)
    with assms(1) show ?thesis
      using async_connecting [where E = E and B = B and c = c and rs = rs and a = a and ok = ok and c' = c']
      by (cases "do_connect_sync E c") (simp add: RequestSync_cases ConnectSync_def sync_completions_def Request_def
        Connect_def start_def del: take_Suc_Cons)
  next
    case (3 e rs')
    with assms(1) show ?thesis
      by (intro exI [of _ 1]) (auto simp: RequestSync_cases ConnectSync_def do_resolver_sync_def sync_completions_def
        Request_def Connect_def start_def complete_def on_resolved_def set_error_def same_end_def HasError_def)
  next
    case (4 r rs')
    let ?c = "c\<lparr>server_endpoint := Some r\<rparr>"
    have "\<not> HasError ?c" using assms(2) by (simp add: HasError_def)
    with 4 assms(1) obtain n s where
      "complete_all B (se_close E) (take n (ConnectDone (se_connect E) # ?rest)) (waits ?c Connecting [Connected a]) = Some s"
      "same_end a ok c' s"
      using async_connecting [where E = E and B = B and c = ?c and rs = rs and a = a and ok = ok and c' = c']
      by (cases "do_connect_sync E ?c") (auto simp: RequestSync_cases ConnectSync_def do_resolver_sync_def)
    with 4 resolved_calls_on_all [OF this(1)] show ?thesis
      by (intro exI [of _ "Suc n"] exI [of _ s]) (simp add: sync_completions_def Request_def Connect_def start_def
        complete_def [of _ _ "ResolveDone _ _"] on_resolved_def same_end_def)
  qed
qed

section \<open>The request on the wire\<close>

definition AddHeaders :: "boost_algo \<Rightarrow> (string \<times> string) list \<Rightarrow> ClientConn \<Rightarrow> ClientConn" where
  "AddHeaders B = fold (\<lambda>(k, v). AddHeader B k v)"

lemma AddHeaders_headers:
  "AddHeaders B kvs c = c\<lparr>request_headers :=
     foldl (\<lambda>m (k, v). omap_put (IgnoreCaseCompare B) m k v) (request_headers c) kvs\<rparr>"
  unfolding AddHeaders_def by (induction kvs arbitrary: c) (auto simp: AddHeader_def)

lemma keys_and_values_put:
  assumes "list_all (\<lambda>(k, v). P k \<and> Q v) m" "list_all (\<lambda>(k, v). P k \<and> Q v) kvs"
  shows "list_all (\<lambda>(k, v). P k \<and> Q v) (foldl (\<lambda>m (k, v). omap_put lt m k v) m kvs)"
proof -
  have put: "P k \<Longrightarrow> Q v \<Longrightarrow> list_all (\<lambda>(k, v). P k \<and> Q v) m \<Longrightarrow> list_all (\<lambda>(k, v). P k \<and> Q v) (omap_put lt m k v)"
    for m k v by (induction m) auto
  show ?thesis using assms by (induction kvs arbitrary: m) (auto simp: put)
qed

definition no_CR :: "string \<Rightarrow> bool" where
  "no_CR s \<longleftrightarrow> CHR 0x0D \<notin> set s"

definition agent :: string where
  "agent = ''da4qi4/1.10''"

text \<open>
  (C30) The bytes of a request read back as it was built: the request line, the host, one line for
  each header and the body.  There is one header for each name that was set, up to case, with the
  value that was set last, and the length of the body among them.
\<close>

theorem client_request_reads_back:
  assumes "boost_laws B" "list_all no_CR [m, u, http_version c, server c]"
    and "list_all (\<lambda>(k, v). no_CR k \<and> no_CR v) hs"
  shows "\<exists>ms. read_lines (make_request_buffer
        (Client.SetBody B body reset_content_length (AddHeaders B hs (Client.SetMethod m u (ResetHeaders B c))))) =
      ((m @ '' '' @ (if u = [] then ''/'' else u) @ '' HTTP/'' @ http_version c) # (''Host:'' @ server c) #
        map (\<lambda>(k, v). k @ '':'' @ v) ms, body) \<and>
    omap_sorted (IgnoreCaseCompare B) ms \<and>
    (\<forall>name. omap_find (IgnoreCaseCompare B) ms name = map_option snd (find (\<lambda>(k, v). upper k = upper name)
       (rev ((''User-Agent'', agent) # hs @ [(''Content-Length'', to_string (int (length body)))]))))"
proof -
  let ?lt = "IgnoreCaseCompare B"
  let ?kvs = "(''User-Agent'', agent) # hs @ [(''Content-Length'', to_string (int (length body)))]"
  let ?put = "foldl (\<lambda>m (k, v). omap_put ?lt m k v) []"
  let ?ls = "(m @ '' '' @ (if u = [] then ''/'' else u) @ '' HTTP/'' @ http_version c) # (''Host:'' @ server c) #
        map (\<lambda>(k, v). k @ '':'' @ v) (?put ?kvs)"
  have order: "strict_weak_order ?lt" by (rule IgnoreCaseCompare_order [OF assms(1)])
  have "list_all (\<lambda>(k, v). no_CR k \<and> no_CR v) ?kvs"
    using assms(3) by (simp add: no_CR_def agent_def)
  from keys_and_values_put [OF _ this, of "[]" ?lt] have "list_all plain_line ?ls"
    using assms(2) by (auto simp: list_all_iff plain_line_def no_CR_def)
  moreover have "make_request_buffer (Client.SetBody B body reset_content_length (AddHeaders B hs (Client.SetMethod m u (ResetHeaders B c)))) =
      concat (map (\<lambda>l. l @ nl) ?ls) @ nl @ body"
    by (simp add: make_request_buffer_def Client.SetBody_def AddHeaders_headers AddHeader_def Client.SetMethod_def ResetHeaders_def
      agent_def comp_def case_prod_unfold)
  ultimately show ?thesis
    using strict_weak_order.find_fold_put [OF order omap_sorted_Nil, of ?kvs]
      strict_weak_order.sorted_fold_put [OF order omap_sorted_Nil, of ?kvs]
    by (intro exI [of _ "?put ?kvs"]) (simp only: read_lines_concat IgnoreCaseCompare_equiv [OF assms(1)],
      auto split: option.split)
qed

section \<open>Concrete runs\<close>

definition demo_client :: ClientConn where
  "demo_client = new_Client boost_classic on_none False ''h'' ''80''"

theorem response_read_back_witness:
  "\<exists>r. ReadSync boost_classic (map (\<lambda>cs. Parsed cs True)
      [[MessageBegin, Status ''O''], [Status ''K'', HeaderField ''Ag''],
       [HeaderField ''e'', HeaderValue ''4'', HeaderValue ''2'', HeadersComplete, Body ''h''], [Body ''i'', MessageComplete]])
      (Client.reset demo_client) = Some (True, r) \<and> status_buffer r = ''OK'' \<and> response_body r = ''hi'' \<and>
    omap_find (IgnoreCaseCompare boost_classic) (response_headers r) ''AGE'' = Some ''42''"
proof -
  let ?css = "[[MessageBegin, Status ''O''], [Status ''K'', HeaderField ''Ag''],
       [HeaderField ''e'', HeaderValue ''4'', HeaderValue ''2'', HeadersComplete, Body ''h''], [Body ''i'', MessageComplete]]"
  have ok: "list_all response_pieces_ok [([''Ag'', ''e''], [''4'', ''2''])]"
    "concat ?css = response_events [''O'', ''K''] [([''Ag'', ''e''], [''4'', ''2''])] [''h'', ''i''] @ [MessageComplete]"
    by (simp_all add: response_pieces_ok_def response_events_def response_header_events_def)
  have found: "find (\<lambda>(k, v). upper k = upper ''AGE'') (map whole_header [([''Ag'', ''e''], [''4'', ''2''])]) = Some (''Age'', ''42'')"
    by code_simp
  obtain r where "ReadSync boost_classic (map (\<lambda>cs. Parsed cs True) ?css) (Client.reset demo_client) = Some (True, r)"
    and "status_buffer r = ''OK''" "response_body r = ''hi''"
    and "omap_find (IgnoreCaseCompare boost_classic) (response_headers r) ''AGE'' = Some ''42''"
    using response_read_back [OF boost_classic_laws ok, of demo_client] found
    by (auto simp only: concat.simps append.simps append_Nil2 option.map snd_conv)
  then show ?thesis by blast
qed

theorem request_notifies_once_witness:
  "let s = the (complete_all boost_classic None [ResolveDone None [''a''], ConnectDone None, WriteDone (Some ''broken'')]
      (Request None keep_connection \<lparr>conn = demo_client, outstanding = [], notified = []\<rparr>))
   in outstanding s = [] \<and> notified s = [Some ''broken'']"
proof -
  have run: "complete_all boost_classic None [ResolveDone None [''a''], ConnectDone None, WriteDone (Some ''broken'')]
      (Request None keep_connection \<lparr>conn = demo_client, outstanding = [], notified = []\<rparr>) = Some
      \<lparr>conn = (reset (demo_client\<lparr>server_endpoint := Some ''a'', is_connected := True\<rparr>))\<lparr>cl_error := on_write\<rparr>,
       outstanding = [], notified = [Some ''broken'']\<rparr>"
    by (simp add: Request_def Connect_def complete_def demo_client_def new_Client_def ResetHeaders_def start_def
      on_resolved_def on_connected_def on_wrote_def do_write_def set_error_def reset_def)
  show ?thesis using request_notifies_once [OF run] by (simp only: run) simp
qed

definition demo_sync :: sync_env where
  "demo_sync = \<lparr>se_resolve = (None, [''a'']), se_connect = None, se_write = (None, 2), se_close = None\<rparr>"

theorem async_agrees_with_sync_witness:
  "\<exists>n s. complete_all boost_classic None (take n [ResolveDone None [''a''], ConnectDone None, WriteDone None,
        ReadCompletion (Parsed [MessageBegin, Status ''OK''] True), ReadCompletion (Parsed [HeadersComplete, MessageComplete] True)])
      (Request None close_connection \<lparr>conn = demo_client, outstanding = [], notified = []\<rparr>) = Some s \<and>
    notified s = [None] \<and> status_buffer (conn s) = ''OK'' \<and> \<not> is_connected (conn s)"
proof -
  let ?rs = "[Parsed [MessageBegin, Status ''OK''] True, Parsed [HeadersComplete, MessageComplete] True]"
  have c: "\<not> is_connected demo_client" "server_endpoint demo_client = None" "\<not> HasError demo_client"
    "cl_error demo_client = on_none" "status_buffer demo_client = []"
    by (simp_all add: demo_client_def new_Client_def ResetHeaders_def HasError_def)
  have e: "se_resolve demo_sync = (None, [''a''])" "se_connect demo_sync = None" "se_write demo_sync = (None, 2)"
    "se_close demo_sync = None"
    by (simp_all add: demo_sync_def)
  obtain c' where run: "RequestSync boost_classic demo_sync ?rs close_connection demo_client = Some (True, c')"
    and c': "status_buffer c' = ''OK''" "\<not> is_connected c'"
    by (simp add: RequestSync_def ConnectSync_def do_resolver_sync_def do_connect_sync_def WriteSync_def
      do_write_sync_def ReadSync_def e c HasError_def reset_def llhttp_execute_def do_close_def
      try_commit_reading_response_header_def)
  have "snd (se_resolve demo_sync) \<noteq> []" by (simp add: demo_sync_def)
  from async_agrees_with_sync [OF run c(3) this] c obtain n s where
    "complete_all boost_classic (se_close demo_sync) (take n (sync_completions demo_sync ?rs demo_client))
      (Request (se_close demo_sync) close_connection \<lparr>conn = demo_client, outstanding = [], notified = []\<rparr>) = Some s"
    "same_end close_connection True c' s" by blast
  moreover from this(2) have "notified s = [None]" "conn s = c'" by (auto simp: same_end_def)
  ultimately show ?thesis
    using c' by (intro exI [of _ n] exI [of _ s]) (simp add: sync_completions_def c demo_sync_def)
qed

theorem client_request_reads_back_witness:
  "\<exists>ms. read_lines (make_request_buffer (Client.SetBody boost_classic ''x=1'' reset_content_length
        (AddHeaders boost_classic [(''A'', ''1''), (''a'', ''2'')] (Client.SetMethod ''POST'' ''/f''
          (ResetHeaders boost_classic demo_client))))) =
      ([''POST /f HTTP/1.1'', ''Host:h''] @ map (\<lambda>(k, v). k @ '':'' @ v) ms, ''x=1'') \<and>
    omap_find (IgnoreCaseCompare boost_classic) ms ''A'' = Some ''2''"
proof -
  have c: "http_version demo_client = ''1.1''" "server demo_client = ''h''"
    by (simp_all add: demo_client_def new_Client_def ResetHeaders_def)
  have ok: "list_all no_CR [''POST'', ''/f'', http_version demo_client, server demo_client]"
    "list_all (\<lambda>(k, v). no_CR k \<and> no_CR v) [(''A'', ''1''), (''a'', ''2'')]"
    by (simp_all add: no_CR_def c)
  have found: "find (\<lambda>(k, v). upper k = upper ''A'') (rev ((''User-Agent'', agent) # [(''A'', ''1''), (''a'', ''2'')] @
      [(''Content-Length'', to_string (int (length ''x=1'')))])) = Some (''a'', ''2'')"
    by code_simp
  obtain ms where "read_lines (make_request_buffer (Client.SetBody boost_classic ''x=1'' reset_content_length
        (AddHeaders boost_classic [(''A'', ''1''), (''a'', ''2'')] (Client.SetMethod ''POST'' ''/f''
          (ResetHeaders boost_classic demo_client))))) =
      ((''POST'' @ '' '' @ (if ''/f'' = [] then ''/'' else ''/f'') @ '' HTTP/'' @ http_version demo_client) #
        (''Host:'' @ server demo_client) # map (\<lambda>(k, v). k @ '':'' @ v) ms, ''x=1'')"
    "omap_find (IgnoreCaseCompare boost_classic) ms ''A'' = Some ''2''"
    using client_request_reads_back [OF boost_classic_laws ok, of "''x=1''"] found
    by (auto simp only: option.map snd_conv)
  then show ?thesis by (intro exI [of _ ms]) (simp add: c)
qed

section \<open>Where the client differs from what it means to do\<close>

text \<open>No constructor sets the error: with another value in memory a resolved host fails to connect.\<close>

lemma uninitialised_error_fails_connect:
  assumes "memory \<noteq> on_none" "se_resolve E = (None, r # rs)"
  shows "fst (ConnectSync E (new_Client B memory ssl srv svc)) = False"
  using assms by (simp add: ConnectSync_def new_Client_def ResetHeaders_def do_resolver_sync_def HasError_def)

text \<open>The error of a failed resolution is not cleared by the next one, which so fails as well.\<close>

lemma failed_resolution_fails_next:
  assumes "server_endpoint c = None" "se_resolve E1 = (Some e, rs)" "se_resolve E2 = (None, r # rs')"
  shows "fst (ConnectSync E2 (snd (ConnectSync E1 c))) = False"
  using assms by (simp add: ConnectSync_def do_resolver_sync_def HasError_def)

text \<open>A response that cannot be parsed is notified with the code of success.\<close>

lemma parse_error_notified_as_success:
  "on_read_some B cc (Parsed cbs False) [] \<lparr>conn = c, outstanding = [], notified = []\<rparr>
     = told ((llhttp_execute B cbs c)\<lparr>cl_error := on_read\<rparr>) None"
  by (simp add: on_read_some_def set_error_def)

text \<open>A host without an address: the client goes on to connect to no address.\<close>

lemma empty_resolution_connects:
  assumes "server_endpoint c = None" "\<not> is_connected c"
  shows "complete B cc (ResolveDone None []) (Request cc a \<lparr>conn = c, outstanding = [], notified = []\<rparr>)
     = Some (waits (c\<lparr>cl_error := on_resolver\<rparr>) Connecting [Connected a])"
  using assms by (simp add: Request_def Connect_def start_def complete_def on_resolved_def set_error_def)

text \<open>A second response over a kept connection is added to the first: its status is appended and a
  header that the first one had keeps the old value.\<close>

lemma kept_connection_mixes_responses:
  assumes "list_all response_pieces_ok hs" "list_all response_pieces_ok hs'"
    and "fold (on_callback B) (response_events ss hs bs @ [MessageComplete]) (Client.reset c) = c1"
    and "fold (on_callback B) (response_events ss' hs' bs' @ [MessageComplete]) c1 = c2"
  shows "status_buffer c2 = concat (ss @ ss') \<and> response_headers c2 = put_all B [] (map whole_header (hs @ hs')) \<and>
    response_body c2 = concat bs'"
proof -
  have c1: "c1 = (Client.reset c)\<lparr>cl_read_complete := read_message_complete, status_buffer := concat ss,
      response_headers := put_all B [] (map whole_header hs), response_body := concat bs\<rparr>"
    using assms(3) response_events_run [OF assms(1), of "Client.reset c" B ss bs] by (cases c) (simp add: reset_def)
  show ?thesis
    using assms(4) response_events_run [OF assms(2), of c1 B ss' bs'] by (auto simp: c1 reset_def)
qed

text \<open>A response that ends with the connection is whole, but reading it fails.\<close>

lemma response_ended_by_close_fails:
  "ReadSync B [Parsed (response_events ss hs bs) True, ReadError ''End of file''] c
     = Some (False, (llhttp_execute B (response_events ss hs bs) c)\<lparr>cl_error := on_read\<rparr>)"
proof -
  have "MessageComplete \<notin> set (response_events ss hs bs)"
    by (auto simp: response_events_def response_header_events_def)
  then have "cl_read_complete (fold (on_callback B) (response_events ss hs bs) c) \<noteq> read_message_complete"
    using not_complete_yet [of "tl (response_events ss hs bs)" "on_callback B MessageBegin c" B]
    by (simp add: response_events_def)
  then show ?thesis by (simp add: ReadSync_def llhttp_execute_def)
qed

text \<open>By default, and from \<^verbatim>\<open>Write\<close> with a body always, no length of the body is sent.\<close>

lemma body_without_length:
  "request_headers (Client.SetBody B body action_none (ResetHeaders B c)) = [(''User-Agent'', agent)]"
  by (simp add: Client.SetBody_def ResetHeaders_def agent_def)

text \<open>A host that is set as a header is sent beside the one of the connection.\<close>

lemma second_host_line:
  assumes "boost_laws B"
  shows "\<exists>pre post. make_request_buffer (AddHeader B ''Host'' h (ResetHeaders B c)) =
    pre @ ''Host:'' @ server c @ nl @ ''Host:'' @ h @ nl @ post"
proof -
  have "IgnoreCaseCompare boost_classic ''Host'' ''User-Agent''"
    "\<not> IgnoreCaseCompare boost_classic ''User-Agent'' ''Host''" by code_simp+
  moreover have "IgnoreCaseCompare B = IgnoreCaseCompare boost_classic"
    using assms boost_classic_laws by (intro ext) (simp add: iLess_lex)
  ultimately have "request_headers (AddHeader B ''Host'' h (ResetHeaders B c)) = [(''Host'', h), (''User-Agent'', agent)]"
    by (simp add: AddHeader_def ResetHeaders_def agent_def)
  then have "AddHeader B ''Host'' h (ResetHeaders B c) =
      c\<lparr>request_headers := [(''Host'', h), (''User-Agent'', agent)]\<rparr>"
    by (cases c) (simp add: AddHeader_def ResetHeaders_def)
  then show ?thesis
    by (intro exI [of _ "cl_method c @ '' '' @ cl_uri c @ '' HTTP/'' @ http_version c @ nl"]
      exI [of _ "''User-Agent:'' @ agent @ nl @ nl @ request_body c"]) (simp add: make_request_buffer_def)
qed

text \<open>After a failed write the asynchronous request leaves open what the synchronous one closes.\<close>

lemma failed_write_leaves_open:
  assumes "is_connected c" "server_endpoint c = Some r" "fst (se_write E) = Some e"
  shows "(\<exists>c1. RequestSync B E rs close_connection c = Some (False, c1) \<and> \<not> is_connected c1) \<and>
    complete B cc (WriteDone (Some e)) (Request cc close_connection \<lparr>conn = c, outstanding = [], notified = []\<rparr>)
      = Some (told (c\<lparr>cl_error := on_write\<rparr>) (Some e))"
  using assms by (simp add: RequestSync_def WriteSync_def do_write_sync_def do_close_def Request_def Connect_def
    do_write_def start_def complete_def on_wrote_def set_error_def)

end
