(* ===== verification/JsonValue.thy ===== *)
theory JsonValue
  imports OrderedMap
begin

text \<open>
  \<^verbatim>\<open>src/def/json_def.cpp\<close>: reading values out of JSON by name or by a path of names, with a
  default.  A JSON value is what the JSON library keeps: one of its nine kinds; integers are
  64 bits wide, signed or unsigned, an object is a map by name.  A \<^verbatim>\<open>double\<close> is a sign, a mantissa
  and an exponent of 2, so that conversions are exact; a conversion that C++ leaves undefined is
  \<open>None\<close>.  The printing of arrays and objects belongs to the library and is a parameter.
\<close>

section \<open>Doubles\<close>

datatype double = Finite bool nat int | Infinite bool | NotANumber

text \<open>The value without its fraction; the sign is true for a negative number.\<close>

fun magnitude :: "nat \<Rightarrow> int \<Rightarrow> nat" where
  "magnitude m e = (if 0 \<le> e then m * 2 ^ nat e else m div 2 ^ nat (- e))"

fun truncate :: "double \<Rightarrow> int option" where
  "truncate (Finite s m e) = Some ((if s then - 1 else 1) * int (magnitude m e))"
| "truncate _ = None"

text \<open>\<open>cast_to lo hi\<close> is a cast to an integer type with these bounds.\<close>

definition cast_to :: "int \<Rightarrow> int \<Rightarrow> double \<Rightarrow> int option" where
  "cast_to lo hi d =
     (case truncate d of None \<Rightarrow> None | Some i \<Rightarrow> if lo \<le> i \<and> i \<le> hi then Some i else None)"

text \<open>\<open>m1 * 2 ^ e1 < m2 * 2 ^ e2\<close>, and the order of doubles.\<close>

definition smaller :: "nat \<Rightarrow> int \<Rightarrow> nat \<Rightarrow> int \<Rightarrow> bool" where
  "smaller m1 e1 m2 e2 \<longleftrightarrow> m1 * 2 ^ nat (e1 - min e1 e2) < m2 * 2 ^ nat (e2 - min e1 e2)"

fun double_less :: "double \<Rightarrow> double \<Rightarrow> bool" where
  "double_less (Finite s1 m1 e1) (Finite s2 m2 e2) =
     (if s1 then (if s2 then smaller m2 e2 m1 e1 else m1 \<noteq> 0 \<or> m2 \<noteq> 0)
      else \<not> s2 \<and> smaller m1 e1 m2 e2)"
| "double_less (Infinite s) (Finite _ _ _) = s"
| "double_less (Finite _ _ _) (Infinite s) = (\<not> s)"
| "double_less (Infinite s) (Infinite t) = (s \<and> \<not> t)"
| "double_less _ _ = False"

fun double_neg :: "double \<Rightarrow> double" where
  "double_neg (Finite s m e) = Finite (\<not> s) m e"
| "double_neg (Infinite s) = Infinite (\<not> s)"
| "double_neg NotANumber = NotANumber"

text \<open>The double nearest to \<open>0.0000000001\<close>.\<close>

definition zero_compare_value :: double where
  "zero_compare_value = Finite False 0x1b7cdfd9d7bdbb (- 86)"

definition double_of_int :: "int \<Rightarrow> double" where
  "double_of_int i = Finite (i < 0) (nat \<bar>i\<bar>) 0"

text \<open>\<^verbatim>\<open>std::to_string\<close> of a double: six digits after the point, rounded half to even.\<close>

definition millionths :: "nat \<Rightarrow> int \<Rightarrow> nat" where
  "millionths m e =
     (if 0 \<le> e then m * 1000000 * 2 ^ nat e
      else let d = 2 ^ nat (- e); q = m * 1000000 div d; r = m * 1000000 mod d
           in if 2 * r < d \<or> (2 * r = d \<and> even q) then q else q + 1)"

definition six_digits :: "nat \<Rightarrow> string" where
  "six_digits n = (let s = dec_digits n in replicate (6 - length s) (CHR ''0'') @ s)"

fun double_to_string :: "double \<Rightarrow> string" where
  "double_to_string (Finite s m e) =
     (if s then ''-'' else '''') @ dec_digits (millionths m e div 1000000) @ ''.'' @
     six_digits (millionths m e mod 1000000)"
| "double_to_string (Infinite s) = (if s then ''-inf'' else ''inf'')"
| "double_to_string NotANumber = ''nan''"

section \<open>Values\<close>

datatype Json = JDiscarded | JNullV | JBoolean bool | JInteger u64 | JUnsigned u64 | JFloat double
  | JText string | JArray "Json list" | JObject "(string \<times> Json) list"

fun is_object :: "Json \<Rightarrow> bool" where
  "is_object (JObject m) = True"
| "is_object _ = False"

text \<open>\<^verbatim>\<open>find\<close> of the library: the end, for a value that is no object.\<close>

fun json_find :: "Json \<Rightarrow> string \<Rightarrow> Json option" where
  "json_find (JObject m) k = omap_find str_less m k"
| "json_find _ k = None"

text \<open>The loop over the names after the first, with \<open>parent\<close> as its state.\<close>

fun find_below :: "Json \<Rightarrow> string list \<Rightarrow> Json option" where
  "find_below parent [] = Some parent"
| "find_below parent (n # ns) =
     (if \<not> is_object parent then None
      else case json_find parent n of None \<Rightarrow> None | Some child \<Rightarrow> find_below child ns)"

definition is_exists :: "Json \<Rightarrow> string \<Rightarrow> bool" where
  "is_exists j item_name \<longleftrightarrow> json_find j item_name \<noteq> None"

definition is_exists_path :: "Json \<Rightarrow> string list \<Rightarrow> bool" where
  "is_exists_path j name_pathes =
     (if \<not> is_object j then False
      else case name_pathes of
             [] \<Rightarrow> False
           | n # ns \<Rightarrow> (case json_find j n of None \<Rightarrow> False | Some parent \<Rightarrow> find_below parent ns \<noteq> None))"

text \<open>
  The two overloads that all the readers have: \<open>item\<close> for a name and \<open>path\<close> for a path of names,
  over the reader \<open>f\<close> of a single value.
\<close>

definition item :: "(Json \<Rightarrow> 'a \<Rightarrow> 'b) \<Rightarrow> ('a \<Rightarrow> 'b) \<Rightarrow> Json \<Rightarrow> string \<Rightarrow> 'a \<Rightarrow> 'b" where
  "item f ret j item_name default_value =
     (if item_name = [] then f j default_value
      else if \<not> is_object j then ret default_value
      else case json_find j item_name of
             None \<Rightarrow> ret default_value
           | Some v \<Rightarrow> f v default_value)"

definition path :: "(Json \<Rightarrow> 'a \<Rightarrow> 'b) \<Rightarrow> ('a \<Rightarrow> 'b) \<Rightarrow> Json \<Rightarrow> string list \<Rightarrow> 'a \<Rightarrow> 'b" where
  "path f ret j name_pathes default_value =
     (case name_pathes of
        [] \<Rightarrow> f j default_value
      | n # ns \<Rightarrow>
          if \<not> is_object j then ret default_value
          else case json_find j n of
                 None \<Rightarrow> ret default_value
               | Some parent \<Rightarrow>
                   (case find_below parent ns of None \<Rightarrow> ret default_value | Some v \<Rightarrow> f v default_value))"

section \<open>The readers\<close>

fun boolean_value :: "Json \<Rightarrow> bool \<Rightarrow> bool" where
  "boolean_value (JBoolean b) _ = b"
| "boolean_value JNullV _ = False"
| "boolean_value (JArray vs) _ = (vs \<noteq> [])"
| "boolean_value (JInteger i) _ = (i \<noteq> 0)"
| "boolean_value (JUnsigned i) _ = (i \<noteq> 0)"
| "boolean_value (JFloat d) _ =
     (double_less d (double_neg zero_compare_value) \<or> double_less zero_compare_value d)"
| "boolean_value _ default_value = default_value"

definition boolean_value_item :: "Json \<Rightarrow> string \<Rightarrow> bool \<Rightarrow> bool" where
  "boolean_value_item = item boolean_value (\<lambda>b. b)"

definition boolean_value_path :: "Json \<Rightarrow> string list \<Rightarrow> bool \<Rightarrow> bool" where
  "boolean_value_path = path boolean_value (\<lambda>b. b)"

text \<open>An \<^verbatim>\<open>int\<close> has 32 bits: \<^verbatim>\<open>get<int>\<close> cuts a wider integer.\<close>

fun integer_value :: "Json \<Rightarrow> u32 \<Rightarrow> u32 option" where
  "integer_value (JInteger i) _ = Some (ucast i)"
| "integer_value (JUnsigned i) _ = Some (ucast i)"
| "integer_value JNullV _ = Some 0"
| "integer_value (JBoolean b) _ = Some (if b then 1 else 0)"
| "integer_value (JFloat d) _ = map_option word_of_int (cast_to (- (2 ^ 31)) (2 ^ 31 - 1) d)"
| "integer_value _ default_value = Some default_value"

definition integer_value_item :: "Json \<Rightarrow> string \<Rightarrow> u32 \<Rightarrow> u32 option" where
  "integer_value_item = item integer_value Some"

definition integer_value_path :: "Json \<Rightarrow> string list \<Rightarrow> u32 \<Rightarrow> u32 option" where
  "integer_value_path = path integer_value Some"

fun double_value :: "Json \<Rightarrow> double \<Rightarrow> double" where
  "double_value (JFloat d) _ = d"
| "double_value JNullV _ = double_of_int 0"
| "double_value (JBoolean b) _ = double_of_int (if b then 1 else 0)"
| "double_value (JInteger i) _ = double_of_int (sint (ucast i :: u32))"
| "double_value (JUnsigned i) _ = double_of_int (sint (ucast i :: u32))"
| "double_value _ default_value = default_value"

definition double_value_item :: "Json \<Rightarrow> string \<Rightarrow> double \<Rightarrow> double" where
  "double_value_item = item double_value (\<lambda>d. d)"

definition double_value_path :: "Json \<Rightarrow> string list \<Rightarrow> double \<Rightarrow> double" where
  "double_value_path = path double_value (\<lambda>d. d)"

fun string_value :: "(Json \<Rightarrow> string) \<Rightarrow> Json \<Rightarrow> string" where
  "string_value dump JDiscarded = []"
| "string_value dump (JText s) = s"
| "string_value dump (JFloat d) = double_to_string d"
| "string_value dump JNullV = ''null''"
| "string_value dump (JBoolean b) = (if b then ''true'' else ''false'')"
| "string_value dump (JInteger i) = to_string (sint (ucast i :: u32))"
| "string_value dump (JUnsigned i) = to_string (sint (ucast i :: u32))"
| "string_value dump j = dump j"

definition string_value_item :: "(Json \<Rightarrow> string) \<Rightarrow> Json \<Rightarrow> string \<Rightarrow> string \<Rightarrow> string" where
  "string_value_item dump = item (\<lambda>j _. string_value dump j) (\<lambda>s. s)"

text \<open>
  The reader of a single string has no default.  So the calls of \<^verbatim>\<open>string_value\<close> with a default
  at the two ends of the reader by path are those with the name of an item: the default is taken
  for a name.
\<close>

definition string_value_path :: "(Json \<Rightarrow> string) \<Rightarrow> Json \<Rightarrow> string list \<Rightarrow> string \<Rightarrow> string" where
  "string_value_path dump = path (\<lambda>j default_value. string_value_item dump j default_value []) (\<lambda>s. s)"

fun size_value :: "Json \<Rightarrow> u64 \<Rightarrow> u64 option" where
  "size_value (JInteger i) _ = Some i"
| "size_value (JUnsigned i) _ = Some i"
| "size_value JNullV _ = Some 0"
| "size_value (JBoolean b) _ = Some (if b then 1 else 0)"
| "size_value (JFloat d) _ = map_option word_of_int (cast_to 0 (2 ^ 64 - 1) d)"
| "size_value _ default_value = Some default_value"

definition size_value_item :: "Json \<Rightarrow> string \<Rightarrow> u64 \<Rightarrow> u64 option" where
  "size_value_item = item size_value Some"

definition size_value_path :: "Json \<Rightarrow> string list \<Rightarrow> u64 \<Rightarrow> u64 option" where
  "size_value_path = path size_value Some"

fun time_value :: "Json \<Rightarrow> u64 \<Rightarrow> u64 option" where
  "time_value (JInteger i) _ = Some i"
| "time_value (JUnsigned i) _ = Some i"
| "time_value JNullV _ = Some 0"
| "time_value (JBoolean b) _ = Some (if b then 1 else 0)"
| "time_value (JFloat d) _ = map_option word_of_int (cast_to (- (2 ^ 63)) (2 ^ 63 - 1) d)"
| "time_value _ default_value = Some default_value"

definition time_value_item :: "Json \<Rightarrow> string \<Rightarrow> u64 \<Rightarrow> u64 option" where
  "time_value_item = item time_value Some"

definition time_value_path :: "Json \<Rightarrow> string list \<Rightarrow> u64 \<Rightarrow> u64 option" where
  "time_value_path = path time_value Some"

end
