(* ===== verification/JsonValueProofs.thy ===== *)
theory JsonValueProofs
  imports JsonValue
begin

text \<open>
  Reading JSON values: a path is the composition of its names, numbers are read back in every
  form, and conversions of doubles are as close as they can be.
\<close>

section \<open>Paths\<close>

text \<open>The value at a path, name by name.\<close>

fun locate :: "Json \<Rightarrow> string list \<Rightarrow> Json option" where
  "locate j [] = Some j"
| "locate j (n # ns) = (case json_find j n of None \<Rightarrow> None | Some v \<Rightarrow> locate v ns)"

lemma find_below_locate: "find_below j ns = locate j ns"
proof (induction ns arbitrary: j)
  case (Cons n ns)
  then show ?case by (cases j) (auto split: option.split)
qed simp

lemma locate_append: "locate j (ns @ ms) = (case locate j ns of None \<Rightarrow> None | Some v \<Rightarrow> locate v ms)"
  by (induction ns arbitrary: j) (auto split: option.split)

lemma path_locate: "path f ret j ns d = (case locate j ns of None \<Rightarrow> ret d | Some v \<Rightarrow> f v d)"
  by (cases j; cases ns) (auto simp: path_def find_below_locate split: option.split)

lemma item_locate: "item f ret j k d = (if k = [] then f j d else path f ret j [k] d)"
  by (cases j) (auto simp: item_def path_locate split: option.split)

lemma is_exists_path_locate: "is_exists_path j ns \<longleftrightarrow> ns \<noteq> [] \<and> locate j ns \<noteq> None"
  by (cases j; cases ns) (auto simp: is_exists_path_def find_below_locate split: option.split)

text \<open>
  A path of names is followed name by name: a path that leads through a value has, seen
  from the value, the rest of the path; every reader gives what it gives for the value at the
  path, and the default when there is none, which is when the path is said not to exist.
\<close>

theorem json_path_is_followed:
  assumes "locate j ns = Some v" "ms \<noteq> []"
  shows "is_exists_path j (ns @ ms) = is_exists_path v ms \<and>
    boolean_value_path j (ns @ ms) b = boolean_value_path v ms b \<and>
    integer_value_path j (ns @ ms) i = integer_value_path v ms i \<and>
    double_value_path j (ns @ ms) d = double_value_path v ms d \<and>
    size_value_path j (ns @ ms) n = size_value_path v ms n \<and>
    time_value_path j (ns @ ms) t = time_value_path v ms t \<and>
    (\<not> is_exists_path v ms \<longrightarrow> boolean_value_path j (ns @ ms) b = b \<and> integer_value_path j (ns @ ms) i = Some i \<and>
       double_value_path j (ns @ ms) d = d \<and> size_value_path j (ns @ ms) n = Some n \<and>
       time_value_path j (ns @ ms) t = Some t \<and> string_value_path dump j (ns @ ms) s = s)"
  using assms by (auto simp: boolean_value_path_def integer_value_path_def double_value_path_def size_value_path_def
    time_value_path_def string_value_path_def path_locate is_exists_path_locate locate_append)

theorem json_path_is_followed_witness:
  "let j = JObject [(''a'', JObject [(''b'', JInteger 7)])]
   in is_exists_path j [''a'', ''b''] \<and> integer_value_path j [''a'', ''b''] 0 = Some 7 \<and>
      integer_value_path j [''a'', ''c''] 5 = Some 5"
proof -
  let ?v = "JObject [(''b'', JInteger 7)]"
  let ?j = "JObject [(''a'', ?v)]"
  have "locate ?j [''a''] = Some ?v" by code_simp
  note at = json_path_is_followed [OF this]
  have "is_exists_path ?v [''b'']" "integer_value_path ?v [''b''] 0 = Some 7" "\<not> is_exists_path ?v [''c'']"
    by code_simp+
  moreover have "integer_value_path ?j ([''a''] @ [''c'']) 5 = Some 5"
    using at [of "[''c'']"] \<open>\<not> is_exists_path ?v [''c'']\<close> by blast
  ultimately show ?thesis using at [of "[''b'']"] by (simp add: Let_def)
qed

section \<open>Integers\<close>

lemma sint_ucast_word_of_int:
  assumes "- (2 ^ 31) \<le> i" "i < 2 ^ 31"
  shows "sint (ucast (word_of_int i :: u64) :: u32) = i"
proof -
  have "ucast (word_of_int i :: u64) = (word_of_int i :: u32)"
    by (rule bit_word_eqI) (simp add: bit_simps)
  then show ?thesis using sint_word_of_int_32 [OF assms] by simp
qed

definition stored :: "int \<Rightarrow> Json" where
  "stored i = (if i < 0 then JInteger (word_of_int i) else JUnsigned (word_of_int i))"

text \<open>
  An integer that fits an \<^verbatim>\<open>int\<close> is read back by every reader: as the number, as a double
  of that value, as a time, as its decimal text, as true when it is not 0, and, when it is not
  negative, as a size.
\<close>

theorem json_integer_reads_back:
  assumes "- (2 ^ 31) \<le> i" "i < 2 ^ 31"
  shows "map_option sint (integer_value (stored i) d1) = Some i \<and>
    truncate (double_value (stored i) d2) = Some i \<and>
    map_option sint (time_value (stored i) d3) = Some i \<and>
    string_value dump (stored i) = to_string i \<and>
    (boolean_value (stored i) d4 \<longleftrightarrow> i \<noteq> 0) \<and>
    (0 \<le> i \<longrightarrow> map_option uint (size_value (stored i) d5) = Some i)"
proof -
  have wide: "sint (word_of_int i :: u64) = i" using assms by (intro sint_word_of_int_64) simp_all
  moreover have "(word_of_int i :: u64) = 0 \<longleftrightarrow> i = 0" using wide by (metis of_int_0 sint_0)
  moreover have "uint (word_of_int i :: u64) = i" if "0 \<le> i"
    using that assms by (simp add: unsigned_of_int take_bit_int_eq_self)
  moreover have "truncate (double_of_int i) = Some i" by (simp add: double_of_int_def)
  ultimately show ?thesis
    using sint_ucast_word_of_int [OF assms] by (simp add: stored_def)
qed

theorem json_integer_reads_back_witness:
  "map_option sint (integer_value (stored (- 5)) 0) = Some (- 5) \<and> string_value (\<lambda>_. []) (stored (- 5)) = ''-5''"
proof -
  have "to_string (- 5) = ''-5''" by code_simp
  with json_integer_reads_back [of "- 5"] show ?thesis by simp
qed

section \<open>Doubles\<close>

text \<open>A number without its fraction is within 1 of the number, and not above it.\<close>

lemma magnitude_close:
  "magnitude m e * 2 ^ nat (- e) \<le> m * 2 ^ nat e \<and> m * 2 ^ nat e < (magnitude m e + 1) * 2 ^ nat (- e)"
proof (cases "0 \<le> e")
  case False
  let ?d = "2 ^ nat (- e) :: nat"
  have "m < (m div ?d + 1) * ?d" using dividend_less_div_times [of ?d m] by simp
  with False show ?thesis by simp
qed simp

lemma millionths_close:
  "2 * \<bar>int (m * 1000000 * 2 ^ nat e) - int (millionths m e * 2 ^ nat (- e))\<bar> \<le> 2 ^ nat (- e)"
proof (cases "0 \<le> e")
  case False
  let ?d = "2 ^ nat (- e) :: nat"
  let ?q = "m * 1000000 div ?d" and ?r = "m * 1000000 mod ?d"
  have d: "int (m * 1000000) = int ?q * int ?d + int ?r" by (metis div_mult_mod_eq of_nat_add of_nat_mult)
  have r: "int ?r < int ?d" by simp
  show ?thesis
  proof (cases "2 * ?r < ?d \<or> (2 * ?r = ?d \<and> even ?q)")
    case True
    then have "2 * int ?r \<le> int ?d" by linarith
    with True False d show ?thesis by (simp add: millionths_def Let_def)
  next
    case up: False
    then have "int ?d \<le> 2 * int ?r" by linarith
    moreover have "millionths m e = ?q + 1" using up False by (simp add: millionths_def Let_def)
    moreover have "int ((?q + 1) * ?d) = int ?q * int ?d + int ?d" by (simp add: algebra_simps)
    ultimately show ?thesis using False d r by simp
  qed
qed (simp add: millionths_def)

lemma dec_digits_length_6: "n < 1000000 \<Longrightarrow> length (dec_digits n) \<le> 6"
proof -
  have step: "length (dec_digits n) \<le> Suc k" if "n < 10 * b" "\<And>i. i < b \<Longrightarrow> length (dec_digits i) \<le> k" for n k b
    using that by (subst dec_digits.simps) (auto simp: less_mult_imp_div_less mult.commute)
  have "n < 10 \<Longrightarrow> length (dec_digits n) \<le> 1" for n by (subst dec_digits.simps) simp
  then have "n < 100 \<Longrightarrow> length (dec_digits n) \<le> 2" for n using step [of n 10 1] by simp
  then have "n < 1000 \<Longrightarrow> length (dec_digits n) \<le> 3" for n using step [of n 100 2] by simp
  then have "n < 10000 \<Longrightarrow> length (dec_digits n) \<le> 4" for n using step [of n 1000 3] by simp
  then have "n < 100000 \<Longrightarrow> length (dec_digits n) \<le> 5" for n using step [of n 10000 4] by simp
  then show "n < 1000000 \<Longrightarrow> length (dec_digits n) \<le> 6" using step [of n 100000 5] by simp
qed

lemma six_digits_laws:
  assumes "n < 1000000"
  shows "length (six_digits n) = 6" "dec_value_from a (six_digits n) = a * 1000000 + n"
proof -
  show len: "length (six_digits n) = 6"
    using dec_digits_length_6 [OF assms] by (simp add: six_digits_def Let_def)
  have shift: "dec_value_from a t = a * 10 ^ length t + dec_value t" for a t
  proof (induction t arbitrary: a)
    case (Cons c t)
    show ?case using Cons [of "a * 10 + digit_val c"] Cons [of "digit_val c"] by (simp add: algebra_simps)
  qed simp
  have zeros: "dec_value (replicate k (CHR ''0'')) = 0" for k
    by (induction k) (simp_all add: digit_val_def)
  show "dec_value_from a (six_digits n) = a * 1000000 + n"
    using shift [of a "six_digits n"] len by (simp add: six_digits_def Let_def zeros)
qed

text \<open>
  The text of a double is as close as six decimals can be: it is the sign, digits, a point
  and six digits, and the digits, read as millionths, differ from the number by at most half a
  millionth.  Read as an integer, the number loses less than 1 and keeps its sign, or the
  conversion is undefined, which it is exactly when the result does not fit.
\<close>

theorem json_double_conversions:
  assumes "j = JFloat (Finite neg m e)"
  shows "(\<exists>whole part. string_value dump j = (if neg then ''-'' else []) @ whole @ ''.'' @ part \<and> length part = 6 \<and>
      2 * \<bar>int (m * 1000000 * 2 ^ nat e) - int (dec_value (whole @ part) * 2 ^ nat (- e))\<bar> \<le> 2 ^ nat (- e)) \<and>
    (\<exists>n. n * 2 ^ nat (- e) \<le> m * 2 ^ nat e \<and> m * 2 ^ nat e < (n + 1) * 2 ^ nat (- e) \<and>
      map_option sint (integer_value j d) =
        (let x = (if neg then - int n else int n) in if - (2 ^ 31) \<le> x \<and> x < 2 ^ 31 then Some x else None))"
proof -
  let ?n = "millionths m e"
  let ?i = "if neg then - int (magnitude m e) else int (magnitude m e)"
  have "dec_value (dec_digits (?n div 1000000) @ six_digits (?n mod 1000000)) = ?n"
    by (simp add: six_digits_laws(2))
  then have printed: "\<exists>whole part. string_value dump j = (if neg then ''-'' else []) @ whole @ ''.'' @ part \<and> length part = 6 \<and>
      2 * \<bar>int (m * 1000000 * 2 ^ nat e) - int (dec_value (whole @ part) * 2 ^ nat (- e))\<bar> \<le> 2 ^ nat (- e)"
    using millionths_close [of m e]
    by (intro exI [of _ "dec_digits (?n div 1000000)"] exI [of _ "six_digits (?n mod 1000000)"])
      (simp add: assms six_digits_laws(1) del: dec_value_from_append)
  have "truncate (Finite neg m e) = Some ?i" by simp
  then have "map_option sint (integer_value j d) = (if - (2 ^ 31) \<le> ?i \<and> ?i < 2 ^ 31 then Some ?i else None)"
    using sint_word_of_int_32 [of ?i] by (auto simp: assms cast_to_def simp del: truncate.simps magnitude.simps)
  with magnitude_close [of m e] printed show ?thesis unfolding Let_def by blast
qed

theorem json_double_conversions_witness:
  "\<exists>whole part. string_value (\<lambda>_. []) (JFloat (Finite True 11 (- 2))) = ''-'' @ whole @ ''.'' @ part \<and> length part = 6"
  using json_double_conversions [OF refl, of "\<lambda>_. []" True 11 "- 2"] by auto

section \<open>Where the readers differ from what they mean to do\<close>

text \<open>The default of a string by path is taken for a name: the string is lost.\<close>

lemma string_path_loses_value:
  assumes "locate j ns = Some (JText s)" "ns \<noteq> []" "default_value \<noteq> []"
  shows "string_value_path dump j ns default_value = []"
  using assms by (simp add: string_value_path_def path_locate string_value_item_def item_def)

text \<open>Five thousand million, which fits a double and a text, is cut to 32 bits in both.\<close>

lemma wide_integer_cut:
  "double_value (JInteger 5000000000) d = double_of_int 705032704 \<and>
   string_value dump (JInteger 5000000000) = to_string 705032704"
  by simp

text \<open>A negative integer is an enormous size.\<close>

lemma negative_size: "map_option uint (size_value (JInteger (- 1)) d) = Some 18446744073709551615"
  by code_simp

end
