(* ===== verification/Templates.thy ===== *)
theory Templates
  imports StringUtil
begin

text \<open>
  \<^verbatim>\<open>src/templates.cpp\<close>: the templates of an application, loaded from the files under a
  directory, looked up by name, and loaded again when a file has changed or a new one is found.
  The template library is a parameter: an environment of it is a value, parsing gives a template
  or throws, and may put the files it includes into the environment.  The file system is what a
  scan of the directory finds: its entries in the order of the scan, and whether the scan ends in
  an exception.  The clock is an argument; messages to the log are left out.
\<close>

section \<open>Names\<close>

definition daqi_HTML_template_ext :: string where "daqi_HTML_template_ext = ''.daqi.HTML''"
definition daqi_JSON_template_ext :: string where "daqi_JSON_template_ext = ''.daqi.JSON''"
definition daqi_XML_template_ext :: string where "daqi_XML_template_ext = ''.daqi.XML''"

definition make_daqi_template_ext :: "string \<Rightarrow> string" where
  "make_daqi_template_ext ext =
     ''.daqi'' @ (if ext = [] then [] else if hd ext = CHR ''.'' then ext else ''.'' @ ext)"

definition remove_template_ext :: "boost_algo \<Rightarrow> string \<Rightarrow> string \<Rightarrow> string" where
  "remove_template_ext B fn ext = (if EndsWith B fn ext then take (length fn - length ext) fn else fn)"

definition contains :: "string \<Rightarrow> string \<Rightarrow> bool" where
  "contains s pat \<longleftrightarrow> find_sub pat s \<noteq> None"

definition is_include_dir :: "string \<Rightarrow> bool" where
  "is_include_dir path \<longleftrightarrow> contains path ''/i/'' \<or> contains path [CHR 0x5C, CHR ''i'', CHR 0x5C]"

definition is_ignored :: "string \<Rightarrow> bool" where
  "is_ignored path \<longleftrightarrow>
     path = [] \<or> contains path ''/_alternate/'' \<or> contains path ''/_deprecated/'' \<or> contains path ''.deprecated.''"

definition make_template_key :: "string \<Rightarrow> string \<Rightarrow> string \<Rightarrow> string" where
  "make_template_key app_prefix mpath key_ext =
     app_prefix @
     (if app_prefix = [] \<or> mpath = [] \<or> List.last app_prefix \<noteq> CHR ''/'' \<or> hd mpath \<noteq> CHR ''/'' then mpath
      else tl mpath) @
     key_ext"

section \<open>Files and the template library\<close>

record tmpl_entry =
  is_regular :: bool
  content :: "string option"
  write_time :: "int option"

record tmpl_dir =
  is_directory :: bool
  entries :: "(string \<times> tmpl_entry) list"
  scan_throws :: bool

record ('t, 'e) inja =
  new_env :: "string \<Rightarrow> 'e"
  parse :: "'e \<Rightarrow> string \<Rightarrow> 't option \<times> 'e"
  include_template :: "'e \<Rightarrow> string \<Rightarrow> 't \<Rightarrow> 'e"

text \<open>Reading a file that is not there throws.\<close>

definition load_file :: "tmpl_dir \<Rightarrow> string \<Rightarrow> string option" where
  "load_file D name = (case map_of (entries D) name of None \<Rightarrow> None | Some f \<Rightarrow> content f)"

text \<open>The name of a file, after the last slash of its path.\<close>

definition filename :: "string \<Rightarrow> string" where
  "filename p = rev (takeWhile (\<lambda>c. c \<noteq> CHR ''/'') (rev p))"

section \<open>The templates of an application\<close>

record 't Item =
  templ :: 't
  item_file :: string

text \<open>The maps are lists in the order of insertion; the order of the hash map is not observed.\<close>

record 't Templates =
  has_logger :: bool
  loaded_time :: int
  tmpls :: "(string \<times> 't Item) list"
  includes_templates :: "(string \<times> 't Item) list"
  tmpl_root :: string
  app_prefix :: string
  tmpl_ext :: string
  disabled :: bool

definition insert_item :: "string \<Rightarrow> 't Item \<Rightarrow> (string \<times> 't Item) list \<Rightarrow> (string \<times> 't Item) list" where
  "insert_item key i m = (if map_of m key = None then m @ [(key, i)] else m)"

definition new_Templates :: "string \<Rightarrow> string \<Rightarrow> string \<Rightarrow> 't Templates" where
  "new_Templates root prefix ext =
     \<lparr>has_logger = False, loaded_time = 0, tmpls = [], includes_templates = [], tmpl_root = root,
      app_prefix = prefix, tmpl_ext = ext, disabled = False\<rparr>"

definition TmplInitPathes :: "string \<Rightarrow> string \<Rightarrow> string \<Rightarrow> 't Templates \<Rightarrow> 't Templates" where
  "TmplInitPathes root prefix ext t =
     t\<lparr>tmpl_root := (if root \<noteq> [] \<and> List.last root = CHR ''/'' then butlast root else root),
       app_prefix := prefix, tmpl_ext := ext\<rparr>"

definition Enable :: "'t Templates \<Rightarrow> 't Templates" where "Enable t = t\<lparr>disabled := False\<rparr>"
definition Disable :: "'t Templates \<Rightarrow> 't Templates" where "Disable t = t\<lparr>disabled := True\<rparr>"

definition Get :: "string \<Rightarrow> 't Templates \<Rightarrow> 't option" where
  "Get name t = map_option templ (map_of (tmpls t) name)"

definition CopyIncludeTemplateTo :: "('t, 'e) inja \<Rightarrow> 't Templates \<Rightarrow> 'e \<Rightarrow> 'e" where
  "CopyIncludeTemplateTo L t env = fold (\<lambda>(k, i) e. include_template L e k (templ i)) (includes_templates t) env"

section \<open>Loading\<close>

text \<open>An environment reads a file under its own root, which is that of the templates.\<close>

definition try_load_template :: "('t, 'e) inja \<Rightarrow> tmpl_dir \<Rightarrow> string \<Rightarrow> string \<Rightarrow> string \<Rightarrow> bool \<Rightarrow>
    'e \<times> 't Templates \<Rightarrow> bool \<times> 'e \<times> 't Templates" where
  "try_load_template L D key template_filename full_template_filename is_include =
     (\<lambda>(env, t).
        case load_file D (tmpl_root t @ template_filename) of
          None \<Rightarrow> (False, env, t)
        | Some tmpl_src \<Rightarrow>
            if tmpl_src = [] then (False, env, t)
            else case parse L env tmpl_src of
                   (None, env') \<Rightarrow> (False, env', t)
                 | (Some tm, env') \<Rightarrow>
                     let i = \<lparr>templ = tm, item_file = full_template_filename\<rparr>
                     in if is_include
                        then (True, include_template L env' key tm,
                              t\<lparr>includes_templates := insert_item key i (includes_templates t)\<rparr>)
                        else (True, env', t\<lparr>tmpls := insert_item key i (tmpls t)\<rparr>))"

definition mpath_of :: "'t Templates \<Rightarrow> string \<Rightarrow> string \<Rightarrow> string" where
  "mpath_of t template_ext path =
     take (length path - length (tmpl_root t) - length template_ext) (drop (length (tmpl_root t)) path)"

text \<open>The test of the two scans: a file with the extension that is not ignored.\<close>

definition is_template_file :: "boost_algo \<Rightarrow> string \<Rightarrow> string \<times> tmpl_entry \<Rightarrow> bool" where
  "is_template_file B template_ext = (\<lambda>(path, f).
     is_regular f \<and> EndsWith B (filename path) template_ext \<and> \<not> is_ignored path)"

datatype TemplateFlag = for_normal | for_include

definition load_entry :: "boost_algo \<Rightarrow> ('t, 'e) inja \<Rightarrow> tmpl_dir \<Rightarrow> string \<Rightarrow> string \<Rightarrow> TemplateFlag \<Rightarrow>
    string \<times> tmpl_entry \<Rightarrow> (nat \<times> nat) \<times> 'e \<times> 't Templates \<Rightarrow> (nat \<times> nat) \<times> 'e \<times> 't Templates" where
  "load_entry B L D template_ext key_ext flag = (\<lambda>(path, f) ((ok, fail), env, t).
     if \<not> is_template_file B template_ext (path, f) then ((ok, fail), env, t)
     else let is_include = is_include_dir path
       in if (flag = for_normal \<and> is_include) \<or> (flag = for_include \<and> \<not> is_include) then ((ok, fail), env, t)
          else let mpath = mpath_of t template_ext path
            in if mpath = [] then ((ok, fail), env, t)
               else let (done, r) = try_load_template L D (make_template_key (app_prefix t) mpath key_ext)
                          (mpath @ template_ext) path is_include (env, t)
                 in (if done then (ok + 1, fail) else (ok, fail + 1), r))"

text \<open>One scan; the flag of the result tells that it ended in an exception.\<close>

definition load_templates_flag :: "boost_algo \<Rightarrow> ('t, 'e) inja \<Rightarrow> tmpl_dir \<Rightarrow> string \<Rightarrow> string \<Rightarrow> TemplateFlag \<Rightarrow>
    'e \<times> 't Templates \<Rightarrow> bool \<times> (nat \<times> nat) \<times> 'e \<times> 't Templates" where
  "load_templates_flag B L D template_ext key_ext flag et =
     (if \<not> is_directory D then (False, (0, 0), et)
      else (scan_throws D, fold (load_entry B L D template_ext key_ext flag) (entries D) ((0, 0), et)))"

definition load_templates :: "boost_algo \<Rightarrow> ('t, 'e) inja \<Rightarrow> tmpl_dir \<Rightarrow> string \<Rightarrow> string \<Rightarrow> 't Templates \<Rightarrow>
    (nat \<times> nat) option \<times> 't Templates" where
  "load_templates B L D template_ext key_ext t =
     (case load_templates_flag B L D template_ext key_ext for_include (new_env L (tmpl_root t), t) of
        (True, c, e, t1) \<Rightarrow> (None, t1)
      | (False, counts_i, e, t1) \<Rightarrow>
          (case load_templates_flag B L D template_ext key_ext for_normal (e, t1) of
             (True, c, e, t2) \<Rightarrow> (None, t2)
           | (False, counts, e, t2) \<Rightarrow> (Some (fst counts_i + fst counts, snd counts_i + snd counts), t2)))"

definition Preload :: "boost_algo \<Rightarrow> ('t, 'e) inja \<Rightarrow> tmpl_dir \<Rightarrow> int \<Rightarrow> 't Templates \<Rightarrow> bool \<times> 't Templates" where
  "Preload B L D now t =
     (let t1 = t\<lparr>has_logger := True\<rparr>
      in if disabled t1 \<or> tmpl_root t1 = [] \<or> tmpl_ext t1 = [] then (True, t1)
         else case load_templates B L D (tmpl_ext t1) [] (t1\<lparr>tmpls := [], includes_templates := []\<rparr>) of
                (Some counts, t2) \<Rightarrow> (True, t2\<lparr>loaded_time := now\<rparr>)
              | (None, t2) \<Rightarrow> (False, t2))"

definition reload :: "boost_algo \<Rightarrow> ('t, 'e) inja \<Rightarrow> tmpl_dir \<Rightarrow> int \<Rightarrow> 't Templates \<Rightarrow> bool \<times> 't Templates" where
  "reload B L D now t = (if \<not> has_logger t then (False, t) else Preload B L D now t)"

section \<open>Looking for changes\<close>

datatype TemplateUpdateAction = update_none | appended | modified | removed

fun check_exists_items :: "tmpl_dir \<Rightarrow> int \<Rightarrow> (string \<times> 't Item) list \<Rightarrow> TemplateUpdateAction" where
  "check_exists_items D loaded [] = update_none"
| "check_exists_items D loaded ((k, i) # m) =
     (case map_of (entries D) (item_file i) of
        None \<Rightarrow> removed
      | Some f \<Rightarrow>
          (case write_time f of
             None \<Rightarrow> check_exists_items D loaded m
           | Some w \<Rightarrow> if w > loaded then modified else check_exists_items D loaded m))"

definition check_exists_template :: "tmpl_dir \<Rightarrow> 't Templates \<Rightarrow> TemplateUpdateAction" where
  "check_exists_template D t =
     (let action = check_exists_items D (loaded_time t) (tmpls t)
      in if action \<noteq> update_none then action else check_exists_items D (loaded_time t) (includes_templates t))"

definition ReloadIfFindUpdate :: "boost_algo \<Rightarrow> ('t, 'e) inja \<Rightarrow> tmpl_dir \<Rightarrow> int \<Rightarrow> 't Templates \<Rightarrow>
    bool \<times> 't Templates" where
  "ReloadIfFindUpdate B L D now t =
     (if disabled t then (True, t)
      else if check_exists_template D t = update_none then (False, t)
      else reload B L D now t)"

definition is_new_template :: "'t Templates \<Rightarrow> string \<Rightarrow> string \<Rightarrow> string \<Rightarrow> bool" where
  "is_new_template t template_ext key_ext path =
     (let mpath = mpath_of t template_ext path;
          key = make_template_key (app_prefix t) mpath key_ext
      in mpath \<noteq> [] \<and>
         (\<not> is_include_dir path \<and> map_of (tmpls t) key = None \<or>
          is_include_dir path \<and> map_of (includes_templates t) key = None))"

text \<open>\<open>None\<close> is the exception of a scan that ends in one before a new template is found.\<close>

definition check_new_template :: "boost_algo \<Rightarrow> tmpl_dir \<Rightarrow> string \<Rightarrow> string \<Rightarrow> 't Templates \<Rightarrow>
    TemplateUpdateAction option" where
  "check_new_template B D template_ext key_ext t =
     (if \<not> is_directory D then Some update_none
      else if list_ex (\<lambda>(path, f). is_template_file B template_ext (path, f) \<and>
                is_new_template t template_ext key_ext path) (entries D) then Some appended
      else if scan_throws D then None else Some update_none)"

definition ReloadIfFindNew :: "boost_algo \<Rightarrow> ('t, 'e) inja \<Rightarrow> tmpl_dir \<Rightarrow> int \<Rightarrow> 't Templates \<Rightarrow>
    (bool \<times> 't Templates) option" where
  "ReloadIfFindNew B L D now t =
     (if disabled t then Some (True, t)
      else case check_new_template B D (tmpl_ext t) [] t of
             None \<Rightarrow> None
           | Some update_none \<Rightarrow> Some (False, t)
           | Some _ \<Rightarrow> Some (reload B L D now t))"

text \<open>What the manager of the applications does with the templates of each; an exception leaves
  it, and the templates after it are not looked at.\<close>

fun CheckTemplatesUpdate :: "boost_algo \<Rightarrow> ('t, 'e) inja \<Rightarrow> (string \<Rightarrow> tmpl_dir) \<Rightarrow> int \<Rightarrow>
    't Templates list \<Rightarrow> 't Templates list \<times> bool" where
  "CheckTemplatesUpdate B L D now [] = ([], True)"
| "CheckTemplatesUpdate B L D now (t # ts) =
     (case ReloadIfFindUpdate B L (D (tmpl_root t)) now t of
        (True, t1) \<Rightarrow> (let (ts', ok) = CheckTemplatesUpdate B L D now ts in (t1 # ts', ok))
      | (False, t1) \<Rightarrow>
          (case ReloadIfFindNew B L (D (tmpl_root t)) now t1 of
             None \<Rightarrow> (t1 # ts, False)
           | Some (_, t2) \<Rightarrow> (let (ts', ok) = CheckTemplatesUpdate B L D now ts in (t2 # ts', ok))))"

end
