(* ===== verification/TemplatesProofs.thy ===== *)
theory TemplatesProofs
  imports Templates
begin

text \<open>
  Templates: after loading, the names are those of the files and give what their contents parse
  to; a check for changes loads again exactly when a file that was loaded is gone or newer, or a
  file has not been loaded.
\<close>

section \<open>Paths and names\<close>

definition dir_ok :: "string \<Rightarrow> tmpl_dir \<Rightarrow> bool" where
  "dir_ok root D \<longleftrightarrow> is_directory D \<and> \<not> scan_throws D \<and> distinct (map fst (entries D)) \<and>
     (\<forall>p \<in> fst ` set (entries D). \<exists>r. p = root @ ''/'' @ r)"

text \<open>The name of a template: the prefix of the application, a slash, and the path under the root.\<close>

definition name_of :: "string \<Rightarrow> string \<Rightarrow> string" where
  "name_of prefix y = (if prefix \<noteq> [] \<and> List.last prefix = CHR ''/'' then prefix else prefix @ ''/'') @ y"

lemma make_template_key_name: "make_template_key prefix (CHR ''/'' # y) [] = name_of prefix y"
  by (simp add: make_template_key_def name_of_def)

lemma name_of_inject [simp]: "name_of prefix x = name_of prefix y \<longleftrightarrow> x = y"
  by (simp add: name_of_def)

lemma filename_after: "filename (p @ CHR ''/'' # s) = filename (CHR ''/'' # s)"
proof (cases "CHR ''/'' \<in> set s")
  case True
  then obtain a b where "rev s = a @ CHR ''/'' # b" "CHR ''/'' \<notin> set a" using split_list_first [of "CHR ''/''" "rev s"] by auto
  then show ?thesis by (simp add: filename_def takeWhile_append)
qed (simp add: filename_def takeWhile_append)

lemma filename_suffix: "\<exists>a. s = a @ filename (CHR ''/'' # s)"
proof -
  have "filename (CHR ''/'' # s) = rev (takeWhile (\<lambda>c. c \<noteq> CHR ''/'') (rev s))"
    by (simp add: filename_def takeWhile_append takeWhile_eq_all_conv [THEN iffD2])
  moreover have "s = rev (dropWhile (\<lambda>c. c \<noteq> CHR ''/'') (rev s)) @ rev (takeWhile (\<lambda>c. c \<noteq> CHR ''/'') (rev s))"
    by (metis rev_append rev_rev_ident takeWhile_dropWhile_id)
  ultimately show ?thesis by metis
qed

lemma filename_with_ext:
  assumes "CHR ''/'' \<notin> set ext"
  shows "\<exists>a. filename (p @ ext) = a @ ext"
proof -
  have "takeWhile (\<lambda>c. c \<noteq> CHR ''/'') (rev ext @ rev p) = rev ext @ takeWhile (\<lambda>c. c \<noteq> CHR ''/'') (rev p)"
    using assms by (intro takeWhile_append2) auto
  then show ?thesis by (simp add: filename_def)
qed

text \<open>A file with the extension is \<open>root/y\<close> with the extension.\<close>

lemma template_file_path:
  assumes "boost_laws B" "dir_ok (tmpl_root t) D" "(p, f) \<in> set (entries D)" "is_template_file B ext (p, f)"
  obtains y where "p = tmpl_root t @ CHR ''/'' # y @ ext" "mpath_of t ext p = CHR ''/'' # y"
proof -
  obtain r where r: "p = tmpl_root t @ CHR ''/'' # r" using assms(2,3) by (force simp: dir_ok_def)
  obtain a where "filename (CHR ''/'' # r) = a @ ext"
    using assms(1,4) by (auto simp: is_template_file_def EndsWith_def boost_laws_def r filename_after)
  with filename_suffix [of r] obtain b where "r = b @ a @ ext" by metis
  with r show ?thesis by (intro that [of "b @ a"]) (simp_all add: mpath_of_def)
qed

section \<open>What a scan loads\<close>

definition stable_parse :: "('t, 'e) inja \<Rightarrow> tmpl_dir \<Rightarrow> bool" where
  "stable_parse L D \<longleftrightarrow> (\<forall>(p, f) \<in> set (entries D). \<forall>c e. content f = Some c \<longrightarrow> snd (parse L e c) = e)"

definition parsed :: "('t, 'e) inja \<Rightarrow> 'e \<Rightarrow> tmpl_entry \<Rightarrow> 't option" where
  "parsed L e f = (case content f of None \<Rightarrow> None | Some c \<Rightarrow> if c = [] then None else fst (parse L e c))"

abbreviation key_of :: "'t Templates \<Rightarrow> string \<Rightarrow> string" where
  "key_of t p \<equiv> make_template_key (app_prefix t) (mpath_of t (tmpl_ext t) p) []"

definition loaded_item :: "boost_algo \<Rightarrow> ('t, 'e) inja \<Rightarrow> 'e \<Rightarrow> bool \<Rightarrow> 't Templates \<Rightarrow> string \<times> tmpl_entry \<Rightarrow>
    (string \<times> 't Item) option" where
  "loaded_item B L e inc t = (\<lambda>(p, f).
     if is_template_file B (tmpl_ext t) (p, f) \<and> is_include_dir p = inc
     then map_option (\<lambda>tm. (key_of t p, \<lparr>templ = tm, item_file = p\<rparr>)) (parsed L e f) else None)"

lemma load_entry_eq:
  assumes "boost_laws B" "dir_ok (tmpl_root t) D" "stable_parse L D" "pf \<in> set (entries D)"
  shows "\<exists>cnt'. load_entry B L D (tmpl_ext t) [] flag pf (cnt, e, t) = (cnt',
    (case loaded_item B L e (flag = for_include) t pf of
       None \<Rightarrow> (e, t)
     | Some (k, i) \<Rightarrow>
         if flag = for_include
         then (include_template L e k (templ i), t\<lparr>includes_templates := insert_item k i (includes_templates t)\<rparr>)
         else (e, t\<lparr>tmpls := insert_item k i (tmpls t)\<rparr>)))"
proof -
  obtain p f ok fail where pf: "pf = (p, f)" "cnt = (ok, fail)" by (cases pf; cases cnt)
  show ?thesis
  proof (cases "is_template_file B (tmpl_ext t) pf")
    case True
    with assms obtain y where y: "p = tmpl_root t @ CHR ''/'' # y @ tmpl_ext t" "mpath_of t (tmpl_ext t) p = CHR ''/'' # y"
      using template_file_path pf(1) by metis
    have read: "load_file D (tmpl_root t @ CHR ''/'' # y @ tmpl_ext t) = content f"
      using assms(2,4) y(1) by (simp add: load_file_def dir_ok_def pf)
    have "snd (parse L e c) = e" if "content f = Some c" for c
      using assms(3,4) that by (auto simp: stable_parse_def pf)
    then have "fst (parse L e c) = r \<Longrightarrow> content f = Some c \<Longrightarrow> parse L e c = (r, e)" for c r
      by (metis prod.collapse)
    then show ?thesis
      using True by (cases flag) (auto simp: load_entry_def pf loaded_item_def parsed_def try_load_template_def y(2) read Let_def
        split: option.splits prod.splits)
  qed (simp add: load_entry_def loaded_item_def pf)
qed

lemma loaded_item_simps [simp]:
  "loaded_item B L e inc (t\<lparr>tmpls := m\<rparr>) = loaded_item B L e inc t"
  "loaded_item B L e inc (t\<lparr>includes_templates := m\<rparr>) = loaded_item B L e inc t"
  "loaded_item B L e inc (t\<lparr>has_logger := b\<rparr>) = loaded_item B L e inc t"
  by (simp_all add: loaded_item_def mpath_of_def fun_eq_iff)

lemma loaded_item_Some:
  assumes "loaded_item B L e inc t (p, f) = Some (k, i)"
  shows "is_template_file B (tmpl_ext t) (p, f) \<and> is_include_dir p = inc \<and> k = key_of t p \<and> item_file i = p \<and>
    parsed L e f = Some (templ i)"
  using assms by (auto simp: loaded_item_def split: if_splits)

text \<open>Files have names of their own, so no insertion meets a key that is taken.\<close>

lemma key_of_inject:
  assumes "boost_laws B" "dir_ok (tmpl_root t) D" "(p, f) \<in> set (entries D)" "(q, g) \<in> set (entries D)"
    and "is_template_file B (tmpl_ext t) (p, f)" "is_template_file B (tmpl_ext t) (q, g)" "key_of t p = key_of t q"
  shows "p = q"
proof -
  obtain x where x: "p = tmpl_root t @ CHR ''/'' # x @ tmpl_ext t" "mpath_of t (tmpl_ext t) p = CHR ''/'' # x"
    using template_file_path [OF assms(1,2,3,5)] .
  obtain y where y: "q = tmpl_root t @ CHR ''/'' # y @ tmpl_ext t" "mpath_of t (tmpl_ext t) q = CHR ''/'' # y"
    using template_file_path [OF assms(1,2,4,6)] .
  from assms(7) have "x = y" by (simp add: x(2) y(2) make_template_key_name)
  with x y show ?thesis by simp
qed

definition fresh_keys :: "boost_algo \<Rightarrow> 't Templates \<Rightarrow> (string \<times> tmpl_entry) list \<Rightarrow> (string \<times> 't Item) list \<Rightarrow> bool" where
  "fresh_keys B t es m \<longleftrightarrow> (\<forall>(p, f) \<in> set es. is_template_file B (tmpl_ext t) (p, f) \<longrightarrow> map_of m (key_of t p) = None)"

lemma fresh_keys_insert:
  assumes "boost_laws B" "dir_ok (tmpl_root t) D" "set ((p, f) # es) \<subseteq> set (entries D)" "distinct (map fst ((p, f) # es))"
    and "fresh_keys B t ((p, f) # es) m" "is_template_file B (tmpl_ext t) (p, f)"
  shows "insert_item (key_of t p) i m = m @ [(key_of t p, i)] \<and> fresh_keys B t es (m @ [(key_of t p, i)])"
proof -
  have "key_of t q \<noteq> key_of t p" if "(q, g) \<in> set es" "is_template_file B (tmpl_ext t) (q, g)" for q g
    using key_of_inject [OF assms(1,2), of q g p f] that assms(3,4,6) by force
  with assms(5,6) show ?thesis
    by (auto simp: fresh_keys_def insert_item_def map_add_def split: option.splits)
qed

lemma fresh_keys_skip: "fresh_keys B t (pf # es) m \<Longrightarrow> fresh_keys B t es m"
  by (auto simp: fresh_keys_def)

lemma fresh_keys_simps [simp]:
  "fresh_keys B (t\<lparr>tmpls := m\<rparr>) es = fresh_keys B t es"
  "fresh_keys B (t\<lparr>includes_templates := m\<rparr>) es = fresh_keys B t es"
  by (simp_all add: fresh_keys_def mpath_of_def fun_eq_iff)

lemma scan_normal:
  assumes "boost_laws B" "dir_ok (tmpl_root t) D" "stable_parse L D" "set es \<subseteq> set (entries D)" "distinct (map fst es)"
    and "fresh_keys B t es (tmpls t)"
  shows "\<exists>cnt'. fold (load_entry B L D (tmpl_ext t) [] for_normal) es (cnt, e, t) =
    (cnt', e, t\<lparr>tmpls := tmpls t @ List.map_filter (loaded_item B L e False t) es\<rparr>)"
  using assms
proof (induction es arbitrary: cnt t)
  case (Cons pf es)
  obtain p f where pf: "pf = (p, f)" by (cases pf)
  have "pf \<in> set (entries D)" using Cons.prems(4) by simp
  from load_entry_eq [OF Cons.prems(1,2,3) this, of for_normal cnt e] obtain cnt1 where
    step: "load_entry B L D (tmpl_ext t) [] for_normal pf (cnt, e, t) = (cnt1,
      (case loaded_item B L e False t pf of None \<Rightarrow> (e, t) | Some (k, i) \<Rightarrow> (e, t\<lparr>tmpls := insert_item k i (tmpls t)\<rparr>)))"
    by (auto split: option.splits prod.splits)
  show ?case
  proof (cases "loaded_item B L e False t pf")
    case None
    with Cons.IH [of t cnt1] Cons.prems step fresh_keys_skip [OF Cons.prems(6)] show ?thesis by (simp add: map_filter_simps)
  next
    case (Some ki)
    then obtain i where ki: "ki = (key_of t p, i)" "is_template_file B (tmpl_ext t) (p, f)"
      using loaded_item_Some pf by (metis prod.collapse)
    have ins: "insert_item (key_of t p) i (tmpls t) = tmpls t @ [ki]" "fresh_keys B t es (tmpls t @ [ki])"
      using fresh_keys_insert [OF Cons.prems(1,2) Cons.prems(4,5,6) [unfolded pf] ki(2), of i] by (simp_all add: ki(1))
    with Cons.IH [of "t\<lparr>tmpls := tmpls t @ [ki]\<rparr>" cnt1] Cons.prems step Some ki(1) show ?thesis
      by (simp add: map_filter_simps)
  qed
qed (simp add: map_filter_simps)

text \<open>The scan for the templates that others include: the environment gets what the map gets.\<close>

lemma scan_includes:
  assumes "boost_laws B" "dir_ok (tmpl_root t) D" "stable_parse L D" "set es \<subseteq> set (entries D)" "distinct (map fst es)"
    and "fresh_keys B t es (includes_templates t)"
  shows "\<exists>cnt' items. fold (load_entry B L D (tmpl_ext t) [] for_include) es (cnt, e, t) =
      (cnt', fold (\<lambda>(k, i) e. include_template L e k (templ i)) items e,
       t\<lparr>includes_templates := includes_templates t @ items\<rparr>) \<and>
    (\<forall>(k, i) \<in> set items. \<exists>e f. (item_file i, f) \<in> set es \<and> loaded_item B L e True t (item_file i, f) = Some (k, i))"
  using assms
proof (induction es arbitrary: cnt e t)
  case Nil
  show ?case by (intro exI [of _ cnt] exI [of _ "[]"]) simp
next
  case (Cons pf es)
  obtain p f where pf: "pf = (p, f)" by (cases pf)
  have "pf \<in> set (entries D)" using Cons.prems(4) by simp
  from load_entry_eq [OF Cons.prems(1,2,3) this, of for_include cnt e] obtain cnt1 where
    step: "load_entry B L D (tmpl_ext t) [] for_include pf (cnt, e, t) = (cnt1,
      (case loaded_item B L e True t pf of None \<Rightarrow> (e, t)
       | Some (k, i) \<Rightarrow> (include_template L e k (templ i), t\<lparr>includes_templates := insert_item k i (includes_templates t)\<rparr>)))"
    by (auto split: option.splits prod.splits)
  show ?case
  proof (cases "loaded_item B L e True t pf")
    case None
    with Cons.IH [of t cnt1 e] Cons.prems step fresh_keys_skip [OF Cons.prems(6)] show ?thesis by simp blast
  next
    case (Some ki)
    then obtain i where ki: "ki = (key_of t p, i)" "is_template_file B (tmpl_ext t) (p, f)" "item_file i = p"
      using loaded_item_Some pf by (metis prod.collapse)
    let ?m = "includes_templates t @ [ki]"
    have ins: "insert_item (key_of t p) i (includes_templates t) = ?m" "fresh_keys B t es ?m"
      using fresh_keys_insert [OF Cons.prems(1,2) Cons.prems(4,5,6) [unfolded pf] ki(2), of i] by (simp_all add: ki(1))
    have "\<exists>cnt' items. fold (load_entry B L D (tmpl_ext t) [] for_include) es
          (cnt1, include_template L e (key_of t p) (templ i), t\<lparr>includes_templates := ?m\<rparr>) =
        (cnt', fold (\<lambda>(k, i) e. include_template L e k (templ i)) items (include_template L e (key_of t p) (templ i)),
         t\<lparr>includes_templates := ?m @ items\<rparr>) \<and>
      (\<forall>(k, i) \<in> set items. \<exists>e f. (item_file i, f) \<in> set es \<and> loaded_item B L e True t (item_file i, f) = Some (k, i))"
      using Cons.IH [of "t\<lparr>includes_templates := ?m\<rparr>" cnt1 "include_template L e (key_of t p) (templ i)"] Cons.prems ins(2) by simp
    then obtain cnt' items where rest: "fold (load_entry B L D (tmpl_ext t) [] for_include) es
          (cnt1, include_template L e (key_of t p) (templ i), t\<lparr>includes_templates := ?m\<rparr>) =
        (cnt', fold (\<lambda>(k, i) e. include_template L e k (templ i)) items (include_template L e (key_of t p) (templ i)),
         t\<lparr>includes_templates := ?m @ items\<rparr>)"
      "\<forall>(k, i) \<in> set items. \<exists>e f. (item_file i, f) \<in> set es \<and> loaded_item B L e True t (item_file i, f) = Some (k, i)"
      by blast
    have "\<forall>(k, j) \<in> set (ki # items). \<exists>e f. (item_file j, f) \<in> set (pf # es) \<and>
        loaded_item B L e True t (item_file j, f) = Some (k, j)"
      using rest(2) Some ki(1,3) pf by simp blast
    with rest(1) step Some ki(1) ins(1) show ?thesis
      by (intro exI [of _ cnt'] exI [of _ "ki # items"]) simp
  qed
qed

section \<open>Loading\<close>

definition preloads :: "'t Templates \<Rightarrow> bool" where
  "preloads t \<longleftrightarrow> \<not> disabled t \<and> tmpl_root t \<noteq> [] \<and> tmpl_ext t \<noteq> []"

lemma map_of_map_filter_loaded:
  assumes "boost_laws B" "dir_ok (tmpl_root t) D" "set es \<subseteq> set (entries D)" "distinct (map fst es)"
  shows "map_of (List.map_filter (loaded_item B L e inc t) es) k = Some i \<longleftrightarrow>
    (\<exists>(p, f) \<in> set es. loaded_item B L e inc t (p, f) = Some (k, i))"
proof -
  let ?xs = "List.map_filter (loaded_item B L e inc t) es"
  have mem: "x \<in> set ?xs \<longleftrightarrow> (\<exists>pf \<in> set es. loaded_item B L e inc t pf = Some x)" for x
    by (induction es) (auto simp: map_filter_simps split: option.splits)
  have same: "i = j" if "(k, i) \<in> set ?xs" "(k, j) \<in> set ?xs" for i j
  proof -
    from that obtain p f q g where "(p, f) \<in> set es" "loaded_item B L e inc t (p, f) = Some (k, i)"
      "(q, g) \<in> set es" "loaded_item B L e inc t (q, g) = Some (k, j)" unfolding mem by (metis prod.collapse)
    moreover from this have "p = q"
      using key_of_inject [OF assms(1,2), of p f q g] assms(3) loaded_item_Some by (metis subsetD)
    ultimately have "f = g" using assms(4) by (metis eq_key_imp_eq_value)
    with \<open>p = q\<close> \<open>loaded_item B L e inc t (p, f) = _\<close> \<open>loaded_item B L e inc t (q, g) = _\<close> show ?thesis by simp
  qed
  have "map_of ?xs k = Some i \<longleftrightarrow> (k, i) \<in> set ?xs"
  proof
    assume "(k, i) \<in> set ?xs"
    moreover from this obtain j where "map_of ?xs k = Some j" by (metis map_of_eq_None_iff not_None_eq imageI fst_conv)
    ultimately show "map_of ?xs k = Some i" using same map_of_SomeD by metis
  qed (rule map_of_SomeD)
  then show ?thesis unfolding mem by auto
qed

lemma Preload_loads:
  assumes "boost_laws B" "dir_ok (tmpl_root t) D" "stable_parse L D" "preloads t"
  shows "\<exists>items. let e = fold (\<lambda>(k, i) e. include_template L e k (templ i)) items (new_env L (tmpl_root t)) in
    Preload B L D now t = (True, t\<lparr>has_logger := True, loaded_time := now, includes_templates := items,
      tmpls := List.map_filter (loaded_item B L e False t) (entries D)\<rparr>) \<and>
    (\<forall>(k, i) \<in> set items. \<exists>e f. (item_file i, f) \<in> set (entries D) \<and> loaded_item B L e True t (item_file i, f) = Some (k, i))"
proof -
  let ?t = "t\<lparr>has_logger := True, tmpls := [], includes_templates := []\<rparr>"
  have D: "distinct (map fst (entries D))" "is_directory D" "\<not> scan_throws D" using assms(2) by (auto simp: dir_ok_def)
  have none: "fresh_keys B s (entries D) (includes_templates ?t)" "fresh_keys B s (entries D) (tmpls (?t\<lparr>includes_templates := m\<rparr>))"
    for s :: "'a Templates" and m by (simp_all add: fresh_keys_def split_def)
  obtain cnt items where i: "fold (load_entry B L D (tmpl_ext t) [] for_include) (entries D) ((0, 0), new_env L (tmpl_root t), ?t) =
      (cnt, fold (\<lambda>(k, i) e. include_template L e k (templ i)) items (new_env L (tmpl_root t)), ?t\<lparr>includes_templates := items\<rparr>)"
    "\<forall>(k, i) \<in> set items. \<exists>e f. (item_file i, f) \<in> set (entries D) \<and> loaded_item B L e True t (item_file i, f) = Some (k, i)"
    using scan_includes [OF assms(1) _ assms(3) order.refl D(1) none(1), of "(0, 0)" "new_env L (tmpl_root t)"] assms(2)
    by auto
  let ?e = "fold (\<lambda>(k, i) e. include_template L e k (templ i)) items (new_env L (tmpl_root t))"
  obtain cnt' where n: "fold (load_entry B L D (tmpl_ext t) [] for_normal) (entries D) ((0, 0), ?e, ?t\<lparr>includes_templates := items\<rparr>) =
      (cnt', ?e, ?t\<lparr>includes_templates := items, tmpls := List.map_filter (loaded_item B L ?e False t) (entries D)\<rparr>)"
    using scan_normal [OF assms(1) _ assms(3) order.refl D(1) none(2), of items "(0, 0)" ?e] assms(2)
    by auto
  have "Preload B L D now t = (True, t\<lparr>has_logger := True, loaded_time := now, includes_templates := items,
      tmpls := List.map_filter (loaded_item B L ?e False t) (entries D)\<rparr>)"
    using assms(4) i(1) n by (simp add: Preload_def preloads_def load_templates_def load_templates_flag_def D)
  with i(2) show ?thesis by (intro exI [of _ items]) (simp add: Let_def)
qed

abbreviation tmpl_path :: "'t Templates \<Rightarrow> string \<Rightarrow> string" where
  "tmpl_path t y \<equiv> tmpl_root t @ CHR ''/'' # y @ tmpl_ext t"

text \<open>The file \<open>y\<close> with the extension, when it is to be loaded under its name.\<close>

definition normal_file :: "'t Templates \<Rightarrow> tmpl_dir \<Rightarrow> string \<Rightarrow> tmpl_entry \<Rightarrow> bool" where
  "normal_file t D y f \<longleftrightarrow> (tmpl_path t y, f) \<in> set (entries D) \<and> is_regular f \<and>
     \<not> is_ignored (tmpl_path t y) \<and> \<not> is_include_dir (tmpl_path t y)"

lemma normal_file_item:
  assumes "boost_laws B" "dir_ok (tmpl_root t) D" "CHR ''/'' \<notin> set (tmpl_ext t)"
  shows "(\<exists>(p, f) \<in> set (entries D). loaded_item B L e False t (p, f) = Some (k, i)) \<longleftrightarrow>
    (\<exists>y f. normal_file t D y f \<and> k = name_of (app_prefix t) y \<and> item_file i = tmpl_path t y \<and> parsed L e f = Some (templ i))"
    (is "?l \<longleftrightarrow> ?r")
proof
  assume ?l
  then obtain p f where p: "(p, f) \<in> set (entries D)" "loaded_item B L e False t (p, f) = Some (k, i)" by blast
  note p2 = loaded_item_Some [OF p(2)]
  then obtain y where "p = tmpl_path t y" "mpath_of t (tmpl_ext t) p = CHR ''/'' # y"
    using template_file_path [OF assms(1,2) p(1)] by blast
  with p(1) p2 show ?r by (auto simp: normal_file_def is_template_file_def make_template_key_name)
next
  assume ?r
  then obtain y f where y: "normal_file t D y f" "k = name_of (app_prefix t) y" "item_file i = tmpl_path t y"
    "parsed L e f = Some (templ i)" by blast
  then have "is_template_file B (tmpl_ext t) (tmpl_path t y, f)"
    using filename_with_ext [OF assms(3), of "tmpl_root t @ CHR ''/'' # y"] assms(1)
    by (auto simp: normal_file_def is_template_file_def EndsWith_def boost_laws_def)
  moreover have "key_of t (tmpl_path t y) = k"
    by (simp add: mpath_of_def y(2) flip: make_template_key_name)
  ultimately have "loaded_item B L e False t (tmpl_path t y, f) = Some (k, i)"
    using y by (cases i) (simp add: loaded_item_def normal_file_def)
  with y(1) show ?l by (auto simp: normal_file_def)
qed

text \<open>
  (C33) The templates are those on disk.  Loading succeeds; the template in the file \<open>y\<close> with the
  extension, under the root, is found by the prefix of the application and \<open>y\<close>, and is what its
  content parses to among the templates to include, which are those that a context copies into
  its own environment; and nothing else is found.
\<close>

theorem templates_are_those_on_disk:
  assumes "boost_laws B" "dir_ok (tmpl_root t) D" "stable_parse L D" "preloads t" "CHR ''/'' \<notin> set (tmpl_ext t)"
  shows "\<exists>t'. Preload B L D now t = (True, t') \<and>
    (let e = CopyIncludeTemplateTo L t' (new_env L (tmpl_root t))
     in (\<forall>y f. normal_file t D y f \<longrightarrow> Get (name_of (app_prefix t) y) t' = parsed L e f) \<and>
        (\<forall>name. Get name t' \<noteq> None \<longrightarrow> (\<exists>y f. normal_file t D y f \<and> name = name_of (app_prefix t) y)))"
proof -
  obtain items where pre: "let e = fold (\<lambda>(k, i) e. include_template L e k (templ i)) items (new_env L (tmpl_root t)) in
    Preload B L D now t = (True, t\<lparr>has_logger := True, loaded_time := now, includes_templates := items,
      tmpls := List.map_filter (loaded_item B L e False t) (entries D)\<rparr>)"
    using Preload_loads [OF assms(1-4), of now] unfolding Let_def by blast
  let ?e = "fold (\<lambda>(k, i) e. include_template L e k (templ i)) items (new_env L (tmpl_root t))"
  let ?t = "t\<lparr>has_logger := True, loaded_time := now, includes_templates := items,
      tmpls := List.map_filter (loaded_item B L ?e False t) (entries D)\<rparr>"
  have D: "distinct (map fst (entries D))" using assms(2) by (simp add: dir_ok_def)
  have items: "tmpls ?t = List.map_filter (loaded_item B L ?e False t) (entries D)" by simp
  have get: "Get name ?t = Some tm \<longleftrightarrow>
      (\<exists>y f. normal_file t D y f \<and> name = name_of (app_prefix t) y \<and> parsed L ?e f = Some tm)" for name tm
  proof -
    have "Get name ?t = Some tm \<longleftrightarrow> (\<exists>i. map_of (tmpls ?t) name = Some i \<and> templ i = tm)" by (auto simp: Get_def)
    also have "\<dots> \<longleftrightarrow> (\<exists>i :: 'a Item. (\<exists>y f. normal_file t D y f \<and> name = name_of (app_prefix t) y \<and>
        item_file i = tmpl_path t y \<and> parsed L ?e f = Some (templ i)) \<and> templ i = tm)"
      by (simp only: items map_of_map_filter_loaded [OF assms(1,2) order.refl D] normal_file_item [OF assms(1,2,5)])
    also have "\<dots> \<longleftrightarrow> (\<exists>y f. normal_file t D y f \<and> name = name_of (app_prefix t) y \<and> parsed L ?e f = Some tm)"
    proof
      assume "\<exists>y f. normal_file t D y f \<and> name = name_of (app_prefix t) y \<and> parsed L ?e f = Some tm"
      then obtain y f where "normal_file t D y f" "name = name_of (app_prefix t) y" "parsed L ?e f = Some tm" by blast
      then show "\<exists>i :: 'a Item. (\<exists>y f. normal_file t D y f \<and> name = name_of (app_prefix t) y \<and>
          item_file i = tmpl_path t y \<and> parsed L ?e f = Some (templ i)) \<and> templ i = tm"
        by (intro exI [of _ "\<lparr>templ = tm, item_file = tmpl_path t y\<rparr>"]) auto
    qed blast
    finally show ?thesis .
  qed
  have unique: "f = g" if "normal_file t D y f" "normal_file t D y g" for y f g
    using that D by (auto simp: normal_file_def dest: eq_key_imp_eq_value)
  have there: "Get (name_of (app_prefix t) y) ?t = parsed L ?e f" if "normal_file t D y f" for y f
  proof (cases "Get (name_of (app_prefix t) y) ?t")
    case None
    have "parsed L ?e f \<noteq> Some tm" for tm
      using None that get [of "name_of (app_prefix t) y" tm] by (metis option.distinct(1))
    with None show ?thesis by (metis not_None_eq)
  next
    case (Some tm)
    with get obtain z g where "normal_file t D z g" "name_of (app_prefix t) y = name_of (app_prefix t) z" "parsed L ?e g = Some tm"
      by blast
    with Some unique [of y f g] that show ?thesis by force
  qed
  have only: "\<exists>y f. normal_file t D y f \<and> name = name_of (app_prefix t) y" if "Get name ?t \<noteq> None" for name
    using that get by blast
  have env: "CopyIncludeTemplateTo L ?t (new_env L (tmpl_root t)) = ?e"
    by (simp add: CopyIncludeTemplateTo_def)
  show ?thesis
    using pre there only by (intro exI [of _ ?t]) (simp only: Let_def env, blast)
qed

section \<open>Looking for changes\<close>

text \<open>Every template is kept under the name of its file; the invariant of the maps.\<close>

definition tmpl_inv :: "'t Templates \<Rightarrow> bool" where
  "tmpl_inv t \<longleftrightarrow>
     (\<forall>(k, i) \<in> set (tmpls t). \<exists>y. k = name_of (app_prefix t) y \<and> item_file i = tmpl_path t y \<and> \<not> is_include_dir (item_file i)) \<and>
     (\<forall>(k, i) \<in> set (includes_templates t). \<exists>y. k = name_of (app_prefix t) y \<and> item_file i = tmpl_path t y \<and> is_include_dir (item_file i))"

definition loaded_files :: "'t Templates \<Rightarrow> string set" where
  "loaded_files t = (item_file \<circ> snd) ` set (tmpls t @ includes_templates t)"

definition out_of_date :: "boost_algo \<Rightarrow> tmpl_dir \<Rightarrow> 't Templates \<Rightarrow> bool" where
  "out_of_date B D t \<longleftrightarrow>
     (\<exists>p \<in> loaded_files t. case map_of (entries D) p of None \<Rightarrow> True
        | Some f \<Rightarrow> (case write_time f of None \<Rightarrow> False | Some w \<Rightarrow> loaded_time t < w)) \<or>
     (\<exists>(p, f) \<in> set (entries D). is_template_file B (tmpl_ext t) (p, f) \<and> p \<notin> loaded_files t)"

lemma loaded_item_name:
  assumes "boost_laws B" "dir_ok (tmpl_root t) D" "(p, f) \<in> set (entries D)" "loaded_item B L e inc t (p, f) = Some (k, i)"
  shows "\<exists>y. k = name_of (app_prefix t) y \<and> item_file i = tmpl_path t y \<and> is_include_dir (item_file i) = inc"
proof -
  note item = loaded_item_Some [OF assms(4)]
  then obtain y where "p = tmpl_path t y" "mpath_of t (tmpl_ext t) p = CHR ''/'' # y"
    using template_file_path [OF assms(1-3)] by blast
  with item show ?thesis by (auto simp: make_template_key_name)
qed

lemma Preload_inv:
  assumes "boost_laws B" "dir_ok (tmpl_root t) D" "stable_parse L D" "preloads t" "Preload B L D now t = (ok, t')"
  shows "ok \<and> tmpl_inv t' \<and> has_logger t' \<and> preloads t' \<and> loaded_time t' = now \<and>
    tmpl_root t' = tmpl_root t \<and> tmpl_ext t' = tmpl_ext t \<and> app_prefix t' = app_prefix t"
proof -
  obtain items e where pre: "Preload B L D now t = (True, t\<lparr>has_logger := True, loaded_time := now, includes_templates := items,
      tmpls := List.map_filter (loaded_item B L e False t) (entries D)\<rparr>)"
    and inc: "\<forall>(k, i) \<in> set items. \<exists>e f. (item_file i, f) \<in> set (entries D) \<and> loaded_item B L e True t (item_file i, f) = Some (k, i)"
    using Preload_loads [OF assms(1-4), of now] unfolding Let_def by blast
  have "set (List.map_filter (loaded_item B L e False t) es) = {x. \<exists>pf \<in> set es. loaded_item B L e False t pf = Some x}" for es
    by (induction es) (auto simp: map_filter_simps split: option.splits)
  then have normal: "\<forall>(k, i) \<in> set (List.map_filter (loaded_item B L e False t) (entries D)).
      \<exists>y. k = name_of (app_prefix t) y \<and> item_file i = tmpl_path t y \<and> \<not> is_include_dir (item_file i)"
    using loaded_item_name [OF assms(1,2)] by fastforce
  have incl: "\<forall>(k, i) \<in> set items. \<exists>y. k = name_of (app_prefix t) y \<and> item_file i = tmpl_path t y \<and> is_include_dir (item_file i)"
    using loaded_item_name [OF assms(1,2)] inc by fastforce
  from normal incl pre assms(4,5) show ?thesis by (auto simp: tmpl_inv_def preloads_def)
qed

lemma check_exists_items_iff:
  "check_exists_items D loaded m = update_none \<longleftrightarrow>
   (\<forall>i \<in> snd ` set m. \<exists>f. map_of (entries D) (item_file i) = Some f \<and> (\<forall>w. write_time f = Some w \<longrightarrow> w \<le> loaded))"
  by (induction m) (auto split: option.splits if_splits)

text \<open>A file is new, by its name, when it is not among those that were loaded.\<close>

lemma is_new_template_iff:
  assumes "boost_laws B" "dir_ok (tmpl_root t) D" "tmpl_inv t" "(p, f) \<in> set (entries D)" "is_template_file B (tmpl_ext t) (p, f)"
  shows "is_new_template t (tmpl_ext t) [] p \<longleftrightarrow> p \<notin> loaded_files t"
proof -
  obtain y where y: "p = tmpl_path t y" "mpath_of t (tmpl_ext t) p = CHR ''/'' # y"
    using template_file_path [OF assms(1,2,4,5)] .
  have new: "is_new_template t (tmpl_ext t) [] p \<longleftrightarrow>
      (if is_include_dir p then name_of (app_prefix t) y \<notin> fst ` set (includes_templates t)
       else name_of (app_prefix t) y \<notin> fst ` set (tmpls t))"
    by (simp add: is_new_template_def Let_def y(2) make_template_key_name map_of_eq_None_iff)
  have "name_of (app_prefix t) y \<in> fst ` set (tmpls t) \<longleftrightarrow> p \<in> (item_file \<circ> snd) ` set (tmpls t)"
    and "p \<in> (item_file \<circ> snd) ` set (tmpls t) \<Longrightarrow> \<not> is_include_dir p"
    and "name_of (app_prefix t) y \<in> fst ` set (includes_templates t) \<longleftrightarrow> p \<in> (item_file \<circ> snd) ` set (includes_templates t)"
    and "p \<in> (item_file \<circ> snd) ` set (includes_templates t) \<Longrightarrow> is_include_dir p"
    using assms(3) y(1) unfolding tmpl_inv_def by (force simp: image_iff)+
  then show ?thesis unfolding new loaded_files_def by (auto simp: image_Un)
qed

lemma Preload_succeeds: "dir_ok (tmpl_root t) D \<Longrightarrow> fst (Preload B L D now t)"
  by (simp add: Preload_def load_templates_def load_templates_flag_def dir_ok_def Let_def split: prod.split)

text \<open>
  (C34) A check for changes loads the templates again exactly when they are out of date: when a
  file that was loaded is gone or was written after the load, or when there is a file of a
  template that was not loaded; otherwise it leaves everything as it is.
\<close>

theorem check_reloads_when_out_of_date:
  assumes "boost_laws B" "dir_ok (tmpl_root t) D0" "stable_parse L D0" "preloads t"
    and "Preload B L D0 start t = (ok, t')" "dir_ok (tmpl_root t) D1"
  shows "CheckTemplatesUpdate B L (\<lambda>_. D1) now [t'] =
    ([if out_of_date B D1 t' then snd (Preload B L D1 now t') else t'], True)"
proof -
  note t' = Preload_inv [OF assms(1-5)]
  have on: "\<not> disabled t'" "reload B L D1 now t' = Preload B L D1 now t'" "fst (Preload B L D1 now t')"
    using t' Preload_succeeds [of t' D1 B L now] assms(6) by (simp_all add: preloads_def reload_def)
  have gone: "check_exists_template D1 t' = update_none \<longleftrightarrow>
      (\<forall>p \<in> loaded_files t'. \<exists>f. map_of (entries D1) p = Some f \<and> (\<forall>w. write_time f = Some w \<longrightarrow> w \<le> loaded_time t'))"
    by (simp add: check_exists_template_def loaded_files_def Let_def image_Un ball_Un check_exists_items_iff) blast
  have new: "check_new_template B D1 (tmpl_ext t') [] t' =
      Some (if \<exists>(p, f) \<in> set (entries D1). is_template_file B (tmpl_ext t') (p, f) \<and> p \<notin> loaded_files t' then appended else update_none)"
    using is_new_template_iff [OF assms(1), of t' D1] t' assms(6)
    by (auto simp: check_new_template_def dir_ok_def list_ex_iff)
  have out: "out_of_date B D1 t' \<longleftrightarrow> check_exists_template D1 t' \<noteq> update_none \<or>
      check_new_template B D1 (tmpl_ext t') [] t' = Some appended"
    unfolding gone new out_of_date_def by (auto split: option.splits if_splits) fastforce+
  show ?thesis
  proof (cases "check_exists_template D1 t' = update_none")
    case True
    with on out show ?thesis
      by (simp add: ReloadIfFindUpdate_def ReloadIfFindNew_def new split: prod.split)
  next
    case False
    with on out show ?thesis
      by (cases "Preload B L D1 now t'") (simp add: ReloadIfFindUpdate_def)
  qed
qed

section \<open>Concrete runs\<close>

definition demo_inja :: "(string, (string \<times> string) list) inja" where
  "demo_inja = \<lparr>new_env = (\<lambda>_. []), parse = (\<lambda>e c. (if c = ''{%'' then None else Some c, e)),
     include_template = (\<lambda>e k t. (k, t) # e)\<rparr>"

definition demo_file :: "string \<Rightarrow> tmpl_entry" where
  "demo_file c = \<lparr>is_regular = True, content = Some c, write_time = Some 3\<rparr>"

definition demo_dir :: "(string \<times> string) list \<Rightarrow> tmpl_dir" where
  "demo_dir fs = \<lparr>is_directory = True, entries = map (\<lambda>(n, c). (''/w/'' @ n, demo_file c)) fs, scan_throws = False\<rparr>"

definition demo_templates :: "string Templates" where
  "demo_templates = new_Templates ''/w'' ''/'' ''.t''"

lemma demo_facts:
  "dir_ok ''/w'' (demo_dir [(''a.t'', ''x'')])" "dir_ok ''/w'' (demo_dir [(''a.t'', ''x''), (''b.t'', ''y'')])"
  "stable_parse demo_inja D" "preloads demo_templates" "tmpl_root demo_templates = ''/w''"
  "tmpl_ext demo_templates = ''.t''" "app_prefix demo_templates = ''/''"
  by (simp_all add: dir_ok_def demo_dir_def stable_parse_def demo_inja_def preloads_def demo_templates_def new_Templates_def)

theorem templates_are_those_on_disk_witness:
  "Get ''/a'' (snd (Preload boost_classic demo_inja (demo_dir [(''a.t'', ''x'')]) 5 demo_templates)) = Some ''x''"
proof -
  have f: "normal_file demo_templates (demo_dir [(''a.t'', ''x'')]) ''a'' (demo_file ''x'')"
    by (simp add: normal_file_def demo_facts) code_simp
  have n: "name_of (app_prefix demo_templates) ''a'' = ''/a''" by (simp add: name_of_def demo_facts)
  have p: "parsed demo_inja e (demo_file ''x'') = Some ''x''" for e
    by (simp add: parsed_def demo_file_def demo_inja_def)
  obtain t' where "Preload boost_classic demo_inja (demo_dir [(''a.t'', ''x'')]) 5 demo_templates = (True, t')"
    "Get (name_of (app_prefix demo_templates) ''a'') t' = Some ''x''"
    using templates_are_those_on_disk [OF boost_classic_laws _ demo_facts(3,4), of "demo_dir [(''a.t'', ''x'')]" 5] f p
    by (auto simp: demo_facts Let_def)
  then show ?thesis by (simp add: n)
qed

theorem check_reloads_when_out_of_date_witness:
  "\<exists>t'. Preload boost_classic demo_inja (demo_dir [(''a.t'', ''x'')]) 5 demo_templates = (True, t') \<and>
    CheckTemplatesUpdate boost_classic demo_inja (\<lambda>_. demo_dir [(''a.t'', ''x''), (''b.t'', ''y'')]) 9 [t'] =
      ([snd (Preload boost_classic demo_inja (demo_dir [(''a.t'', ''x''), (''b.t'', ''y'')]) 9 t')], True)"
proof -
  obtain ok t' where t': "Preload boost_classic demo_inja (demo_dir [(''a.t'', ''x'')]) 5 demo_templates = (ok, t')"
    by (cases "Preload boost_classic demo_inja (demo_dir [(''a.t'', ''x'')]) 5 demo_templates") auto
  note check = check_reloads_when_out_of_date [OF boost_classic_laws _ demo_facts(3,4) t', unfolded demo_facts(5), OF demo_facts(1,2)]
  have run: "Preload boost_classic demo_inja (demo_dir [(''a.t'', ''x'')]) 5 demo_templates =
      (True, demo_templates\<lparr>has_logger := True, loaded_time := 5, tmpls := [(''/a'', \<lparr>templ = ''x'', item_file = ''/w/a.t''\<rparr>)]\<rparr>)"
    by code_simp
  have "out_of_date boost_classic (demo_dir [(''a.t'', ''x''), (''b.t'', ''y'')])
      (demo_templates\<lparr>has_logger := True, loaded_time := 5, tmpls := [(''/a'', \<lparr>templ = ''x'', item_file = ''/w/a.t''\<rparr>)]\<rparr>)"
    by code_simp
  with check t' run show ?thesis by auto
qed

section \<open>Where the templates differ from what they mean to do\<close>

text \<open>A template that does not parse is taken for a new one at every check, so everything is
  loaded again each time.\<close>

lemma unparsable_template_reloads_always:
  assumes "boost_laws B" "dir_ok (tmpl_root t) D" "stable_parse L D" "preloads t" "CHR ''/'' \<notin> set (tmpl_ext t)"
    and "normal_file t D y f" "\<And>e. parsed L e f = None" "Preload B L D now t = (ok, t')"
  shows "out_of_date B D t'"
proof -
  obtain items e where pre: "Preload B L D now t = (True, t\<lparr>has_logger := True, loaded_time := now, includes_templates := items,
      tmpls := List.map_filter (loaded_item B L e False t) (entries D)\<rparr>)"
    and inc: "\<forall>(k, i) \<in> set items. \<exists>e f. (item_file i, f) \<in> set (entries D) \<and> loaded_item B L e True t (item_file i, f) = Some (k, i)"
    using Preload_loads [OF assms(1-4), of now] unfolding Let_def by blast
  have D: "distinct (map fst (entries D))" using assms(2) by (simp add: dir_ok_def)
  have here: "(tmpl_path t y, f) \<in> set (entries D)" using assms(6) by (simp add: normal_file_def)
  have no: "loaded_item B L e' b t (tmpl_path t y, g) \<noteq> Some ki" if "(tmpl_path t y, g) \<in> set (entries D)" for e' b g ki
    using assms(7) eq_key_imp_eq_value [OF D here that] by (simp add: loaded_item_def)
  have "set (List.map_filter (loaded_item B L e False t) es) = {x. \<exists>pf \<in> set es. loaded_item B L e False t pf = Some x}" for es
    by (induction es) (auto simp: map_filter_simps split: option.splits)
  then have "item_file i \<noteq> tmpl_path t y" if "(k, i) \<in> set (List.map_filter (loaded_item B L e False t) (entries D))" for k i
    using that no loaded_item_Some by fastforce
  moreover have "item_file i \<noteq> tmpl_path t y" if "(k, i) \<in> set items" for k i
    using that inc no by fastforce
  ultimately have "tmpl_path t y \<notin> loaded_files t'"
    using pre assms(8) by (auto simp: loaded_files_def) (metis, metis)
  moreover have "is_template_file B (tmpl_ext t) (tmpl_path t y, f)"
    using filename_with_ext [OF assms(5), of "tmpl_root t @ CHR ''/'' # y"] assms(1,6)
    by (auto simp: normal_file_def is_template_file_def EndsWith_def boost_laws_def)
  moreover have "tmpl_ext t' = tmpl_ext t" using pre assms(8) by auto
  ultimately show ?thesis using here by (auto simp: out_of_date_def)
qed

text \<open>A file that is written in the second of the load is not seen to have changed.\<close>

lemma same_second_change_missed:
  "check_exists_items D now [(k, i)] = update_none"
  if "map_of (entries D) (item_file i) = Some f" "write_time f = Some now"
  using that by simp

text \<open>Under a root with a directory \<open>i\<close> in its path every template is one to include, and no page is found.\<close>

lemma contains_append: "contains s pat \<Longrightarrow> contains (s @ r) pat"
  using find_sub_Some [of pat s] find_sub_None [of pat "s @ r"] by (force simp: contains_def)

lemma root_with_include_dir: "contains (tmpl_root t) ''/i/'' \<Longrightarrow> \<not> normal_file t D y f"
  by (simp add: normal_file_def is_include_dir_def contains_append)

text \<open>The root directory of the file system is taken for no directory.\<close>

lemma root_slash_undesired: "\<not> preloads (TmplInitPathes ''/'' prefix ext t)"
  by (simp add: preloads_def TmplInitPathes_def)

text \<open>A scan that fails leaves an application without the pages it had.\<close>

lemma include_scan_keeps_tmpls:
  "tmpls (snd (snd (fold (load_entry B L D ext key_ext for_include) es (c, e, t)))) = tmpls t"
proof (induction es arbitrary: c e t)
  case (Cons pf es)
  have "tmpls (snd (snd (load_entry B L D ext key_ext for_include pf (c, e, t)))) = tmpls t"
    by (cases pf; cases c) (auto simp: load_entry_def try_load_template_def Let_def split: option.splits prod.splits)
  then show ?case using Cons by (cases "load_entry B L D ext key_ext for_include pf (c, e, t)") simp
qed simp

lemma failed_scan_loses_pages:
  assumes "preloads t" "is_directory D" "scan_throws D"
  shows "fst (Preload B L D now t) = False \<and> Get name (snd (Preload B L D now t)) = None"
proof -
  let ?t = "t\<lparr>has_logger := True, tmpls := [], includes_templates := []\<rparr>"
  let ?r = "fold (load_entry B L D (tmpl_ext t) [] for_include) (entries D) ((0, 0), new_env L (tmpl_root t), ?t)"
  have "Preload B L D now t = (False, snd (snd ?r))"
    using assms by (cases ?r) (simp add: preloads_def Preload_def load_templates_def load_templates_flag_def)
  with include_scan_keeps_tmpls [of B L D "tmpl_ext t" "[]" "entries D" "(0, 0)" "new_env L (tmpl_root t)" ?t] show ?thesis
    by (simp add: Get_def)
qed

end
