(* ===== verification/Server.thy ===== *)
theory Server
  imports Application
begin

text \<open>
  \<^verbatim>\<open>src/server.cpp\<close> and \<^verbatim>\<open>src/server_engine.cpp\<close>: the pool of I/O contexts, the acceptor, the
  applications of a server with the handlers that are added by URL, and the timer of the idle
  functions.  Timer, acceptor and clock are their events: a wait on the timer is outstanding, a
  wait that was cancelled still has its handler to run, and time passes while a function runs.
  Threads, signals, the settings of SSL and messages to the log are left out.
\<close>

section \<open>The pool of I/O contexts\<close>

record IOContextPool =
  pool_stopping :: bool
  pool_size :: nat
  next_index :: nat

definition new_IOContextPool :: "nat \<Rightarrow> nat \<Rightarrow> IOContextPool" where
  "new_IOContextPool hardware_concurrency n =
     \<lparr>pool_stopping = False,
      pool_size = (if n = 0 then if hardware_concurrency > 0 then hardware_concurrency else 1 else n),
      next_index = 0\<rparr>"

definition GetIOContextAndIndex :: "IOContextPool \<Rightarrow> nat \<times> IOContextPool" where
  "GetIOContextAndIndex p =
     (next_index p, p\<lparr>next_index := (if next_index p + 1 \<ge> pool_size p then 0 else next_index p + 1)\<rparr>)"

definition PoolStop :: "IOContextPool \<Rightarrow> IOContextPool" where
  "PoolStop p = (if pool_stopping p then p else p\<lparr>pool_stopping := True\<rparr>)"

section \<open>The server\<close>

record 'f IdleFunctionStatus =
  interval_seconds :: int
  next_timepoint :: int
  idle_func :: "'f option"

definition blank_status :: "'f IdleFunctionStatus" where
  "blank_status = \<lparr>interval_seconds = 0, next_timepoint = 0, idle_func = None\<rparr>"

definition new_status :: "int \<Rightarrow> int \<Rightarrow> 'f \<Rightarrow> 'f IdleFunctionStatus" where
  "new_status clock interval f = \<lparr>interval_seconds = interval, next_timepoint = clock + interval, idle_func = Some f\<rparr>"

text \<open>
  \<open>waiting_for\<close> is the outstanding wait with its seconds, \<open>cancelled\<close> counts the handlers of
  cancelled waits that have still to run; \<open>accepting\<close> is the context of the connection that the
  acceptor waits for, \<open>started\<close> are the contexts of those that were started.
\<close>

record ('h, 'r, 'i, 'f) Server =
  pool :: IOContextPool
  mgr :: "('h, 'r, 'i) ApplicationMgr"
  srv_running :: bool
  srv_stopping :: bool
  idle_interval_seconds :: int
  idle_running :: bool
  waiting_for :: "int option"
  cancelled :: nat
  detect_templates :: bool
  detect_status :: "'f IdleFunctionStatus"
  idle_functions :: "'f IdleFunctionStatus list"
  accepting :: "nat option"
  started :: "nat list"

text \<open>The constructor takes a context each for the acceptor, the signals and the timer.\<close>

definition new_Server :: "nat \<Rightarrow> nat \<Rightarrow> ('h, 'r, 'i) ApplicationMgr \<Rightarrow> ('h, 'r, 'i, 'f) Server" where
  "new_Server hardware threads m =
     \<lparr>pool = snd (GetIOContextAndIndex (snd (GetIOContextAndIndex (snd (GetIOContextAndIndex
        (new_IOContextPool hardware threads)))))), mgr = m, srv_running = False, srv_stopping = False,
      idle_interval_seconds = 10, idle_running = False, waiting_for = None, cancelled = 0,
      detect_templates = False, detect_status = blank_status, idle_functions = [],
      accepting = None, started = []\<rparr>"

section \<open>Applications and handlers\<close>

definition make_default_app_if_empty :: "boost_algo \<Rightarrow> (string \<Rightarrow> ('h, 'r, 'i) Application) \<Rightarrow>
    ('h, 'r, 'i, 'f) Server \<Rightarrow> ('h, 'r, 'i, 'f) Server" where
  "make_default_app_if_empty B new_app s = (if apps (mgr s) = [] then s\<lparr>mgr := CreateDefault B new_app [] (mgr s)\<rparr> else s)"

definition PrepareApp :: "boost_algo \<Rightarrow> (string \<Rightarrow> ('h, 'r, 'i) Application) \<Rightarrow> string \<Rightarrow> ('h, 'r, 'i, 'f) Server \<Rightarrow>
    ('h, 'r, 'i) Application option \<times> ('h, 'r, 'i, 'f) Server" where
  "PrepareApp B new_app url s =
     (let s1 = make_default_app_if_empty B new_app s in (FindByURL B url (mgr s1), s1))"

definition DefaultApp :: "boost_algo \<Rightarrow> (string \<Rightarrow> ('h, 'r, 'i) Application) \<Rightarrow> string \<Rightarrow> ('h, 'r, 'i, 'f) Server \<Rightarrow>
    ('h, 'r, 'i) Application option \<times> ('h, 'r, 'i, 'f) Server" where
  "DefaultApp B new_app name s =
     (case FindByURL B ''/'' (mgr s) of
        Some a \<Rightarrow> (Some a, s)
      | None \<Rightarrow> (let s1 = s\<lparr>mgr := CreateDefault B new_app name (mgr s)\<rparr> in (FindByURL B ''/'' (mgr s1), s1)))"

definition SrvMount :: "boost_algo \<Rightarrow> ('h, 'r, 'i) Application \<Rightarrow> ('h, 'r, 'i, 'f) Server \<Rightarrow>
    bool \<times> ('h, 'r, 'i, 'f) Server" where
  "SrvMount B app s = (let (m, ok) = MountApplication B app (mgr s) in (ok, s\<lparr>mgr := m\<rparr>))"

text \<open>\<^verbatim>\<open>substr\<close> throws when the root is longer than the path.\<close>

definition extract_app_path :: "string \<Rightarrow> string \<Rightarrow> string option" where
  "extract_app_path app_root path = (if length app_root \<le> length path then Some (drop (length app_root) path) else None)"

text \<open>The application that \<open>FindByURL\<close> points to is changed where it is.\<close>

fun change_first_root :: "boost_algo \<Rightarrow> string \<Rightarrow> 'a \<Rightarrow> (string \<times> 'a) list \<Rightarrow> (string \<times> 'a) list" where
  "change_first_root B url x [] = []"
| "change_first_root B url x ((k, a) # m) =
     (if iStartsWith B url k then (k, x) # m else (k, a) # change_first_root B url x m)"

definition change_found :: "boost_algo \<Rightarrow> string \<Rightarrow> ('h, 'r, 'i) Application \<Rightarrow> ('h, 'r, 'i) ApplicationMgr \<Rightarrow>
    ('h, 'r, 'i) ApplicationMgr" where
  "change_found B url x m =
     (let above = omap_lower_bound (IgnoreCaseCompareDESC B) (apps m) url;
          below = take (length (apps m) - length above) (apps m)
      in if first_root B url above = None then m\<lparr>abortive := map_option (\<lambda>_. x) (abortive m)\<rparr>
         else m\<lparr>apps := below @ change_first_root B url x above\<rparr>)"

fun route_path :: "router \<Rightarrow> string" where
  "route_path (router_equals u) = u" | "route_path (router_starts u) = u" | "route_path (router_regex u) = u"

fun with_path :: "router \<Rightarrow> string \<Rightarrow> router" where
  "with_path (router_equals u) p = router_equals p"
| "with_path (router_starts u) p = router_starts p"
| "with_path (router_regex u) p = router_regex p"

text \<open>\<open>add\<close> is the overload of \<open>AddHandler\<close> of an application; \<open>None\<close> is the exception.\<close>

definition ServerAddHandler :: "boost_algo \<Rightarrow> (string \<Rightarrow> ('h, 'r, 'i) Application) \<Rightarrow>
    (router \<Rightarrow> ('h, 'r, 'i) Application \<Rightarrow> ('h, 'r, 'i) Application \<times> bool) \<Rightarrow> router \<Rightarrow>
    ('h, 'r, 'i, 'f) Server \<Rightarrow> (bool \<times> ('h, 'r, 'i, 'f) Server) option" where
  "ServerAddHandler B new_app add r s =
     (let (app, s1) = PrepareApp B new_app (route_path r) s
      in case app of
           None \<Rightarrow> Some (False, s1)
         | Some a \<Rightarrow>
             (case extract_app_path (root_url a) (route_path r) of
                None \<Rightarrow> None
              | Some p \<Rightarrow>
                  (let (a', ok) = add (with_path r p) a
                   in Some (ok, s1\<lparr>mgr := change_found B (route_path r) a' (mgr s1)\<rparr>))))"

definition SrvAddHandler :: "boost_algo \<Rightarrow> 'r regex_lib \<Rightarrow> (string \<Rightarrow> ('h, 'r, 'i) Application) \<Rightarrow> HandlerMethod \<Rightarrow>
    router \<Rightarrow> 'h \<Rightarrow> ('h, 'r, 'i, 'f) Server \<Rightarrow> (bool \<times> ('h, 'r, 'i, 'f) Server) option" where
  "SrvAddHandler B R new_app m r h = ServerAddHandler B new_app (\<lambda>r. AddHandler B R m r h []) r"

definition SrvAddHandlers :: "boost_algo \<Rightarrow> 'r regex_lib \<Rightarrow> (string \<Rightarrow> ('h, 'r, 'i) Application) \<Rightarrow> HandlerMethods \<Rightarrow>
    router \<Rightarrow> 'h \<Rightarrow> ('h, 'r, 'i, 'f) Server \<Rightarrow> (bool \<times> ('h, 'r, 'i, 'f) Server) option" where
  "SrvAddHandlers B R new_app ms r h = ServerAddHandler B new_app (\<lambda>r. AddHandlers B R ms r h []) r"

text \<open>Several routes for one handler: up to the first that fails.\<close>

fun SrvAddRoutes :: "boost_algo \<Rightarrow> 'r regex_lib \<Rightarrow> (string \<Rightarrow> ('h, 'r, 'i) Application) \<Rightarrow> HandlerMethod \<Rightarrow>
    router list \<Rightarrow> 'h \<Rightarrow> ('h, 'r, 'i, 'f) Server \<Rightarrow> (bool \<times> ('h, 'r, 'i, 'f) Server) option" where
  "SrvAddRoutes B R new_app m [] h s = Some (True, s)"
| "SrvAddRoutes B R new_app m (r # rs) h s =
     (case SrvAddHandler B R new_app m r h s of
        None \<Rightarrow> None
      | Some (False, s1) \<Rightarrow> Some (False, s1)
      | Some (True, s1) \<Rightarrow> SrvAddRoutes B R new_app m rs h s1)"

definition SrvAddEqualsRouter where
  "SrvAddEqualsRouter B R new_app m urls = SrvAddRoutes B R new_app m (map router_equals urls)"
definition SrvAddStartsRouter where
  "SrvAddStartsRouter B R new_app m urls = SrvAddRoutes B R new_app m (map router_starts urls)"
definition SrvAddRegexRouter where
  "SrvAddRegexRouter B R new_app m urls = SrvAddRoutes B R new_app m (map router_regex urls)"

section \<open>The idle timer\<close>

definition AppendIdleFunction :: "int \<Rightarrow> int \<Rightarrow> 'f \<Rightarrow> ('h, 'r, 'i, 'f) Server \<Rightarrow> ('h, 'r, 'i, 'f) Server" where
  "AppendIdleFunction clock interval f s = s\<lparr>idle_functions := idle_functions s @ [new_status clock interval f]\<rparr>"

text \<open>Setting the time cancels the outstanding wait; \<open>fails\<close> tells that it cannot be set.\<close>

definition cancel_wait :: "('h, 'r, 'i, 'f) Server \<Rightarrow> ('h, 'r, 'i, 'f) Server" where
  "cancel_wait s = (if waiting_for s = None then s else s\<lparr>waiting_for := None, cancelled := cancelled s + 1\<rparr>)"

definition start_idle_timer :: "bool \<Rightarrow> ('h, 'r, 'i, 'f) Server \<Rightarrow> ('h, 'r, 'i, 'f) Server" where
  "start_idle_timer fails s =
     (if \<not> idle_running s \<or> fails then s
      else (cancel_wait s)\<lparr>waiting_for := Some (idle_interval_seconds s)\<rparr>)"

definition stop_idle_timer :: "('h, 'r, 'i, 'f) Server \<Rightarrow> ('h, 'r, 'i, 'f) Server" where
  "stop_idle_timer s = cancel_wait s"

definition PauseIdleTimer :: "('h, 'r, 'i, 'f) Server \<Rightarrow> ('h, 'r, 'i, 'f) Server" where
  "PauseIdleTimer s = (if idle_running s then s\<lparr>idle_running := False\<rparr> else s)"

definition ResumeIdleTimer :: "bool \<Rightarrow> ('h, 'r, 'i, 'f) Server \<Rightarrow> ('h, 'r, 'i, 'f) Server" where
  "ResumeIdleTimer fails s = (if idle_running s then s else start_idle_timer fails (s\<lparr>idle_running := True\<rparr>))"

definition EnableDetectTemplates :: "bool \<Rightarrow> int \<Rightarrow> int \<Rightarrow> ('h, 'r, 'i, 'f) Server \<Rightarrow> ('h, 'r, 'i, 'f) Server" where
  "EnableDetectTemplates fails clock interval s =
     (let s1 = s\<lparr>detect_status := (detect_status s)\<lparr>interval_seconds := interval, next_timepoint := clock + interval\<rparr>,
                 detect_templates := True\<rparr>
      in if srv_running s1 \<and> \<not> idle_running s1 then ResumeIdleTimer fails s1 else s1)"

definition DisableDetectTemplates :: "('h, 'r, 'i, 'f) Server \<Rightarrow> ('h, 'r, 'i, 'f) Server" where
  "DisableDetectTemplates s = s\<lparr>detect_templates := False\<rparr>"

text \<open>
  \<open>took\<close> is how long a function runs; \<open>clock\<close> is the time the caller read, and \<open>t\<close> the time it
  is.  The distance is cast to 32 bits.
\<close>

definition call_idle_function_if_timeout :: "('f option \<Rightarrow> int) \<Rightarrow> int \<Rightarrow> 'f IdleFunctionStatus \<Rightarrow> int \<Rightarrow>
    int \<times> 'f IdleFunctionStatus \<times> int \<times> 'f option list" where
  "call_idle_function_if_timeout took clock st t =
     (let distance_seconds = sint (word_of_int (next_timepoint st - clock) :: u32)
      in if distance_seconds \<le> 0
         then let t' = t + took (idle_func st)
              in (interval_seconds st, st\<lparr>next_timepoint := t' + interval_seconds st\<rparr>, t', [idle_func st])
         else (distance_seconds, st, t, []))"

definition update_min_distance_seconds :: "int \<Rightarrow> int \<Rightarrow> int" where
  "update_min_distance_seconds m a = (if m \<le> 0 \<or> m > a then a else m)"

fun call_idle_functions :: "('f option \<Rightarrow> int) \<Rightarrow> int \<Rightarrow> 'f IdleFunctionStatus list \<Rightarrow> int \<Rightarrow> int \<Rightarrow>
    int \<times> 'f IdleFunctionStatus list \<times> int \<times> 'f option list" where
  "call_idle_functions took clock [] m t = (m, [], t, [])"
| "call_idle_functions took clock (st # sts) m t =
     (let (d, st', t', fs) = call_idle_function_if_timeout took clock st t;
          (m', sts', t'', gs) = call_idle_functions took clock sts (update_min_distance_seconds m d) t'
      in (m', st' # sts', t'', fs @ gs))"

definition detect_templates_interval_seconds :: "bool \<Rightarrow> int" where
  "detect_templates_interval_seconds release = (if release then 15 * 60 else 15)"

text \<open>What the check of the templates is set to when it is looked at.\<close>

definition ready_detect :: "bool \<Rightarrow> 'f \<Rightarrow> 'f IdleFunctionStatus \<Rightarrow> 'f IdleFunctionStatus" where
  "ready_detect release check st =
     (let st1 = (if idle_func st = None then st\<lparr>idle_func := Some check\<rparr> else st)
      in if interval_seconds st1 \<le> 0 then st1\<lparr>interval_seconds := detect_templates_interval_seconds release\<rparr> else st1)"

text \<open>The handler of a wait that came to its end at the time \<open>clock\<close>.\<close>

definition idle_timer_fired :: "bool \<Rightarrow> 'f \<Rightarrow> ('f option \<Rightarrow> int) \<Rightarrow> bool \<Rightarrow> int \<Rightarrow> ('h, 'r, 'i, 'f) Server \<Rightarrow>
    ('h, 'r, 'i, 'f) Server \<times> 'f option list" where
  "idle_timer_fired release check took fails clock s =
     (let s0 = s\<lparr>waiting_for := None\<rparr>;
          st = ready_detect release check (detect_status s0);
          (m, st', t, fs) = (if detect_templates s0
             then let (d, st', t, fs) = call_idle_function_if_timeout took clock st clock
                  in (update_min_distance_seconds (- 1) d, st', t, fs)
             else (- 1, detect_status s0, clock, []));
          (m', sts, t', gs) = call_idle_functions took clock (idle_functions s0) m t;
          s1 = s0\<lparr>detect_status := st', idle_functions := sts\<rparr>
      in (if m' \<le> 0 then s1\<lparr>idle_running := False\<rparr>
          else start_idle_timer fails (s1\<lparr>idle_interval_seconds := m'\<rparr>), fs @ gs))"

text \<open>The handler of a wait that was cancelled, or that failed otherwise.\<close>

definition idle_timer_cancelled :: "('h, 'r, 'i, 'f) Server \<Rightarrow> ('h, 'r, 'i, 'f) Server" where
  "idle_timer_cancelled s = s\<lparr>cancelled := cancelled s - 1, idle_running := False\<rparr>"

definition idle_timer_failed :: "('h, 'r, 'i, 'f) Server \<Rightarrow> ('h, 'r, 'i, 'f) Server" where
  "idle_timer_failed s = s\<lparr>waiting_for := None, idle_running := False\<rparr>"

section \<open>Running\<close>

definition do_accept :: "('h, 'r, 'i, 'f) Server \<Rightarrow> ('h, 'r, 'i, 'f) Server" where
  "do_accept s = (let (i, p) = GetIOContextAndIndex (pool s) in s\<lparr>pool := p, accepting := Some i\<rparr>)"

definition start_accept :: "boost_algo \<Rightarrow> (string \<Rightarrow> ('h, 'r, 'i) Application) \<Rightarrow> ('h, 'r, 'i, 'f) Server \<Rightarrow>
    ('h, 'r, 'i, 'f) Server" where
  "start_accept B new_app s = do_accept (make_default_app_if_empty B new_app s)"

definition on_accepted :: "bool \<Rightarrow> ('h, 'r, 'i, 'f) Server \<Rightarrow> ('h, 'r, 'i, 'f) Server" where
  "on_accepted error s =
     (case accepting s of
        None \<Rightarrow> s
      | Some i \<Rightarrow>
          (let s1 = s\<lparr>accepting := None\<rparr>
           in if error then if srv_stopping s1 then s1 else do_accept s1
              else do_accept (s1\<lparr>started := started s1 @ [i]\<rparr>)))"

definition SrvRun :: "boost_algo \<Rightarrow> (string \<Rightarrow> ('h, 'r, 'i) Application) \<Rightarrow> bool \<Rightarrow> ('h, 'r, 'i, 'f) Server \<Rightarrow>
    ('h, 'r, 'i, 'f) Server" where
  "SrvRun B new_app fails s =
     (if srv_running s then s
      else start_accept B new_app (start_idle_timer fails
        (s\<lparr>srv_running := True, mgr := MgrMount (mgr s), idle_running := True\<rparr>)))"

definition SrvStop :: "('h, 'r, 'i, 'f) Server \<Rightarrow> ('h, 'r, 'i, 'f) Server" where
  "SrvStop s = (let s1 = stop_idle_timer (s\<lparr>srv_stopping := True\<rparr>) in s1\<lparr>pool := PoolStop (pool s1)\<rparr>)"

end
