(* ===== verification/ServerProofs.thy ===== *)
theory ServerProofs
  imports Server ApplicationProofs
begin

text \<open>
  The server: idle functions are called when they are due, connections go round the contexts,
  and a handler that was added by its URL is the one that requests for the URL get.
\<close>

section \<open>Idle functions\<close>

definition due :: "int \<Rightarrow> 'f IdleFunctionStatus \<Rightarrow> bool" where
  "due clock st \<longleftrightarrow> next_timepoint st \<le> clock"

text \<open>Times that are less than 68 years away, which a distance of 32 bits can hold.\<close>

definition status_ok :: "int \<Rightarrow> 'f IdleFunctionStatus \<Rightarrow> bool" where
  "status_ok clock st \<longleftrightarrow> 0 < interval_seconds st \<and> \<bar>next_timepoint st - clock\<bar> < 2 ^ 31"

lemma distance_exact: "status_ok clock st \<Longrightarrow> sint (word_of_int (next_timepoint st - clock) :: u32) = next_timepoint st - clock"
  by (rule sint_word_of_int_32) (auto simp: status_ok_def)

lemma call_one:
  assumes "status_ok clock st"
  shows "call_idle_function_if_timeout took clock st t =
    (if due clock st then (interval_seconds st, st\<lparr>next_timepoint := t + took (idle_func st) + interval_seconds st\<rparr>,
       t + took (idle_func st), [idle_func st])
     else (next_timepoint st - clock, st, t, []))"
  unfolding call_idle_function_if_timeout_def distance_exact [OF assms] by (simp add: due_def Let_def)

text \<open>What one pass over the functions does: the due ones are called, in their order.\<close>

lemma call_all:
  assumes "list_all (status_ok clock) sts" "\<And>f. 0 \<le> took f" "clock \<le> t" "0 \<le> m \<or> m = - 1"
    and "call_idle_functions took clock sts m t = (m', sts', t', fs)"
  shows "fs = map idle_func (filter (due clock) sts) \<and>
    list_all (\<lambda>st. clock < next_timepoint st) sts' \<and>
    list_all2 (\<lambda>st st'. idle_func st' = idle_func st \<and> interval_seconds st' = interval_seconds st \<and>
      (if due clock st then clock + interval_seconds st \<le> next_timepoint st' else st' = st)) sts sts' \<and>
    (if sts = [] then m' = m else 0 < m') \<and>
    ((\<forall>f. took f = 0) \<and> t = clock \<longrightarrow> t' = clock \<and>
       (\<forall>st' \<in> set sts'. m' \<le> next_timepoint st' - clock) \<and> (0 < m \<longrightarrow> m' \<le> m) \<and>
       (sts \<noteq> [] \<longrightarrow> m' = m \<or> (\<exists>st' \<in> set sts'. m' = next_timepoint st' - clock)))"
  using assms
proof (induction sts arbitrary: m t m' sts' t' fs)
  case (Cons st sts)
  let ?d = "if due clock st then interval_seconds st else next_timepoint st - clock"
  let ?t = "if due clock st then t + took (idle_func st) else t"
  let ?st = "if due clock st then st\<lparr>next_timepoint := ?t + interval_seconds st\<rparr> else st"
  have ok: "status_ok clock st" "list_all (status_ok clock) sts" using Cons.prems(1) by simp_all
  then have d: "0 < ?d" by (auto simp: status_ok_def due_def)
  then have m: "0 < update_min_distance_seconds m ?d" "update_min_distance_seconds m ?d \<le> ?d"
    "0 < m \<Longrightarrow> update_min_distance_seconds m ?d \<le> m" "update_min_distance_seconds m ?d \<in> {m, ?d}"
    by (auto simp: update_min_distance_seconds_def)
  obtain mm rest tt gs where r: "call_idle_functions took clock sts (update_min_distance_seconds m ?d) ?t = (mm, rest, tt, gs)"
    by (metis prod_cases4)
  have t: "clock \<le> ?t" using Cons.prems(2,3) by (simp add: add_increasing2)
  note IH = Cons.IH [OF ok(2) Cons.prems(2) t _ r]
  have res: "m' = mm" "sts' = ?st # rest" "t' = tt" "fs = (if due clock st then [idle_func st] else []) @ gs"
    using Cons.prems(5) r by (auto simp: call_one [OF ok(1)] split: if_splits)
  have "clock < next_timepoint ?st" using ok(1) t by (auto simp: status_ok_def due_def)
  moreover have "0 < mm" using IH m(1) by (auto split: if_splits)
  ultimately show ?case
    using IH m t unfolding res by (auto split: if_splits)
qed simp

text \<open>The functions that the timer looks at, the check of the templates first when it is on.\<close>

definition statuses :: "bool \<Rightarrow> 'f \<Rightarrow> ('h, 'r, 'i, 'f) Server \<Rightarrow> 'f IdleFunctionStatus list" where
  "statuses release check s =
     (if detect_templates s then [ready_detect release check (detect_status s)] else []) @ idle_functions s"

lemma idle_timer_fired_statuses:
  assumes "call_idle_functions took clock (statuses release check s) (- 1) clock = (m, sts, t, fs)"
  shows "\<exists>s1. idle_timer_fired release check took fails clock s =
      (if m \<le> 0 then s1\<lparr>idle_running := False\<rparr> else start_idle_timer fails (s1\<lparr>idle_interval_seconds := m\<rparr>), fs) \<and>
    waiting_for s1 = None \<and> idle_running s1 = idle_running s \<and> detect_templates s1 = detect_templates s \<and>
    (if detect_templates s then [detect_status s1] else []) @ idle_functions s1 = sts"
  using assms
  by (cases "detect_templates s")
    (auto simp: idle_timer_fired_def statuses_def Let_def split: prod.splits)

lemma ready_detect_ready: "idle_func st \<noteq> None \<Longrightarrow> 0 < interval_seconds st \<Longrightarrow> ready_detect release check st = st"
  by (auto simp: ready_detect_def)

text \<open>
  (C32) Idle functions are called when they are due.  When the timer fires, it calls exactly the
  functions whose time has come, in their order, and none of them is due then; if there is any
  function, the timer waits again, for at least a second, and otherwise it stops.  When the
  functions take no time, it waits until the first of their next times, so that a function is
  called exactly at its time.
\<close>

theorem idle_functions_called_when_due:
  assumes "list_all (status_ok clock) (statuses release check s)" "\<forall>f. 0 \<le> took f" "idle_running s"
    and "idle_timer_fired release check took False clock s = (s', fs)"
  shows "fs = map idle_func (filter (due clock) (statuses release check s)) \<and>
    list_all (\<lambda>st. \<not> due clock st) (statuses release check s') \<and>
    (if statuses release check s = [] then waiting_for s' = None \<and> \<not> idle_running s'
     else \<exists>d. waiting_for s' = Some d \<and> 0 < d \<and> idle_running s' \<and>
       ((\<forall>f. took f = 0) \<longrightarrow> (\<forall>st \<in> set (statuses release check s'). clock + d \<le> next_timepoint st) \<and>
          (\<exists>st \<in> set (statuses release check s'). clock + d = next_timepoint st)))"
proof -
  obtain m sts t gs where r: "call_idle_functions took clock (statuses release check s) (- 1) clock = (m, sts, t, gs)"
    by (metis prod_cases4)
  have C: "gs = map idle_func (filter (due clock) (statuses release check s))"
    "list_all (\<lambda>st. clock < next_timepoint st) sts"
    "list_all2 (\<lambda>st st'. idle_func st' = idle_func st \<and> interval_seconds st' = interval_seconds st) (statuses release check s) sts"
    "if statuses release check s = [] then m = - 1 else 0 < m"
    "(\<forall>f. took f = 0) \<Longrightarrow> (\<forall>st' \<in> set sts. m \<le> next_timepoint st' - clock) \<and>
       (statuses release check s \<noteq> [] \<longrightarrow> m = - 1 \<or> (\<exists>st' \<in> set sts. m = next_timepoint st' - clock))"
    using call_all [OF assms(1) _ order.refl _ r] assms(2) by (auto elim!: list_all2_mono)
  obtain s1 where s1: "idle_timer_fired release check took False clock s =
      (if m \<le> 0 then s1\<lparr>idle_running := False\<rparr> else start_idle_timer False (s1\<lparr>idle_interval_seconds := m\<rparr>), gs)"
    "waiting_for s1 = None" "idle_running s1" "detect_templates s1 = detect_templates s"
    "(if detect_templates s then [detect_status s1] else []) @ idle_functions s1 = sts"
    using idle_timer_fired_statuses [OF r, of False] assms(3) by auto
  have "idle_func (ready_detect release check st) \<noteq> None" for st
    by (simp add: ready_detect_def Let_def)
  then have ready: "ready_detect release check (detect_status s1) = detect_status s1" if "detect_templates s"
    using that C(3) s1(5) assms(1) by (intro ready_detect_ready) (auto simp: statuses_def status_ok_def)
  have s': "s' = (if m \<le> 0 then s1\<lparr>idle_running := False\<rparr> else s1\<lparr>idle_interval_seconds := m, waiting_for := Some m\<rparr>)" "fs = gs"
    using s1 assms(4) by (auto simp: start_idle_timer_def cancel_wait_def)
  then have sts: "statuses release check s' = sts"
    using ready s1(4,5) by (auto simp: statuses_def)
  show ?thesis
  proof (cases "statuses release check s = []")
    case True
    with C(4) have "m = - 1" by simp
    with True C(1,3) s' s1(2) sts show ?thesis by simp
  next
    case False
    with C(4) have "0 < m" by simp
    then have w: "waiting_for s' = Some m" "idle_running s'" using s' s1(3) by simp_all
    have "list_all (\<lambda>st. \<not> due clock st) sts" using C(2) by (fastforce simp: due_def list_all_iff)
    moreover have "(\<forall>st \<in> set sts. clock + m \<le> next_timepoint st) \<and> (\<exists>st \<in> set sts. clock + m = next_timepoint st)"
      if "\<forall>f. took f = 0"
      using C(5) [OF that] False \<open>0 < m\<close> by (auto simp: algebra_simps)
    ultimately show ?thesis
      unfolding if_not_P [OF False] sts s'(2) using C(1) w \<open>0 < m\<close> by blast
  qed
qed

section \<open>Handlers by their URL\<close>

lemma iStartsWith_upper_eq: "boost_laws B \<Longrightarrow> upper u = upper v \<Longrightarrow> iStartsWith B u k \<longleftrightarrow> iStartsWith B v k"
  by (simp add: iStartsWith_upper)

lemma before_lower_bound:
  assumes "boost_laws B" "IgnoreCaseCompareDESC B k url"
  shows "\<not> iStartsWith B url k"
  using first_root_skip [OF assms(1), of url "[(k, ())]"] assms(2) by (auto simp: omap_lower_bound_def split: if_splits)

lemma first_root_change:
  assumes "first_root B url m = Some a"
  shows "\<exists>xs k ys. m = xs @ (k, a) # ys \<and> iStartsWith B url k \<and> (\<forall>(k', a') \<in> set xs. \<not> iStartsWith B url k') \<and>
    change_first_root B url x m = xs @ (k, x) # ys"
  using assms
proof (induction m)
  case (Cons p m)
  obtain k b where p: "p = (k, b)" by (cases p)
  show ?case
  proof (cases "iStartsWith B url k")
    case True
    with Cons.prems p show ?thesis by (intro exI [of _ "[]"] exI [of _ k] exI [of _ m]) simp
  next
    case False
    with Cons p obtain xs k' ys where "m = xs @ (k', a) # ys" "iStartsWith B url k'"
      "\<forall>(k', a') \<in> set xs. \<not> iStartsWith B url k'" "change_first_root B url x m = xs @ (k', x) # ys" by auto
    with False p show ?thesis by (intro exI [of _ "p # xs"] exI [of _ k'] exI [of _ ys]) simp
  qed
qed simp

lemma first_root_after:
  "\<forall>(k', a') \<in> set xs. \<not> iStartsWith B url k' \<Longrightarrow> iStartsWith B url k \<Longrightarrow> first_root B url (xs @ (k, a) # ys) = Some a"
  by (induction xs) auto

text \<open>Changing the application that is found puts the new one in its place, for every URL that finds it.\<close>

lemma change_found_found:
  assumes "boost_laws B" "first_root B url (apps m) = Some a" "upper v = upper url"
  shows "first_root B v (apps (change_found B url x m)) = Some x"
proof -
  let ?lt = "\<lambda>p. IgnoreCaseCompareDESC B (fst p) url"
  let ?above = "omap_lower_bound (IgnoreCaseCompareDESC B) (apps m) url"
  let ?below = "takeWhile ?lt (apps m)"
  have above: "?above = dropWhile ?lt (apps m)" by (simp add: omap_lower_bound_def case_prod_unfold)
  then have below: "take (length (apps m) - length ?above) (apps m) = ?below"
    using takeWhile_dropWhile_id [of ?lt "apps m"] by (metis append_eq_conv_conj diff_add_inverse2 length_append)
  have "first_root B url ?above = Some a" using assms(2) by (simp add: first_root_skip [OF assms(1)])
  from first_root_change [OF this, of x] obtain xs k ys where ch: "iStartsWith B url k"
    "\<forall>(k', a') \<in> set xs. \<not> iStartsWith B url k'" "change_first_root B url x ?above = xs @ (k, x) # ys" by blast
  have "\<forall>(k', a') \<in> set ?below. \<not> iStartsWith B url k'"
    using before_lower_bound [OF assms(1)] by (auto dest: set_takeWhileD)
  moreover have "apps (change_found B url x m) = (?below @ xs) @ (k, x) # ys"
    using \<open>first_root B url ?above = Some a\<close> ch(3) below by (simp add: change_found_def Let_def)
  moreover have "iStartsWith B v k' \<longleftrightarrow> iStartsWith B url k'" for k'
    by (rule iStartsWith_upper_eq [OF assms(1,3)])
  ultimately have "\<forall>(k', a') \<in> set (?below @ xs). \<not> iStartsWith B v k'" "iStartsWith B v k"
    "apps (change_found B url x m) = (?below @ xs) @ (k, x) # ys"
    using ch(1,2) by (simp_all add: ball_Un)
  then show ?thesis using first_root_after [of "?below @ xs" B v k x ys] by (simp only:)
qed

definition apps_ok :: "boost_algo \<Rightarrow> ('h, 'r, 'i) ApplicationMgr \<Rightarrow> bool" where
  "apps_ok B m \<longleftrightarrow> (\<forall>(k, a) \<in> set (apps m). root_url a = k \<and> router_inv B a \<and> \<not> IsRuning a)"

text \<open>
  (C31) A handler that is added to the server by a URL is called for the URL.  Before the server
  runs, adding succeeds when the URL is under the root of an application, with one slash between
  the root and the rest; then every request with the method whose path is the URL up to case is
  one for the application that got the handler, and is handled by it.
\<close>

theorem server_handler_is_called:
  assumes "boost_laws (algo E)" "apps_ok (algo E) (mgr s)" "first_root (algo E) url (apps (mgr s)) = Some a"
    and "rest = drop (length (root_url a)) url" "JoinUrlPath (root_url a) rest = root_url a @ rest"
    and "m \<noteq> UNSUPPORT" "callable h"
  shows "\<exists>s'. SrvAddHandler (algo E) R new_app m (router_equals url) h s = Some (True, s') \<and>
    (\<forall>c. from_http_method (req_method (request c)) = m \<and> iEquals (algo E) (ctx_path c) url \<longrightarrow>
       (\<exists>a' tn. FindByURL (algo E) (ctx_path c) (mgr s') = Some a' \<and>
          do_handle E R callable a' c = HandlerCalled h (set_template_name tn c)))"
proof -
  let ?B = "algo E"
  have iEquals_upper: "iEquals ?B p q \<longleftrightarrow> upper p = upper q" for p q
    using assms(1) by (simp add: boost_laws_def iEquals_def)
  obtain xs k ys where split: "apps (mgr s) = xs @ (k, a) # ys" "iStartsWith ?B url k"
    using first_root_change [OF assms(3), of a] by blast
  with assms(2) have a: "root_url a = k" "router_inv ?B a" "\<not> IsRuning a" by (auto simp: apps_ok_def)
  obtain t where t: "upper url = upper k @ t" using split(2) iStartsWith_upper [OF assms(1)] by blast
  then have len: "length k \<le> length url" by (metis length_append length_upper le_add1)
  have "upper (k @ rest) = upper url"
    using t by (simp add: assms(4) a(1) upper_def) (metis append_eq_conv_conj drop_map length_map)
  then have same: "iEquals ?B p (JoinUrlPath (root_url a) rest) \<longleftrightarrow> upper p = upper url" for p
    using assms(5) by (simp add: iEquals_upper a(1) del: upper_append)
  obtain a' ok where add: "AddHandler ?B R m (router_equals rest) h [] a = (a', ok)" by fastforce
  have "ok" using add a(3) by (auto simp: Equals_Add_def routing_Add_def Equals_Insert_def split: prod.splits option.splits)
  have found: "FindByURL ?B url (mgr s) = Some a"
    by (simp add: FindByURL_first_root [OF assms(1)] assms(3))
  have "apps (mgr s) \<noteq> []" using split(1) by simp
  then have run: "SrvAddHandler ?B R new_app m (router_equals url) h s = Some (True, s\<lparr>mgr := change_found ?B url a' (mgr s)\<rparr>)"
    using add \<open>ok\<close> len by (simp add: SrvAddHandler_def ServerAddHandler_def PrepareApp_def make_default_app_if_empty_def found
      extract_app_path_def a(1) assms(4) del: AddHandler.simps)
  have "\<exists>tn. do_handle E R callable a' c = HandlerCalled h (set_template_name tn c)"
    if "from_http_method (req_method (request c)) = m" "iEquals ?B (ctx_path c) url" for c
    using added_handler_is_called [OF assms(1) a(2,3) add that(1) assms(6), of callable] same assms(7) that(2)
    by (simp add: iEquals_upper)
  moreover have "FindByURL ?B (ctx_path c) (change_found ?B url a' (mgr s)) = Some a'" if "iEquals ?B (ctx_path c) url" for c
    using change_found_found [OF assms(1,3), of "ctx_path c" a'] that
    by (simp add: FindByURL_first_root [OF assms(1)] iEquals_upper)
  ultimately show ?thesis
    using run by (intro exI [of _ "s\<lparr>mgr := change_found ?B url a' (mgr s)\<rparr>"]) (simp, blast)
qed

section \<open>Connections\<close>

text \<open>The contexts in turn, from the one that the acceptor starts with.\<close>

definition accepts :: "('h, 'r, 'i, 'f) Server \<Rightarrow> nat \<Rightarrow> bool" where
  "accepts s i \<longleftrightarrow> accepting s = Some (i mod pool_size (pool s)) \<and> 0 < pool_size (pool s) \<and>
     next_index (pool s) = Suc i mod pool_size (pool s)"

lemma GetIOContextAndIndex_turn:
  assumes "0 < pool_size p" "next_index p = i mod pool_size p"
  shows "GetIOContextAndIndex p = (i mod pool_size p, p\<lparr>next_index := Suc i mod pool_size p\<rparr>)"
proof -
  have "Suc (i mod pool_size p) \<le> pool_size p" using mod_less_divisor [OF assms(1), of i] by simp
  then show ?thesis using assms(2) by (auto simp: GetIOContextAndIndex_def mod_Suc)
qed

lemma on_accepted_turn:
  assumes "accepts s i"
  shows "on_accepted error s =
     (if error \<and> srv_stopping s then s\<lparr>accepting := None\<rparr>
      else s\<lparr>accepting := Some (Suc i mod pool_size (pool s)),
             pool := (pool s)\<lparr>next_index := Suc (Suc i) mod pool_size (pool s)\<rparr>,
             started := started s @ (if error then [] else [i mod pool_size (pool s)])\<rparr>)"
  using assms GetIOContextAndIndex_turn [of "pool s" "Suc i"]
  by (auto simp: accepts_def on_accepted_def do_accept_def Let_def)

text \<open>
  Connections go round the contexts, and the server always accepts the next.  Whatever the
  results of the accepts before the server is stopped, an accept is outstanding after them, and
  the connections that were started are those of the accepts without an error, the one of the
  accept number \<open>n\<close> on the context \<open>i + n\<close>, counted round.
\<close>

theorem connections_go_round:
  assumes "accepts s i" "\<not> srv_stopping s"
  shows "let s' = fold on_accepted errors s in
    accepting s' = Some ((i + length errors) mod pool_size (pool s)) \<and>
    started s' = started s @ map (\<lambda>n. (i + n) mod pool_size (pool s)) (filter (\<lambda>n. \<not> errors ! n) [0..<length errors])"
proof -
  have "accepts (fold on_accepted errors s) (i + length errors) \<and> \<not> srv_stopping (fold on_accepted errors s) \<and>
      pool_size (pool (fold on_accepted errors s)) = pool_size (pool s) \<and>
      started (fold on_accepted errors s) =
        started s @ map (\<lambda>n. (i + n) mod pool_size (pool s)) (filter (\<lambda>n. \<not> errors ! n) [0..<length errors])"
  proof (induction errors rule: rev_induct)
    case (snoc e es)
    let ?s = "fold on_accepted es s"
    have "filter (\<lambda>n. \<not> (es @ [e]) ! n) [0..<length es] = filter (\<lambda>n. \<not> es ! n) [0..<length es]"
      by (rule filter_cong) (auto simp: nth_append)
    with snoc on_accepted_turn [of ?s "i + length es" e] show ?case
      by (simp add: accepts_def)
  qed (use assms in simp)
  then show ?thesis by (simp add: accepts_def Let_def)
qed

lemma new_Server_accepts:
  "\<exists>i. accepts (do_accept (new_Server hardware threads m)) i"
proof -
  let ?p = "new_IOContextPool hardware threads"
  have size: "0 < pool_size ?p" by (simp add: new_IOContextPool_def)
  have p: "pool (new_Server hardware threads m) = ?p\<lparr>next_index := 3 mod pool_size ?p\<rparr>"
    using GetIOContextAndIndex_turn [of ?p 0] GetIOContextAndIndex_turn [of "?p\<lparr>next_index := Suc 0 mod pool_size ?p\<rparr>" 1]
      GetIOContextAndIndex_turn [of "?p\<lparr>next_index := Suc (Suc 0) mod pool_size ?p\<rparr>" 2] size
    by (simp add: new_Server_def numeral_2_eq_2 numeral_3_eq_3) (simp add: new_IOContextPool_def)
  show ?thesis
    using GetIOContextAndIndex_turn [of "?p\<lparr>next_index := 3 mod pool_size ?p\<rparr>" 3] size
    by (intro exI [of _ 3]) (simp add: accepts_def do_accept_def p)
qed

section \<open>Concrete runs\<close>

definition demo_mgr :: "(nat, unit, unit) ApplicationMgr" where
  "demo_mgr = \<lparr>apps = [(''/shop/'', demo_app)], mgr_mounted = False, abortive = None\<rparr>"

definition demo_server :: "(nat, unit, unit, nat) Server" where
  "demo_server = (new_Server 0 2 demo_mgr)\<lparr>idle_running := True,
     idle_functions := [new_status 0 5 7, new_status 0 20 8]\<rparr>"

theorem idle_functions_called_when_due_witness:
  "\<exists>s'. idle_timer_fired True 9 (\<lambda>_. 0) False 10 demo_server = (s', [Some 7]) \<and> (\<exists>d. waiting_for s' = Some d \<and> 0 < d)"
proof -
  have st: "statuses True 9 demo_server = [new_status 0 5 7, new_status 0 20 8]"
    by (simp add: statuses_def demo_server_def new_Server_def)
  have ok: "list_all (status_ok 10) (statuses True 9 demo_server)"
    by (simp add: st status_ok_def new_status_def)
  have run: "idle_running demo_server" by (simp add: demo_server_def)
  obtain s' fs where f: "idle_timer_fired True 9 (\<lambda>_. 0) False 10 demo_server = (s', fs)" by fastforce
  show ?thesis
    using idle_functions_called_when_due [OF ok _ run f] f by (auto simp: st due_def new_status_def)
qed

theorem server_handler_is_called_witness:
  "\<exists>s' tn a'. SrvAddHandler boost_classic demo_regex (\<lambda>n. demo_app) GET (router_equals ''/Shop/cart'') 7 demo_server = Some (True, s') \<and>
    FindByURL boost_classic ''/shop/cart'' (mgr s') = Some a' \<and>
    do_handle demo_render demo_regex (\<lambda>h. True) a' (demo_get ''/shop/cart'') = HandlerCalled 7 (set_template_name tn (demo_get ''/shop/cart''))"
proof -
  have algo: "algo demo_render = boost_classic" by (simp add: demo_render_def)
  have m: "mgr demo_server = demo_mgr" by (simp add: demo_server_def new_Server_def)
  have ok: "apps_ok (algo demo_render) (mgr demo_server)"
    by (simp add: m apps_ok_def demo_mgr_def demo_app_def router_inv_def table_inv_def regex_inv_def IsRuning_def)
  have "iStartsWith boost_classic ''/Shop/cart'' ''/shop/''" by code_simp
  then have found: "first_root (algo demo_render) ''/Shop/cart'' (apps (mgr demo_server)) = Some demo_app"
    by (simp add: algo m demo_mgr_def)
  have rest: "''cart'' = drop (length (root_url demo_app)) ''/Shop/cart''" by (simp add: demo_app_def)
  have join: "JoinUrlPath (root_url demo_app) ''cart'' = root_url demo_app @ ''cart''" by (simp add: demo_app_def JoinUrlPath_def)
  have "iEquals boost_classic ''/shop/cart'' ''/Shop/cart''" by code_simp
  then have get: "from_http_method (req_method (request (demo_get ''/shop/cart''))) = GET \<and>
      iEquals boost_classic (ctx_path (demo_get ''/shop/cart'')) ''/Shop/cart''"
    by (simp add: demo_get_facts)
  obtain s' where s': "SrvAddHandler boost_classic demo_regex (\<lambda>n. demo_app) GET (router_equals ''/Shop/cart'') 7 demo_server = Some (True, s')"
    and all: "\<forall>c. from_http_method (req_method (request c)) = GET \<and> iEquals boost_classic (ctx_path c) ''/Shop/cart'' \<longrightarrow>
      (\<exists>a' tn. FindByURL boost_classic (ctx_path c) (mgr s') = Some a' \<and>
        do_handle demo_render demo_regex (\<lambda>h. True) a' c = HandlerCalled 7 (set_template_name tn c))"
    using server_handler_is_called [where E = demo_render and R = demo_regex and callable = "\<lambda>h. True" and m = GET and h = 7
      and new_app = "\<lambda>n. demo_app", OF _ ok found rest join] boost_classic_laws by (auto simp: algo)
  show ?thesis using s' mp [OF spec [OF all] get] by (auto simp: demo_get_facts)
qed

theorem connections_go_round_witness:
  "started (fold on_accepted [False, True, False] (do_accept demo_server)) = [1, 1]"
proof -
  have a: "accepts (do_accept demo_server) 3"
    by (simp add: accepts_def do_accept_def demo_server_def new_Server_def new_IOContextPool_def GetIOContextAndIndex_def Let_def)
  have s: "pool_size (pool (do_accept demo_server)) = 2" "started (do_accept demo_server) = []" "\<not> srv_stopping (do_accept demo_server)"
    by (simp_all add: do_accept_def demo_server_def new_Server_def new_IOContextPool_def GetIOContextAndIndex_def Let_def)
  have "filter (\<lambda>n. \<not> [False, True, False] ! n) [0..<length [False, True, False]] = [0, 2]" by code_simp
  with connections_go_round [OF a s(3), of "[False, True, False]"] show ?thesis by (simp add: s Let_def del: fold_simps)
qed

section \<open>Where the server differs from what it means to do\<close>

text \<open>Pausing the timer and resuming it before it fires: the handler of the wait that resuming
  cancels stops the timer, which fires once more and never again.\<close>

lemma pause_and_resume_stops_timer:
  assumes "waiting_for s = Some d" "cancelled s = 0" "idle_running s"
    and "s1 = idle_timer_cancelled (ResumeIdleTimer False (PauseIdleTimer s))"
  shows "waiting_for s1 = Some (idle_interval_seconds s) \<and> \<not> idle_running s1 \<and>
    waiting_for (fst (idle_timer_fired release check took False clock s1)) = None"
  using assms by (simp add: PauseIdleTimer_def ResumeIdleTimer_def start_idle_timer_def cancel_wait_def
    idle_timer_cancelled_def idle_timer_fired_def Let_def split: prod.split)

text \<open>In a release build the default application is never made: where there is no application for
  the root, it is the one for requests that no application is for.\<close>

lemma default_app_is_abortive:
  assumes "apps (mgr s) = []" "abortive (mgr s) = Some a"
  shows "DefaultApp B new_app name s = (Some a, s)"
  using assms by (simp add: DefaultApp_def FindByURL_def omap_lower_bound_def)

text \<open>A function that runs for long delays those after it: the timer waits from the end of the
  calls for a distance that was measured at their begin.\<close>

lemma slow_function_delays_others:
  "idle_timer_fired release check (\<lambda>f. if f = Some 1 then 100 else 0) False 10
      ((new_Server 0 1 m)\<lparr>idle_running := True, idle_functions := [new_status 0 10 1, new_status 0 20 2]\<rparr>)
    = (s', fs) \<Longrightarrow> waiting_for s' = Some 10 \<and> map next_timepoint (idle_functions s') = [120, 20] \<and> fs = [Some 1]"
  by (auto simp: idle_timer_fired_def new_Server_def new_status_def call_idle_function_if_timeout_def Let_def
    update_min_distance_seconds_def start_idle_timer_def cancel_wait_def)

text \<open>A URL with two slashes after the root is registered with one, so it does not get its handler.\<close>

lemma double_slash_is_lost:
  "JoinUrlPath ''/shop/'' (the (extract_app_path ''/shop/'' ''/shop//cart'')) = ''/shop/cart''"
  by (simp add: JoinUrlPath_def extract_app_path_def)

end
