(* ===== verification/HttpUrl.thy ===== *)
theory HttpUrl
  imports Url
begin

text \<open>
  \<^verbatim>\<open>llhttp/helper/http_url_def.c\<close> (under \<^verbatim>\<open>src/llhttp/helper/\<close>): the parser of URLs, for the build
  the file itself selects (\<^verbatim>\<open>HTTP_PARSER_STRICT\<close> is 0).  An automaton walks over the text and
  gives the offset and the length of every part, in 16 bits; a second one walks over the
  server's part and finds user information, host and port.  \<^verbatim>\<open>parse_url_of\<close> is the view that
  \<open>UrlParse\<close> of \<open>Url\<close> takes of the result.  The states of the automaton that no function of the
  file enters are left out, and the bit mask of fields is a set.
\<close>

unbundle bit_operations_syntax

section \<open>Character classes\<close>

definition normal_url_char :: "byte list" where
  "normal_url_char =
     [0, 2 OR 16, 0, 0,
      2 OR 4 OR 16 OR 32 OR 64 OR 128,
      1 OR 2 OR 4 OR 8 OR 16 OR 32 OR 64 OR 128,
      1 OR 2 OR 4 OR 8 OR 16 OR 32 OR 64 OR 128,
      1 OR 2 OR 4 OR 8 OR 16 OR 32 OR 64,
      1 OR 2 OR 4 OR 8 OR 16 OR 32 OR 64 OR 128,
      1 OR 2 OR 4 OR 8 OR 16 OR 32 OR 64 OR 128,
      1 OR 2 OR 4 OR 8 OR 16 OR 32 OR 64 OR 128,
      1 OR 2 OR 4 OR 8 OR 16 OR 32 OR 64 OR 128,
      1 OR 2 OR 4 OR 8 OR 16 OR 32 OR 64 OR 128,
      1 OR 2 OR 4 OR 8 OR 16 OR 32 OR 64 OR 128,
      1 OR 2 OR 4 OR 8 OR 16 OR 32 OR 64 OR 128,
      1 OR 2 OR 4 OR 8 OR 16 OR 32 OR 64] @ replicate 16 0"

definition BIT_AT :: "byte list \<Rightarrow> nat \<Rightarrow> bool" where
  "BIT_AT a i \<longleftrightarrow> a ! (drop_bit 3 i) AND push_bit (i AND 7) 1 \<noteq> 0"

definition LOWER :: "char \<Rightarrow> byte" where
  "LOWER c = byte_of_char c OR 0x20"

definition IS_ALPHA :: "char \<Rightarrow> bool" where
  "IS_ALPHA c \<longleftrightarrow> byte_of_char (CHR ''a'') \<le> LOWER c \<and> LOWER c \<le> byte_of_char (CHR ''z'')"

definition IS_NUM :: "char \<Rightarrow> bool" where
  "IS_NUM c \<longleftrightarrow> schar (CHR ''0'') \<le> schar c \<and> schar c \<le> schar (CHR ''9'')"

definition IS_ALPHANUM :: "char \<Rightarrow> bool" where
  "IS_ALPHANUM c \<longleftrightarrow> IS_ALPHA c \<or> IS_NUM c"

definition IS_HEX :: "char \<Rightarrow> bool" where
  "IS_HEX c \<longleftrightarrow> IS_NUM c \<or> byte_of_char (CHR ''a'') \<le> LOWER c \<and> LOWER c \<le> byte_of_char (CHR ''f'')"

definition IS_MARK :: "char \<Rightarrow> bool" where
  "IS_MARK c \<longleftrightarrow> c \<in> set (''-_.!~*'' @ [CHR 0x27] @ ''()'')"

definition IS_USERINFO_CHAR :: "char \<Rightarrow> bool" where
  "IS_USERINFO_CHAR c \<longleftrightarrow> IS_ALPHANUM c \<or> IS_MARK c \<or> c \<in> set ''%;:&=+$,''"

definition IS_URL_CHAR :: "char \<Rightarrow> bool" where
  "IS_URL_CHAR c \<longleftrightarrow> BIT_AT normal_url_char (code c) \<or> byte_of_char c AND 0x80 \<noteq> 0"

definition IS_HOST_CHAR :: "char \<Rightarrow> bool" where
  "IS_HOST_CHAR c \<longleftrightarrow> IS_ALPHANUM c \<or> c = CHR ''.'' \<or> c = CHR ''-'' \<or> c = CHR ''_''"

section \<open>The automaton of a URL\<close>

datatype url_state = s_dead | s_req_spaces_before_url | s_req_schema | s_req_schema_slash
  | s_req_schema_slash_slash | s_req_server_start | s_req_server | s_req_server_with_at
  | s_req_path | s_req_query_string_start | s_req_query_string | s_req_fragment_start | s_req_fragment

definition server_char :: "char \<Rightarrow> url_state" where
  "server_char ch =
     (if ch = CHR ''/'' then s_req_path
      else if ch = CHR ''?'' then s_req_query_string_start
      else if ch = CHR ''@'' then s_req_server_with_at
      else if IS_USERINFO_CHAR ch \<or> ch = CHR ''['' \<or> ch = CHR '']'' then s_req_server
      else s_dead)"

definition query_char :: "char \<Rightarrow> url_state" where
  "query_char ch =
     (if IS_URL_CHAR ch then s_req_query_string
      else if ch = CHR ''?'' then s_req_query_string
      else if ch = CHR ''#'' then s_req_fragment_start
      else s_dead)"

fun url_char :: "url_state \<Rightarrow> char \<Rightarrow> url_state" where
  "url_char s_req_spaces_before_url ch =
     (if ch = CHR ''/'' \<or> ch = CHR ''*'' then s_req_path
      else if IS_ALPHA ch then s_req_schema else s_dead)"
| "url_char s_req_schema ch =
     (if IS_ALPHA ch then s_req_schema
      else if ch = CHR '':'' then s_req_schema_slash else s_dead)"
| "url_char s_req_schema_slash ch = (if ch = CHR ''/'' then s_req_schema_slash_slash else s_dead)"
| "url_char s_req_schema_slash_slash ch = (if ch = CHR ''/'' then s_req_server_start else s_dead)"
| "url_char s_req_server_with_at ch = (if ch = CHR ''@'' then s_dead else server_char ch)"
| "url_char s_req_server_start ch = server_char ch"
| "url_char s_req_server ch = server_char ch"
| "url_char s_req_path ch =
     (if IS_URL_CHAR ch then s_req_path
      else if ch = CHR ''?'' then s_req_query_string_start
      else if ch = CHR ''#'' then s_req_fragment_start
      else s_dead)"
| "url_char s_req_query_string_start ch = query_char ch"
| "url_char s_req_query_string ch = query_char ch"
| "url_char s_req_fragment_start ch =
     (if IS_URL_CHAR ch then s_req_fragment
      else if ch = CHR ''?'' then s_req_fragment
      else if ch = CHR ''#'' then s_req_fragment_start
      else s_dead)"
| "url_char s_req_fragment ch =
     (if IS_URL_CHAR ch then s_req_fragment
      else if ch = CHR ''?'' \<or> ch = CHR ''#'' then s_req_fragment
      else s_dead)"
| "url_char s_dead ch = s_dead"

definition parse_url_char :: "url_state \<Rightarrow> char \<Rightarrow> url_state" where
  "parse_url_char s ch =
     (if ch = CHR '' '' \<or> ch = CHR 0x0D \<or> ch = CHR 0x0A then s_dead else url_char s ch)"

section \<open>The automaton of a server's part\<close>

datatype http_host_state = s_http_host_dead | s_http_userinfo_start | s_http_userinfo
  | s_http_host_start | s_http_host_v6_start | s_http_host | s_http_host_v6 | s_http_host_v6_end
  | s_http_host_v6_zone_start | s_http_host_v6_zone | s_http_host_port_start | s_http_host_port

definition userinfo_char :: "char \<Rightarrow> http_host_state" where
  "userinfo_char ch =
     (if ch = CHR ''@'' then s_http_host_start
      else if IS_USERINFO_CHAR ch then s_http_userinfo else s_http_host_dead)"

definition after_host_char :: "char \<Rightarrow> http_host_state" where
  "after_host_char ch = (if ch = CHR '':'' then s_http_host_port_start else s_http_host_dead)"

definition zone_char :: "char \<Rightarrow> http_host_state" where
  "zone_char ch =
     (if IS_ALPHANUM ch \<or> ch \<in> set ''%.-_~'' then s_http_host_v6_zone else s_http_host_dead)"

definition port_char :: "char \<Rightarrow> http_host_state" where
  "port_char ch = (if IS_NUM ch then s_http_host_port else s_http_host_dead)"

fun http_parse_host_char :: "http_host_state \<Rightarrow> char \<Rightarrow> http_host_state" where
  "http_parse_host_char s_http_userinfo ch = userinfo_char ch"
| "http_parse_host_char s_http_userinfo_start ch = userinfo_char ch"
| "http_parse_host_char s_http_host_start ch =
     (if ch = CHR ''['' then s_http_host_v6_start
      else if IS_HOST_CHAR ch then s_http_host else s_http_host_dead)"
| "http_parse_host_char s_http_host ch = (if IS_HOST_CHAR ch then s_http_host else after_host_char ch)"
| "http_parse_host_char s_http_host_v6_end ch = after_host_char ch"
| "http_parse_host_char s_http_host_v6 ch =
     (if ch = CHR '']'' then s_http_host_v6_end
      else if IS_HEX ch \<or> ch = CHR '':'' \<or> ch = CHR ''.'' then s_http_host_v6
      else if ch = CHR ''%'' then s_http_host_v6_zone_start else s_http_host_dead)"
| "http_parse_host_char s_http_host_v6_start ch =
     (if IS_HEX ch \<or> ch = CHR '':'' \<or> ch = CHR ''.'' then s_http_host_v6 else s_http_host_dead)"
| "http_parse_host_char s_http_host_v6_zone ch =
     (if ch = CHR '']'' then s_http_host_v6_end else zone_char ch)"
| "http_parse_host_char s_http_host_v6_zone_start ch = zone_char ch"
| "http_parse_host_char s_http_host_port ch = port_char ch"
| "http_parse_host_char s_http_host_port_start ch = port_char ch"
| "http_parse_host_char s_http_host_dead ch = s_http_host_dead"

section \<open>The fields\<close>

record url_data =
  field_set :: "url_field set"
  data_port :: u16
  field_off :: "url_field \<Rightarrow> u16"
  field_len :: "url_field \<Rightarrow> u16"

definition http_parser_url_init :: url_data where
  "http_parser_url_init = \<lparr>field_set = {}, data_port = 0, field_off = (\<lambda>f. 0), field_len = (\<lambda>f. 0)\<rparr>"

definition grow_field :: "url_field \<Rightarrow> url_data \<Rightarrow> url_data" where
  "grow_field f u = u\<lparr>field_len := (field_len u)(f := field_len u f + 1)\<rparr>"

definition open_field :: "url_field \<Rightarrow> nat \<Rightarrow> url_data \<Rightarrow> url_data" where
  "open_field f n u = u\<lparr>field_off := (field_off u)(f := word_of_nat n),
     field_len := (field_len u)(f := 0), field_set := insert f (field_set u)\<rparr>"

text \<open>\<^verbatim>\<open>http_parse_host\<close>: one character at offset \<open>n\<close>, then the loop and the check of the last state.\<close>

definition host_field :: "http_host_state \<Rightarrow> nat \<Rightarrow> http_host_state \<Rightarrow> url_data \<Rightarrow> url_data" where
  "host_field s n new_s u =
     (case new_s of
        s_http_host \<Rightarrow> grow_field UF_HOST
          (if s \<noteq> s_http_host then u\<lparr>field_off := (field_off u)(UF_HOST := word_of_nat n)\<rparr> else u)
      | s_http_host_v6 \<Rightarrow> grow_field UF_HOST
          (if s \<noteq> s_http_host_v6 then u\<lparr>field_off := (field_off u)(UF_HOST := word_of_nat n)\<rparr> else u)
      | s_http_host_v6_zone_start \<Rightarrow> grow_field UF_HOST u
      | s_http_host_v6_zone \<Rightarrow> grow_field UF_HOST u
      | s_http_host_port \<Rightarrow> grow_field UF_PORT (if s \<noteq> s_http_host_port then open_field UF_PORT n u else u)
      | s_http_userinfo \<Rightarrow> grow_field UF_USERINFO (if s \<noteq> s_http_userinfo then open_field UF_USERINFO n u else u)
      | _ \<Rightarrow> u)"

fun host_loop :: "nat \<Rightarrow> string \<Rightarrow> http_host_state \<Rightarrow> url_data \<Rightarrow> (http_host_state \<times> url_data) option" where
  "host_loop n [] s u = Some (s, u)"
| "host_loop n (ch # chs) s u =
     (let new_s = http_parse_host_char s ch
      in if new_s = s_http_host_dead then None else host_loop (Suc n) chs new_s (host_field s n new_s u))"

definition host_may_end :: "http_host_state \<Rightarrow> bool" where
  "host_may_end s \<longleftrightarrow> s \<notin> {s_http_host_start, s_http_host_v6_start, s_http_host_v6,
     s_http_host_v6_zone_start, s_http_host_v6_zone, s_http_host_port_start, s_http_userinfo,
     s_http_userinfo_start}"

definition field_text :: "string \<Rightarrow> url_data \<Rightarrow> url_field \<Rightarrow> string" where
  "field_text buf u f = substring buf (unat (field_off u f), unat (field_len u f))"

definition http_parse_host :: "string \<Rightarrow> url_data \<Rightarrow> bool \<Rightarrow> url_data option" where
  "http_parse_host buf u found_at =
     (case host_loop (unat (field_off u UF_HOST)) (field_text buf u UF_HOST)
             (if found_at then s_http_userinfo_start else s_http_host_start)
             (u\<lparr>field_len := (field_len u)(UF_HOST := 0)\<rparr>) of
        None \<Rightarrow> None
      | Some (s, v) \<Rightarrow> if host_may_end s then Some v else None)"

section \<open>\<open>http_parser_parse_url\<close>\<close>

fun field_of_state :: "url_state \<Rightarrow> url_field option" where
  "field_of_state s_req_schema = Some UF_SCHEMA"
| "field_of_state s_req_server_with_at = Some UF_HOST"
| "field_of_state s_req_server = Some UF_HOST"
| "field_of_state s_req_path = Some UF_PATH"
| "field_of_state s_req_query_string = Some UF_QUERY"
| "field_of_state s_req_fragment = Some UF_FRAGMENT"
| "field_of_state _ = None"

text \<open>The loop, with the offset, the state, the last field (\<^verbatim>\<open>UF_MAX\<close> is \<open>None\<close>) and the flag.\<close>

fun url_loop :: "nat \<Rightarrow> string \<Rightarrow> url_state \<Rightarrow> url_field option \<Rightarrow> bool \<Rightarrow> url_data \<Rightarrow>
    (bool \<times> url_data) option" where
  "url_loop n [] s old_uf found_at u = Some (found_at, u)"
| "url_loop n (ch # chs) s old_uf found_at u =
     (let new_s = parse_url_char s ch; found = (found_at \<or> new_s = s_req_server_with_at)
      in if new_s = s_dead then None
         else case field_of_state new_s of
           None \<Rightarrow> url_loop (Suc n) chs new_s old_uf found u
         | Some uf \<Rightarrow>
             url_loop (Suc n) chs new_s (Some uf) found
               (grow_field uf (if Some uf = old_uf then u else open_field uf n u)))"

fun port_loop :: "string \<Rightarrow> u64 \<Rightarrow> u16 option" where
  "port_loop [] v = Some (ucast v)"
| "port_loop (c # cs) v =
     (let w = v * 10 + word_of_int (schar c - schar (CHR ''0''))
      in if 0xffff < w then None else port_loop cs w)"

definition http_parser_parse_url :: "string \<Rightarrow> bool \<Rightarrow> url_data option" where
  "http_parser_parse_url buf is_connect =
     (if buf = [] then None
      else case url_loop 0 buf (if is_connect then s_req_server_start else s_req_spaces_before_url)
                  None False http_parser_url_init of
        None \<Rightarrow> None
      | Some (found_at, u) \<Rightarrow>
          if UF_SCHEMA \<in> field_set u \<and> UF_HOST \<notin> field_set u then None
          else case (if UF_HOST \<in> field_set u then http_parse_host buf u found_at else Some u) of
            None \<Rightarrow> None
          | Some v \<Rightarrow>
              if is_connect \<and> field_set v \<noteq> {UF_HOST, UF_PORT} then None
              else if UF_PORT \<in> field_set v then
                (case port_loop (field_text buf v UF_PORT) 0 of
                   None \<Rightarrow> None
                 | Some p \<Rightarrow> Some (v\<lparr>data_port := p\<rparr>))
              else Some v)"

text \<open>What \<^verbatim>\<open>UrlBase::Parse\<close> reads of the result.\<close>

definition url_view :: "url_data \<Rightarrow> http_parser_url" where
  "url_view u = \<lparr>hpu_port = data_port u,
     hpu_field_data = (\<lambda>f. if f \<in> field_set u then Some (unat (field_off u f), unat (field_len u f)) else None)\<rparr>"

definition parse_url_of :: "string \<Rightarrow> http_parser_url option" where
  "parse_url_of s = map_option url_view (http_parser_parse_url s False)"

end
