(* ===== verification/HttpUrlProofs.thy ===== *)
theory HttpUrlProofs
  imports HttpUrl
begin

text \<open>
  The URL parser of \<open>HttpUrl\<close>: a URL that is printed from its parts is read back to the same
  parts; every part the parser reports lies within the text; and what becomes of texts longer
  than 16 bits can count.
\<close>

unbundle bit_operations_syntax

section \<open>Which characters are in which class\<close>

named_theorems url_classes

lemmas class_defs = IS_URL_CHAR_def IS_HOST_CHAR_def IS_USERINFO_CHAR_def IS_MARK_def IS_HEX_def
  IS_ALPHANUM_def IS_NUM_def IS_ALPHA_def LOWER_def BIT_AT_def normal_url_char_def schar_def byte_of_char_def

lemma not_url_char [url_classes]:
  "\<not> IS_URL_CHAR (CHR '' '')" "\<not> IS_URL_CHAR (CHR 0x0D)" "\<not> IS_URL_CHAR (CHR 0x0A)"
  "\<not> IS_URL_CHAR (CHR ''?'')" "\<not> IS_URL_CHAR (CHR ''#'')"
  by (simp_all add: class_defs)

lemma url_char_examples [url_classes]:
  "IS_URL_CHAR (CHR ''/'')" "IS_URL_CHAR (CHR ''a'')"
  by (simp_all add: class_defs)

lemma not_userinfo_char [url_classes]:
  "\<not> IS_USERINFO_CHAR (CHR '' '')" "\<not> IS_USERINFO_CHAR (CHR 0x0D)" "\<not> IS_USERINFO_CHAR (CHR 0x0A)"
  "\<not> IS_USERINFO_CHAR (CHR ''/'')" "\<not> IS_USERINFO_CHAR (CHR ''?'')" "\<not> IS_USERINFO_CHAR (CHR ''@'')"
  "IS_USERINFO_CHAR (CHR '':'')"
  by (simp_all add: class_defs)

lemma not_host_char [url_classes]:
  "\<not> IS_HOST_CHAR (CHR '':'')" "\<not> IS_HOST_CHAR (CHR ''['')"
  by (simp_all add: class_defs)

lemma not_alpha [url_classes]:
  "\<not> IS_ALPHA (CHR '' '')" "\<not> IS_ALPHA (CHR 0x0D)" "\<not> IS_ALPHA (CHR 0x0A)"
  "\<not> IS_ALPHA (CHR ''/'')" "\<not> IS_ALPHA (CHR ''*'')" "\<not> IS_ALPHA (CHR '':'')"
  by (simp_all add: class_defs)

lemma host_char_is_userinfo_char [url_classes]: "IS_HOST_CHAR c \<Longrightarrow> IS_USERINFO_CHAR c"
  by (auto simp: IS_HOST_CHAR_def IS_USERINFO_CHAR_def IS_MARK_def)

lemma is_num_iff [url_classes]: "IS_NUM c \<longleftrightarrow> is_digit c"
  by (simp add: IS_NUM_def schar_def is_digit_def, insert code_less_256 [of c], linarith)

lemma digit_is_userinfo_char: "is_digit c \<Longrightarrow> IS_USERINFO_CHAR c"
  by (simp add: IS_USERINFO_CHAR_def IS_ALPHANUM_def is_num_iff)

text \<open>The steps of the two automata that stay within a part.\<close>

lemma space_is_none:
  "IS_URL_CHAR c \<or> IS_USERINFO_CHAR c \<or> IS_ALPHA c \<Longrightarrow> c \<noteq> CHR '' '' \<and> c \<noteq> CHR 0x0D \<and> c \<noteq> CHR 0x0A"
  using not_url_char not_userinfo_char not_alpha by blast

lemma alpha_steps:
  assumes "IS_ALPHA c"
  shows "parse_url_char s_req_spaces_before_url c = s_req_schema" "parse_url_char s_req_schema c = s_req_schema"
  using assms space_is_none [of c] by (auto simp: parse_url_char_def not_alpha)

lemma server_steps:
  assumes "IS_USERINFO_CHAR c" "s \<in> {s_req_server_start, s_req_server, s_req_server_with_at}"
  shows "parse_url_char s c = s_req_server"
proof -
  have "c \<noteq> CHR '' ''" "c \<noteq> CHR 0x0D" "c \<noteq> CHR 0x0A" using assms(1) space_is_none [of c] by auto
  moreover have "c \<noteq> CHR ''/''" "c \<noteq> CHR ''?''" "c \<noteq> CHR ''@''" using assms(1) not_userinfo_char by blast+
  then have "server_char c = s_req_server" using assms(1) by (simp add: server_char_def)
  ultimately show ?thesis using assms(2) \<open>c \<noteq> CHR ''@''\<close> by (elim insertE) (simp_all add: parse_url_char_def)
qed

lemma path_step: "IS_URL_CHAR c \<Longrightarrow> parse_url_char s_req_path c = s_req_path"
  using space_is_none [of c] by (simp add: parse_url_char_def)

lemma query_step:
  assumes "IS_URL_CHAR c \<or> c = CHR ''?''" "s = s_req_query_string_start \<or> s = s_req_query_string"
  shows "parse_url_char s c = s_req_query_string"
proof -
  have "c \<noteq> CHR '' ''" "c \<noteq> CHR 0x0D" "c \<noteq> CHR 0x0A" using assms(1) space_is_none [of c] by auto
  moreover have "query_char c = s_req_query_string" using assms(1) unfolding query_char_def by (cases "IS_URL_CHAR c") simp_all
  ultimately show ?thesis using assms(2) by (elim disjE) (simp_all add: parse_url_char_def)
qed

lemma fragment_step:
  assumes "IS_URL_CHAR c \<or> c = CHR ''?'' \<or> c = CHR ''#''"
  shows "parse_url_char s_req_fragment c = s_req_fragment"
    "c \<noteq> CHR ''#'' \<Longrightarrow> parse_url_char s_req_fragment_start c = s_req_fragment"
proof -
  have "c \<noteq> CHR '' ''" "c \<noteq> CHR 0x0D" "c \<noteq> CHR 0x0A" using assms space_is_none [of c] by auto
  then show "parse_url_char s_req_fragment c = s_req_fragment"
    "c \<noteq> CHR ''#'' \<Longrightarrow> parse_url_char s_req_fragment_start c = s_req_fragment"
    using assms by (cases "IS_URL_CHAR c"; simp add: parse_url_char_def; fail)+
qed

section \<open>Runs of characters\<close>

definition grow_by :: "url_field \<Rightarrow> nat \<Rightarrow> url_data \<Rightarrow> url_data" where
  "grow_by f k u = u\<lparr>field_len := (field_len u)(f := field_len u f + word_of_nat k)\<rparr>"

definition put_field :: "url_field \<Rightarrow> nat \<Rightarrow> nat \<Rightarrow> url_data \<Rightarrow> url_data" where
  "put_field f n k u = u\<lparr>field_off := (field_off u)(f := word_of_nat n),
     field_len := (field_len u)(f := word_of_nat k), field_set := insert f (field_set u)\<rparr>"

lemma grow_by_0 [simp]: "grow_by f 0 u = u"
  by (simp add: grow_by_def)

lemma grow_by_Suc: "grow_by f k (grow_field f u) = grow_by f (Suc k) u"
  by (simp add: grow_by_def grow_field_def ac_simps)

lemma grow_opened: "grow_by f k (grow_field f (open_field f n u)) = put_field f n (Suc k) u"
  by (simp add: grow_by_def grow_field_def open_field_def put_field_def)

lemma grow_put: "grow_by f k (put_field f n m u) = put_field f n (m + k) u"
  by (simp add: grow_by_def put_field_def)

lemma url_loop_run:
  assumes "\<forall>c\<in>set cs. parse_url_char s c = s" "field_of_state s = Some uf" "s \<noteq> s_req_server_with_at"
  shows "url_loop n (cs @ rest) s (Some uf) fa u = url_loop (n + length cs) rest s (Some uf) fa (grow_by uf (length cs) u)"
  using assms(1)
proof (induction cs arbitrary: n u)
  case (Cons c cs)
  have "s \<noteq> s_dead" using assms(2) by auto
  then show ?case using Cons assms(2,3) by (simp add: Let_def grow_by_Suc)
qed simp

lemma url_loop_part:
  assumes "cs \<noteq> []" "parse_url_char s (hd cs) = t" "\<forall>c\<in>set (tl cs). parse_url_char t c = t"
    and "field_of_state t = Some uf" "t \<noteq> s_req_server_with_at" "old \<noteq> Some uf"
  shows "url_loop n (cs @ rest) s old fa u = url_loop (n + length cs) rest t (Some uf) fa (put_field uf n (length cs) u)"
proof -
  obtain c ds where "cs = c # ds" using assms(1) by (cases cs) auto
  moreover have "t \<noteq> s_dead" using assms(4) by auto
  ultimately show ?thesis using assms(2-6) url_loop_run [of ds t uf "Suc n" rest fa]
    by (simp add: Let_def grow_opened)
qed

lemma url_loop_skip:
  assumes "parse_url_char s c = t" "field_of_state t = None" "t \<noteq> s_dead" 
  shows "url_loop n (c # rest) s old fa u = url_loop (Suc n) rest t old fa u"
proof -
  have "t \<noteq> s_req_server_with_at" using assms(2) by auto
  then show ?thesis using assms by simp
qed

section \<open>A URL and its parts\<close>

record origin =
  o_schema :: string
  o_userinfo :: "string option"
  o_host :: string
  o_port :: "nat option"

definition opt_part :: "char \<Rightarrow> string option \<Rightarrow> string" where
  "opt_part c q = (case q of None \<Rightarrow> [] | Some v \<Rightarrow> c # v)"

definition the_part :: "string option \<Rightarrow> string" where
  "the_part q = (case q of None \<Rightarrow> [] | Some v \<Rightarrow> v)"

definition print_port :: "nat option \<Rightarrow> string" where
  "print_port p = opt_part (CHR '':'') (map_option dec_digits p)"

definition print_server :: "origin \<Rightarrow> string" where
  "print_server r = (case o_userinfo r of None \<Rightarrow> [] | Some i \<Rightarrow> i @ ''@'') @ o_host r @ print_port (o_port r)"

definition print_origin :: "origin option \<Rightarrow> string" where
  "print_origin r = (case r of None \<Rightarrow> [] | Some r \<Rightarrow> o_schema r @ ''://'' @ print_server r)"

definition print_url :: "origin option \<Rightarrow> string \<Rightarrow> string option \<Rightarrow> string option \<Rightarrow> string" where
  "print_url r path q f = print_origin r @ path @ opt_part (CHR ''?'') q @ opt_part (CHR ''#'') f"

definition proper_origin :: "origin \<Rightarrow> bool" where
  "proper_origin r \<longleftrightarrow> o_schema r \<noteq> [] \<and> list_all IS_ALPHA (o_schema r) \<and>
     (case o_userinfo r of None \<Rightarrow> True | Some i \<Rightarrow> i \<noteq> [] \<and> list_all IS_USERINFO_CHAR i) \<and>
     o_host r \<noteq> [] \<and> list_all IS_HOST_CHAR (o_host r) \<and>
     (case o_port r of None \<Rightarrow> True | Some p \<Rightarrow> p < 65536)"

definition proper_path :: "string \<Rightarrow> bool" where
  "proper_path p \<longleftrightarrow> p \<noteq> [] \<and> hd p = CHR ''/'' \<and> list_all IS_URL_CHAR p"

definition proper_query :: "string option \<Rightarrow> bool" where
  "proper_query q \<longleftrightarrow> list_all (\<lambda>c. IS_URL_CHAR c \<or> c = CHR ''?'') (the_part q)"

definition proper_fragment :: "string option \<Rightarrow> bool" where
  "proper_fragment f \<longleftrightarrow> list_all (\<lambda>c. IS_URL_CHAR c \<or> c = CHR ''?'' \<or> c = CHR ''#'') (the_part f) \<and>
     (the_part f \<noteq> [] \<longrightarrow> hd (the_part f) \<noteq> CHR ''#'')"

definition put_opt :: "url_field \<Rightarrow> nat \<Rightarrow> string \<Rightarrow> url_data \<Rightarrow> url_data" where
  "put_opt uf n v u = (if v = [] then u else put_field uf n (length v) u)"

lemma opt_part_simps [simp]: "opt_part c None = []" "opt_part c (Some v) = c # v"
  by (simp_all add: opt_part_def)

lemma the_part_simps [simp]: "the_part None = []" "the_part (Some v) = v"
  by (simp_all add: the_part_def)

lemma put_opt_Nil [simp]: "put_opt uf n [] u = u"
  by (simp add: put_opt_def)

lemma url_loop_fragment:
  assumes "proper_fragment f" "s = s_req_path \<or> s = s_req_query_string_start \<or> s = s_req_query_string"
    "old \<noteq> Some UF_FRAGMENT"
  shows "url_loop n (opt_part (CHR ''#'') f) s old fa u = Some (fa, put_opt UF_FRAGMENT (Suc n) (the_part f) u)"
proof (cases f)
  case (Some v)
  have "parse_url_char s (CHR ''#'') = s_req_fragment_start"
    using assms(2) by (elim disjE) (simp_all add: parse_url_char_def query_char_def not_url_char)
  then have skip: "url_loop n (CHR ''#'' # v) s old fa u = url_loop (Suc n) v s_req_fragment_start old fa u"
    by (rule url_loop_skip) simp_all
  show ?thesis
  proof (cases "v = []")
    case False
    have v: "\<forall>c\<in>set v. IS_URL_CHAR c \<or> c = CHR ''?'' \<or> c = CHR ''#''" "hd v \<noteq> CHR ''#''"
      using assms(1) False Some by (auto simp: proper_fragment_def list_all_iff)
    have "url_loop (Suc n) (v @ []) s_req_fragment_start old fa u =
        url_loop (Suc n + length v) [] s_req_fragment (Some UF_FRAGMENT) fa (put_field UF_FRAGMENT (Suc n) (length v) u)"
      using False v(1) assms(3) fragment_step(2) [OF bspec [OF v(1) hd_in_set [OF False]] v(2)]
      by (intro url_loop_part) (simp_all add: fragment_step(1) list.set_sel)
    then show ?thesis using Some skip False by (simp add: put_opt_def)
  qed (use Some skip in simp)
qed simp

lemma url_loop_query:
  assumes "proper_query q" "proper_fragment f" "old \<noteq> Some UF_QUERY" "old \<noteq> Some UF_FRAGMENT"
    and "s = s_req_path \<or> s = s_req_server \<and> f = None"
  shows "url_loop n (opt_part (CHR ''?'') q @ opt_part (CHR ''#'') f) s old fa u =
     Some (fa, put_opt UF_FRAGMENT (Suc (n + length (opt_part (CHR ''?'') q))) (the_part f)
       (put_opt UF_QUERY (Suc n) (the_part q) u))"
proof (cases q)
  case None
  then show ?thesis using assms url_loop_fragment [of f s old n fa u] by (auto simp: opt_part_def)
next
  case (Some v)
  have "parse_url_char s (CHR ''?'') = s_req_query_string_start"
    using assms(5) by (elim disjE) (simp_all add: parse_url_char_def server_char_def not_url_char)
  then have skip: "url_loop n (CHR ''?'' # r) s old fa u = url_loop (Suc n) r s_req_query_string_start old fa u" for r
    by (rule url_loop_skip) simp_all
  show ?thesis
  proof (cases "v = []")
    case True
    then show ?thesis using Some skip assms url_loop_fragment [of f s_req_query_string_start old "Suc n" fa u] by simp
  next
    case False
    have v: "\<forall>c\<in>set v. IS_URL_CHAR c \<or> c = CHR ''?''"
      using assms(1) Some by (auto simp: proper_query_def list_all_iff)
    have "url_loop (Suc n) (v @ r) s_req_query_string_start old fa u =
        url_loop (Suc n + length v) r s_req_query_string (Some UF_QUERY) fa (put_field UF_QUERY (Suc n) (length v) u)" for r
      using False v assms(3) by (intro url_loop_part) (simp_all add: query_step list.set_sel)
    then show ?thesis using Some skip False assms by (simp add: put_opt_def url_loop_fragment)
  qed
qed

lemma url_loop_path:
  assumes "proper_path p" "parse_url_char s (CHR ''/'') = s_req_path" "old \<noteq> Some UF_PATH"
  shows "url_loop n (p @ r) s old fa u =
     url_loop (n + length p) r s_req_path (Some UF_PATH) fa (put_field UF_PATH n (length p) u)"
  using assms by (intro url_loop_part) (simp_all add: proper_path_def list_all_iff path_step list.set_sel)

lemma host_chars_are_server_chars: "proper_origin r \<Longrightarrow> list_all IS_USERINFO_CHAR (o_host r @ print_port (o_port r))"
  by (auto simp: proper_origin_def list_all_iff print_port_def host_char_is_userinfo_char url_classes
      digit_is_userinfo_char dec_digits_all_digits [unfolded list_all_iff, rule_format] split: option.splits)

lemma url_loop_server:
  assumes "proper_origin r" "old \<noteq> Some UF_HOST"
  shows "url_loop n (print_server r @ rest) s_req_server_start old False u =
     url_loop (n + length (print_server r)) rest s_req_server (Some UF_HOST) (o_userinfo r \<noteq> None)
       (put_field UF_HOST n (length (print_server r)) u)"
proof -
  define hp where "hp = o_host r @ print_port (o_port r)"
  have hp: "hp \<noteq> []" "\<forall>c\<in>set hp. IS_USERINFO_CHAR c"
    using assms(1) host_chars_are_server_chars [of r] by (auto simp: hp_def proper_origin_def list_all_iff)
  show ?thesis
  proof (cases "o_userinfo r")
    case None
    have "url_loop n (hp @ rest) s_req_server_start old False u =
       url_loop (n + length hp) rest s_req_server (Some UF_HOST) False (put_field UF_HOST n (length hp) u)"
      using hp assms(2) by (intro url_loop_part) (simp_all add: server_steps list.set_sel)
    then show ?thesis using None by (simp add: print_server_def hp_def)
  next
    case (Some i)
    have i: "i \<noteq> []" "\<forall>c\<in>set i. IS_USERINFO_CHAR c"
      using assms(1) Some by (auto simp: proper_origin_def list_all_iff)
    have 1: "url_loop n (i @ CHR ''@'' # hp @ rest) s_req_server_start old False u =
       url_loop (n + length i) (CHR ''@'' # hp @ rest) s_req_server (Some UF_HOST) False (put_field UF_HOST n (length i) u)"
      using i assms(2) by (intro url_loop_part) (simp_all add: server_steps list.set_sel)
    have 2: "url_loop m (CHR ''@'' # hp @ rest) s_req_server (Some UF_HOST) False v =
       url_loop (Suc m) (hp @ rest) s_req_server_with_at (Some UF_HOST) True (grow_by UF_HOST 1 v)" for m v
      by (simp add: parse_url_char_def server_char_def grow_by_def grow_field_def)
    obtain c ds where c: "hp = c # ds" using hp(1) by (cases hp) auto
    have 3: "url_loop m (c # ds @ rest) s_req_server_with_at (Some UF_HOST) True v =
       url_loop (Suc m) (ds @ rest) s_req_server (Some UF_HOST) True (grow_by UF_HOST 1 v)" for m v
      using hp(2) c by (simp add: server_steps grow_by_def grow_field_def)
    have 4: "url_loop m (ds @ rest) s_req_server (Some UF_HOST) True v =
       url_loop (m + length ds) rest s_req_server (Some UF_HOST) True (grow_by UF_HOST (length ds) v)" for m v
      using hp(2) c by (intro url_loop_run) (simp_all add: server_steps)
    have "print_server r = i @ CHR ''@'' # c # ds"
      using Some c by (simp add: print_server_def hp_def)
    then show ?thesis using 1 2 3 4 Some c by (simp add: grow_put add.assoc del: url_loop.simps)
  qed
qed

lemma url_loop_origin:
  assumes "proper_origin r"
  shows "url_loop 0 (o_schema r @ ''://'' @ print_server r @ rest) s_req_spaces_before_url None False u =
     (let k = length (o_schema r); m = length (print_server r)
      in url_loop (k + 3 + m) rest s_req_server (Some UF_HOST) (o_userinfo r \<noteq> None)
           (put_field UF_HOST (k + 3) m (put_field UF_SCHEMA 0 k u)))"
proof -
  have sc: "o_schema r \<noteq> []" "\<forall>c\<in>set (o_schema r). IS_ALPHA c"
    using assms by (auto simp: proper_origin_def list_all_iff)
  have "url_loop 0 (o_schema r @ ''://'' @ print_server r @ rest) s_req_spaces_before_url None False u =
     url_loop (0 + length (o_schema r)) (''://'' @ print_server r @ rest) s_req_schema (Some UF_SCHEMA) False
       (put_field UF_SCHEMA 0 (length (o_schema r)) u)"
    using sc by (intro url_loop_part) (simp_all add: alpha_steps list.set_sel)
  also have "\<dots> = url_loop (length (o_schema r) + 3) (print_server r @ rest) s_req_server_start (Some UF_SCHEMA) False
       (put_field UF_SCHEMA 0 (length (o_schema r)) u)"
    by (simp add: parse_url_char_def not_alpha eval_nat_numeral)
  finally show ?thesis using url_loop_server [OF assms, of "Some UF_SCHEMA"] by (simp add: Let_def)
qed

section \<open>The server's part\<close>

lemma host_loop_run:
  assumes "\<forall>c\<in>set cs. http_parse_host_char s c = s" "\<forall>m v. host_field s m s v = grow_field f v" "s \<noteq> s_http_host_dead"
  shows "host_loop n (cs @ rest) s u = host_loop (n + length cs) rest s (grow_by f (length cs) u)"
  using assms(1)
proof (induction cs arbitrary: n u)
  case (Cons c cs)
  then show ?case using assms(2,3) by (simp add: Let_def grow_by_Suc)
qed simp

lemma host_loop_part:
  assumes "cs \<noteq> []" "http_parse_host_char s (hd cs) = t" "\<forall>c\<in>set (tl cs). http_parse_host_char t c = t"
    and "\<forall>m v. host_field t m t v = grow_field f v" "t \<noteq> s_http_host_dead"
    and "host_field s n t u = grow_field f v" "\<forall>k. grow_by f k (grow_field f v) = put_field f n (Suc k) u"
  shows "host_loop n (cs @ rest) s u = host_loop (n + length cs) rest t (put_field f n (length cs) u)"
proof -
  obtain c ds where "cs = c # ds" using assms(1) by (cases cs) auto
  then show ?thesis using assms(2-7) host_loop_run [of ds t f "Suc n" rest] by (simp add: Let_def)
qed

lemma field_grows:
  "host_field s_http_userinfo m s_http_userinfo v = grow_field UF_USERINFO v"
  "host_field s_http_host m s_http_host v = grow_field UF_HOST v"
  "host_field s_http_host_port m s_http_host_port v = grow_field UF_PORT v"
  "host_field s_http_userinfo_start n s_http_userinfo u = grow_field UF_USERINFO (open_field UF_USERINFO n u)"
  "host_field s_http_host_port_start n s_http_host_port u = grow_field UF_PORT (open_field UF_PORT n u)"
  "host_field s_http_host_start n s_http_host u = grow_field UF_HOST (u\<lparr>field_off := (field_off u)(UF_HOST := word_of_nat n)\<rparr>)"
  by (simp_all add: host_field_def)

lemma host_skips:
  "host_loop n (CHR ''@'' # r) s_http_userinfo u = host_loop (Suc n) r s_http_host_start u"
  "host_loop n (CHR '':'' # r) s_http_host u = host_loop (Suc n) r s_http_host_port_start u"
  by (simp_all add: userinfo_char_def after_host_char_def host_field_def not_host_char)

lemma host_loop_userinfo:
  assumes "i \<noteq> []" "list_all IS_USERINFO_CHAR i"
  shows "host_loop n (i @ CHR ''@'' # r) s_http_userinfo_start u =
     host_loop (n + length i + 1) r s_http_host_start (put_field UF_USERINFO n (length i) u)"
proof -
  have i: "\<forall>c\<in>set i. userinfo_char c = s_http_userinfo"
    using assms(2) by (auto simp: list_all_iff userinfo_char_def not_userinfo_char)
  have "host_loop n (i @ CHR ''@'' # r) s_http_userinfo_start u =
      host_loop (n + length i) (CHR ''@'' # r) s_http_userinfo (put_field UF_USERINFO n (length i) u)"
    using i assms(1)
    by (intro host_loop_part [where v = "open_field UF_USERINFO n u"]) (simp_all add: field_grows grow_opened list.set_sel)
  then show ?thesis by (simp add: host_skips del: host_loop.simps)
qed

text \<open>The host is a field already, whose length the routine has set to 0.\<close>

lemma host_loop_host:
  assumes "h \<noteq> []" "list_all IS_HOST_CHAR h" "UF_HOST \<in> field_set u" "field_len u UF_HOST = 0"
  shows "host_loop n (h @ r) s_http_host_start u =
     host_loop (n + length h) r s_http_host (put_field UF_HOST n (length h) u)"
proof -
  have h: "\<forall>c\<in>set h. IS_HOST_CHAR c \<and> c \<noteq> CHR ''[''"
    using assms(2) by (auto simp: list_all_iff not_host_char)
  have "grow_by UF_HOST k (grow_field UF_HOST (u\<lparr>field_off := (field_off u)(UF_HOST := word_of_nat n)\<rparr>)) =
      put_field UF_HOST n (Suc k) u" for k
    using assms(3,4) by (simp add: grow_by_def grow_field_def put_field_def insert_absorb)
  then show ?thesis
    using h assms(1)
    by (intro host_loop_part [where v = "u\<lparr>field_off := (field_off u)(UF_HOST := word_of_nat n)\<rparr>"]) (simp_all add: field_grows list.set_sel)
qed

lemma host_loop_port:
  "host_loop n (print_port p) s_http_host u =
     Some (if p = None then s_http_host else s_http_host_port, put_opt UF_PORT (n + 1) (the_part (map_option dec_digits p)) u)"
proof (cases p)
  case (Some q)
  have "\<forall>c\<in>set (dec_digits q). port_char c = s_http_host_port"
    using dec_digits_all_digits [of q] by (simp add: list_all_iff port_char_def is_num_iff)
  then have "host_loop m (dec_digits q @ []) s_http_host_port_start v =
     host_loop (m + length (dec_digits q)) [] s_http_host_port (put_field UF_PORT m (length (dec_digits q)) v)" for m v
    by (intro host_loop_part [where v = "open_field UF_PORT m v"]) (simp_all add: field_grows grow_opened list.set_sel)
  then have "host_loop m (dec_digits q) s_http_host_port_start v = Some (s_http_host_port, put_opt UF_PORT m (dec_digits q) v)" for m v
    by (simp add: put_opt_def)
  then show ?thesis using Some by (simp add: print_port_def host_skips del: host_loop.simps)
qed (simp add: print_port_def)

text \<open>What the routine makes of the record when the server's part starts at offset \<open>n\<close>.\<close>

definition server_fields :: "nat \<Rightarrow> origin \<Rightarrow> url_data \<Rightarrow> url_data" where
  "server_fields n r u =
     (let i = the_part (o_userinfo r); m = (if o_userinfo r = None then n else n + length i + 1)
      in put_opt UF_PORT (m + length (o_host r) + 1) (the_part (map_option dec_digits (o_port r)))
           (put_field UF_HOST m (length (o_host r)) (put_opt UF_USERINFO n i u)))"

lemma host_loop_server:
  assumes "proper_origin r" "UF_HOST \<in> field_set u" "field_len u UF_HOST = 0"
  shows "\<exists>s. host_may_end s \<and>
     host_loop n (print_server r) (if o_userinfo r \<noteq> None then s_http_userinfo_start else s_http_host_start) u =
       Some (s, server_fields n r u)"
proof -
  let ?s = "if o_port r = None then s_http_host else s_http_host_port"
  have host: "host_loop m (o_host r @ print_port (o_port r)) s_http_host_start v =
      Some (?s, put_opt UF_PORT (m + length (o_host r) + 1) (the_part (map_option dec_digits (o_port r)))
        (put_field UF_HOST m (length (o_host r)) v))" if "UF_HOST \<in> field_set v" "field_len v UF_HOST = 0" for m v
    using assms(1) that by (simp add: host_loop_host host_loop_port proper_origin_def)
  have "host_loop n (print_server r) (if o_userinfo r \<noteq> None then s_http_userinfo_start else s_http_host_start) u =
       Some (?s, server_fields n r u)"
  proof (cases "o_userinfo r")
    case None
    then show ?thesis using host assms by (simp add: print_server_def server_fields_def)
  next
    case (Some i)
    have "UF_HOST \<in> field_set (put_field UF_USERINFO n (length i) u)"
      "field_len (put_field UF_USERINFO n (length i) u) UF_HOST = 0"
      using assms by (simp_all add: put_field_def)
    then show ?thesis using Some host assms(1) host_loop_userinfo [of i n _ u]
      by (simp add: print_server_def server_fields_def proper_origin_def put_opt_def)
  qed
  moreover have "host_may_end ?s" by (simp add: host_may_end_def)
  ultimately show ?thesis by blast
qed

section \<open>The number of the port\<close>

lemma port_loop_digits:
  assumes "list_all is_digit s" "dec_value_from (unat v) s < 65536"
  shows "port_loop s v = Some (word_of_nat (dec_value_from (unat v) s))"
  using assms
proof (induction s arbitrary: v)
  case Nil
  then show ?case by simp
next
  case (Cons c s)
  let ?a = "unat v * 10 + digit_val c"
  have a: "?a < 65536" using dec_value_from_mono [of ?a s] Cons.prems(2) by simp
  have "schar c - 48 = int (digit_val c)"
    using Cons.prems(1) by (auto simp: schar_def is_digit_def digit_val_def)
  then have w: "v * 10 + word_of_int (schar c - schar (CHR ''0'')) = word_of_nat ?a"
    by (simp add: schar_def)
  have u: "unat (word_of_nat ?a :: u64) = ?a" using a by (simp only: unat_of_nat) (simp add: take_bit_nat_eq_self)
  then have "\<not> (0xffff :: u64) < word_of_nat ?a" using a by (simp only: word_less_nat_alt) simp
  then show ?case using Cons.IH [of "word_of_nat ?a"] Cons.prems w u by (simp add: Let_def)
qed

lemma port_loop_dec_digits: "p < 65536 \<Longrightarrow> port_loop (dec_digits p) 0 = Some (word_of_nat p)"
  using port_loop_digits [of "dec_digits p" 0] dec_digits_all_digits by simp

section \<open>Reading the parts\<close>

lemma field_text_at:
  assumes "field_off u f = word_of_nat (length pre)" "field_len u f = word_of_nat (length x)"
    "length (pre @ x) < 65536"
  shows "field_text (pre @ x @ post) u f = x"
  using assms by (simp add: field_text_def substring_def unat_of_nat take_bit_nat_eq_self)

definition part_of :: "string \<Rightarrow> url_data \<Rightarrow> url_field \<Rightarrow> string" where
  "part_of s u f = (if f \<in> field_set u then field_text s u f else [])"

lemma part_of_put_same:
  assumes "length pre = n" "n + length x < 65536"
  shows "part_of (pre @ x @ post) (put_field f n (length x) u) f = x"
  using assms field_text_at [of "put_field f n (length x) u" f pre x post]
  by (simp add: part_of_def put_field_def)

lemma part_of_put_other: "f \<noteq> g \<Longrightarrow> part_of s (put_field g n k u) f = part_of s u f"
  by (simp add: part_of_def put_field_def field_text_def)

lemma part_of_opt_other: "f \<noteq> g \<Longrightarrow> part_of s (put_opt g n v u) f = part_of s u f"
  by (simp add: put_opt_def part_of_put_other)

lemma part_of_opt_same:
  assumes "length pre = n" "n + length x < 65536" "f \<notin> field_set u"
  shows "part_of (pre @ x @ post) (put_opt f n x u) f = x"
  using assms part_of_put_same [of pre n x post f u] by (simp add: put_opt_def) (simp add: part_of_def)

text \<open>A parse into a cleared object sets every part, the absent ones to the empty string.\<close>

lemma UrlParse_parts:
  assumes "http_parser_parse_url s False = Some r"
  shows "UrlParse B parse_url_of s (UrlClear u) =
     ((UrlClear u)\<lparr>url_full := s, url_schema := part_of s r UF_SCHEMA, url_host := part_of s r UF_HOST,
        url_port := data_port r, url_path := part_of s r UF_PATH, url_query := part_of s r UF_QUERY,
        url_fragment := part_of s r UF_FRAGMENT, url_userinfo := part_of s r UF_USERINFO,
        url_parameters := (if part_of s r UF_QUERY = [] then [] else ParseQueryParameters B (part_of s r UF_QUERY))\<rparr>, True)"
  using assms
  by (simp add: UrlParse_def parse_url_of_def url_view_def UrlClear_def get_url_parts_def url_fields_def
      part_of_def field_text_def Let_def)

definition proper_url :: "origin option \<Rightarrow> string \<Rightarrow> string option \<Rightarrow> string option \<Rightarrow> bool" where
  "proper_url r p q f \<longleftrightarrow>
     (case r of None \<Rightarrow> proper_path p
      | Some o1 \<Rightarrow> proper_origin o1 \<and> (p = [] \<and> f = None \<or> proper_path p)) \<and>
     proper_query q \<and> proper_fragment f"

definition rest_fields :: "nat \<Rightarrow> string \<Rightarrow> string option \<Rightarrow> string option \<Rightarrow> url_data \<Rightarrow> url_data" where
  "rest_fields n p q f u =
     put_opt UF_FRAGMENT (n + length p + length (opt_part (CHR ''?'') q) + 1) (the_part f)
       (put_opt UF_QUERY (n + length p + 1) (the_part q) (put_opt UF_PATH n p u))"

lemma url_loop_rest:
  assumes "proper_path p \<and> (s = s_req_spaces_before_url \<or> s = s_req_server) \<or> p = [] \<and> s = s_req_server \<and> f = None"
    and "proper_query q" "proper_fragment f" "old \<notin> {Some UF_PATH, Some UF_QUERY, Some UF_FRAGMENT}"
  shows "url_loop n (p @ opt_part (CHR ''?'') q @ opt_part (CHR ''#'') f) s old fa u =
     Some (fa, rest_fields n p q f u)"
  using assms(1)
proof (elim disjE conjE)
  assume "p = []" "s = s_req_server" "f = None"
  then show ?thesis using assms(2-4) url_loop_query [of q f old s n fa u] by (simp add: rest_fields_def)
next
  assume p: "proper_path p" and s: "s = s_req_spaces_before_url"
  then have "parse_url_char s (CHR ''/'') = s_req_path" by (simp add: parse_url_char_def)
  then show ?thesis using p assms(2-4) by (simp add: rest_fields_def url_loop_path url_loop_query put_opt_def proper_path_def)
next
  assume p: "proper_path p" and s: "s = s_req_server"
  then have "parse_url_char s (CHR ''/'') = s_req_path" by (simp add: parse_url_char_def server_char_def)
  then show ?thesis using p assms(2-4) by (simp add: rest_fields_def url_loop_path url_loop_query put_opt_def proper_path_def)
qed

lemma put_opt_simps [simp]:
  "field_set (put_opt f n v u) = (if v = [] then field_set u else insert f (field_set u))"
  "data_port (put_opt f n v u) = data_port u"
  "f \<noteq> g \<Longrightarrow> field_off (put_opt f n v u) g = field_off u g"
  "f \<noteq> g \<Longrightarrow> field_len (put_opt f n v u) g = field_len u g"
  by (simp_all add: put_opt_def put_field_def)

lemma put_field_simps [simp]:
  "field_set (put_field f n k u) = insert f (field_set u)" "data_port (put_field f n k u) = data_port u"
  "field_off (put_field f n k u) g = (if f = g then word_of_nat n else field_off u g)"
  "field_len (put_field f n k u) g = (if f = g then word_of_nat k else field_len u g)"
  by (simp_all add: put_field_def)

lemma init_simps [simp]: "field_set http_parser_url_init = {}" "data_port http_parser_url_init = 0"
  by (simp_all add: http_parser_url_init_def)

lemma part_of_absent: "f \<notin> field_set u \<Longrightarrow> part_of s u f = []"
  by (simp add: part_of_def)

lemma part_of_init [simp]: "part_of s http_parser_url_init f = []"
  by (simp add: part_of_def)

lemma data_port_rest: "data_port (rest_fields n p q f u) = data_port u"
  by (simp add: rest_fields_def)

lemma part_of_rest_other:
  "f \<notin> {UF_PATH, UF_QUERY, UF_FRAGMENT} \<Longrightarrow> part_of s (rest_fields n p q fr u) f = part_of s u f"
  by (simp add: rest_fields_def part_of_opt_other)

lemma part_of_rest:
  assumes "length pre = n" "length (pre @ t) < 65536" "t = p @ opt_part (CHR ''?'') q @ opt_part (CHR ''#'') f"
    and "UF_PATH \<notin> field_set u" "UF_QUERY \<notin> field_set u" "UF_FRAGMENT \<notin> field_set u"
  shows "part_of (pre @ t) (rest_fields n p q f u) UF_PATH = p"
    "part_of (pre @ t) (rest_fields n p q f u) UF_QUERY = the_part q"
    "part_of (pre @ t) (rest_fields n p q f u) UF_FRAGMENT = the_part f"
proof -
  show "part_of (pre @ t) (rest_fields n p q f u) UF_PATH = p"
    using assms part_of_opt_same [of pre n p UF_PATH u "opt_part (CHR ''?'') q @ opt_part (CHR ''#'') f"]
    by (simp add: rest_fields_def part_of_opt_other)
  show "part_of (pre @ t) (rest_fields n p q f u) UF_QUERY = the_part q"
    using assms part_of_opt_same [of "pre @ p @ ''?''" "n + length p + 1" "the_part q" UF_QUERY
        "put_opt UF_PATH n p u" "opt_part (CHR ''#'') f"]
    by (cases q) (simp_all add: rest_fields_def part_of_opt_other part_of_absent)
  show "part_of (pre @ t) (rest_fields n p q f u) UF_FRAGMENT = the_part f"
    using assms part_of_opt_same [of "pre @ p @ opt_part (CHR ''?'') q @ ''#''" "n + length p + length (opt_part (CHR ''?'') q) + 1"
        "the_part f" UF_FRAGMENT "put_opt UF_QUERY (n + length p + 1) (the_part q) (put_opt UF_PATH n p u)" "[]"]
    by (cases f) (simp_all add: rest_fields_def part_of_opt_other part_of_absent)
qed

section \<open>The whole URL\<close>

definition origin_fields :: "origin \<Rightarrow> string \<Rightarrow> string option \<Rightarrow> string option \<Rightarrow> url_data" where
  "origin_fields r p q f =
     (let k = length (o_schema r); m = length (print_server r)
      in rest_fields (k + 3 + m) p q f (put_field UF_HOST (k + 3) m (put_field UF_SCHEMA 0 k http_parser_url_init)))"

definition cleared_host :: "url_data \<Rightarrow> url_data" where
  "cleared_host u = u\<lparr>field_len := (field_len u)(UF_HOST := 0)\<rparr>"

definition all_fields :: "origin \<Rightarrow> string \<Rightarrow> string option \<Rightarrow> string option \<Rightarrow> url_data" where
  "all_fields r p q f = server_fields (length (o_schema r) + 3) r (cleared_host (origin_fields r p q f))"

lemma cleared_host_simps [simp]:
  "field_set (cleared_host u) = field_set u" "data_port (cleared_host u) = data_port u"
  "field_len (cleared_host u) UF_HOST = 0"
  "g \<noteq> UF_HOST \<Longrightarrow> part_of s (cleared_host u) g = part_of s u g"
  by (simp_all add: cleared_host_def part_of_def field_text_def)

lemma url_loop_url:
  assumes "proper_url (Some r) p q f"
  shows "url_loop 0 (print_url (Some r) p q f) s_req_spaces_before_url None False http_parser_url_init =
     Some (o_userinfo r \<noteq> None, origin_fields r p q f)"
proof -
  have r: "proper_origin r" "p = [] \<and> f = None \<or> proper_path p" "proper_query q" "proper_fragment f"
    using assms by (simp_all add: proper_url_def)
  have "url_loop n (p @ opt_part (CHR ''?'') q @ opt_part (CHR ''#'') f) s_req_server (Some UF_HOST) fa u =
      Some (fa, rest_fields n p q f u)" for n fa u
    by (rule url_loop_rest) (use r in auto)
  then show ?thesis using url_loop_origin [OF r(1), of "p @ opt_part (CHR ''?'') q @ opt_part (CHR ''#'') f"]
    by (simp add: print_url_def print_origin_def Let_def origin_fields_def)
qed

lemma url_loop_target:
  assumes "proper_url None p q f"
  shows "url_loop 0 (print_url None p q f) s_req_spaces_before_url None False http_parser_url_init =
     Some (False, rest_fields 0 p q f http_parser_url_init)"
  using assms by (simp add: print_url_def print_origin_def url_loop_rest proper_url_def)

lemma parse_target:
  assumes "proper_url None p q f"
  shows "http_parser_parse_url (print_url None p q f) False = Some (rest_fields 0 p q f http_parser_url_init)"
proof -
  have "p \<noteq> []" using assms by (auto simp: proper_url_def proper_path_def)
  then have "print_url None p q f \<noteq> []" by (simp add: print_url_def print_origin_def)
  then show ?thesis using url_loop_target [OF assms]
    by (simp add: http_parser_parse_url_def rest_fields_def)
qed

lemma http_parse_host_url:
  assumes "proper_url (Some r) p q f" "length (print_url (Some r) p q f) < 65536"
  shows "http_parse_host (print_url (Some r) p q f) (origin_fields r p q f) (o_userinfo r \<noteq> None) =
     Some (all_fields r p q f)"
proof -
  let ?k = "length (o_schema r) + 3" and ?u = "origin_fields r p q f"
  have h: "field_off ?u UF_HOST = word_of_nat ?k" "field_len ?u UF_HOST = word_of_nat (length (print_server r))"
    "UF_HOST \<in> field_set ?u"
    by (simp_all add: origin_fields_def rest_fields_def Let_def)
  have t: "field_text (print_url (Some r) p q f) ?u UF_HOST = print_server r"
    using assms(2) h field_text_at [of ?u UF_HOST "o_schema r @ ''://''" "print_server r" "p @ opt_part (CHR ''?'') q @ opt_part (CHR ''#'') f"]
    by (simp add: print_url_def print_origin_def)
  have k: "unat (field_off ?u UF_HOST) = ?k"
    using assms(2) h(1) by (simp add: print_url_def print_origin_def unat_of_nat take_bit_nat_eq_self del: of_nat_add)
  obtain s where "host_may_end s"
    "host_loop ?k (print_server r) (if o_userinfo r \<noteq> None then s_http_userinfo_start else s_http_host_start) (cleared_host ?u) =
       Some (s, all_fields r p q f)"
    using host_loop_server [of r "cleared_host ?u" ?k] assms(1) h(3) by (auto simp: proper_url_def all_fields_def)
  then show ?thesis using t k by (simp add: http_parse_host_def cleared_host_def)
qed

lemma part_of_server:
  assumes "proper_origin r" "length (pre @ print_server r @ post) < 65536" "n = length pre"
    and "UF_PORT \<notin> field_set u" "UF_USERINFO \<notin> field_set u"
  shows "part_of (pre @ print_server r @ post) (server_fields n r u) UF_HOST = o_host r"
    "part_of (pre @ print_server r @ post) (server_fields n r u) UF_USERINFO = the_part (o_userinfo r)"
    "part_of (pre @ print_server r @ post) (server_fields n r u) UF_PORT = the_part (map_option dec_digits (o_port r))"
    "f \<notin> {UF_HOST, UF_USERINFO, UF_PORT} \<Longrightarrow> part_of s (server_fields n r u) f = part_of s u f"
proof -
  let ?i = "case o_userinfo r of None \<Rightarrow> [] | Some i \<Rightarrow> i @ ''@''"
  show "part_of (pre @ print_server r @ post) (server_fields n r u) UF_HOST = o_host r"
    using assms part_of_put_same [of "pre @ ?i" "n + length ?i" "o_host r" "print_port (o_port r) @ post" UF_HOST]
    by (cases "o_userinfo r") (simp_all add: server_fields_def Let_def print_server_def part_of_opt_other)
  show "part_of (pre @ print_server r @ post) (server_fields n r u) UF_USERINFO = the_part (o_userinfo r)"
    using assms part_of_opt_same [of pre n "the_part (o_userinfo r)" UF_USERINFO u "''@'' @ o_host r @ print_port (o_port r) @ post"]
    by (cases "o_userinfo r") (simp_all add: server_fields_def Let_def print_server_def part_of_opt_other part_of_put_other part_of_absent)
  show "part_of (pre @ print_server r @ post) (server_fields n r u) UF_PORT = the_part (map_option dec_digits (o_port r))"
    using assms part_of_opt_same [of "pre @ ?i @ o_host r @ '':''" "n + length ?i + length (o_host r) + 1"
        "the_part (map_option dec_digits (o_port r))" UF_PORT _ post]
    by (cases "o_userinfo r"; cases "o_port r")
      (simp_all add: server_fields_def Let_def print_server_def print_port_def part_of_absent)
qed (simp add: server_fields_def Let_def part_of_opt_other part_of_put_other)

lemma all_fields_parts:
  assumes "proper_url (Some r) p q f" "length (print_url (Some r) p q f) < 65536"
  defines "s \<equiv> print_url (Some r) p q f" and "u \<equiv> all_fields r p q f"
  shows "part_of s u UF_SCHEMA = o_schema r" "part_of s u UF_HOST = o_host r"
    "part_of s u UF_USERINFO = the_part (o_userinfo r)" "part_of s u UF_PORT = the_part (map_option dec_digits (o_port r))"
    "part_of s u UF_PATH = p" "part_of s u UF_QUERY = the_part q" "part_of s u UF_FRAGMENT = the_part f"
    "UF_PORT \<in> field_set u \<longleftrightarrow> o_port r \<noteq> None" "data_port u = 0"
proof -
  let ?t = "p @ opt_part (CHR ''?'') q @ opt_part (CHR ''#'') f"
  have r: "proper_origin r" using assms(1) by (simp add: proper_url_def)
  have s: "s = (o_schema r @ ''://'') @ print_server r @ ?t"
    by (simp add: s_def print_url_def print_origin_def)
  have len: "length ((o_schema r @ ''://'') @ print_server r @ ?t) < 65536" using assms(2) s by (simp add: s_def)
  have set: "UF_PORT \<notin> field_set (cleared_host (origin_fields r p q f))"
    "UF_USERINFO \<notin> field_set (cleared_host (origin_fields r p q f))"
    by (simp_all add: origin_fields_def rest_fields_def Let_def)
  note server = part_of_server [OF r len _ set, of "length (o_schema r) + 3", folded s all_fields_def [of r p q f], folded u_def]
  show "part_of s u UF_HOST = o_host r" "part_of s u UF_USERINFO = the_part (o_userinfo r)"
    "part_of s u UF_PORT = the_part (map_option dec_digits (o_port r))"
    using server(1-3) by simp_all
  have other: "part_of s u g = part_of s (origin_fields r p q f) g" if "g \<notin> {UF_HOST, UF_USERINFO, UF_PORT}" for g
    using server(4) [of g s] that by simp
  have sc: "part_of s (put_field UF_SCHEMA 0 (length (o_schema r)) http_parser_url_init) UF_SCHEMA = o_schema r"
    using part_of_put_same [of "[]" 0 "o_schema r"] len s by simp
  show "part_of s u UF_SCHEMA = o_schema r"
    using other [of UF_SCHEMA] sc by (simp add: origin_fields_def Let_def part_of_rest_other part_of_put_other)
  define n v where "n = length (o_schema r) + 3 + length (print_server r)"
    and "v = put_field UF_HOST (length (o_schema r) + 3) (length (print_server r)) (put_field UF_SCHEMA 0 (length (o_schema r)) http_parser_url_init)"
  have o: "origin_fields r p q f = rest_fields n p q f v" by (simp add: origin_fields_def n_def v_def Let_def)
  have s2: "s = ((o_schema r @ ''://'') @ print_server r) @ ?t" using s by simp
  have v: "UF_PATH \<notin> field_set v" "UF_QUERY \<notin> field_set v" "UF_FRAGMENT \<notin> field_set v"
    by (simp_all add: v_def)
  note rest = part_of_rest [of "(o_schema r @ ''://'') @ print_server r" n ?t, OF _ _ refl v, folded s2]
  have "length s < 65536" using assms(2) by (simp add: s_def)
  then show "part_of s u UF_PATH = p" "part_of s u UF_QUERY = the_part q" "part_of s u UF_FRAGMENT = the_part f"
    using rest other [unfolded o] by (simp_all add: n_def)
  show "UF_PORT \<in> field_set u \<longleftrightarrow> o_port r \<noteq> None" "data_port u = 0"
    by (cases "o_port r"; simp add: u_def all_fields_def server_fields_def origin_fields_def rest_fields_def Let_def)+
qed

definition port_word :: "nat option \<Rightarrow> u16" where
  "port_word p = (case p of None \<Rightarrow> 0 | Some n \<Rightarrow> word_of_nat n)"

lemma parse_with_origin:
  assumes "proper_url (Some r) p q f" "length (print_url (Some r) p q f) < 65536"
  shows "http_parser_parse_url (print_url (Some r) p q f) False =
     Some ((all_fields r p q f)\<lparr>data_port := port_word (o_port r)\<rparr>)"
proof -
  let ?s = "print_url (Some r) p q f" and ?u = "all_fields r p q f"
  note parts = all_fields_parts [OF assms]
  have ne: "?s \<noteq> []" by (simp add: print_url_def print_origin_def)
  have host: "UF_HOST \<in> field_set (origin_fields r p q f)"
    by (simp add: origin_fields_def rest_fields_def Let_def)
  have same: "?u\<lparr>data_port := 0\<rparr> = ?u" using parts(9) by simp
  show ?thesis
  proof (cases "o_port r")
    case None
    then show ?thesis using ne host same parts(8) url_loop_url [OF assms(1)] http_parse_host_url [OF assms]
      by (simp add: http_parser_parse_url_def port_word_def)
  next
    case (Some n)
    have "n < 65536" using assms(1) Some by (simp add: proper_url_def proper_origin_def)
    moreover have "field_text ?s ?u UF_PORT = dec_digits n"
      using parts(4,8) Some by (simp add: part_of_def)
    ultimately show ?thesis
      using Some ne host parts(8) url_loop_url [OF assms(1)] http_parse_host_url [OF assms]
      by (simp add: http_parser_parse_url_def port_word_def port_loop_dec_digits)
  qed
qed

text \<open>
  (C36) A URL is read back as it was written: whatever its scheme, user information, host, port,
  path, query and fragment are, as long as the text has fewer than 65536 characters, the parse
  succeeds and gives just these parts, the parameters of the query and the full text; a part
  that is absent is empty (a request's usual target has no scheme and no server's part).
\<close>
theorem url_is_read_back:
  assumes "proper_url r p q f" "length (print_url r p q f) < 65536"
  shows "UrlParse B parse_url_of (print_url r p q f) (UrlClear u) =
     ((UrlClear u)\<lparr>url_full := print_url r p q f,
        url_schema := (case r of None \<Rightarrow> [] | Some s \<Rightarrow> o_schema s),
        url_host := (case r of None \<Rightarrow> [] | Some s \<Rightarrow> o_host s),
        url_port := (case r of None \<Rightarrow> 0 | Some s \<Rightarrow> port_word (o_port s)),
        url_path := p, url_query := the_part q, url_fragment := the_part f,
        url_userinfo := (case r of None \<Rightarrow> [] | Some s \<Rightarrow> the_part (o_userinfo s)),
        url_parameters := (if the_part q = [] then [] else ParseQueryParameters B (the_part q))\<rparr>, True)"
proof (cases r)
  case None
  have len: "length ([] @ print_url None p q f) < 65536" using assms(2) None by simp
  note rest = part_of_rest [of "[]" 0 "print_url None p q f" p q f http_parser_url_init, OF _ len]
  show ?thesis
    using None UrlParse_parts [OF parse_target, of p q f B u] assms(1) rest
    by (simp add: print_url_def print_origin_def part_of_rest_other data_port_rest)
next
  case (Some s)
  have port: "part_of t (v\<lparr>data_port := w\<rparr>) g = part_of t v g" for t v w g
    by (simp add: part_of_def field_text_def)
  show ?thesis
    using Some assms UrlParse_parts [OF parse_with_origin, of s p q f B u] all_fields_parts [of s p q f]
    by (simp add: port)
qed

theorem url_is_read_back_witness:
  "UrlParse boost_classic parse_url_of ''http://me:pw@a-b.cn:81/x/y?k=v#top'' (UrlClear empty_url) =
     (empty_url\<lparr>url_full := ''http://me:pw@a-b.cn:81/x/y?k=v#top'', url_schema := ''http'', url_host := ''a-b.cn'',
        url_port := 81, url_path := ''/x/y'', url_query := ''k=v'', url_fragment := ''top'', url_userinfo := ''me:pw'',
        url_parameters := ParseQueryParameters boost_classic ''k=v''\<rparr>, True)"
proof -
  let ?r = "\<lparr>o_schema = ''http'', o_userinfo = Some ''me:pw'', o_host = ''a-b.cn'', o_port = Some 81\<rparr>"
  have digits: "dec_digits 81 = ''81''" by code_simp
  have printed: "print_url (Some ?r) ''/x/y'' (Some ''k=v'') (Some ''top'') = ''http://me:pw@a-b.cn:81/x/y?k=v#top''"
    by (simp add: print_url_def print_origin_def print_server_def print_port_def digits)
  have "proper_url (Some ?r) ''/x/y'' (Some ''k=v'') (Some ''top'')"
    by (simp add: proper_url_def proper_origin_def proper_path_def proper_query_def proper_fragment_def class_defs)
  from url_is_read_back [OF this, of boost_classic empty_url] show ?thesis
    by (simp add: printed port_word_def UrlClear_def empty_url_def)
qed

section \<open>Every part lies within the text\<close>

definition within :: "nat \<Rightarrow> url_data \<Rightarrow> bool" where
  "within n u \<longleftrightarrow> (\<forall>f. unat (field_off u f) + unat (field_len u f) \<le> n)"

lemma unat_inc: "unat (w + 1 :: u16) \<le> Suc (unat w)"
  using unat_plus_if' [of w 1] by (simp split: if_splits)

lemma unat_of_nat_le: "unat (word_of_nat n :: u16) \<le> n"
  by (simp add: unat_of_nat take_bit_nat_less_eq_self)

lemma field_le_grow:
  "unat (field_off (grow_field f u) g) + unat (field_len (grow_field f u) g) \<le> Suc (unat (field_off u g) + unat (field_len u g))"
  using unat_inc [of "field_len u f"] by (simp add: grow_field_def)

lemma within_grow: "within n u \<Longrightarrow> within (Suc n) (grow_field f u)"
  unfolding within_def by (meson field_le_grow Suc_le_mono le_trans)

lemma within_open: "within n u \<Longrightarrow> within n (open_field f n u)"
  by (simp add: within_def open_field_def unat_of_nat_le)

lemma within_Suc: "within n u \<Longrightarrow> within (Suc n) u"
  by (simp add: within_def le_SucI)

lemma url_loop_within:
  "url_loop n s st old fa u = Some (fb, v) \<Longrightarrow> within n u \<Longrightarrow> within (n + length s) v"
proof (induction n s st old fa u rule: url_loop.induct)
  case (2 n ch chs st old fa u)
  show ?case
  proof (cases "field_of_state (parse_url_char st ch)")
    case None
    then show ?thesis using 2 within_Suc by (simp add: Let_def split: if_splits)
  next
    case (Some uf)
    define w where "w = grow_field uf (if Some uf = old then u else open_field uf n u)"
    have "within (Suc n) w" using 2(4) by (simp add: w_def within_grow within_open)
    moreover have "parse_url_char st ch \<noteq> s_dead" using Some by auto
    moreover have "url_loop (Suc n) chs (parse_url_char st ch) (Some uf) (fa \<or> parse_url_char st ch = s_req_server_with_at) w =
        Some (fb, v)"
      using 2(3) Some calculation(2) by (simp add: w_def Let_def)
    ultimately show ?thesis using 2(2) [OF refl refl _ Some] by (simp add: w_def)
  qed
qed simp

text \<open>In the server's part the bound of the three parts it holds moves with the loop.\<close>

definition host_within :: "nat \<Rightarrow> url_data \<Rightarrow> bool" where
  "host_within n u \<longleftrightarrow> (\<forall>f\<in>{UF_HOST, UF_PORT, UF_USERINFO}. unat (field_off u f) + unat (field_len u f) \<le> n)"

lemma host_field_other: "f \<notin> {UF_HOST, UF_PORT, UF_USERINFO} \<Longrightarrow>
    field_off (host_field s n t u) f = field_off u f \<and> field_len (host_field s n t u) f = field_len u f"
  by (simp add: host_field_def grow_field_def open_field_def split: http_host_state.split)

lemma host_within_grow: "host_within n u \<Longrightarrow> host_within (Suc n) (grow_field f u)"
  unfolding host_within_def by (meson field_le_grow Suc_le_mono le_trans)

lemma host_within_open: "host_within n u \<Longrightarrow> host_within n (open_field f n u)"
  by (simp add: host_within_def open_field_def unat_of_nat_le)

lemma host_within_Suc: "host_within n u \<Longrightarrow> host_within (Suc n) u"
  by (simp add: host_within_def le_SucI)

lemma host_within_moved:
  "host_within n u \<Longrightarrow> field_len u UF_HOST = 0 \<Longrightarrow> host_within n (u\<lparr>field_off := (field_off u)(UF_HOST := word_of_nat n)\<rparr>)"
  by (simp add: host_within_def unat_of_nat_le)

text \<open>Until the host begins its length is 0.\<close>

definition before_host :: "http_host_state \<Rightarrow> bool" where
  "before_host s \<longleftrightarrow> s \<in> {s_http_userinfo_start, s_http_userinfo, s_http_host_start, s_http_host_v6_start}"

lemma host_char_enters:
  "http_parse_host_char s ch = s_http_host \<Longrightarrow> s \<noteq> s_http_host \<Longrightarrow> before_host s"
  "http_parse_host_char s ch = s_http_host_v6 \<Longrightarrow> s \<noteq> s_http_host_v6 \<Longrightarrow> before_host s"
  "before_host (http_parse_host_char s ch) \<Longrightarrow> before_host s"
  by (cases s; simp add: before_host_def userinfo_char_def after_host_char_def zone_char_def port_char_def split: if_splits)+

lemma before_host_length:
  "before_host t \<Longrightarrow> field_len u UF_HOST = 0 \<Longrightarrow> field_len (host_field s n t u) UF_HOST = 0"
  by (auto simp: before_host_def host_field_def grow_field_def open_field_def)

lemma host_within_step:
  assumes "host_within n u" "before_host s \<longrightarrow> field_len u UF_HOST = 0"
  shows "host_within (Suc n) (host_field s n (http_parse_host_char s ch) u)"
  using assms host_char_enters [of s ch]
  by (cases "http_parse_host_char s ch")
    (simp_all add: host_field_def host_within_grow host_within_moved host_within_open host_within_Suc)

lemma host_loop_within:
  "host_loop n s st u = Some (st2, v) \<Longrightarrow> host_within n u \<Longrightarrow> before_host st \<longrightarrow> field_len u UF_HOST = 0 \<Longrightarrow>
   host_within (n + length s) v"
proof (induction n s st u rule: host_loop.induct)
  case (2 n ch chs s u)
  let ?t = "http_parse_host_char s ch"
  have "before_host ?t \<longrightarrow> field_len (host_field s n ?t u) UF_HOST = 0"
    using 2(4) host_char_enters(3) before_host_length by blast
  then show ?case
    using 2(1) [OF refl] 2(2) host_within_step [OF 2(3,4), of ch] by (simp add: Let_def split: if_splits)
qed simp

lemma host_loop_other:
  "host_loop n s st u = Some (st2, v) \<Longrightarrow> f \<notin> {UF_HOST, UF_PORT, UF_USERINFO} \<Longrightarrow>
   field_off v f = field_off u f \<and> field_len v f = field_len u f"
proof (induction n s st u rule: host_loop.induct)
  case (2 n ch chs s u)
  then show ?case using host_field_other [of f s n "http_parse_host_char s ch" u]
    by (simp add: Let_def split: if_splits)
qed simp

lemma within_iff_host_within:
  "within n u \<longleftrightarrow> host_within n u \<and> (\<forall>f. f \<notin> {UF_HOST, UF_PORT, UF_USERINFO} \<longrightarrow> unat (field_off u f) + unat (field_len u f) \<le> n)"
  unfolding within_def host_within_def by blast

lemma url_loop_other:
  assumes "f = UF_PORT \<or> f = UF_USERINFO"
  shows "url_loop n s st old fa u = Some (fb, v) \<Longrightarrow> field_off v f = field_off u f \<and> field_len v f = field_len u f"
proof (induction n s st old fa u rule: url_loop.induct)
  case (2 n ch chs st old fa u)
  show ?case
  proof (cases "field_of_state (parse_url_char st ch)")
    case None
    then show ?thesis using 2 by (simp add: Let_def split: if_splits)
  next
    case (Some uf)
    define w where "w = grow_field uf (if Some uf = old then u else open_field uf n u)"
    have "uf \<noteq> f" using Some assms by (cases "parse_url_char st ch") auto
    then have "field_off w f = field_off u f \<and> field_len w f = field_len u f"
      by (simp add: w_def grow_field_def open_field_def)
    moreover have "parse_url_char st ch \<noteq> s_dead" using Some by auto
    ultimately show ?thesis using 2(2) [OF refl refl _ Some] 2(3) Some by (simp add: w_def Let_def)
  qed
qed simp

lemma http_parse_host_within:
  assumes "http_parse_host buf u fa = Some v" "within n u"
    and "\<forall>f\<in>{UF_PORT, UF_USERINFO}. field_off u f = 0 \<and> field_len u f = 0"
  shows "within n v"
proof -
  let ?s = "if fa then s_http_userinfo_start else s_http_host_start"
  let ?u = "cleared_host u" and ?o = "unat (field_off u UF_HOST)" and ?t = "field_text buf u UF_HOST"
  obtain t where loop: "host_loop ?o ?t ?s ?u = Some (t, v)"
    using assms(1) by (auto simp: http_parse_host_def cleared_host_def split: option.splits prod.splits if_splits)
  have "length ?t \<le> unat (field_len u UF_HOST)" by (simp add: field_text_def substring_def)
  moreover have "?o + unat (field_len u UF_HOST) \<le> n" using assms(2) by (simp add: within_def)
  ultimately have len: "?o + length ?t \<le> n" by linarith
  have "host_within ?o ?u" using assms(3) by (simp add: host_within_def cleared_host_def)
  then have "host_within (?o + length ?t) v" using host_loop_within [OF loop] by simp
  then have "host_within n v" using len unfolding host_within_def by (meson le_trans)
  moreover have "unat (field_off v f) + unat (field_len v f) \<le> n" if "f \<notin> {UF_HOST, UF_PORT, UF_USERINFO}" for f
    using that host_loop_other [OF loop that] assms(2) by (simp add: within_def cleared_host_def)
  ultimately show ?thesis by (simp add: within_iff_host_within)
qed

text \<open>
  (C37) The parser never reports a part outside the text it was given: every offset and length of
  a successful parse, also where they are cut to 16 bits and for a \<^verbatim>\<open>CONNECT\<close> target, stay
  within the text, so that no part is read past its end and the parser's own assertion on the
  port holds.
\<close>
theorem url_parts_within_text:
  assumes "http_parser_parse_url s is_connect = Some u"
  shows "unat (field_off u f) + unat (field_len u f) \<le> length s"
proof -
  obtain fa w v where loop: "url_loop 0 s (if is_connect then s_req_server_start else s_req_spaces_before_url) None False
        http_parser_url_init = Some (fa, w)"
    and v: "(if UF_HOST \<in> field_set w then http_parse_host s w fa else Some w) = Some v"
    and u: "\<forall>f. field_off u f = field_off v f \<and> field_len u f = field_len v f"
    using assms unfolding http_parser_parse_url_def
    by (auto split: if_splits option.splits prod.splits)
  have "within 0 http_parser_url_init" by (simp add: within_def http_parser_url_init_def)
  then have w: "within (length s) w" using url_loop_within [OF loop] by simp
  have "\<forall>f\<in>{UF_PORT, UF_USERINFO}. field_off w f = 0 \<and> field_len w f = 0"
    using url_loop_other [OF _ loop] by (simp add: http_parser_url_init_def)
  then have "within (length s) v" using v w http_parse_host_within by (auto split: if_splits)
  then show ?thesis using u by (simp add: within_def)
qed

theorem url_parts_within_text_witness:
  "\<exists>u. http_parser_parse_url ''host:1'' True = Some u \<and> unat (field_off u UF_PORT) + unat (field_len u UF_PORT) \<le> 6"
proof -
  have "http_parser_parse_url ''host:1'' True \<noteq> None"
    by (simp add: http_parser_parse_url_def parse_url_char_def server_char_def class_defs http_parser_url_init_def
        grow_field_def open_field_def http_parse_host_def field_text_def substring_def after_host_char_def port_char_def
        host_field_def host_may_end_def insert_commute)
  then obtain u where "http_parser_parse_url ''host:1'' True = Some u" by blast
  then show ?thesis using url_parts_within_text [of "''host:1''" True u UF_PORT] by simp
qed

section \<open>Paths longer than 16 bits can count\<close>

text \<open>
  The length of a part is cut to 16 bits, and the parse succeeds: of a path of 65536 + \<open>k\<close>
  characters the server sees the first \<open>k\<close>, so that the URL is routed as another one.
\<close>
lemma long_path_is_cut:
  assumes "proper_path p"
  shows "url_path (fst (UrlParse B parse_url_of p (UrlClear u))) = take (length p mod 65536) p \<and>
     snd (UrlParse B parse_url_of p (UrlClear u))"
proof -
  have "http_parser_parse_url p False = Some (rest_fields 0 p None None http_parser_url_init)"
    using assms parse_target [of p None None]
    by (simp add: proper_url_def proper_query_def proper_fragment_def print_url_def print_origin_def)
  moreover have "p \<noteq> []" using assms by (simp add: proper_path_def)
  ultimately show ?thesis
    by (simp add: UrlParse_parts part_of_def rest_fields_def put_opt_def field_text_def substring_def unat_of_nat
        take_bit_eq_mod)
qed

lemma long_path_is_another:
  "url_path (fst (UrlParse B parse_url_of (''/'' @ replicate 65536 (CHR ''a'')) (UrlClear u))) = ''/''"
proof -
  have "proper_path (''/'' @ replicate 65536 (CHR ''a''))"
    by (simp add: proper_path_def list_all_iff url_char_examples)
  then show ?thesis using long_path_is_cut [of "''/'' @ replicate 65536 (CHR ''a'')" B u]
    by (simp)
qed

end
