(* ===== verification/Digests.thy ===== *)
theory Digests
  imports Prelude
begin

text \<open>
  \<^verbatim>\<open>utilities/md5_utilities.cpp\<close>, \<^verbatim>\<open>des3_utilities.cpp\<close> and \<^verbatim>\<open>hmac_sha1_utilities.cpp\<close>.  OpenSSL's
  functions are arguments: \<^verbatim>\<open>MD5\<close> and \<^verbatim>\<open>SHA1\<close> map a message to its digest, \<^verbatim>\<open>HMAC\<close> a key with its
  size and a message, and the DES cipher a direction, a key of 8 bytes and a block of 8 bytes to
  a block.
\<close>

abbreviation NUL :: char where
  "NUL \<equiv> CHR 0x00"

text \<open>A \<^verbatim>\<open>std::string\<close> made of a character pointer ends before the first zero.\<close>

definition c_string :: "string \<Rightarrow> string" where
  "c_string s = takeWhile (\<lambda>c. c \<noteq> NUL) s"

section \<open>MD5\<close>

datatype MD5ResultEncoding = raw_encoding | hex_encoding

definition hex_lower :: "nat \<Rightarrow> char" where
  "hex_lower n = (if n < 10 then char_of (48 + n) else char_of (87 + n))"

text \<open>\<^verbatim>\<open>sprintf\<close> with \<^verbatim>\<open>%02x\<close> on a byte.\<close>

definition print_02x :: "char \<Rightarrow> string" where
  "print_02x c = [hex_lower (code c div 16), hex_lower (code c mod 16)]"

text \<open>
  The digest is written over a buffer of 33 zeros; the loop prints its first 32 bytes, the
  digest's and zeros, and the text is then cut to 32 characters.
\<close>

definition md_buffer :: "string \<Rightarrow> string" where
  "md_buffer d = d @ drop (length d) (replicate 33 NUL)"

definition md5_both :: "(string \<Rightarrow> string) \<Rightarrow> string \<Rightarrow> string \<times> string" where
  "md5_both openssl_md5 srcStr =
     (let mdStr = md_buffer (openssl_md5 srcStr);
          buf = concat (map (\<lambda>i. print_02x (mdStr ! i)) [0..<32])
      in (c_string mdStr, c_string (take 32 buf)))"

definition MD5 :: "(string \<Rightarrow> string) \<Rightarrow> string \<Rightarrow> MD5ResultEncoding \<Rightarrow> string" where
  "MD5 openssl_md5 src encoding =
     (let (dst, dst_hex) = md5_both openssl_md5 src
      in if encoding = hex_encoding then dst_hex else dst)"

section \<open>DES\<close>

datatype des_direction = DES_ENCRYPT | DES_DECRYPT

type_synonym des_cipher = "des_direction \<Rightarrow> string \<Rightarrow> string \<Rightarrow> string"

definition zero_block :: string where
  "zero_block = replicate 8 NUL"

text \<open>\<^verbatim>\<open>memset\<close> to zeros and \<^verbatim>\<open>memcpy\<close> of at most 8 bytes.\<close>

definition fill_block :: "string \<Rightarrow> string" where
  "fill_block s = take 8 s @ drop (length (take 8 s)) zero_block"

definition DESEncrypt :: "des_cipher \<Rightarrow> string \<Rightarrow> string \<Rightarrow> string" where
  "DESEncrypt des_ecb clearText key =
     (let keyEncrypt = (if length key \<le> 8 then fill_block key else take 8 key);
          n = length clearText;
          whole = concat (map (\<lambda>i. des_ecb DES_ENCRYPT keyEncrypt (take 8 (drop (i * 8) clearText))) [0..<n div 8]);
          tmp1 = n div 8 * 8
      in if n mod 8 \<noteq> 0 then whole @ des_ecb DES_ENCRYPT keyEncrypt (fill_block (drop tmp1 clearText)) else whole)"

text \<open>The loop over a decrypted block stops at its first zero.\<close>

definition DESDecrypt :: "des_cipher \<Rightarrow> string \<Rightarrow> string \<Rightarrow> string" where
  "DESDecrypt des_ecb cipherText key =
     (let keyEncrypt = (if length key \<le> 8 then fill_block key else take 8 key);
          n = length cipherText;
          whole = concat (map (\<lambda>i. c_string (des_ecb DES_DECRYPT keyEncrypt (take 8 (drop (i * 8) cipherText)))) [0..<n div 8]);
          tmp1 = n div 8 * 8
      in if n mod 8 \<noteq> 0 then whole @ c_string (des_ecb DES_DECRYPT keyEncrypt (fill_block (drop tmp1 cipherText))) else whole)"

section \<open>HMAC and SHA1\<close>

text \<open>\<open>None\<close> is the assertion on the size of the digest; the key's size is cast to an \<^verbatim>\<open>int\<close>.\<close>

definition HMA_SHA1_sized :: "(string \<Rightarrow> int \<Rightarrow> string \<Rightarrow> string) \<Rightarrow> string \<Rightarrow> int \<Rightarrow> string \<Rightarrow> string option" where
  "HMA_SHA1_sized openssl_hmac key key_size src =
     (let dst = openssl_hmac key key_size src in if length dst \<le> 20 then Some dst else None)"

definition HMA_SHA1 :: "(string \<Rightarrow> int \<Rightarrow> string \<Rightarrow> string) \<Rightarrow> string \<Rightarrow> string \<Rightarrow> string option" where
  "HMA_SHA1 openssl_hmac key src = HMA_SHA1_sized openssl_hmac key (sint (word_of_nat (length key) :: u32)) src"

text \<open>The digest is written over 20 zeros.\<close>

definition SHA1 :: "(string \<Rightarrow> string) \<Rightarrow> string \<Rightarrow> string" where
  "SHA1 openssl_sha1 src = (let d = openssl_sha1 src in d @ drop (length d) (replicate 20 NUL))"

end
