(* ===== verification/DigestsProofs.thy ===== *)
theory DigestsProofs
  imports Digests
begin

text \<open>
  What the encoders of \<open>Digests\<close> keep of their input: the hexadecimal digest keeps all of it, the
  raw digest what precedes a zero byte; a text that was enciphered block by block is deciphered
  to itself up to the zeros of each block.
\<close>

section \<open>The hexadecimal digest\<close>

definition hex_lower_val :: "char \<Rightarrow> nat" where
  "hex_lower_val c = (if code c < 58 then code c - 48 else code c - 87)"

fun read_02x :: "string \<Rightarrow> string" where
  "read_02x (a # b # s) = char_of (hex_lower_val a * 16 + hex_lower_val b) # read_02x s"
| "read_02x _ = []"

lemma hex_lower_val_hex_lower [simp]: "n < 16 \<Longrightarrow> hex_lower_val (hex_lower n) = n"
  by (simp add: hex_lower_val_def hex_lower_def)

lemma hex_lower_not_NUL: "n < 16 \<Longrightarrow> hex_lower n \<noteq> NUL"
proof
  assume "n < 16" "hex_lower n = NUL"
  then have "code (hex_lower n) = 0" by simp
  then show False using \<open>n < 16\<close> by (simp add: hex_lower_def split: if_splits)
qed

lemma code_div_16: "code c div 16 < 16" "code c mod 16 < 16"
  using code_less_256 [of c] by linarith+

lemma read_print_02x: "read_02x (concat (map print_02x s)) = s"
  by (induction s) (simp_all add: print_02x_def code_div_16)

lemma length_print_02x: "length (concat (map print_02x s)) = 2 * length s"
  by (induction s) (simp_all add: print_02x_def)

lemma print_02x_not_NUL: "NUL \<notin> set (concat (map print_02x s))"
  using hex_lower_not_NUL [OF code_div_16(1)] hex_lower_not_NUL [OF code_div_16(2)]
  by (induction s) (auto simp: print_02x_def dest: sym)

lemma c_string_id: "NUL \<notin> set s \<Longrightarrow> c_string s = s"
  by (simp add: c_string_def takeWhile_eq_all_conv) metis

lemma md5_hex:
  assumes "length d = 16"
  shows "take 32 (concat (map (\<lambda>i. print_02x (md_buffer d ! i)) [0..<32])) = concat (map print_02x d)"
proof -
  have "map (\<lambda>i. print_02x (md_buffer d ! i)) [0..<32] = map print_02x (map ((!) (md_buffer d)) [0..<32])" by simp
  also have "map ((!) (md_buffer d)) [0..<32] = take 32 (md_buffer d)"
    using assms by (intro nth_equalityI) (auto simp: md_buffer_def nth_append)
  also have "\<dots> = d @ replicate 16 NUL" using assms by (simp add: md_buffer_def)
  finally show ?thesis using assms length_print_02x [of d] by simp
qed

text \<open>
  The hexadecimal MD5 text has 32 characters from which the digest is read back; the raw
  one is the digest exactly when this has no zero byte, and otherwise what precedes it.
\<close>
theorem md5_texts:
  assumes "length (openssl_md5 s) = 16"
  shows "length (MD5 openssl_md5 s hex_encoding) = 32 \<and> read_02x (MD5 openssl_md5 s hex_encoding) = openssl_md5 s \<and>
     (MD5 openssl_md5 s raw_encoding = openssl_md5 s \<longleftrightarrow> NUL \<notin> set (openssl_md5 s))"
proof -
  let ?d = "openssl_md5 s"
  have "MD5 openssl_md5 s hex_encoding = concat (map print_02x ?d)"
    using assms md5_hex [of ?d] c_string_id [OF print_02x_not_NUL, of ?d] by (simp add: MD5_def md5_both_def Let_def)
  moreover have "MD5 openssl_md5 s raw_encoding = c_string (?d @ replicate 17 NUL)"
    using assms by (simp add: MD5_def md5_both_def Let_def md_buffer_def)
  moreover have "c_string (?d @ replicate 17 NUL) = ?d \<longleftrightarrow> NUL \<notin> set ?d"
  proof
    assume "c_string (?d @ replicate 17 NUL) = ?d"
    then have "\<forall>c\<in>set ?d. c \<noteq> NUL" using set_takeWhileD unfolding c_string_def by metis
    then show "NUL \<notin> set ?d" by blast
  next
    assume "NUL \<notin> set ?d"
    then show "c_string (?d @ replicate 17 NUL) = ?d"
      unfolding c_string_def by (subst takeWhile_append2) auto
  qed
  ultimately show ?thesis using assms read_print_02x length_print_02x by simp
qed

theorem md5_texts_witness:
  "read_02x (MD5 (\<lambda>s. ''0123456789abcdef'') ''x'' hex_encoding) = ''0123456789abcdef''"
  using md5_texts [of "\<lambda>s. ''0123456789abcdef''" "''x''"] by simp

text \<open>A digest with a zero byte in front is the empty raw text.\<close>

lemma raw_digest_is_cut:
  "MD5 (\<lambda>s. NUL # ''123456789abcdef'') s raw_encoding = []"
  by (simp add: MD5_def md5_both_def md_buffer_def c_string_def Let_def)

section \<open>Blocks\<close>

text \<open>A text in blocks of eight, the last one filled with zeros.\<close>

function blocks_of :: "string \<Rightarrow> string list" where
  "blocks_of s = (if s = [] then [] else fill_block s # blocks_of (drop 8 s))"
  by auto
termination by (relation "measure length") auto

declare blocks_of.simps [simp del]

lemma length_fill_block [simp]: "length (fill_block s) = 8"
  by (simp add: fill_block_def zero_block_def min_def)

lemma fill_block_whole: "8 \<le> length s \<Longrightarrow> fill_block s = take 8 s"
  by (simp add: fill_block_def zero_block_def min_def)

text \<open>Both loops of the code go over these blocks.\<close>

definition by_blocks :: "(string \<Rightarrow> string) \<Rightarrow> string \<Rightarrow> string" where
  "by_blocks f s =
     (let n = length s; whole = concat (map (\<lambda>i. f (take 8 (drop (i * 8) s))) [0..<n div 8])
      in if n mod 8 \<noteq> 0 then whole @ f (fill_block (drop (n div 8 * 8) s)) else whole)"

lemma by_blocks_blocks_of: "by_blocks f s = concat (map f (blocks_of s))"
proof (induction s rule: blocks_of.induct)
  case (1 s)
  show ?case
  proof (cases "length s < 8")
    case True
    then show ?thesis by (cases "s = []") (simp_all add: by_blocks_def blocks_of.simps Let_def mod_less)
  next
    case False
    define m where "m = (length s - 8) div 8"
    have m: "length s div 8 = Suc m" "length s mod 8 = (length s - 8) mod 8"
      using False by (simp_all add: m_def le_div_geq le_mod_geq)
    have l: "length (drop 8 s) = length s - 8" by simp
    have "map (\<lambda>i. f (take 8 (drop (i * 8) s))) [0..<Suc m] =
        f (take 8 s) # map (\<lambda>i. f (take 8 (drop (i * 8) (drop 8 s)))) [0..<m]"
      by (simp add: upt_conv_Cons map_Suc_upt [symmetric] o_def add.commute del: upt_Suc map_Suc_upt)
    moreover have "drop (Suc m * 8) s = drop (m * 8) (drop 8 s)" by (simp add: add.commute)
    ultimately have "by_blocks f s = f (take 8 s) @ by_blocks f (drop 8 s)"
      unfolding by_blocks_def l m m_def [symmetric] Let_def by simp
    also have "\<dots> = concat (map f (blocks_of s))"
      using 1 False by (auto simp: blocks_of.simps [of s] fill_block_whole)
    finally show ?thesis .
  qed
qed

definition des_key :: "string \<Rightarrow> string" where
  "des_key key = (if length key \<le> 8 then fill_block key else take 8 key)"

lemma DESEncrypt_blocks: "DESEncrypt E t k = concat (map (E DES_ENCRYPT (des_key k)) (blocks_of t))"
  by (simp add: by_blocks_blocks_of [symmetric] DESEncrypt_def by_blocks_def des_key_def Let_def)

lemma DESDecrypt_blocks: "DESDecrypt E t k = concat (map (\<lambda>b. c_string (E DES_DECRYPT (des_key k) b)) (blocks_of t))"
  by (simp add: by_blocks_blocks_of [symmetric] DESDecrypt_def by_blocks_def des_key_def Let_def)

lemma length_blocks_of: "b \<in> set (blocks_of s) \<Longrightarrow> length b = 8"
  by (induction s rule: blocks_of.induct) (subst (asm) (2) blocks_of.simps, auto split: if_splits)

lemma blocks_of_concat: "\<forall>b\<in>set bs. length b = 8 \<Longrightarrow> blocks_of (concat bs) = bs"
proof (induction bs)
  case (Cons b bs)
  then have "b @ concat bs \<noteq> []" by auto
  then show ?case using Cons by (simp add: blocks_of.simps [of "b @ concat bs"] fill_block_whole)
qed (simp add: blocks_of.simps)

lemma c_string_fill_block: "NUL \<notin> set s \<Longrightarrow> c_string (fill_block s) = take 8 s"
  unfolding c_string_def fill_block_def zero_block_def
  by (subst takeWhile_append2) (auto dest: in_set_takeD)

lemma c_string_blocks: "NUL \<notin> set s \<Longrightarrow> concat (map c_string (blocks_of s)) = s"
proof (induction s rule: blocks_of.induct)
  case (1 s)
  then have "NUL \<notin> set (drop 8 s)" by (auto dest: in_set_dropD)
  then show ?case using 1 c_string_fill_block [of s] by (auto simp: blocks_of.simps [of s])
qed

text \<open>
  Deciphering with the same key gives back each block of the text up to its first zero
  byte, and so the whole text when it has none, whatever its length; the ciphered text is the
  text's length rounded up to whole blocks.  The cipher only has to invert itself on blocks.
\<close>
theorem des_reads_back:
  assumes "\<forall>k b. length k = 8 \<and> length b = 8 \<longrightarrow> length (E DES_ENCRYPT k b) = 8 \<and> E DES_DECRYPT k (E DES_ENCRYPT k b) = b"
  shows "DESDecrypt E (DESEncrypt E t key) key = concat (map c_string (blocks_of t)) \<and>
     length (DESEncrypt E t key) = 8 * length (blocks_of t) \<and>
     (NUL \<notin> set t \<longrightarrow> DESDecrypt E (DESEncrypt E t key) key = t)"
proof -
  let ?e = "map (E DES_ENCRYPT (des_key key)) (blocks_of t)"
  have k: "length (des_key key) = 8" by (simp add: des_key_def)
  have e: "\<forall>b\<in>set ?e. length b = 8" using assms k length_blocks_of by auto
  have "DESDecrypt E (DESEncrypt E t key) key = concat (map (\<lambda>b. c_string (E DES_DECRYPT (des_key key) b)) ?e)"
    unfolding DESEncrypt_blocks DESDecrypt_blocks blocks_of_concat [OF e] ..
  also have "\<dots> = concat (map c_string (blocks_of t))"
    using assms k length_blocks_of by (intro arg_cong [where f = concat]) (simp add: o_def)
  finally have "DESDecrypt E (DESEncrypt E t key) key = concat (map c_string (blocks_of t))" .
  moreover have "length (concat bs) = 8 * length bs" if "\<forall>b\<in>set bs. length b = 8" for bs :: "string list"
    using that by (induction bs) auto
  ultimately show ?thesis using e c_string_blocks [of t] by (simp add: DESEncrypt_blocks)
qed

theorem des_reads_back_witness:
  "DESDecrypt (\<lambda>d k b. rev b) (DESEncrypt (\<lambda>d k b. rev b) ''attack at dawn'' ''key'') ''key'' = ''attack at dawn''"
  by (rule mp [OF conjunct2 [OF conjunct2 [OF des_reads_back]]]) simp_all

text \<open>A zero byte in the text loses what follows it in its block.\<close>

lemma des_loses_after_zero:
  assumes "\<forall>k b. length k = 8 \<and> length b = 8 \<longrightarrow> length (E DES_ENCRYPT k b) = 8 \<and> E DES_DECRYPT k (E DES_ENCRYPT k b) = b"
  shows "DESDecrypt E (DESEncrypt E (''a'' @ NUL # ''b'') key) key = ''a''"
proof -
  let ?e = "E DES_ENCRYPT (des_key key) (fill_block (''a'' @ NUL # ''b''))"
  have b: "blocks_of (''a'' @ NUL # ''b'') = [fill_block (''a'' @ NUL # ''b'')]" by (simp add: blocks_of.simps)
  have l: "length (des_key key) = 8" by (simp add: des_key_def)
  then have "blocks_of ?e = [?e]" using assms blocks_of_concat [of "[?e]"] by simp
  then show ?thesis using b l assms
    by (simp add: DESEncrypt_blocks DESDecrypt_blocks) (simp add: fill_block_def zero_block_def c_string_def)
qed

text \<open>Only the first 8 bytes of a key count.\<close>

lemma des_key_prefix: "8 \<le> length k \<Longrightarrow> DESEncrypt E t (k @ k2) = DESEncrypt E t k"
  by (auto simp: DESEncrypt_blocks des_key_def fill_block_whole)

end
