(* ===== verification/Charset.thy ===== *)
theory Charset
  imports Prelude
begin

text \<open>
  \<^verbatim>\<open>utilities/encoding_utilities.cpp\<close>: the converter between character sets, and the conversions
  between UTF-8, GBK and wide strings (with a \<^verbatim>\<open>wchar_t\<close> of 4 bytes, which selects \<^verbatim>\<open>UCS-4\<close>).  The
  library \<^verbatim>\<open>iconv\<close> is an argument: opening gives a handle or says whether the pair of sets is
  unknown; a call takes the handle, what is left of the input and the room for output, and gives
  the error if any, how much it has consumed, what it has produced and the handle's new state.
\<close>

unbundle bit_operations_syntax

datatype iconv_errno = E2BIG | EILSEQ | EINVAL | other_errno

type_synonym 'h iconv_function = "'h \<Rightarrow> string \<Rightarrow> nat \<Rightarrow> iconv_errno option \<times> nat \<times> string \<times> 'h"

datatype 'h iconv_opened = Opened 'h | UnknownPair | OpenFailed

record 'h iconv_lib =
  iconv_open :: "string \<Rightarrow> string \<Rightarrow> 'h iconv_opened"
  iconv :: "'h iconv_function"

section \<open>The converter\<close>

record 'h Converter =
  conv_handle :: "'h option"
  ignore_error :: bool
  buf_size :: nat
  conv_err :: string
  ignore_count :: nat

definition new_Converter :: "'h iconv_lib \<Rightarrow> string \<Rightarrow> string \<Rightarrow> bool \<Rightarrow> nat \<Rightarrow> 'h Converter" where
  "new_Converter L in_encode out_encode ignore bsize =
     (let c = \<lparr>conv_handle = None, ignore_error = ignore, buf_size = bsize, conv_err = [], ignore_count = 0\<rparr>
      in if bsize < 4 \<or> 10 * 1024 * 1024 \<le> bsize then
           c\<lparr>conv_err := ''bad convert buffer size : '' @ to_string (int bsize) @ ''.''\<rparr>
         else case iconv_open L out_encode in_encode of
           UnknownPair \<Rightarrow> c\<lparr>conv_err := ''not supported from '' @ in_encode @ '' to '' @ out_encode\<rparr>
         | OpenFailed \<Rightarrow> c\<lparr>conv_err := ''unknown error on iconv_open.''\<rparr>
         | Opened h \<Rightarrow> c\<lparr>conv_handle := Some h\<rparr>)"

definition conv_usable :: "'h Converter \<Rightarrow> bool" where
  "conv_usable c \<longleftrightarrow> conv_err c = [] \<and> conv_handle c \<noteq> None"

definition IgnoreCount :: "'h Converter \<Rightarrow> nat" where
  "IgnoreCount c = ignore_count c"

text \<open>
  The loop of \<open>Convert\<close> takes fuel: an error that is neither ignored nor one of the three known
  ones is tried again for ever.  \<open>Overrun\<close> is the step past the end of the input, should an error
  be ignored when nothing is left.
\<close>

datatype 'a conv_end = Finished 'a | Overrun | Running

fun convert_loop :: "nat \<Rightarrow> 'h iconv_function \<Rightarrow> 'h \<Rightarrow> string \<Rightarrow> string \<Rightarrow> 'h Converter \<Rightarrow>
    ('h Converter \<times> string) conv_end" where
  "convert_loop 0 ic h src dst c = (if src = [] then Finished (c\<lparr>conv_handle := Some h\<rparr>, dst) else Running)"
| "convert_loop (Suc fuel) ic h src dst c =
     (if src = [] then Finished (c\<lparr>conv_handle := Some h\<rparr>, dst)
      else case ic h src (buf_size c) of (e, n, produced, h2) \<Rightarrow>
        let left = drop n src; dst2 = dst @ produced
        in case e of
             None \<Rightarrow> convert_loop fuel ic h2 left dst2 c
           | Some er \<Rightarrow>
               if er = E2BIG then convert_loop fuel ic h2 left dst2 c
               else if ignore_error c then
                 (if left = [] then Overrun
                  else convert_loop fuel ic h2 (tl left) dst2 (c\<lparr>ignore_count := ignore_count c + 1\<rparr>))
               else if er = EILSEQ then
                 Finished (c\<lparr>conv_handle := Some h2, conv_err := ''invalid multibyte chars : EILSEQ.''\<rparr>, dst)
               else if er = EINVAL then
                 Finished (c\<lparr>conv_handle := Some h2, conv_err := ''invalid multibyte chars : EINVAL.''\<rparr>, dst)
               else convert_loop fuel ic h2 left dst2 c)"

text \<open>The result, the output (kept when the conversion fails) and the converter.\<close>

definition Convert :: "nat \<Rightarrow> 'h iconv_lib \<Rightarrow> string \<Rightarrow> string \<Rightarrow> 'h Converter \<Rightarrow>
    (bool \<times> string \<times> 'h Converter) conv_end" where
  "Convert fuel L input old_output c =
     (if \<not> conv_usable c then Finished (False, old_output, c)
      else case convert_loop fuel (iconv L) (the (conv_handle c)) input [] (c\<lparr>ignore_count := 0\<rparr>) of
        Finished (c2, dst) \<Rightarrow> Finished (if conv_usable c2 then (True, dst, c2) else (False, old_output, c2))
      | Overrun \<Rightarrow> Overrun
      | Running \<Rightarrow> Running)"

section \<open>Wide strings\<close>

type_synonym wstring = "u32 list"

text \<open>A \<^verbatim>\<open>char\<close> that becomes a \<^verbatim>\<open>wchar_t\<close> is extended by its sign, and masked.\<close>

definition wchar_of_char :: "char \<Rightarrow> u32" where
  "wchar_of_char c = word_of_int (schar c)"

definition wide_char :: "char \<Rightarrow> char \<Rightarrow> char \<Rightarrow> char \<Rightarrow> u32" where
  "wide_char c4 c3 c2 c1 =
     (push_bit 24 (wchar_of_char c4) AND 0xFF000000) OR (push_bit 16 (wchar_of_char c3) AND 0x00FF0000)
     OR (push_bit 8 (wchar_of_char c2) AND 0x0000FF00) OR (wchar_of_char c1 AND 0x000000FF)"

text \<open>\<open>None\<close>: a last group of fewer than 4 bytes is read past the end.\<close>

fun wide_of_bytes :: "string \<Rightarrow> wstring option" where
  "wide_of_bytes [] = Some []"
| "wide_of_bytes (a # b # c # d # s) = map_option (\<lambda>ws. wide_char a b c d # ws) (wide_of_bytes s)"
| "wide_of_bytes _ = None"

definition char_of_wide :: "u32 \<Rightarrow> char" where
  "char_of_wide w = char_of_byte (ucast w)"

definition bytes_of_wchar :: "u32 \<Rightarrow> string" where
  "bytes_of_wchar wc =
     [char_of_wide (drop_bit 24 (wc AND 0xFF000000)), char_of_wide (drop_bit 16 (wc AND 0x00FF0000)),
      char_of_wide (drop_bit 8 (wc AND 0x0000FF00)), char_of_wide (wc AND 0x000000FF)]"

definition bytes_of_wide :: "wstring \<Rightarrow> string" where
  "bytes_of_wide ws = concat (map bytes_of_wchar ws)"

section \<open>The conversions\<close>

definition default_buf_size :: nat where
  "default_buf_size = 1024"

text \<open>A conversion gives the text and the error; both conversions ignore what they cannot convert.\<close>

definition convert_all :: "nat \<Rightarrow> 'h iconv_lib \<Rightarrow> string \<Rightarrow> string \<Rightarrow> string \<Rightarrow> string \<Rightarrow> (string \<times> string) conv_end" where
  "convert_all fuel L from_set to_set input err =
     (let cvter = new_Converter L from_set to_set True default_buf_size
      in if \<not> conv_usable cvter then Finished ([], conv_err cvter)
         else case Convert fuel L input [] cvter of
           Finished (ok, output, c2) \<Rightarrow> Finished (if ok then (output, err) else ([], conv_err c2))
         | Overrun \<Rightarrow> Overrun
         | Running \<Rightarrow> Running)"

definition FromUTF8 :: "nat \<Rightarrow> 'h iconv_lib \<Rightarrow> string \<Rightarrow> string \<Rightarrow> (wstring \<times> string) conv_end" where
  "FromUTF8 fuel L utf8str err =
     (let cvter = new_Converter L ''UTF-8'' ''UCS-4'' True default_buf_size
      in if \<not> conv_usable cvter then Finished ([], conv_err cvter)
         else case Convert fuel L utf8str [] cvter of
           Finished (ok, output, c2) \<Rightarrow>
             if ok then (case wide_of_bytes output of None \<Rightarrow> Overrun | Some ws \<Rightarrow> Finished (ws, err))
             else Finished ([], conv_err c2)
         | Overrun \<Rightarrow> Overrun
         | Running \<Rightarrow> Running)"

definition ToUTF8 :: "nat \<Rightarrow> 'h iconv_lib \<Rightarrow> wstring \<Rightarrow> string \<Rightarrow> (string \<times> string) conv_end" where
  "ToUTF8 fuel L wstr err = convert_all fuel L ''UCS-4'' ''UTF-8'' (bytes_of_wide wstr) err"

definition ToGBK :: "nat \<Rightarrow> 'h iconv_lib \<Rightarrow> string \<Rightarrow> string \<Rightarrow> (string \<times> string) conv_end" where
  "ToGBK fuel L utf8str err = convert_all fuel L ''UTF-8'' ''GBK'' utf8str err"

definition FromGBK :: "nat \<Rightarrow> 'h iconv_lib \<Rightarrow> string \<Rightarrow> string \<Rightarrow> (string \<times> string) conv_end" where
  "FromGBK fuel L gbkstr err = convert_all fuel L ''GBK'' ''UTF-8'' gbkstr err"

end
