(* ===== verification/CharsetProofs.thy ===== *)
theory CharsetProofs
  imports Charset
begin

text \<open>
  The converter of \<open>Charset\<close> against what \<^verbatim>\<open>iconv\<close> documents of a call: whatever the size of its
  buffer it converts the whole text, skipping exactly the bytes that begin no character, and it
  always returns; and wide strings survive the way through bytes.
\<close>

unbundle bit_operations_syntax

section \<open>The reference conversion\<close>

text \<open>
  A pair of character sets is given by what its first character is: how many bytes it takes and
  what they become, or that no character begins here.  A character becomes 1 to 4 bytes.
\<close>

type_synonym codec = "string \<Rightarrow> (nat \<times> string) option"

definition proper_codec :: "codec \<Rightarrow> bool" where
  "proper_codec step \<longleftrightarrow> (\<forall>s n p. step s = Some (n, p) \<longrightarrow> 0 < n \<and> n \<le> length s \<and> length p \<le> 4)"

function convert_text :: "codec \<Rightarrow> string \<Rightarrow> string" where
  "convert_text step s =
     (if s = [] then []
      else case step s of
        None \<Rightarrow> convert_text step (drop 1 s)
      | Some (n, p) \<Rightarrow> p @ convert_text step (drop (max 1 n) s))"
  by auto
termination by (relation "measure (\<lambda>(_, s). length s)") auto

function skipped_bytes :: "codec \<Rightarrow> string \<Rightarrow> nat" where
  "skipped_bytes step s =
     (if s = [] then 0
      else case step s of
        None \<Rightarrow> Suc (skipped_bytes step (drop 1 s))
      | Some (n, p) \<Rightarrow> skipped_bytes step (drop (max 1 n) s))"
  by auto
termination by (relation "measure (\<lambda>(_, s). length s)") auto

declare convert_text.simps [simp del] skipped_bytes.simps [simp del]

text \<open>A prefix that is a run of characters, and what the run becomes.\<close>

inductive converts :: "codec \<Rightarrow> string \<Rightarrow> nat \<Rightarrow> string \<Rightarrow> bool" for step where
  none: "converts step s 0 []"
| more: "step s = Some (n, p) \<Longrightarrow> converts step (drop n s) m q \<Longrightarrow> converts step s (n + m) (p @ q)"

inductive_cases converts_elim: "converts step s n p"

text \<open>
  What the documentation of \<^verbatim>\<open>iconv\<close> promises of a call: it converts a run of characters, as many
  as fit, and reports the end of the room, or where no character begins (a character cut short
  at the end included).  The promise is about the handles \<open>H\<close> of one pair of sets.
\<close>

definition iconv_conforms :: "('h \<Rightarrow> bool) \<Rightarrow> codec \<Rightarrow> 'h iconv_function \<Rightarrow> bool" where
  "iconv_conforms H step ic \<longleftrightarrow>
     (\<forall>h s room e n p h2. H h \<and> ic h s room = (e, n, p, h2) \<and> s \<noteq> [] \<longrightarrow>
        H h2 \<and> converts step s n p \<and> length p \<le> room \<and>
        (case e of
           None \<Rightarrow> n = length s
         | Some E2BIG \<Rightarrow> \<exists>m q. step (drop n s) = Some (m, q) \<and> room < length p + length q
         | Some EILSEQ \<Rightarrow> n < length s \<and> step (drop n s) = None
         | Some EINVAL \<Rightarrow> n < length s \<and> step (drop n s) = None
         | Some other_errno \<Rightarrow> False))"

lemma converts_length: "converts step s n p \<Longrightarrow> proper_codec step \<Longrightarrow> n \<le> length s"
proof (induction s n p rule: converts.induct)
  case (more s n p m q)
  then show ?case by (fastforce simp: proper_codec_def)
qed simp

lemma converts_0: "converts step s 0 p \<Longrightarrow> proper_codec step \<Longrightarrow> p = []"
  by (erule converts_elim) (auto simp: proper_codec_def)

lemma converts_run:
  "converts step s n p \<Longrightarrow> proper_codec step \<Longrightarrow>
   convert_text step s = p @ convert_text step (drop n s) \<and> skipped_bytes step s = skipped_bytes step (drop n s)"
proof (induction s n p rule: converts.induct)
  case (more s n p m q)
  then have n: "0 < n" "n \<le> length s" by (auto simp: proper_codec_def)
  then have "s \<noteq> []" "max 1 n = n" by auto
  then show ?case
    using more by (simp add: convert_text.simps [of step s] skipped_bytes.simps [of step s] add.commute)
qed simp

lemma step_skips:
  assumes "step s = None" "s \<noteq> []"
  shows "convert_text step s = convert_text step (tl s)" "skipped_bytes step s = Suc (skipped_bytes step (tl s))"
  using assms by (simp_all add: convert_text.simps [of step s] skipped_bytes.simps [of step s] drop_Suc)

lemma text_Nil [simp]: "convert_text step [] = []" "skipped_bytes step [] = 0"
  by (simp_all add: convert_text.simps skipped_bytes.simps)

section \<open>The loop\<close>

text \<open>One turn, for a call that conforms: the input gets shorter.\<close>

lemma turn_progress:
  assumes "iconv_conforms H step ic" "proper_codec step" "src \<noteq> []" "4 \<le> room" "ic h src room = (e, n, p, h2)" "H h"
  shows "convert_text step src = p @ convert_text step (drop n src)"
    "skipped_bytes step src = skipped_bytes step (drop n src)"
    "e = None \<Longrightarrow> n = length src"
    "e = Some E2BIG \<Longrightarrow> 0 < n"
    "e \<noteq> None \<Longrightarrow> e \<noteq> Some E2BIG \<Longrightarrow> (e = Some EILSEQ \<or> e = Some EINVAL) \<and> drop n src \<noteq> [] \<and> step (drop n src) = None"
    "H h2"
proof -
  have c: "converts step src n p" and H2: "H h2" and r: "length p \<le> room" and
    ec: "case e of
           None \<Rightarrow> n = length src
         | Some E2BIG \<Rightarrow> \<exists>m q. step (drop n src) = Some (m, q) \<and> room < length p + length q
         | Some EILSEQ \<Rightarrow> n < length src \<and> step (drop n src) = None
         | Some EINVAL \<Rightarrow> n < length src \<and> step (drop n src) = None
         | Some other_errno \<Rightarrow> False"
    using assms(1,3,5,6) unfolding iconv_conforms_def by blast+
  show "H h2" by (rule H2)
  show "convert_text step src = p @ convert_text step (drop n src)"
    "skipped_bytes step src = skipped_bytes step (drop n src)"
    using converts_run [OF c assms(2)] by auto
  show "e = None \<Longrightarrow> n = length src" using ec by simp
  show "e = Some E2BIG \<Longrightarrow> 0 < n"
  proof (rule ccontr)
    assume e: "e = Some E2BIG" and "\<not> 0 < n"
    then have "p = []" using converts_0 c assms(2) by auto
    then obtain m q where "step (drop n src) = Some (m, q)" "room < length q" using ec e by auto
    then show False using assms(2,4) unfolding proper_codec_def by fastforce
  qed
  show "e \<noteq> None \<Longrightarrow> e \<noteq> Some E2BIG \<Longrightarrow> (e = Some EILSEQ \<or> e = Some EINVAL) \<and> drop n src \<noteq> [] \<and> step (drop n src) = None"
    using ec by (auto split: option.splits iconv_errno.splits)
qed

lemma convert_loop_ignoring:
  assumes "iconv_conforms H step ic" "proper_codec step"
  shows "H h \<Longrightarrow> length src \<le> fuel \<Longrightarrow> 4 \<le> buf_size c \<Longrightarrow> ignore_error c \<Longrightarrow>
    \<exists>h2. convert_loop fuel ic h src dst c =
      Finished (c\<lparr>conv_handle := Some h2, ignore_count := ignore_count c + skipped_bytes step src\<rparr>, dst @ convert_text step src)"
proof (induction fuel arbitrary: h src dst c)
  case (Suc fuel)
  show ?case
  proof (cases "src = []")
    case False
    obtain e n p h2 where call: "ic h src (buf_size c) = (e, n, p, h2)" by (metis prod_cases4)
    note turn = turn_progress [OF assms False Suc.prems(3) call Suc.prems(1)]
    consider (full) "e = None" | (room) "e = Some E2BIG" | (bad) er where "e = Some er" "er \<noteq> E2BIG" by auto
    then show ?thesis
    proof cases
      case full
      then show ?thesis using False call turn(1-3,6) Suc.IH [of h2 "[]" c "dst @ p"] Suc.prems by simp
    next
      case room
      then have "length (drop n src) \<le> fuel" using turn(4) Suc.prems(2) False by simp
      then show ?thesis using room False call turn(1,2,6) Suc.IH [of h2 "drop n src" c "dst @ p"] Suc.prems by simp
    next
      case bad
      then have b: "drop n src \<noteq> []" "step (drop n src) = None" using turn(5) by auto
      then have "length (tl (drop n src)) \<le> fuel" using Suc.prems(2) by simp
      then show ?thesis
        using bad b step_skips [of step "drop n src", OF b(2,1)] False call turn(1,2,6) Suc.prems
          Suc.IH [of h2 "tl (drop n src)" "c\<lparr>ignore_count := ignore_count c + 1\<rparr>" "dst @ p"] by simp
    qed
  qed auto
qed auto

text \<open>Without ignoring, the loop stops at the first byte that begins no character.\<close>

definition strict_end :: "codec \<Rightarrow> string \<Rightarrow> string \<Rightarrow> 'h Converter \<Rightarrow> ('h Converter \<times> string) conv_end \<Rightarrow> bool" where
  "strict_end step src dst c r \<longleftrightarrow>
     (\<exists>h2 er d2. r = Finished (c\<lparr>conv_handle := Some h2, conv_err := er\<rparr>, d2) \<and>
        (if skipped_bytes step src = 0 then er = conv_err c \<and> d2 = dst @ convert_text step src else er \<noteq> []))"

lemma strict_end_done: "strict_end step [] dst c (Finished (c\<lparr>conv_handle := Some h\<rparr>, dst))"
  unfolding strict_end_def by (rule exI [of _ h], rule exI [of _ "conv_err c"], rule exI [of _ dst]) simp

lemma strict_end_later:
  assumes "strict_end step rest (dst @ p) c r" "convert_text step src = p @ convert_text step rest"
    "skipped_bytes step src = skipped_bytes step rest"
  shows "strict_end step src dst c r"
  using assms(1) unfolding strict_end_def assms(2,3) append_assoc .

lemma strict_end_error:
  "skipped_bytes step src \<noteq> 0 \<Longrightarrow> er \<noteq> [] \<Longrightarrow>
   strict_end step src dst c (Finished (c\<lparr>conv_handle := Some h2, conv_err := er\<rparr>, d2))"
  unfolding strict_end_def by auto

lemma convert_loop_strict:
  assumes "iconv_conforms H step ic" "proper_codec step"
  shows "H h \<Longrightarrow> length src \<le> fuel \<Longrightarrow> 4 \<le> buf_size c \<Longrightarrow> \<not> ignore_error c \<Longrightarrow>
    strict_end step src dst c (convert_loop fuel ic h src dst c)"
proof (induction fuel arbitrary: h src dst)
  case 0
  then show ?case by (simp add: strict_end_done)
next
  case (Suc fuel)
  show ?case
  proof (cases "src = []")
    case True
    then show ?thesis by (simp add: strict_end_done)
  next
    case False
    obtain e n p h2 where call: "ic h src (buf_size c) = (e, n, p, h2)" by (metis prod_cases4)
    note turn = turn_progress [OF assms False Suc.prems(3) call Suc.prems(1)]
    consider (full) "e = None" | (room) "e = Some E2BIG" | (bad) er where "e = Some er" "er \<noteq> E2BIG" by auto
    then show ?thesis
    proof cases
      case full
      then show ?thesis using False call turn(3,6) Suc.prems
          strict_end_later [OF Suc.IH [of h2 "drop n src" "dst @ p"] turn(1,2)] by simp
    next
      case room
      then have "length (drop n src) \<le> fuel" using turn(4) Suc.prems(2) False by simp
      then show ?thesis using room False call turn(6) Suc.prems
          strict_end_later [OF Suc.IH [of h2 "drop n src" "dst @ p"] turn(1,2)] by simp
    next
      case bad
      then have b: "er = EILSEQ \<or> er = EINVAL" "drop n src \<noteq> []" "step (drop n src) = None" using turn(5) by auto
      then have "skipped_bytes step src \<noteq> 0" using step_skips [of step "drop n src"] turn(2) by simp
      then show ?thesis using bad b(1) False call Suc.prems by (auto intro: strict_end_error)
    qed
  qed
qed

lemma Convert_ignoring:
  assumes "iconv_conforms H step (iconv L)" "proper_codec step" "conv_usable c" "4 \<le> buf_size c" "length s \<le> fuel"
    "H (the (conv_handle c))" "ignore_error c"
  shows "\<exists>c2. Convert fuel L s old c = Finished (True, convert_text step s, c2) \<and> IgnoreCount c2 = skipped_bytes step s"
proof -
  obtain h where h: "conv_handle c = Some h" and e: "conv_err c = []"
    using assms(3) by (auto simp: conv_usable_def)
  let ?c = "c\<lparr>ignore_count := 0\<rparr>"
  obtain h2 where "convert_loop fuel (iconv L) h s [] ?c =
      Finished (?c\<lparr>conv_handle := Some h2, ignore_count := ignore_count ?c + skipped_bytes step s\<rparr>, [] @ convert_text step s)"
    using convert_loop_ignoring [OF assms(1,2), of h s fuel ?c "[]"] assms(4-7) h by auto
  then show ?thesis using assms(3) h e by (simp add: Convert_def conv_usable_def IgnoreCount_def)
qed

lemma Convert_strict:
  assumes "iconv_conforms H step (iconv L)" "proper_codec step" "conv_usable c" "4 \<le> buf_size c" "length s \<le> fuel"
    "H (the (conv_handle c))" "\<not> ignore_error c"
  shows "\<exists>c2. Convert fuel L s old c =
     Finished (if skipped_bytes step s = 0 then (True, convert_text step s, c2) else (False, old, c2)) \<and>
     (conv_err c2 = [] \<longleftrightarrow> skipped_bytes step s = 0)"
proof -
  obtain h where h: "conv_handle c = Some h" and e: "conv_err c = []"
    using assms(3) by (auto simp: conv_usable_def)
  let ?c = "c\<lparr>ignore_count := 0\<rparr>"
  have "strict_end step s [] ?c (convert_loop fuel (iconv L) h s [] ?c)"
    using convert_loop_strict [OF assms(1,2), of h s fuel ?c "[]"] assms(4-7) h by simp
  then obtain h2 er d2 where l: "convert_loop fuel (iconv L) h s [] ?c = Finished (?c\<lparr>conv_handle := Some h2, conv_err := er\<rparr>, d2)"
    and r: "if skipped_bytes step s = 0 then er = conv_err ?c \<and> d2 = [] @ convert_text step s else er \<noteq> []"
    unfolding strict_end_def by blast
  then show ?thesis using assms(3) h e
    by (cases "skipped_bytes step s = 0") (simp_all add: Convert_def conv_usable_def)
qed

text \<open>
  (C38) A conversion returns within as many turns as the text has bytes, whatever the size of the
  buffer.  A converter that ignores errors gives the reference conversion of the whole text and
  counts the bytes it has skipped, which are just those that begin no character; one that does
  not succeeds, with the same text, exactly when there are none, and otherwise keeps the old
  output and says why.
\<close>
theorem convert_is_the_reference:
  assumes "iconv_conforms H step (iconv L)" "proper_codec step" "conv_usable c" "4 \<le> buf_size c" "length s \<le> fuel"
    "H (the (conv_handle c))"
  shows "\<exists>ok out c2. Convert fuel L s old c = Finished (ok, out, c2) \<and>
     (if ignore_error c then ok \<and> out = convert_text step s \<and> IgnoreCount c2 = skipped_bytes step s
      else (ok \<longleftrightarrow> skipped_bytes step s = 0) \<and> out = (if ok then convert_text step s else old) \<and>
           (ok \<longleftrightarrow> conv_err c2 = []))"
proof (cases "ignore_error c")
  case True
  then show ?thesis using Convert_ignoring [OF assms True, of old] by auto
next
  case False
  then show ?thesis using Convert_strict [OF assms False, of old] by (cases "skipped_bytes step s = 0") auto
qed

text \<open>
  For concrete runs, an \<^verbatim>\<open>iconv\<close> whose handles are the codecs themselves: it converts as many
  characters as there is room for.
\<close>

function codec_run :: "codec \<Rightarrow> nat \<Rightarrow> string \<Rightarrow> iconv_errno option \<times> nat \<times> string" where
  "codec_run step room s =
     (if s = [] then (None, 0, [])
      else case step s of
        None \<Rightarrow> (Some EILSEQ, 0, [])
      | Some (n, p) \<Rightarrow>
          if room < length p then (Some E2BIG, 0, [])
          else case codec_run step (room - length p) (drop (max 1 n) s) of (e, m, q) \<Rightarrow> (e, n + m, p @ q))"
  by auto
termination by (relation "measure (\<lambda>(_, _, s). length s)") auto

declare codec_run.simps [simp del]

definition codec_iconv :: "codec iconv_function" where
  "codec_iconv h s room = (case codec_run h room s of (e, n, p) \<Rightarrow> (e, n, p, h))"

definition call_conforms :: "codec \<Rightarrow> nat \<Rightarrow> string \<Rightarrow> iconv_errno option \<Rightarrow> nat \<Rightarrow> string \<Rightarrow> bool" where
  "call_conforms step room s e n p \<longleftrightarrow> converts step s n p \<and> length p \<le> room \<and>
     (case e of None \<Rightarrow> n = length s
      | Some E2BIG \<Rightarrow> \<exists>m q. step (drop n s) = Some (m, q) \<and> room < length p + length q
      | Some EILSEQ \<Rightarrow> n < length s \<and> step (drop n s) = None
      | Some EINVAL \<Rightarrow> n < length s \<and> step (drop n s) = None
      | Some other_errno \<Rightarrow> False)"

lemma call_conforms_more:
  assumes "call_conforms step (room - length p) (drop k s) e m q" "step s = Some (k, p)" "length p \<le> room" "k \<le> length s"
  shows "call_conforms step room s e (k + m) (p @ q)"
proof -
  have "converts step s (k + m) (p @ q)"
    using assms(1,2) by (auto simp: call_conforms_def intro: converts.more)
  then show ?thesis using assms unfolding call_conforms_def
    by (auto simp: add.commute split: option.splits iconv_errno.splits)
qed

lemma codec_run_conforms:
  "proper_codec step \<Longrightarrow> codec_run step room s = (e, n, p) \<Longrightarrow> call_conforms step room s e n p"
proof (induction step room s arbitrary: e n p rule: codec_run.induct)
  case (1 step room s)
  show ?case
  proof (cases "s = [] \<or> step s = None")
    case True
    then have "codec_run step room s = (if s = [] then None else Some EILSEQ, 0, [])"
      by (subst codec_run.simps) auto
    then show ?thesis using 1(3) True by (auto simp: call_conforms_def intro: converts.none)
  next
    case False
    then obtain k x where k: "step s = Some (k, x)" by auto
    then have b: "0 < k" "k \<le> length s" using 1(2) by (auto simp: proper_codec_def)
    show ?thesis
    proof (cases "room < length x")
      case True
      then show ?thesis using 1(3) k False
        by (auto simp: codec_run.simps [of step room s] call_conforms_def intro: converts.none)
    next
      case room: False
      obtain e2 m q where r: "codec_run step (room - length x) (drop k s) = (e2, m, q)" by (metis prod_cases3)
      have mx: "max 1 k = k" using b by simp
      then have "e = e2" "n = k + m" "p = x @ q"
        using 1(3) k False room r by (simp_all add: codec_run.simps [of step room s])
      moreover have "call_conforms step (room - length x) (drop k s) e2 m q"
        using 1(1) [OF _ k refl room] 1(2) False r mx by simp
      ultimately show ?thesis using call_conforms_more k room b by simp
    qed
  qed
qed

lemma codec_iconv_conforms: "proper_codec step \<Longrightarrow> iconv_conforms (\<lambda>h. h = step) step codec_iconv"
  unfolding iconv_conforms_def codec_iconv_def
  using codec_run_conforms [unfolded call_conforms_def] by (fastforce split: prod.splits)

definition ascii_codec :: codec where
  "ascii_codec s = (case s of [] \<Rightarrow> None | ch # _ \<Rightarrow> if code ch < 128 then Some (1, [ch]) else None)"

definition ascii_to_ucs4 :: codec where
  "ascii_to_ucs4 s = (case s of [] \<Rightarrow> None | ch # _ \<Rightarrow> if code ch < 128 then Some (1, [CHR 0x00, CHR 0x00, CHR 0x00, ch]) else None)"

definition ucs4_to_ascii :: codec where
  "ucs4_to_ascii s =
     (case s of a # b # c # d # _ \<Rightarrow> if a = CHR 0x00 \<and> b = CHR 0x00 \<and> c = CHR 0x00 \<and> code d < 128 then Some (4, [d]) else None
      | _ \<Rightarrow> None)"

lemma proper_codecs: "proper_codec ascii_codec" "proper_codec ascii_to_ucs4" "proper_codec ucs4_to_ascii"
  by (auto simp: proper_codec_def ascii_codec_def ascii_to_ucs4_def ucs4_to_ascii_def split: list.splits if_splits)

definition demo_lib :: "codec iconv_lib" where
  "demo_lib = \<lparr>iconv_open = (\<lambda>to_set from_set. Opened
     (if from_set = ''UCS-4'' then ucs4_to_ascii else if to_set = ''UCS-4'' then ascii_to_ucs4 else ascii_codec)),
     iconv = codec_iconv\<rparr>"

theorem convert_is_the_reference_witness:
  "\<exists>c2. Convert 8 demo_lib (''ab'' @ CHR 0xFF # ''cdefg'') [] (new_Converter demo_lib ''A'' ''B'' True 4) =
      Finished (True, ''abcdefg'', c2) \<and> IgnoreCount c2 = 1"
proof -
  let ?s = "''ab'' @ CHR 0xFF # ''cdefg''" and ?c = "new_Converter demo_lib ''A'' ''B'' True 4"
  have c: "conv_usable ?c" "4 \<le> buf_size ?c" "ignore_error ?c" "the (conv_handle ?c) = ascii_codec"
    by (simp_all add: new_Converter_def demo_lib_def conv_usable_def Let_def)
  have L: "iconv_conforms (\<lambda>h. h = ascii_codec) ascii_codec (iconv demo_lib)"
    using codec_iconv_conforms [OF proper_codecs(1)] by (simp add: demo_lib_def)
  have "convert_text ascii_codec ?s = ''abcdefg''" "skipped_bytes ascii_codec ?s = 1"
    by (simp_all add: convert_text.simps skipped_bytes.simps ascii_codec_def)
  then show ?thesis
    using convert_is_the_reference [OF L proper_codecs(1) c(1,2), of ?s 8 "[]"] c(3,4) by auto
qed

section \<open>A converter that has failed\<close>

text \<open>The error stays in the converter: every later conversion fails, whatever the text.\<close>

lemma failed_converter_stays:
  "conv_err c \<noteq> [] \<Longrightarrow> Convert fuel L s old c = Finished (False, old, c)"
  by (simp add: Convert_def conv_usable_def)

section \<open>Wide strings\<close>

lemma wchar_bit:
  assumes "n < 8"
  shows "bit (wchar_of_char (char_of_byte b)) n \<longleftrightarrow> bit b n"
proof -
  have u: "int (unat b) = uint b" "uint b < 256" "0 \<le> uint b"
    using uint_lt2p [of b] by simp_all
  have "code (char_of_byte b) = unat b" using unat_byte_less_256 [of b] by (simp add: char_of_byte_def)
  then have "schar (char_of_byte b) = uint b \<or> schar (char_of_byte b) = uint b - 256"
    by (simp only: schar_def u(1)) auto
  moreover have "take_bit 8 (uint b) = uint b" "take_bit 8 (uint b - 256) = uint b"
    using u(2,3) by (simp_all only: take_bit_eq_mod) simp_all
  ultimately have "take_bit 8 (schar (char_of_byte b)) = uint b" by presburger
  then have "bit (take_bit 8 (schar (char_of_byte b))) n \<longleftrightarrow> bit b n" by (simp only: bit_uint_iff) (use assms in simp)
  then show ?thesis using assms by (simp add: wchar_of_char_def bit_simps)
qed

lemma wide_bit: "n < 8 \<Longrightarrow> bit (wchar_of_char (char_of_wide w)) n \<longleftrightarrow> bit w n"
  by (simp add: char_of_wide_def wchar_bit bit_simps)

lemma byte_masks:
  "0xFF000000 = (push_bit 24 (mask 8) :: u32)" "0x00FF0000 = (push_bit 16 (mask 8) :: u32)"
  "0x0000FF00 = (push_bit 8 (mask 8) :: u32)" "0x000000FF = (mask 8 :: u32)"
  by (simp_all add: mask_eq_exp_minus_1 push_bit_eq_mult)

lemma wide_char_of_wchar:
  "wide_char (char_of_wide (drop_bit 24 (w AND 0xFF000000))) (char_of_wide (drop_bit 16 (w AND 0x00FF0000)))
     (char_of_wide (drop_bit 8 (w AND 0x0000FF00))) (char_of_wide (w AND 0x000000FF)) = w"
proof (rule bit_eqI)
  fix n
  assume "possible_bit TYPE(u32) n"
  then have n: "n < 32" by simp
  consider "n < 8" | k where "n = 8 + k" "k < 8" | k where "n = 16 + k" "k < 8" | k where "n = 24 + k" "k < 8"
  proof -
    have "n < 8 \<or> n = 8 + (n - 8) \<and> n - 8 < 8 \<or> n = 16 + (n - 16) \<and> n - 16 < 8 \<or> n = 24 + (n - 24) \<and> n - 24 < 8"
      using n by linarith
    then show thesis using that by blast
  qed
  then show "bit (wide_char (char_of_wide (drop_bit 24 (w AND 0xFF000000))) (char_of_wide (drop_bit 16 (w AND 0x00FF0000)))
     (char_of_wide (drop_bit 8 (w AND 0x0000FF00))) (char_of_wide (w AND 0x000000FF))) n \<longleftrightarrow> bit w n"
    unfolding wide_char_def byte_masks
    by cases (simp_all add: bit_simps wide_bit)
qed

lemma wide_of_bytes_wchar: "wide_of_bytes (bytes_of_wchar w @ s) = map_option ((#) w) (wide_of_bytes s)"
  by (simp only: bytes_of_wchar_def append.simps wide_of_bytes.simps wide_char_of_wchar)

lemma wide_of_bytes_of_wide [simp]: "wide_of_bytes (bytes_of_wide ws) = Some ws"
  by (induction ws) (simp_all add: bytes_of_wide_def wide_of_bytes_wchar)

lemma convert_all_done:
  assumes "iconv_conforms H step (iconv L)" "proper_codec step" "iconv_open L out_set in_set = Opened h" "H h" "length s \<le> fuel"
  shows "\<exists>c2. Convert fuel L s [] (new_Converter L in_set out_set True default_buf_size) = Finished (True, convert_text step s, c2)"
    "conv_usable (new_Converter L in_set out_set True default_buf_size)"
proof -
  let ?c = "new_Converter L in_set out_set True default_buf_size"
  have c: "conv_usable ?c" "4 \<le> buf_size ?c" "ignore_error ?c" "H (the (conv_handle ?c))"
    using assms(3,4) by (simp_all add: new_Converter_def default_buf_size_def conv_usable_def Let_def)
  then show "conv_usable ?c"
    "\<exists>c2. Convert fuel L s [] ?c = Finished (True, convert_text step s, c2)"
    using Convert_ignoring [OF assms(1,2) c(1,2) assms(5) c(4,3), of "[]"] by blast+
qed

text \<open>
  The conversions of the library ignore errors, so that text that is not in the set it is said
  to be in is no error: its bytes are left out.
\<close>

lemma conversions_hide_errors:
  assumes "iconv_conforms H step (iconv L)" "proper_codec step" "iconv_open L ''GBK'' ''UTF-8'' = Opened h" "H h" "length s \<le> fuel"
  shows "ToGBK fuel L s err = Finished (convert_text step s, err)"
  using convert_all_done [OF assms] by (auto simp: ToGBK_def convert_all_def Let_def)

text \<open>
  A wide string whose characters both sets have goes to UTF-8 and comes back unchanged:
  the packing of a character into four bytes and its unpacking, through signed characters,
  shifts and masks, lose nothing.
\<close>
theorem wide_text_reads_back:
  assumes "iconv_conforms H to8 (iconv L)" "proper_codec to8" "iconv_open L ''UTF-8'' ''UCS-4'' = Opened h" "H h"
    and "iconv_conforms K from8 (iconv L)" "proper_codec from8" "iconv_open L ''UCS-4'' ''UTF-8'' = Opened k" "K k"
    and "convert_text from8 (convert_text to8 (bytes_of_wide ws)) = bytes_of_wide ws"
    and "length (bytes_of_wide ws) \<le> fuel" "length (convert_text to8 (bytes_of_wide ws)) \<le> fuel"
  shows "\<exists>t. ToUTF8 fuel L ws err = Finished (t, err) \<and> FromUTF8 fuel L t err = Finished (ws, err)"
proof -
  let ?t = "convert_text to8 (bytes_of_wide ws)"
  have "ToUTF8 fuel L ws err = Finished (?t, err)"
    using convert_all_done [OF assms(1-4,10)] by (auto simp: ToUTF8_def convert_all_def Let_def)
  moreover have "FromUTF8 fuel L ?t err = Finished (ws, err)"
    using convert_all_done [OF assms(5-8,11)] by (auto simp: FromUTF8_def Let_def assms(9))
  ultimately show ?thesis by blast
qed

theorem wide_text_reads_back_witness:
  "\<exists>t. ToUTF8 8 demo_lib [0x68, 0x69] [] = Finished (t, []) \<and> FromUTF8 8 demo_lib t [] = Finished ([0x68, 0x69], [])"
proof -
  have to8: "iconv_conforms (\<lambda>h. h = ucs4_to_ascii) ucs4_to_ascii (iconv demo_lib)"
    and from8: "iconv_conforms (\<lambda>h. h = ascii_to_ucs4) ascii_to_ucs4 (iconv demo_lib)"
    using codec_iconv_conforms [OF proper_codecs(3)] codec_iconv_conforms [OF proper_codecs(2)]
    by (simp_all add: demo_lib_def)
  have ws: "bytes_of_wide [0x68, 0x69] = [CHR 0x00, CHR 0x00, CHR 0x00, CHR ''h'', CHR 0x00, CHR 0x00, CHR 0x00, CHR ''i'']"
    by code_simp
  have t: "convert_text ucs4_to_ascii (bytes_of_wide [0x68, 0x69]) = ''hi''"
    "convert_text ascii_to_ucs4 ''hi'' = bytes_of_wide [0x68, 0x69]"
    unfolding ws by (simp_all add: convert_text.simps ucs4_to_ascii_def ascii_to_ucs4_def)
  show ?thesis
    by (rule wide_text_reads_back [OF to8 proper_codecs(3) _ refl from8 proper_codecs(2) _ refl])
      (simp_all add: t, simp_all add: demo_lib_def ws)
qed

end
