(* ===== verification/RedisPool.thy ===== *)
theory RedisPool
  imports RedisClientProofs
begin

text \<open>
  The pool of Redis clients (\<^verbatim>\<open>rediscli_pool.cpp\<close>), one per I/O context, and the synchronous
  functions of a client (\<^verbatim>\<open>redis-client/redis_client.cpp\<close>, compiled for debugging).  The pool is a
  list of clients, a pointer to one its index; what a blocking read gives is an item of a list.
\<close>

section \<open>The pool\<close>

type_synonym RedisClientPool = "RedisClient list"

text \<open>
  One turn of the loop: the client is in the pool before it is told to connect, and its callback
  is \<open>on_connect_finished\<close> with its index, which only writes to the log.  \<open>False\<close>: \<open>Connect\<close> threw.
\<close>

definition create_client :: "redis_env \<Rightarrow> string \<Rightarrow> u16 \<Rightarrow> nat \<Rightarrow> RedisClient \<times> bool" where
  "create_client E host port i = Connect E (Some i) host port (new_RedisClient auto_reconnect)"

fun create_from :: "redis_env \<Rightarrow> string \<Rightarrow> u16 \<Rightarrow> nat list \<Rightarrow> RedisClientPool \<Rightarrow> RedisClientPool \<times> bool" where
  "create_from E host port [] pool = (pool, True)"
| "create_from E host port (i # is) pool =
     (let (client, ok) = create_client E host port i; pool2 = pool @ [client]
      in if ok then create_from E host port is pool2 else (pool2, False))"

definition CreateClients :: "redis_env \<Rightarrow> nat \<Rightarrow> string \<Rightarrow> u16 \<Rightarrow> RedisClientPool \<Rightarrow> RedisClientPool \<times> bool" where
  "CreateClients E ioc_pool_size host port pool = create_from E host port [0..<ioc_pool_size] pool"

definition PoolGet :: "nat \<Rightarrow> RedisClientPool \<Rightarrow> nat option" where
  "PoolGet index pool = (if index < length pool then Some index else None)"

definition PoolStop :: "RedisClientPool \<Rightarrow> RedisClientPool" where
  "PoolStop pool = map (\<lambda>p. if IsConnected p then Disconnect p else p) pool"

definition pool_clear :: "RedisClientPool \<Rightarrow> RedisClientPool" where
  "pool_clear pool = []"

text \<open>The client of a context (\<^verbatim>\<open>context.cpp\<close>): that of its connection's I/O context.\<close>

definition init_redis_client :: "nat \<Rightarrow> RedisClientPool \<Rightarrow> nat option" where
  "init_redis_client ioc_index pool = PoolGet ioc_index pool"

section \<open>The synchronous functions\<close>

text \<open>The third component is \<open>False\<close> where the address makes \<^verbatim>\<open>from_string\<close> throw.\<close>

definition do_sync_connect :: "redis_env \<Rightarrow> error_code \<Rightarrow> RedisClient \<Rightarrow> RedisClient \<times> bool \<times> bool" where
  "do_sync_connect E ec s =
     (let s1 = s\<lparr>connect_status := is_connectting\<rparr>
      in if \<not> address_ok E (redis_host s1) then (s1, False, False)
         else if ec \<noteq> None then (s1\<lparr>connect_status := not_connect\<rparr>, False, True)
         else (s1\<lparr>connect_status := is_connected\<rparr>, True, True))"

definition ConnectSync :: "redis_env \<Rightarrow> error_code \<Rightarrow> string \<Rightarrow> u16 \<Rightarrow> RedisClient \<Rightarrow> RedisClient \<times> bool \<times> bool" where
  "ConnectSync E ec host port s =
     (if IsConnected s \<or> IsConnectting s then (s, True, True)
      else do_sync_connect E ec (s\<lparr>redis_host := host, redis_port := port\<rparr>))"

datatype sync_end = SyncDone RedisValue | SyncThrew | SyncWaits

text \<open>
  The loops of \<open>CommandSync\<close>: the inner one, over what has been read, is the loop of the
  asynchronous client (\<open>reply_loop\<close>); \<open>SyncWaits\<close> is a read that has not returned.
\<close>

fun sync_read :: "reserve_env \<Rightarrow> RedisParser \<Rightarrow> string \<Rightarrow> nat \<Rightarrow> (string + string) list \<Rightarrow> sync_end" where
  "sync_read E parser read_data beg [] = SyncWaits"
| "sync_read E parser read_data beg (Inl msg # rs) = SyncDone (error_value msg)"
| "sync_read E parser read_data beg (Inr d # rs) =
     (if d = [] then sync_read E parser read_data beg rs
      else case reply_loop E parser (read_data @ d) beg of
        (p, beg2, None) \<Rightarrow> SyncThrew
      | (p, beg2, Some (completed, err)) \<Rightarrow>
          if completed then SyncDone (Result p)
          else if err then SyncDone (error_value ''parse fail'')
          else sync_read E p (read_data @ d) beg2 rs)"

text \<open>The bytes that are written, and what the caller gets.\<close>

definition CommandSync :: "reserve_env \<Rightarrow> string \<Rightarrow> RedisBuffer list \<Rightarrow> error_code \<Rightarrow> (string + string) list \<Rightarrow>
    string \<times> sync_end" where
  "CommandSync E cmd args write_ec reads =
     (MakeCommand (cmd # args),
      case write_ec of
        Some msg \<Rightarrow> SyncDone (error_value msg)
      | None \<Rightarrow> sync_read E new_RedisParser [] 0 reads)"

section \<open>One connecting client for every context\<close>

lemma create_client_ok:
  "address_ok E host \<Longrightarrow> create_client E host port i =
     ((new_RedisClient auto_reconnect)\<lparr>connect_status := is_connectting, redis_host := host, redis_port := port,
        outstanding := [Connecting host port (Some i)]\<rparr>, True)"
  by (simp add: create_client_def Connect_def do_async_connect_def start_io_def new_RedisClient_def IsConnected_def
      IsConnectting_def)

lemma create_from_ok:
  "address_ok E host \<Longrightarrow> create_from E host port is pool = (pool @ map (\<lambda>i. fst (create_client E host port i)) is, True)"
  by (induction "is" arbitrary: pool) (simp_all add: create_client_ok)

text \<open>
  Every I/O context gets a client of its own: after the pool is made over \<open>n\<close> contexts, the
  client of context \<open>i < n\<close> is the pool's \<open>i\<close>-th, connecting to the host and port given as its
  only operation, with the callback of its index; there is no other client.
\<close>
theorem one_client_per_context:
  assumes "address_ok E host"
  shows "case CreateClients E n host port [] of (pool, ok) \<Rightarrow>
     ok \<and> length pool = n \<and>
     (\<forall>i. init_redis_client i pool = (if i < n then Some i else None)) \<and>
     (\<forall>i<n. IsConnectting (pool ! i) \<and> outstanding (pool ! i) = [Connecting host port (Some i)] \<and> error_handle_policy (pool ! i) = auto_reconnect)"
  using assms
  by (simp add: CreateClients_def create_from_ok create_client_ok init_redis_client_def PoolGet_def IsConnectting_def
      new_RedisClient_def)

theorem one_client_per_context_witness:
  "\<exists>pool. CreateClients demo_redis_env 2 ''127.0.0.1'' 6379 [] = (pool, True) \<and> length pool = 2 \<and>
     init_redis_client 1 pool = Some 1"
proof -
  have "address_ok demo_redis_env ''127.0.0.1''" by (simp add: demo_redis_env_def)
  from one_client_per_context [OF this, of 2 6379] show ?thesis
    by (cases "CreateClients demo_redis_env 2 ''127.0.0.1'' 6379 []") auto
qed

text \<open>
  A host that is a name and no address: the first \<open>Connect\<close> throws out of \<open>CreateClients\<close>, and
  leaves a client that is neither connecting nor will ever connect, since it counts as connecting.
\<close>
lemma named_host_blocks_client:
  assumes "\<not> address_ok E host" "0 < n"
  shows "\<exists>p. CreateClients E n host port [] = ([p], False) \<and> outstanding p = [] \<and> Connect E on host2 port2 p = (p, True)"
  using assms
  by (simp add: CreateClients_def upt_conv_Cons create_client_def Connect_def do_async_connect_def
      new_RedisClient_def IsConnected_def IsConnectting_def)

text \<open>\<open>Stop\<close> leaves a client that is still connecting: it connects after the pool has stopped.\<close>

lemma stop_leaves_connecting:
  assumes "address_ok E host"
  shows "case PoolStop (fst (CreateClients E 1 host port [])) of
     [p] \<Rightarrow> outstanding p = [Connecting host port (Some 0)] \<and>
       IsConnected (on_connect_finished E (Some 0) None (finish_io (Connecting host port (Some 0)) p))
   | _ \<Rightarrow> False"
  using assms
  by (simp add: CreateClients_def create_from_ok create_client_ok PoolStop_def IsConnected_def on_connect_finished_def
      try_on_connect_handler_def finish_io_def new_RedisClient_def Let_def)

section \<open>A synchronous command\<close>

lemma sync_read_reply:
  assumes "redis_wf p" "concat ds \<noteq> []"
    and "ParseReply E p (concat ds) = (Some (length (concat ds), Completed), q)"
  shows "sync_read E p pre (length pre) (map Inr ds @ rs) = SyncDone (Result q)"
  using assms
proof (induction ds arbitrary: pre p)
  case (Cons d ds)
  show ?case
  proof (cases "d = []")
    case True
    then show ?thesis using Cons by simp
  next
    case dne: False
    show ?thesis
    proof (cases "concat ds = []")
      case True
      then have c: "ParseReply E p d = (Some (length d, Completed), q)" using Cons.prems(3) by (simp del: concat_eq_Nil_conv)
      show ?thesis using dne reply_loop_completed [OF c dne, of pre] by simp
    next
      case False
      then obtain p1 where p1: "ParseReply E p d = (Some (length d, Incompleted), p1)" "redis_wf p1"
        "ParseReply E p1 (concat ds) = (Some (length (concat ds), Completed), q)"
        using ParseReply_prefix [OF Cons.prems(1) _ dne False] Cons.prems(3) by (simp del: concat_eq_Nil_conv) blast
      show ?thesis using dne reply_loop_incompleted [OF p1(1) dne, of pre] Cons.IH [OF p1(2) False p1(3), of "pre @ d"]
        by simp
    qed
  qed
qed simp

text \<open>
  A synchronous command writes its words as the protocol has it and returns the server's
  reply, in whatever pieces, empty ones included, it is read; a failed write or read is an error
  value with the message.
\<close>
theorem command_sync_returns_reply:
  assumes "wire_ok r" "fits E r" "concat ds = wire r"
  shows "CommandSync E cmd args None (map Inr ds @ rs) = (MakeCommand (cmd # args), SyncDone (value_of r)) \<and>
     CommandSync E cmd args (Some msg) rs = (MakeCommand (cmd # args), SyncDone (error_value msg))"
proof -
  obtain q where q: "ParseReply E new_RedisParser (concat ds) = (Some (length (concat ds), Completed), q)" "Result q = value_of r"
    using reply_complete [of r E new_RedisParser "[]"] assms by (auto simp: new_RedisParser_def)
  have "concat ds \<noteq> []" unfolding assms(3) by simp
  from sync_read_reply [OF redis_wf_new this q(1), of "[]"] q(2) show ?thesis by (simp add: CommandSync_def)
qed

theorem command_sync_returns_reply_witness:
  "CommandSync small_reserve ''GET'' [''k''] None [Inr (''$2'' @ [CR]), Inr [], Inr ([LF] @ ''hi'' @ crlf)] =
     (MakeCommand [''GET'', ''k''], SyncDone (bytes_value ''hi''))"
proof -
  have "to_string 2 = ''2''" by code_simp
  then have "concat [''$2'' @ [CR], [], [LF] @ ''hi'' @ crlf] = wire (BulkString ''hi'')"
    by (simp add: crlf_def)
  then show ?thesis
    using command_sync_returns_reply [of "BulkString ''hi''" small_reserve "[''$2'' @ [CR], [], [LF] @ ''hi'' @ crlf]"
        "''GET''" "[''k'']" "[]"]
    by (simp add: small_reserve_def)
qed

end
