(* ===== verification/WsContextList.thy ===== *)
theory WsContextList
  imports WsRegistryProofs
begin

text \<open>
  The rest of \<^verbatim>\<open>websocket/context_websocket.cpp\<close> and its header: sending from a character pointer,
  finding a context in another application, and the list of all contexts of a URL with its
  iterators, over the registry of \<open>WsRegistry\<close>; and what a broadcast over such a list does.
\<close>

section \<open>Sending from a pointer\<close>

text \<open>
  \<open>mem\<close> is the memory from the pointer on.  A length of all ones asks for \<^verbatim>\<open>strlen\<close>; \<open>None\<close> is
  reading past the memory.
\<close>

definition pointer_text :: "byte list \<Rightarrow> u64 \<Rightarrow> byte list option" where
  "pointer_text mem len =
     (if len \<noteq> - 1 then (if unat len \<le> length mem then Some (take (unat len) mem) else None)
      else if 0 \<in> set mem then Some (takeWhile (\<lambda>b. b \<noteq> 0) mem) else None)"

definition SendTextPtr :: "byte list \<Rightarrow> u64 \<Rightarrow> ws_conn \<Rightarrow> ws_conn option" where
  "SendTextPtr mem len c = map_option (\<lambda>s. SendText s c) (pointer_text mem len)"

definition SendFirstTextPtr :: "byte list \<Rightarrow> u64 \<Rightarrow> ws_conn \<Rightarrow> ws_conn option" where
  "SendFirstTextPtr mem len c = map_option (\<lambda>s. SendFirstText s c) (pointer_text mem len)"

definition SendNextTextPtr :: "byte list \<Rightarrow> u64 \<Rightarrow> ws_conn \<Rightarrow> ws_conn option" where
  "SendNextTextPtr mem len c = map_option (\<lambda>s. SendNextText s c) (pointer_text mem len)"

definition SendLastTextPtr :: "byte list \<Rightarrow> u64 \<Rightarrow> ws_conn \<Rightarrow> ws_conn option" where
  "SendLastTextPtr mem len c = map_option (\<lambda>s. SendLastText s c) (pointer_text mem len)"

section \<open>A context of another application\<close>

text \<open>\<open>same\<close>: the other application is this one; the result is a connection and its application's.\<close>

definition OtherOneIn :: "bool \<Rightarrow> conn_ref \<Rightarrow> string \<Rightarrow> UrlFlag \<Rightarrow> string \<Rightarrow> 'f ws_app \<Rightarrow> 'f ws_app \<Rightarrow> conn_ref option" where
  "OtherOneIn same r url url_flag ident other a =
     (case ws_heap a r of
        None \<Rightarrow> None
      | Some cnt \<Rightarrow>
          if same \<and> ident = ws_id cnt \<and> MakesureFullUrlPath url url_flag (ws_root a) = GetURLPath cnt then Some r
          else WebsocketConnection url url_flag ident other)"

section \<open>The list of contexts\<close>

type_synonym ContextList = "conn_ref option list"

definition ContextList_at :: "'f ws_app \<Rightarrow> string \<Rightarrow> UrlFlag \<Rightarrow> ContextList" where
  "ContextList_at a url flag = AllWebSocketConnections url flag a"

definition ContextList_of :: "'f ws_app \<Rightarrow> ws_conn \<Rightarrow> ContextList" where
  "ContextList_of a src = AllWebSocketConnections (GetURLPath src) url_full_path a"

text \<open>An iterator: the position in the list, and whether its weak pointer to the application is set.\<close>

record ctx_iterator =
  it_pos :: nat
  it_app :: bool

definition ctx_begin :: "ContextList \<Rightarrow> ctx_iterator" where
  "ctx_begin l = \<lparr>it_pos = 0, it_app = True\<rparr>"

definition ctx_end :: "ContextList \<Rightarrow> ctx_iterator" where
  "ctx_end l = \<lparr>it_pos = length l, it_app = False\<rparr>"

definition it_differs :: "ctx_iterator \<Rightarrow> ctx_iterator \<Rightarrow> bool" where
  "it_differs i j \<longleftrightarrow> it_pos i \<noteq> it_pos j"

definition it_next :: "ctx_iterator \<Rightarrow> ctx_iterator" where
  "it_next i = i\<lparr>it_pos := it_pos i + 1\<rparr>"

definition it_assign :: "ctx_iterator \<Rightarrow> ctx_iterator \<Rightarrow> ctx_iterator" where
  "it_assign i src = i\<lparr>it_pos := it_pos src\<rparr>"

text \<open>\<open>Deref_null\<close> is a null context; \<open>Deref_abort\<close> the assertion that a context has a connection.\<close>

datatype deref = Deref conn_ref | Deref_null | Deref_abort

definition it_deref :: "ContextList \<Rightarrow> ctx_iterator \<Rightarrow> deref" where
  "it_deref l i =
     (if \<not> it_app i then Deref_null
      else if it_pos i < length l then (case l ! it_pos i of None \<Rightarrow> Deref_abort | Some r \<Rightarrow> Deref r)
      else Deref_abort)"

text \<open>
  A loop over the list, \<^verbatim>\<open>for (auto ctx : list) f(ctx)\<close>; \<open>None\<close> where a context cannot be used.
  It is the recursion over the iterators between \<open>begin\<close> and \<open>end\<close>.
\<close>

function for_each_from :: "(ws_conn \<Rightarrow> ws_conn) \<Rightarrow> ContextList \<Rightarrow> ctx_iterator \<Rightarrow> 'f ws_app \<Rightarrow> 'f ws_app option" where
  "for_each_from f l i a =
     (if \<not> it_differs i (ctx_end l) \<or> length l < it_pos i then Some a
      else case it_deref l i of
        Deref r \<Rightarrow>
          (case ws_heap a r of
             None \<Rightarrow> None
           | Some c \<Rightarrow> for_each_from f l (it_next i) (a\<lparr>ws_heap := (ws_heap a)(r \<mapsto> f c)\<rparr>))
      | _ \<Rightarrow> None)"
  by pat_completeness auto
termination
  by (relation "measure (\<lambda>(f, l, i, a). length l - it_pos i)") (auto simp: it_differs_def ctx_end_def it_next_def)

declare for_each_from.simps [simp del]

definition for_each_context :: "(ws_conn \<Rightarrow> ws_conn) \<Rightarrow> ContextList \<Rightarrow> 'f ws_app \<Rightarrow> 'f ws_app option" where
  "for_each_context f l a = for_each_from f l (ctx_begin l) a"

section \<open>A broadcast\<close>

definition heap_map :: "(ws_conn \<Rightarrow> ws_conn) \<Rightarrow> conn_ref set \<Rightarrow> 'f ws_app \<Rightarrow> 'f ws_app" where
  "heap_map f rs a = a\<lparr>ws_heap := (\<lambda>r. if r \<in> rs then map_option f (ws_heap a r) else ws_heap a r)\<rparr>"

lemma heap_map_empty [simp]: "heap_map f {} a = a"
  by (simp add: heap_map_def)

lemma heap_map_insert:
  "ws_heap a r = Some c \<Longrightarrow> r \<notin> rs \<Longrightarrow> heap_map f rs (a\<lparr>ws_heap := (ws_heap a)(r \<mapsto> f c)\<rparr>) = heap_map f (insert r rs) a"
  by (auto simp: heap_map_def fun_eq_iff)

lemma for_each_from_all:
  assumes "distinct rs" "\<forall>r\<in>set rs. ws_heap a r \<noteq> None" "l = map Some (pre @ rs)"
  shows "for_each_from f l \<lparr>it_pos = length pre, it_app = True\<rparr> a = Some (heap_map f (set rs) a)"
  using assms
proof (induction rs arbitrary: pre a)
  case Nil
  then show ?case by (simp add: for_each_from.simps it_differs_def ctx_end_def)
next
  case (Cons r rs)
  then obtain c where c: "ws_heap a r = Some c" by auto
  let ?i = "\<lparr>it_pos = length pre, it_app = True\<rparr>" and ?a = "a\<lparr>ws_heap := (ws_heap a)(r \<mapsto> f c)\<rparr>"
  have d: "it_deref l ?i = Deref r"
    using Cons.prems(3) by (simp add: it_deref_def nth_append)
  have e: "it_differs ?i (ctx_end l)" "\<not> length l < it_pos ?i"
    using Cons.prems(3) by (simp_all add: it_differs_def ctx_end_def)
  have "for_each_from f l (it_next ?i) ?a = Some (heap_map f (set rs) ?a)"
    using Cons.IH [of ?a "pre @ [r]"] Cons.prems by (simp add: it_next_def)
  then show ?case
    using c d e heap_map_insert [OF c, of "set rs" f] Cons.prems(1) by (subst for_each_from.simps) simp
qed

lemma for_each_context_all:
  assumes "distinct rs" "\<forall>r\<in>set rs. ws_heap a r \<noteq> None"
  shows "for_each_context f (map Some rs) a = Some (heap_map f (set rs) a)"
  using for_each_from_all [OF assms, of "map Some rs" "[]"] by (simp add: for_each_context_def ctx_begin_def)

lemma for_each_from_null:
  assumes "None \<in> set (drop (it_pos i) l)" "it_app i"
  shows "for_each_from f l i a = None"
  using assms
proof (induction f l i a rule: for_each_from.induct)
  case (1 f l i a)
  let ?n = "it_pos i"
  have n: "?n < length l" using "1.prems"(1) by (cases "?n < length l") simp_all
  then have go: "\<not> (\<not> it_differs i (ctx_end l) \<or> length l < ?n)" by (simp add: it_differs_def ctx_end_def)
  show ?case
  proof (cases "l ! ?n")
    case None
    then have "it_deref l i = Deref_abort" using n "1.prems"(2) by (simp add: it_deref_def)
    then show ?thesis using go by (subst for_each_from.simps) simp
  next
    case (Some r)
    then have d: "it_deref l i = Deref r" using n "1.prems"(2) by (simp add: it_deref_def)
    have "None \<in> set (drop (it_pos (it_next i)) l)"
      using "1.prems"(1) Some by (simp add: it_next_def Cons_nth_drop_Suc [OF n, symmetric])
    then show ?thesis
      using "1.IH" [OF go d] "1.prems"(2) go d
      by (subst for_each_from.simps) (auto simp: it_next_def split: option.splits)
  qed
qed

lemma for_each_context_null: "None \<in> set l \<Longrightarrow> for_each_context f l a = None"
  by (simp add: for_each_context_def ctx_begin_def for_each_from_null)

text \<open>What the registry gives for a URL: a null for each entry of a connection that is gone, and
  otherwise its connections, each once.\<close>

lemma registered_entries:
  assumes "registry_inv b"
  shows "\<exists>cs. (\<forall>i r. registered b (u, i) = Some r \<longleftrightarrow> (i, r) \<in> set cs) \<and> distinct cs \<and>
     AllWebSocketConnections u url_full_path b = map (lock_ref (ws_heap b) \<circ> snd) cs"
proof (cases "omap_find str_less (websocket_connections b) u")
  case None
  then show ?thesis by (intro exI [of _ "[]"]) (simp add: AllWebSocketConnections_def registered_def)
next
  case (Some cs)
  have so: "omap_sorted str_less cs" using assms Some by (simp add: registry_inv_def maps_sorted_def)
  have "distinct cs" using so by (induction cs) (auto, metis fst_conv strs.irrefl)
  moreover have "\<forall>i r. registered b (u, i) = Some r \<longleftrightarrow> (i, r) \<in> set cs"
    using Some strm.find_in [OF so] by (simp add: registered_def)
  moreover have "AllWebSocketConnections u url_full_path b = map (lock_ref (ws_heap b) \<circ> snd) cs"
    using Some by (auto simp: AllWebSocketConnections_def Connections_All_def)
  ultimately show ?thesis by blast
qed

lemma registered_list:
  assumes "registry_inv b" "\<forall>i r. registered b (u, i) = Some r \<longrightarrow> ws_heap b r \<noteq> None"
  shows "\<exists>rs. AllWebSocketConnections u url_full_path b = map Some rs \<and> distinct rs \<and>
     set rs = {r. \<exists>i. registered b (u, i) = Some r} \<and> (\<forall>r\<in>set rs. ws_heap b r \<noteq> None)"
proof -
  have no: "names_own b" using assms(1) by (simp add: registry_inv_def)
  obtain cs where in_cs: "\<forall>i r. registered b (u, i) = Some r \<longleftrightarrow> (i, r) \<in> set cs" and dst: "distinct cs"
    and al: "AllWebSocketConnections u url_full_path b = map (lock_ref (ws_heap b) \<circ> snd) cs"
    using registered_entries [OF assms(1)] by blast
  have name: "\<exists>c. ws_heap b r = Some c \<and> ws_id c = i" if "(i, r) \<in> set cs" for i r
    using that in_cs assms(2) entry_ok_alive [OF names_ownD [OF no, of u i r]] by blast
  have "inj_on snd (set cs)"
    by (rule inj_onI) (metis name option.inject prod.collapse)
  then have "distinct (map snd cs)" using dst by (simp add: distinct_map)
  moreover have "AllWebSocketConnections u url_full_path b = map Some (map snd cs)"
    using name by (fastforce simp: al lock_ref_def)
  moreover have "set (map snd cs) = {r. \<exists>i. registered b (u, i) = Some r}"
    using in_cs by force
  moreover have "\<forall>r\<in>set (map snd cs). ws_heap b r \<noteq> None" using name by fastforce
  ultimately show ?thesis by blast
qed

lemma registered_null:
  assumes "registry_inv b" "registered b (u, i) = Some r" "ws_heap b r = None"
  shows "None \<in> set (AllWebSocketConnections u url_full_path b)"
proof -
  obtain cs where "\<forall>i r. registered b (u, i) = Some r \<longleftrightarrow> (i, r) \<in> set cs"
    "AllWebSocketConnections u url_full_path b = map (lock_ref (ws_heap b) \<circ> snd) cs"
    using registered_entries [OF assms(1)] by blast
  then show ?thesis using assms(2,3) by (force simp: lock_ref_def)
qed

text \<open>
  (C39) A broadcast reaches every connection of a URL, once, and no other, or meets an empty pointer:
  after whatever upgrades, renamings, removals, work and endings, a loop that sends a text to each
  context of the list of a URL runs into a null context if the URL has an entry of a connection that
  is gone (one that had no identity, see \<open>renamed_to_empty_stays\<close>); if it has none, the loop goes
  through, appends the text's frame to just the connections registered for the URL, and leaves all
  else as it was.
\<close>
theorem broadcast_reaches_each_once:
  assumes "(app_step B sha1)\<^sup>*\<^sup>* a b" "websocket_connections a = []" "ws_heap a = (\<lambda>r. None)"
  shows "if \<exists>i r. registered b (u, i) = Some r \<and> ws_heap b r = None
     then for_each_context (SendText s) (ContextList_at b u url_full_path) b = None
     else \<exists>d. for_each_context (SendText s) (ContextList_at b u url_full_path) b = Some d \<and>
       (\<forall>r. ws_heap d r = (if \<exists>i. registered b (u, i) = Some r then map_option (SendText s) (ws_heap b r) else ws_heap b r)) \<and>
       websocket_connections d = websocket_connections b"
proof -
  have "registry_inv a"
    using assms(2,3) by (simp add: registry_inv_def maps_sorted_def names_own_def registered_def)
  then have inv: "registry_inv b" by (rule registry_reach_inv [OF assms(1)])
  show ?thesis
  proof (cases "\<exists>i r. registered b (u, i) = Some r \<and> ws_heap b r = None")
    case True
    then show ?thesis using registered_null [OF inv] by (auto simp: ContextList_at_def intro: for_each_context_null)
  next
    case False
    then have "\<forall>i r. registered b (u, i) = Some r \<longrightarrow> ws_heap b r \<noteq> None" by auto
    from registered_list [OF inv this]
    obtain rs where rs: "AllWebSocketConnections u url_full_path b = map Some rs" "distinct rs"
      "set rs = {r. \<exists>i. registered b (u, i) = Some r}" "\<forall>r\<in>set rs. ws_heap b r \<noteq> None" by blast
    have "for_each_context (SendText s) (ContextList_at b u url_full_path) b = Some (heap_map (SendText s) (set rs) b)"
      using for_each_context_all [OF rs(2,4)] by (simp add: ContextList_at_def rs(1))
    then show ?thesis using False rs(3) by (simp add: heap_map_def)
  qed
qed

theorem broadcast_reaches_each_once_witness:
  "\<exists>(b :: unit ws_app) d c. for_each_context (SendText [104, 105]) (ContextList_at b ''/chat'' url_full_path) b = Some d \<and>
     ws_heap b 7 = Some c \<and> ws_heap d 7 = Some (SendText [104, 105] c)"
proof -
  have e: "websocket_connections empty_ws_app = []" "ws_heap empty_ws_app = (\<lambda>r. None)"
    by (simp_all add: empty_ws_app_def)
  obtain b :: "unit ws_app" where b: "(app_step boost_classic (\<lambda>s. replicate 20 0))\<^sup>*\<^sup>* empty_ws_app b"
    "\<forall>u i. registered b (u, i) = (if u = ''/chat'' \<and> i = ''id'' then Some 7 else None)" using demo_upgraded by blast
  have "registry_inv empty_ws_app"
    using e by (simp add: registry_inv_def maps_sorted_def names_own_def registered_def)
  then have "names_own b" using registry_reach_inv [OF b(1)] by (simp add: registry_inv_def)
  then have "entry_ok (ws_heap b) ''/chat'' ''id'' 7" using b(2) by (simp add: names_ownD)
  then obtain c where c: "ws_heap b 7 = Some c" by (auto simp: entry_ok_def split: option.splits)
  then have n: "\<not> (\<exists>i r. registered b (''/chat'', i) = Some r \<and> ws_heap b r = None)" using b(2) by auto
  obtain d where d: "for_each_context (SendText [104, 105]) (ContextList_at b ''/chat'' url_full_path) b = Some d"
    "\<forall>r. ws_heap d r = (if \<exists>i. registered b (''/chat'', i) = Some r then map_option (SendText [104, 105]) (ws_heap b r) else ws_heap b r)"
    using broadcast_reaches_each_once [OF b(1) e, of "''/chat''" "[104, 105]", unfolded if_not_P [OF n]] by blast
  have "\<exists>i. registered b (''/chat'', i) = Some 7" using b(2) by simp
  then have "ws_heap d 7 = Some (SendText [104, 105] c)" using d(2) c by simp
  then show ?thesis using d(1) c by blast
qed

section \<open>What the iterators forget\<close>

text \<open>
  Assigning an iterator does not copy the application: one that was made by \<open>end\<close> and then assigned
  \<open>begin\<close> gives null contexts for a list of live connections.
\<close>
lemma assigned_iterator_gives_null:
  "it_deref l (it_assign (ctx_end l) (ctx_begin l)) = Deref_null \<and> it_assign (ctx_end l) (ctx_begin l) \<noteq> ctx_begin l"
  by (simp add: it_deref_def it_assign_def ctx_end_def ctx_begin_def)

text \<open>A text that holds a zero byte is cut when its length is left to \<^verbatim>\<open>strlen\<close>, and kept when it is given.\<close>

lemma stop_at_zero: "takeWhile (\<lambda>b. b \<noteq> 0) (s @ [0]) = takeWhile (\<lambda>b. b \<noteq> 0) (s :: byte list)"
  by (induction s) auto

lemma pointer_text_lengths:
  "length s < 2 ^ 64 - 1 \<Longrightarrow> pointer_text (s @ [0]) (word_of_nat (length s)) = Some s"
  "pointer_text (s @ [0]) (- 1) = Some (takeWhile (\<lambda>b. b \<noteq> 0) s)"
proof -
  assume l: "length s < 2 ^ 64 - 1"
  then have u: "unat (word_of_nat (length s) :: u64) = length s"
    by (simp only: unat_of_nat) (simp add: take_bit_nat_eq_self)
  moreover have "(word_of_nat (length s) :: u64) \<noteq> - 1"
  proof
    assume "(word_of_nat (length s) :: u64) = - 1"
    then have "length s = unat (- 1 :: u64)" using u by metis
    moreover have "unat (- 1 :: u64) = 2 ^ 64 - 1" by (simp add: unsigned_minus_1_eq_mask mask_eq_exp_minus_1)
    ultimately show False using l by linarith
  qed
  ultimately show "pointer_text (s @ [0]) (word_of_nat (length s)) = Some s"
    by (simp add: pointer_text_def)
next
  show "pointer_text (s @ [0]) (- 1) = Some (takeWhile (\<lambda>b. b \<noteq> 0) s)"
    using stop_at_zero [of s] by (simp add: pointer_text_def)
qed

end
