(* ===== verification/AppSetup.thy ===== *)
theory AppSetup
  imports Application Templates
begin

text \<open>
  \<^verbatim>\<open>application.cpp\<close> and \<^verbatim>\<open>def/log_def.cpp\<close>: constructing an application and its \<open>Init\<close>: the
  logger, the directories, the templates; the loggers of the program.  The library of paths is
  an argument, as are the files that can be opened for a log; a logger is the name and the file
  it writes to, its level and limits are left out, and messages are not modelled.  The
  assertions are those of a debug build and are not part of the functions.
\<close>

section \<open>Loggers\<close>

datatype log_sink = null_logger | file_logger string string

text \<open>What the logging library has registered by name, and whether a file can be opened.\<close>

type_synonym log_registry = "(string \<times> log_sink) list"

definition log_IsNull :: "log_sink option \<Rightarrow> bool" where
  "log_IsNull l \<longleftrightarrow> l = None \<or> l = Some null_logger"

text \<open>Opening the file and registering a name that is taken throw, and are caught: \<open>None\<close>.\<close>

definition CreateAppLogger :: "(string \<Rightarrow> bool) \<Rightarrow> string \<Rightarrow> string \<Rightarrow> log_registry \<Rightarrow> log_sink option \<times> log_registry" where
  "CreateAppLogger can_open application_name application_root_log reg =
     (let log_filename = application_root_log @ application_name @ ''.log''; l = file_logger application_name log_filename
      in if \<not> can_open log_filename then (None, reg)
         else if map_of reg application_name \<noteq> None then (None, reg)
         else (Some l, reg @ [(application_name, l)]))"

definition log_InitLogger :: "(string \<Rightarrow> bool) \<Rightarrow> string \<Rightarrow> string \<Rightarrow> log_registry \<Rightarrow> bool \<times> log_registry" where
  "log_InitLogger can_open name log_dir reg =
     (let log_filename = log_dir @ name @ ''.log''
      in if \<not> can_open log_filename then (False, reg)
         else if map_of reg name \<noteq> None then (False, reg)
         else (True, reg @ [(name, file_logger name log_filename)]))"

definition InitServerLogger :: "(string \<Rightarrow> bool) \<Rightarrow> string \<Rightarrow> log_registry \<Rightarrow> bool \<times> log_registry" where
  "InitServerLogger can_open log_dir reg = log_InitLogger can_open ''server'' log_dir reg"

definition log_Server :: "log_registry \<Rightarrow> log_sink" where
  "log_Server reg = (case map_of reg ''server'' of Some l \<Rightarrow> l | None \<Rightarrow> null_logger)"

section \<open>The library of paths\<close>

text \<open>\<open>None\<close> where a function throws.\<close>

record path_lib =
  current_path :: "string option"
  temp_directory_path :: "string option"
  is_absolute :: "string \<Rightarrow> bool"
  absolute :: "string \<Rightarrow> string option"
  path_append :: "string \<Rightarrow> string \<Rightarrow> string"

section \<open>Constructing\<close>

record ('h, 'r, 'i, 't) AppSetup = "('h, 'r, 'i) Application" +
  app_logger :: "log_sink option"
  app_templates :: "'t Templates"
  app_is_abortive :: bool

text \<open>The members' initialisers, with the name, the charset and the root the constructors give.\<close>

definition app_members :: "string \<Rightarrow> string \<Rightarrow> string \<Rightarrow> string \<Rightarrow> UploadFileSaveOptions \<Rightarrow> ('h, 'r, 'i, 't) AppSetup" where
  "app_members name charset root ext opts =
     \<lparr>app_disabled = False, app_mounted = False, app_name = name, default_charset = charset, root_url = root,
      root_log = [], root_static = [], root_template = [], root_upload = [], root_temporary = [],
      app_template_ext = ext, upload_max_size_limit_kb = 1 * 1024 * 1024, upload_file_save_opt = opts,
      equalRouter = [], startwithsRouter = [], regexRouter = [], intercepters = [],
      app_logger = Some null_logger, app_templates = new_Templates [] [] [], app_is_abortive = False\<rparr>"

definition default_init_pathes :: "path_lib \<Rightarrow> ('h, 'r, 'i, 't) AppSetup \<Rightarrow> ('h, 'r, 'i, 't) AppSetup option" where
  "default_init_pathes P a =
     (case (current_path P, temp_directory_path P) of
        (Some d, Some t) \<Rightarrow> Some (a\<lparr>root_log := d, root_template := d, root_static := d, root_upload := t, root_temporary := t\<rparr>)
      | _ \<Rightarrow> None)"

definition default_init_logger :: "('h, 'r, 'i, 't) AppSetup \<Rightarrow> ('h, 'r, 'i, 't) AppSetup" where
  "default_init_logger a = (if app_logger a = None then a\<lparr>app_logger := Some null_logger\<rparr> else a)"

definition default_init_templates :: "('h, 'r, 'i, 't) AppSetup \<Rightarrow> ('h, 'r, 'i, 't) AppSetup" where
  "default_init_templates a = a\<lparr>app_templates := TmplInitPathes (root_template a) ''/'' daqi_HTML_template_ext (app_templates a)\<rparr>"

definition default_init :: "path_lib \<Rightarrow> ('h, 'r, 'i, 't) AppSetup \<Rightarrow> ('h, 'r, 'i, 't) AppSetup option" where
  "default_init P a = map_option (\<lambda>b. default_init_templates (default_init_logger b)) (default_init_pathes P a)"

text \<open>The constructor without a name leaves the extension of the templates empty.\<close>

definition app_Default :: "path_lib \<Rightarrow> UploadFileSaveOptions \<Rightarrow> ('h, 'r, 'i, 't) AppSetup option" where
  "app_Default P opts = default_init P (app_members ''DAQI-APP'' ''utf-8'' ''/'' [] opts)"

definition app_Default_named :: "path_lib \<Rightarrow> UploadFileSaveOptions \<Rightarrow> string \<Rightarrow> ('h, 'r, 'i, 't) AppSetup option" where
  "app_Default_named P opts name = default_init P (app_members name ''utf-8'' ''/'' daqi_HTML_template_ext opts)"

text \<open>\<open>ndebug\<close>: only a release build marks the application as abortive.\<close>

definition app_Abortive :: "bool \<Rightarrow> path_lib \<Rightarrow> UploadFileSaveOptions \<Rightarrow> string \<Rightarrow> ('h, 'r, 'i, 't) AppSetup option" where
  "app_Abortive ndebug P opts abortive_log_root =
     map_option (\<lambda>a. a\<lparr>root_log := abortive_log_root, app_name := ''ABORTIVE-APP'',
        app_is_abortive := (if ndebug then True else app_is_abortive a)\<rparr>) (app_Default P opts)"

definition InitAbortiveAppLogRoot :: "string \<Rightarrow> string \<Rightarrow> string" where
  "InitAbortiveAppLogRoot log_path abortive_log_root =
     (if abortive_log_root = ''./'' \<and> log_path \<noteq> ''./'' then log_path else abortive_log_root)"

section \<open>Initialising\<close>

text \<open>An empty directory is replaced by a default one, a relative one made absolute.\<close>

definition fix_path :: "path_lib \<Rightarrow> string option \<Rightarrow> string \<Rightarrow> string option" where
  "fix_path P dflt p = (if p = [] then dflt else if \<not> is_absolute P p then absolute P p else Some p)"

definition AppInitPathes :: "path_lib \<Rightarrow> ('h, 'r, 'i, 't) AppSetup \<Rightarrow> bool \<times> ('h, 'r, 'i, 't) AppSetup" where
  "AppInitPathes P a =
     (case fix_path P (current_path P) (root_template a) of None \<Rightarrow> (False, a) | Some d1 \<Rightarrow>
      let a1 = a\<lparr>root_template := d1\<rparr> in
      case fix_path P (current_path P) (root_static a1) of None \<Rightarrow> (False, a1) | Some d2 \<Rightarrow>
      let a2 = a1\<lparr>root_static := d2\<rparr> in
      case fix_path P (temp_directory_path P) (root_upload a2) of None \<Rightarrow> (False, a2) | Some d3 \<Rightarrow>
      let a3 = a2\<lparr>root_upload := d3\<rparr> in
      case fix_path P (current_path P) (root_temporary a3) of None \<Rightarrow> (False, a3) | Some d4 \<Rightarrow>
      (True, a3\<lparr>root_temporary := d4\<rparr>))"

definition app_Customize :: "path_lib \<Rightarrow> UploadFileSaveOptions \<Rightarrow> string \<Rightarrow> string \<Rightarrow> string \<Rightarrow> string \<Rightarrow> string \<Rightarrow>
    string \<Rightarrow> string \<Rightarrow> string \<Rightarrow> ('h, 'r, 'i, 't) AppSetup" where
  "app_Customize P opts name root log static template upload temp_root ext =
     snd (AppInitPathes P ((app_members name ''UTF-8'' root ext opts)
       \<lparr>root_log := log, root_static := static, root_template := template, root_upload := upload,
        root_temporary := temp_root, app_templates := new_Templates template root ext\<rparr>))"

text \<open>The directory of the log: the two statements of the try block, in order.\<close>

definition fix_log_path :: "path_lib \<Rightarrow> string \<Rightarrow> string option \<times> string" where
  "fix_log_path P p =
     (case (if p = [] then map_option (\<lambda>d. path_append P d ''/'') (current_path P) else Some p) of
        None \<Rightarrow> (None, p)
      | Some q \<Rightarrow> if is_absolute P q then (Some q, q)
                  else (case absolute P q of None \<Rightarrow> (None, q) | Some r \<Rightarrow> (Some r, r)))"

definition AppInitLogger :: "(string \<Rightarrow> bool) \<Rightarrow> path_lib \<Rightarrow> log_registry \<Rightarrow> ('h, 'r, 'i, 't) AppSetup \<Rightarrow>
    bool \<times> log_registry \<times> ('h, 'r, 'i, 't) AppSetup" where
  "AppInitLogger can_open P reg a =
     (if \<not> log_IsNull (app_logger a) then (False, reg, a)
      else case fix_log_path P (root_log a) of
        (None, d) \<Rightarrow> (False, reg, a\<lparr>root_log := d\<rparr>)
      | (Some q, d) \<Rightarrow>
          (case CreateAppLogger can_open (app_name a) q reg of
             (l, reg2) \<Rightarrow> (l \<noteq> None, reg2, a\<lparr>root_log := d, app_logger := l\<rparr>)))"

definition AppInitLoggerAt :: "(string \<Rightarrow> bool) \<Rightarrow> path_lib \<Rightarrow> string \<Rightarrow> log_registry \<Rightarrow> ('h, 'r, 'i, 't) AppSetup \<Rightarrow>
    bool \<times> log_registry \<times> ('h, 'r, 'i, 't) AppSetup" where
  "AppInitLoggerAt can_open P log_root reg a =
     AppInitLogger can_open P reg (if root_log a \<noteq> log_root then a\<lparr>root_log := log_root\<rparr> else a)"

definition UndesiredTemplates :: "('h, 'r, 'i, 't) AppSetup \<Rightarrow> ('h, 'r, 'i, 't) AppSetup" where
  "UndesiredTemplates a = a\<lparr>app_templates := Disable (app_templates a)\<rparr>"

text \<open>\<open>dir_of\<close> is the directory a path names when the templates are read.\<close>

definition AppInitTemplates :: "boost_algo \<Rightarrow> ('t, 'e) inja \<Rightarrow> (string \<Rightarrow> tmpl_dir) \<Rightarrow> int \<Rightarrow> bool \<Rightarrow> string \<Rightarrow>
    ('h, 'r, 'i, 't) AppSetup \<Rightarrow> bool \<times> ('h, 'r, 'i, 't) AppSetup" where
  "AppInitTemplates B L dir_of tm ndebug ext a =
     (if ndebug \<and> app_is_abortive a then (True, a)
      else let a1 = (if ext \<noteq> [] then a\<lparr>app_template_ext := ext\<rparr> else a)
        in if app_template_ext a1 \<noteq> [] then
             (let t = TmplInitPathes (root_template a1) (root_url a1) (app_template_ext a1) (app_templates a1);
                  (ok, t2) = Preload B L (dir_of (tmpl_root t)) tm t
              in (ok, a1\<lparr>app_templates := t2\<rparr>))
           else (True, a1))"

definition AppInit :: "(string \<Rightarrow> bool) \<Rightarrow> path_lib \<Rightarrow> boost_algo \<Rightarrow> ('t, 'e) inja \<Rightarrow> (string \<Rightarrow> tmpl_dir) \<Rightarrow> int \<Rightarrow> bool \<Rightarrow>
    string \<Rightarrow> log_registry \<Rightarrow> ('h, 'r, 'i, 't) AppSetup \<Rightarrow> bool \<times> log_registry \<times> ('h, 'r, 'i, 't) AppSetup" where
  "AppInit can_open P B L dir_of tm ndebug ext reg a =
     (case AppInitLogger can_open P reg a of
        (False, reg1, a1) \<Rightarrow> (False, reg1, a1)
      | (True, reg1, a1) \<Rightarrow>
          (case AppInitPathes P a1 of
             (False, a2) \<Rightarrow> (False, reg1, a2)
           | (True, a2) \<Rightarrow>
               (case AppInitTemplates B L dir_of tm ndebug ext a2 of (ok, a3) \<Rightarrow> (ok, reg1, a3))))"

section \<open>The loggers of the applications\<close>

text \<open>The manager keeps the logger an application has when it is mounted, by its name.\<close>

definition mgr_keep_logger :: "bool \<Rightarrow> bool \<Rightarrow> ('h, 'r, 'i, 't) AppSetup \<Rightarrow> (string \<times> log_sink option) list \<Rightarrow>
    (string \<times> log_sink option) list" where
  "mgr_keep_logger mgr_is_mounted name_exists a ls =
     (if mgr_is_mounted \<or> name_exists \<or> map_of ls (app_name a) \<noteq> None then ls else ls @ [(app_name a, app_logger a)])"

definition GetApplicationLogger :: "bool \<Rightarrow> log_sink option \<Rightarrow> string \<Rightarrow> (string \<times> log_sink option) list \<Rightarrow> log_sink option" where
  "GetApplicationLogger ndebug abortive_logger name ls =
     (case map_of ls name of
        Some l \<Rightarrow> l
      | None \<Rightarrow> if ndebug \<and> name = ''ABORTIVE-APP'' then abortive_logger else Some null_logger)"

end
