(* ===== verification/AppSetupProofs.thy ===== *)
theory AppSetupProofs
  imports AppSetup TemplatesProofs
begin

text \<open>
  What \<open>Init\<close> of an application leaves behind (\<open>AppSetup\<close>), and where the ways of setting up an
  application differ from each other.
\<close>

text \<open>
  What is documented of the library of paths: the working directory and what \<^verbatim>\<open>absolute\<close> makes are
  absolute.  Nothing of the kind is said of the directory for temporary files, which is the value
  of an environment variable, relative or not.
\<close>

definition paths_ok :: "path_lib \<Rightarrow> bool" where
  "paths_ok P \<longleftrightarrow>
     (\<forall>d. current_path P = Some d \<longrightarrow> is_absolute P d \<and> is_absolute P (path_append P d ''/'')) \<and>
     (\<forall>p q. absolute P p = Some q \<longrightarrow> is_absolute P q)"

lemma fix_path_absolute:
  "paths_ok P \<Longrightarrow> dflt = current_path P \<or> p \<noteq> [] \<Longrightarrow> fix_path P dflt p = Some q \<Longrightarrow> is_absolute P q"
  by (auto simp: fix_path_def paths_ok_def split: if_splits)

text \<open>What \<open>InitPathes\<close> makes of a directory: an absolute one is kept, a relative one made absolute.\<close>

lemma fix_path_is:
  "fix_path P dflt p = Some q \<Longrightarrow>
     (if p = [] then dflt = Some q else if is_absolute P p then q = p else absolute P p = Some q)"
  by (auto simp: fix_path_def split: if_splits)

lemma fix_path_kept: "is_absolute P p \<Longrightarrow> p \<noteq> [] \<Longrightarrow> fix_path P dflt p = Some p"
  by (simp add: fix_path_def)

lemma fix_log_path_absolute:
  "paths_ok P \<Longrightarrow> fix_log_path P p = (Some q, d) \<Longrightarrow> is_absolute P q \<and> d = q"
  by (auto simp: fix_log_path_def paths_ok_def split: if_splits option.splits)

lemma AppInitPathes_ok:
  assumes "AppInitPathes P a = (True, b)"
  obtains d1 d2 d3 d4 where
    "fix_path P (current_path P) (root_template a) = Some d1" "fix_path P (current_path P) (root_static a) = Some d2"
    "fix_path P (temp_directory_path P) (root_upload a) = Some d3" "fix_path P (current_path P) (root_temporary a) = Some d4"
    "b = a\<lparr>root_template := d1, root_static := d2, root_upload := d3, root_temporary := d4\<rparr>"
  using assms by (auto simp: AppInitPathes_def Let_def split: option.splits)

lemma AppInitLogger_ok:
  assumes "AppInitLogger can_open P reg a = (True, reg2, b)"
  obtains q where "fix_log_path P (root_log a) = (Some q, q)" "can_open (q @ app_name a @ ''.log'')"
    "map_of reg (app_name a) = None" "reg2 = reg @ [(app_name a, file_logger (app_name a) (q @ app_name a @ ''.log''))]"
    "b = a\<lparr>root_log := q, app_logger := Some (file_logger (app_name a) (q @ app_name a @ ''.log''))\<rparr>"
proof -
  obtain r d where f: "fix_log_path P (root_log a) = (r, d)" by (cases "fix_log_path P (root_log a)")
  have n: "log_IsNull (app_logger a)" using assms by (auto simp: AppInitLogger_def split: if_splits)
  then obtain q where r: "r = Some q" using assms f by (cases r) (auto simp: AppInitLogger_def)
  then have "d = q" using f by (auto simp: fix_log_path_def split: if_splits option.splits)
  moreover have "can_open (q @ app_name a @ ''.log'')" "map_of reg (app_name a) = None"
    "reg2 = reg @ [(app_name a, file_logger (app_name a) (q @ app_name a @ ''.log''))]"
    "b = a\<lparr>root_log := q, app_logger := Some (file_logger (app_name a) (q @ app_name a @ ''.log''))\<rparr>"
    using assms f r n \<open>d = q\<close> by (auto simp: AppInitLogger_def CreateAppLogger_def Let_def split: if_splits)
  ultimately show thesis using that f r by blast
qed

text \<open>
  (C40) An application that \<open>Init\<close> has set up is ready.  Its directories are absolute, except that
  the one for uploads, when none was given, is the temporary directory as the system names it; each
  of the five that was given as an absolute path is kept, and the four of \<open>InitPathes\<close> that were
  given as a relative one are what it is made absolute to.  Its logger is a new one of its own name, which writes to
  a file that could be opened in its log directory and is the one the library finds under the
  name; and its templates, if there is an extension, are those of the template directory.
\<close>
theorem init_sets_up_application:
  assumes "AppInit can_open P B L dir_of tm ndebug ext reg a = (True, reg2, b)" "paths_ok P" "\<not> app_is_abortive a"
  shows "list_all (is_absolute P) [root_log b, root_template b, root_static b, root_temporary b] \<and>
     (if root_upload a = [] then temp_directory_path P = Some (root_upload b) else is_absolute P (root_upload b)) \<and>
     (\<forall>dir \<in> {root_log, root_template, root_static, root_upload, root_temporary}.
        dir a \<noteq> [] \<and> is_absolute P (dir a) \<longrightarrow> dir b = dir a) \<and>
     (\<forall>dir \<in> {root_template, root_static, root_upload, root_temporary}.
        dir a \<noteq> [] \<and> \<not> is_absolute P (dir a) \<longrightarrow> absolute P (dir a) = Some (dir b)) \<and>
     (let f = root_log b @ app_name b @ ''.log''
      in can_open f \<and> app_logger b = Some (file_logger (app_name a) f) \<and>
         map_of reg (app_name a) = None \<and> map_of reg2 (app_name a) = app_logger b) \<and>
     (app_template_ext b \<noteq> [] \<longrightarrow>
        (\<exists>t. (True, app_templates b) = Preload B L (dir_of (tmpl_root t)) tm t \<and>
             t = TmplInitPathes (root_template b) (root_url a) (app_template_ext b) (app_templates a)))"
proof -
  obtain reg1 a1 where 1: "AppInitLogger can_open P reg a = (True, reg1, a1)"
    using assms(1) by (auto simp: AppInit_def split: prod.splits bool.splits)
  obtain a2 where 2: "AppInitPathes P a1 = (True, a2)"
    using assms(1) 1 by (auto simp: AppInit_def split: prod.splits bool.splits)
  have 3: "AppInitTemplates B L dir_of tm ndebug ext a2 = (True, b)" and r: "reg2 = reg1"
    using assms(1) 1 2 by (auto simp: AppInit_def split: prod.splits)
  obtain q where q: "fix_log_path P (root_log a) = (Some q, q)" "can_open (q @ app_name a @ ''.log'')"
    "map_of reg (app_name a) = None" "reg1 = reg @ [(app_name a, file_logger (app_name a) (q @ app_name a @ ''.log''))]"
    "a1 = a\<lparr>root_log := q, app_logger := Some (file_logger (app_name a) (q @ app_name a @ ''.log''))\<rparr>"
    using AppInitLogger_ok [OF 1] by blast
  obtain d1 d2 d3 d4 where d: "fix_path P (current_path P) (root_template a1) = Some d1"
    "fix_path P (current_path P) (root_static a1) = Some d2" "fix_path P (temp_directory_path P) (root_upload a1) = Some d3"
    "fix_path P (current_path P) (root_temporary a1) = Some d4"
    "a2 = a1\<lparr>root_template := d1, root_static := d2, root_upload := d3, root_temporary := d4\<rparr>"
    using AppInitPathes_ok [OF 2] by blast
  have a1: "root_template a1 = root_template a" "root_static a1 = root_static a" "root_upload a1 = root_upload a"
    "root_temporary a1 = root_temporary a"
    using q(5) by simp_all
  note d = d [unfolded a1]
  have abs: "is_absolute P q" "is_absolute P d1" "is_absolute P d2" "is_absolute P d4"
    using fix_log_path_absolute [OF assms(2) q(1)] fix_path_absolute [OF assms(2) _ d(1)] fix_path_absolute [OF assms(2) _ d(2)]
      fix_path_absolute [OF assms(2) _ d(4)] by auto
  have up: "if root_upload a = [] then temp_directory_path P = Some d3 else is_absolute P d3"
    using fix_path_absolute [OF assms(2) _ d(3)] fix_path_is [OF d(3)] by simp
  have kept: "root_log a \<noteq> [] \<and> is_absolute P (root_log a) \<longrightarrow> q = root_log a"
    using q(1) by (auto simp: fix_log_path_def split: if_splits option.splits)
  note fixed = fix_path_is [OF d(1)] fix_path_is [OF d(2)] fix_path_is [OF d(3)] fix_path_is [OF d(4)]
  have b: "root_log b = q" "root_template b = d1" "root_static b = d2" "root_upload b = d3" "root_temporary b = d4"
    "app_name b = app_name a" "app_logger b = Some (file_logger (app_name a) (q @ app_name a @ ''.log''))"
    using 3 d(5) q(5) assms(3) by (auto simp: AppInitTemplates_def Let_def split: if_splits prod.splits)
  have "app_template_ext b \<noteq> [] \<longrightarrow> (\<exists>t. (True, app_templates b) = Preload B L (dir_of (tmpl_root t)) tm t \<and>
      t = TmplInitPathes (root_template b) (root_url a) (app_template_ext b) (app_templates a))"
    using 3 d(5) q(5) assms(3) by (auto simp: AppInitTemplates_def Let_def split: if_splits prod.splits)
  moreover have "\<forall>dir \<in> {root_log, root_template, root_static, root_upload, root_temporary}.
      dir a \<noteq> [] \<and> is_absolute P (dir a) \<longrightarrow> dir b = dir a"
    using kept fixed b by simp
  moreover have "\<forall>dir \<in> {root_template, root_static, root_upload, root_temporary}.
      dir a \<noteq> [] \<and> \<not> is_absolute P (dir a) \<longrightarrow> absolute P (dir a) = Some (dir b)"
    using fixed b by simp
  ultimately show ?thesis using abs up b q(2-4) r by (simp add: Let_def map_add_def)
qed

text \<open>A concrete run: an application made with a relative directory, in a working directory \<^verbatim>\<open>/srv/web\<close>.\<close>

definition demo_paths :: path_lib where
  "demo_paths = \<lparr>current_path = Some ''/srv/web'', temp_directory_path = Some ''/tmp'',
     is_absolute = (\<lambda>p. p \<noteq> [] \<and> hd p = CHR ''/''), absolute = (\<lambda>p. Some (''/srv/web/'' @ p)),
     path_append = (\<lambda>p q. if q = ''/'' then p @ q else p @ ''/'' @ q)\<rparr>"

lemma demo_paths_ok: "paths_ok demo_paths"
  by (simp add: paths_ok_def demo_paths_def)

definition demo_opts :: UploadFileSaveOptions where
  "demo_opts = \<lparr>strategy = always_save, size_base_kb = 0, extensions = []\<rparr>"

definition demo_setup :: "(nat, unit, unit, string) AppSetup" where
  "demo_setup = app_Customize demo_paths demo_opts ''shop'' ''/'' ''log/'' ''/static'' ''tmpl'' [] [] ''.t''"

lemma demo_setup_values:
  "root_log demo_setup = ''log/''" "root_static demo_setup = ''/static''" "root_template demo_setup = ''/srv/web/tmpl''"
  "root_upload demo_setup = ''/tmp''" "root_temporary demo_setup = ''/srv/web''" "app_name demo_setup = ''shop''"
  "app_logger demo_setup = Some null_logger" "app_template_ext demo_setup = ''.t''" "\<not> app_is_abortive demo_setup"
  "disabled (app_templates demo_setup) = False"
  by (simp_all add: demo_setup_def app_Customize_def AppInitPathes_def fix_path_def demo_paths_def app_members_def Let_def
      new_Templates_def)

lemma demo_init:
  "\<exists>b reg2. AppInit (\<lambda>f. True) demo_paths boost_classic demo_inja (\<lambda>d. demo_dir []) 5 True [] [] demo_setup = (True, reg2, b)"
  by (simp add: AppInit_def AppInitLogger_def log_IsNull_def fix_log_path_def demo_setup_values CreateAppLogger_def
      AppInitPathes_def fix_path_def AppInitTemplates_def Preload_def load_templates_def load_templates_flag_def
      demo_dir_def Let_def demo_paths_def TmplInitPathes_def split: prod.split)

theorem init_sets_up_application_witness:
  "\<exists>b reg2. AppInit (\<lambda>f. True) demo_paths boost_classic demo_inja (\<lambda>d. demo_dir []) 5 True [] [] demo_setup = (True, reg2, b) \<and>
     is_absolute demo_paths (root_log b) \<and> root_static b = ''/static'' \<and> map_of reg2 ''shop'' = app_logger b"
proof -
  obtain b reg2 where i: "AppInit (\<lambda>f. True) demo_paths boost_classic demo_inja (\<lambda>d. demo_dir []) 5 True [] [] demo_setup = (True, reg2, b)"
    using demo_init by blast
  have "is_absolute demo_paths ''/static''" by (simp add: demo_paths_def)
  then show ?thesis
    using i init_sets_up_application [OF i demo_paths_ok demo_setup_values(9)]
    by (auto simp: demo_setup_values Let_def)
qed

section \<open>Differences between the ways to set up\<close>

text \<open>A relative temporary directory is not made absolute, as every other directory is.\<close>

lemma relative_upload_directory:
  assumes "temp_directory_path P = Some d" "\<not> is_absolute P d" "root_upload a = []"
    and "AppInitPathes P a = (True, b)"
  shows "\<not> is_absolute P (root_upload b)"
  using assms(1-3) by (cases rule: AppInitPathes_ok [OF assms(4)]) (simp add: fix_path_def)

text \<open>
  The default application without a name has no extension for its templates: its \<open>Init\<close> loads
  none, while the one with a name loads those of the working directory.
\<close>
lemma unnamed_default_loads_no_templates:
  assumes "app_Default P opts = Some a"
  shows "AppInitTemplates B L dir_of tm ndebug [] a = (True, a)"
  using assms
  by (auto simp: app_Default_def default_init_def default_init_pathes_def default_init_logger_def default_init_templates_def
      app_members_def AppInitTemplates_def Let_def split: option.splits)

lemma named_default_loads_templates:
  assumes "app_Default_named P opts n = Some a"
  shows "app_template_ext a = daqi_HTML_template_ext"
  using assms
  by (auto simp: app_Default_named_def default_init_def default_init_pathes_def default_init_logger_def
      default_init_templates_def app_members_def split: option.splits)

text \<open>
  The name of the log file is put behind the directory without a slash, which the working
  directory does not end with: the file of a default application is beside it.
\<close>
lemma log_file_beside_directory:
  assumes "app_Default_named demo_paths opts ''shop'' = Some a"
  shows "fst (snd (AppInitLogger (\<lambda>f. True) demo_paths [] a)) = [(''shop'', file_logger ''shop'' ''/srv/webshop.log'')]"
  using assms
  by (auto simp: app_Default_named_def default_init_def default_init_pathes_def default_init_logger_def
      default_init_templates_def app_members_def demo_paths_def AppInitLogger_def log_IsNull_def fix_log_path_def
      CreateAppLogger_def Let_def)

text \<open>
  The manager keeps the logger an application has when it is mounted: one that gets its logger
  afterwards is still found with the null logger.
\<close>
lemma logger_after_mounting_unknown:
  assumes "AppInitLogger can_open P reg a = (True, reg2, b)" "app_logger a = Some null_logger"
  shows "GetApplicationLogger ndebug l (app_name b) (mgr_keep_logger False False a []) = Some null_logger \<and>
     app_logger b \<noteq> Some null_logger"
proof -
  obtain q where "b = a\<lparr>root_log := q, app_logger := Some (file_logger (app_name a) (q @ app_name a @ ''.log''))\<rparr>"
    using AppInitLogger_ok [OF assms(1)] by blast
  then show ?thesis using assms(2) by (simp add: GetApplicationLogger_def mgr_keep_logger_def)
qed

text \<open>A call that is refused because there is a logger has changed the log directory before.\<close>

lemma refused_logger_moves_directory:
  assumes "app_logger a = Some (file_logger n f)"
  shows "fst (AppInitLoggerAt can_open P d reg a) = False \<and> root_log (snd (snd (AppInitLoggerAt can_open P d reg a))) = d"
  using assms by (simp add: AppInitLoggerAt_def AppInitLogger_def log_IsNull_def)

end
