(* ===== verification/TimeText.thy ===== *)
theory TimeText
  imports StringUtil
begin

text \<open>
  The times of \<^verbatim>\<open>src/utilities/string_utilities.cpp\<close>: \<open>GMTFormatTime\<close>, which writes the dates of
  headers, and \<open>FormatDateTime\<close>.  Of the standard library the theory has \<^verbatim>\<open>gmtime\<close> on the Gregorian
  calendar, with the year in an \<^verbatim>\<open>int\<close>, and \<^verbatim>\<open>strftime\<close> in the C locale with the directives that
  the formats of the file use; the rules of the local time zone are a parameter.  \<open>None\<close> is a call
  whose behaviour is undefined: a year that does not fit, whose null pointer is read, or a text
  that does not fit into the buffer.  The names drawn by \<open>GetUUID\<close> are a parameter as well.
\<close>

section \<open>The calendar\<close>

definition is_leap :: "int \<Rightarrow> bool" where
  "is_leap y \<longleftrightarrow> y mod 4 = 0 \<and> y mod 100 \<noteq> 0 \<or> y mod 400 = 0"

definition leap_days :: "int \<Rightarrow> int" where
  "leap_days y = y div 4 - y div 100 + y div 400"

text \<open>The days from the first of January 1970 to that of a year.\<close>

definition days_before_year :: "int \<Rightarrow> int" where
  "days_before_year y = 365 * (y - 1970) + leap_days (y - 1) - 477"

definition year_of_day :: "int \<Rightarrow> int" where
  "year_of_day d =
     (let y = 1970 + (400 * d) div 146097
      in if d < days_before_year y then y - 1 else if days_before_year (y + 1) \<le> d then y + 1 else y)"

definition month_lengths :: "int \<Rightarrow> int list" where
  "month_lengths y = [31, if is_leap y then 29 else 28, 31, 30, 31, 30, 31, 31, 30, 31, 30, 31]"

fun find_month :: "int \<Rightarrow> int list \<Rightarrow> nat \<times> int" where
  "find_month d [] = (0, d)"
| "find_month d (n # ns) = (if d < n then (0, d) else case find_month (d - n) ns of (m, r) \<Rightarrow> (Suc m, r))"

record tm =
  tm_sec :: nat
  tm_min :: nat
  tm_hour :: nat
  tm_mday :: nat
  tm_mon :: nat
  tm_year :: int
  tm_wday :: nat
  tm_zone :: string

definition broken_down :: "int \<Rightarrow> string \<Rightarrow> tm" where
  "broken_down t zone =
     (let d = t div 86400; s = nat (t mod 86400); y = year_of_day d
      in case find_month (d - days_before_year y) (month_lengths y) of (m, r) \<Rightarrow>
         \<lparr>tm_sec = s mod 60, tm_min = s div 60 mod 60, tm_hour = s div 3600, tm_mday = nat r + 1,
          tm_mon = m, tm_year = y - 1900, tm_wday = nat ((d + 4) mod 7), tm_zone = zone\<rparr>)"

definition int_year :: "tm \<Rightarrow> tm option" where
  "int_year g = (if - (2 ^ 31) \<le> tm_year g \<and> tm_year g < 2 ^ 31 then Some g else None)"

definition std_gmtime :: "int \<Rightarrow> tm option" where
  "std_gmtime t = int_year (broken_down t ''GMT'')"

text \<open>The rules of a time zone: the seconds to add to a time, and the name of the zone then.\<close>

type_synonym time_zone = "int \<Rightarrow> int \<times> string"

definition std_localtime :: "time_zone \<Rightarrow> int \<Rightarrow> tm option" where
  "std_localtime Z t = (case Z t of (off, name) \<Rightarrow> int_year (broken_down (t + off) name))"

section \<open>The texts\<close>

definition day_names :: "string list" where
  "day_names = [''Sun'', ''Mon'', ''Tue'', ''Wed'', ''Thu'', ''Fri'', ''Sat'']"

definition month_names :: "string list" where
  "month_names = [''Jan'', ''Feb'', ''Mar'', ''Apr'', ''May'', ''Jun'', ''Jul'', ''Aug'', ''Sep'', ''Oct'', ''Nov'', ''Dec'']"

definition two_digits :: "nat \<Rightarrow> string" where
  "two_digits n = [digit_char (n div 10), digit_char (n mod 10)]"

definition strftime_field :: "tm \<Rightarrow> char \<Rightarrow> string option" where
  "strftime_field g ch =
     (if ch = CHR ''a'' then Some (day_names ! tm_wday g)
      else if ch = CHR ''b'' then Some (month_names ! tm_mon g)
      else if ch = CHR ''d'' then Some (two_digits (tm_mday g))
      else if ch = CHR ''m'' then Some (two_digits (tm_mon g + 1))
      else if ch = CHR ''Y'' then Some (to_string (1900 + tm_year g))
      else if ch = CHR ''H'' then Some (two_digits (tm_hour g))
      else if ch = CHR ''M'' then Some (two_digits (tm_min g))
      else if ch = CHR ''S'' then Some (two_digits (tm_sec g))
      else if ch = CHR ''Z'' then Some (tm_zone g)
      else if ch = CHR ''%'' then Some ''%''
      else None)"

fun strftime_text :: "tm \<Rightarrow> string \<Rightarrow> string option" where
  "strftime_text g [] = Some []"
| "strftime_text g (ch # fmt) =
     (if ch \<noteq> CHR ''%'' then map_option ((#) ch) (strftime_text g fmt)
      else case fmt of
             [] \<Rightarrow> None
           | d # rest \<Rightarrow>
               (case strftime_field g d of None \<Rightarrow> None | Some t \<Rightarrow> map_option ((@) t) (strftime_text g rest)))"

definition std_strftime :: "nat \<Rightarrow> tm \<Rightarrow> string \<Rightarrow> string option" where
  "std_strftime cap g fmt =
     (case strftime_text g fmt of None \<Rightarrow> None | Some t \<Rightarrow> if length t < cap then Some t else None)"

definition dt_fmt_gmt :: string where "dt_fmt_gmt = ''%a, %d %b %Y %H:%M:%S %Z''"
definition dt_fmt_yyyy_mm_dd_hh_mm_ss :: string where "dt_fmt_yyyy_mm_dd_hh_mm_ss = ''%Y-%m-%d %H:%M:%S''"
definition dt_fmt_yyyy_mm_dd :: string where "dt_fmt_yyyy_mm_dd = ''%Y-%m-%d''"

definition dt_fmt_yyyy_mm_dd_CN :: string where
  "dt_fmt_yyyy_mm_dd_CN =
     ''%Y'' @ [CHR 0xE5, CHR 0xB9, CHR 0xB4] @ ''%m'' @ [CHR 0xE6, CHR 0x9C, CHR 0x88] @
     ''%d'' @ [CHR 0xE6, CHR 0x97, CHR 0xA5]"

definition dt_fmt_yyyy_mm_dd_hh_mm_ss_CN :: string where
  "dt_fmt_yyyy_mm_dd_hh_mm_ss_CN =
     ''%Y'' @ [CHR 0xE5, CHR 0xB9, CHR 0xB4] @ ''%m'' @ [CHR 0xE6, CHR 0x9C, CHR 0x88] @
     ''%d'' @ [CHR 0xE6, CHR 0x97, CHR 0xA5] @ '' %H'' @ [CHR 0xE6, CHR 0x97, CHR 0xB6] @
     ''%M'' @ [CHR 0xE5, CHR 0x88, CHR 0x86] @ ''%S'' @ [CHR 0xE7, CHR 0xA7, CHR 0x92]"

definition GMTFormatTime :: "int \<Rightarrow> string option" where
  "GMTFormatTime t = (case std_gmtime t of None \<Rightarrow> None | Some gmt \<Rightarrow> std_strftime 48 gmt dt_fmt_gmt)"

definition FormatDateTime :: "time_zone \<Rightarrow> int \<Rightarrow> string \<Rightarrow> string option" where
  "FormatDateTime Z t fmt = (case std_localtime Z t of None \<Rightarrow> None | Some gmt \<Rightarrow> std_strftime 48 gmt fmt)"

definition GetUUID :: "string \<Rightarrow> string \<Rightarrow> string" where
  "GetUUID uid prefix = prefix @ uid"

section \<open>Days and years\<close>

lemma div_of_predecessor:
  assumes "0 < (n :: int)"
  shows "y div n - (y - 1) div n = (if y mod n = 0 then 1 else 0)"
proof (cases "y mod n = 0")
  case True
  then have "y - 1 = n * (y div n - 1) + (n - 1)" using mult_div_mod_eq [of n y] by (simp add: algebra_simps)
  then have "(y - 1) div n = y div n - 1"
    using assms by (intro int_div_pos_eq [where r = "n - 1"]) auto
  with True show ?thesis by simp
next
  case False
  have "y - 1 = n * (y div n) + (y mod n - 1)" using mult_div_mod_eq [of n y] by simp
  moreover have "0 \<le> y mod n" "y mod n < n" using assms by simp_all
  ultimately have "(y - 1) div n = y div n"
    using False by (intro int_div_pos_eq [where r = "y mod n - 1"]) auto
  with False show ?thesis by simp
qed

lemma leap_days_step: "leap_days y - leap_days (y - 1) = (if is_leap y then 1 else 0)"
proof -
  have "leap_days y - leap_days (y - 1) =
      (y div 4 - (y - 1) div 4) - (y div 100 - (y - 1) div 100) + (y div 400 - (y - 1) div 400)"
    by (simp add: leap_days_def del: diff_add_eq)
  also have "\<dots> = (if y mod 4 = 0 then 1 else 0) - (if y mod 100 = 0 then 1 else 0) + (if y mod 400 = 0 then 1 else 0)"
    by (simp only: div_of_predecessor zero_less_numeral)
  also have "\<dots> = (if is_leap y then 1 else 0)"
    using dvd_trans [of 100 400 y] dvd_trans [of 4 100 y] by (auto simp: mod_eq_0_iff_dvd is_leap_def)
  finally show ?thesis .
qed

lemma days_of_year: "days_before_year (y + 1) = days_before_year y + (if is_leap y then 366 else 365)"
  using leap_days_step [of y] by (auto simp: days_before_year_def)

lemma sum_month_lengths: "days_before_year y + sum_list (month_lengths y) = days_before_year (y + 1)"
  by (simp add: days_of_year month_lengths_def)

lemma leap_days_bounds:
  "400 * leap_days y \<le> 97 * y + 396" "97 * y - 699 \<le> 400 * leap_days y"
proof -
  have "4 * (y div 4) \<le> y" "y \<le> 4 * (y div 4) + 3" "100 * (y div 100) \<le> y" "y \<le> 100 * (y div 100) + 99"
    "400 * (y div 400) \<le> y" "y \<le> 400 * (y div 400) + 399" by presburger+
  then show "400 * leap_days y \<le> 97 * y + 396" "97 * y - 699 \<le> 400 * leap_days y"
    by (simp_all add: leap_days_def)
qed

lemma year_of_day:
  "days_before_year (year_of_day d) \<le> d \<and> d < days_before_year (year_of_day d + 1)"
proof -
  define y where "y = 1970 + (400 * d) div 146097"
  have "146097 * (y - 1970) \<le> 400 * d" "400 * d < 146097 * (y - 1970) + 146097"
    by (simp_all add: y_def)
  then have "days_before_year (y - 1) \<le> d" "d < days_before_year (y + 1 + 1)"
    using leap_days_bounds [of "y - 2"] leap_days_bounds [of "y + 1"]
    by (simp_all add: days_before_year_def algebra_simps)
  then show ?thesis by (auto simp: year_of_day_def Let_def y_def [symmetric])
qed

lemma find_month:
  "0 \<le> d \<Longrightarrow> d < sum_list ns \<Longrightarrow> find_month d ns = (m, r) \<Longrightarrow>
     m < length ns \<and> 0 \<le> r \<and> r < ns ! m \<and> sum_list (take m ns) + r = d"
  by (induction d ns arbitrary: m rule: find_month.induct) (fastforce split: if_splits prod.splits)+

text \<open>The reference: the time of a date and a time of the day.\<close>

definition timegm :: "tm \<Rightarrow> int" where
  "timegm g =
     (let y = 1900 + tm_year g
      in 86400 * (days_before_year y + sum_list (take (tm_mon g) (month_lengths y)) + int (tm_mday g) - 1) +
         3600 * int (tm_hour g) + 60 * int (tm_min g) + int (tm_sec g))"

definition proper_tm :: "tm \<Rightarrow> bool" where
  "proper_tm g \<longleftrightarrow> tm_sec g < 60 \<and> tm_min g < 60 \<and> tm_hour g < 24 \<and> tm_mon g < 12 \<and> tm_wday g < 7 \<and>
     1 \<le> tm_mday g \<and> int (tm_mday g) \<le> month_lengths (1900 + tm_year g) ! tm_mon g"

lemma month_lengths_le: "n \<in> set (month_lengths y) \<Longrightarrow> n \<le> 31"
  by (auto simp: month_lengths_def split: if_splits)

lemma length_month_lengths [simp]: "length (month_lengths y) = 12"
  by (simp add: month_lengths_def)

lemma seconds_of_day:
  "3600 * (s div 3600) + 60 * (s div 60 mod 60) + s mod 60 = (s :: nat)"
proof -
  have "3600 * (s div 3600) + 60 * (s div 60 mod 60) = 60 * (60 * (s div 60 div 60) + s div 60 mod 60)"
    by (simp add: div_mult2_eq [symmetric])
  then show ?thesis by (simp only: mult_div_mod_eq)
qed

text \<open>The date that is broken down is a proper one, and the one of the time.\<close>

lemma broken_down_correct: "proper_tm (broken_down t z) \<and> timegm (broken_down t z) = t"
proof -
  define d s y where "d = t div 86400" and "s = nat (t mod 86400)" and "y = year_of_day d"
  obtain m r where f: "find_month (d - days_before_year y) (month_lengths y) = (m, r)" by fastforce
  have "0 \<le> d - days_before_year y" "d - days_before_year y < sum_list (month_lengths y)"
    using year_of_day [of d] sum_month_lengths [of y] by (simp_all add: y_def)
  from find_month [OF this f] have m: "m < 12" "0 \<le> r" "r < month_lengths y ! m"
    "sum_list (take m (month_lengths y)) = d - days_before_year y - r" by auto
  have s: "s < 86400" "t = 86400 * d + int s" by (auto simp: s_def d_def)
  then have "s div 3600 < 24" by (simp add: less_mult_imp_div_less)
  moreover have "3600 * int (s div 3600) + (60 * int (s div 60 mod 60) + int (s mod 60)) = int s"
    using arg_cong [OF seconds_of_day [of s], of int] by (simp only: of_nat_add of_nat_mult of_nat_numeral add.assoc)
  moreover have "nat ((d + 4) mod 7) < 7" by (simp add: nat_less_iff)
  ultimately show ?thesis using m s(2) f
    by (simp add: broken_down_def proper_tm_def timegm_def d_def [symmetric] s_def [symmetric] y_def [symmetric] Let_def)
qed

section \<open>Dates of headers\<close>

text \<open>A reader of the dates of headers, as a browser has it: the day of the week is passed over.\<close>

definition read_gmt :: "string \<Rightarrow> int option" where
  "read_gmt s =
     (let mday = dec_value (take 2 (drop 5 s)); mon = take 3 (drop 8 s);
          rest = drop 12 s; clock = drop 1 (dropWhile is_digit rest)
      in case find_index (\<lambda>x. x = mon) month_names of
           None \<Rightarrow> None
         | Some m \<Rightarrow> Some (timegm
             \<lparr>tm_sec = dec_value (take 2 (drop 6 clock)), tm_min = dec_value (take 2 (drop 3 clock)),
              tm_hour = dec_value (take 2 clock), tm_mday = mday, tm_mon = m,
              tm_year = int (dec_value (takeWhile is_digit rest)) - 1900, tm_wday = 0, tm_zone = []\<rparr>))"

lemma length_two_digits [simp]: "length (two_digits n) = 2"
  by (simp add: two_digits_def)

lemma dec_value_two_digits: "n < 100 \<Longrightarrow> dec_value (two_digits n) = n"
  by (simp add: two_digits_def)

lemma month_name: "m < 12 \<Longrightarrow> length (month_names ! m) = 3 \<and> find_index (\<lambda>x. x = month_names ! m) month_names = Some m"
  by (auto simp: less_Suc_eq numeral_eq_Suc month_names_def)

lemma day_name: "w < 7 \<Longrightarrow> length (day_names ! w) = 3"
  by (auto simp: less_Suc_eq numeral_eq_Suc day_names_def)

definition gmt_text :: "tm \<Rightarrow> string" where
  "gmt_text g = day_names ! tm_wday g @ '', '' @ two_digits (tm_mday g) @ '' '' @ month_names ! tm_mon g @ '' '' @
     to_string (1900 + tm_year g) @ '' '' @ two_digits (tm_hour g) @ '':'' @ two_digits (tm_min g) @ '':'' @
     two_digits (tm_sec g) @ '' '' @ tm_zone g"

lemma strftime_gmt: "strftime_text g dt_fmt_gmt = Some (gmt_text g)"
  by (simp add: dt_fmt_gmt_def gmt_text_def strftime_field_def)

lemma takeWhile_digits:
  "takeWhile is_digit (dec_digits n @ CHR '' '' # t) = dec_digits n"
  "dropWhile is_digit (dec_digits n @ CHR '' '' # t) = CHR '' '' # t"
proof -
  have "\<forall>c\<in>set (dec_digits n). is_digit c" using dec_digits_all_digits by (simp add: list_all_iff)
  moreover have "\<not> is_digit (CHR '' '')" by (simp add: is_digit_def)
  ultimately show "takeWhile is_digit (dec_digits n @ CHR '' '' # t) = dec_digits n"
    "dropWhile is_digit (dec_digits n @ CHR '' '' # t) = CHR '' '' # t"
    by (simp_all add: takeWhile_append2 dropWhile_append2)
qed

lemma month_lengths_nth: "m < 12 \<Longrightarrow> month_lengths y ! m \<le> 31"
  using month_lengths_le [of "month_lengths y ! m" y] nth_mem [of m "month_lengths y"] by simp

lemma read_gmt_text:
  assumes "proper_tm g" "0 \<le> 1900 + tm_year g"
  shows "read_gmt (gmt_text g) = Some (timegm g)"
proof -
  note g = assms(1) [unfolded proper_tm_def]
  have "tm_mday g < 100" using g month_lengths_nth [of "tm_mon g" "1900 + tm_year g"] by linarith
  then show ?thesis
    using g assms(2) month_name [of "tm_mon g"] day_name [of "tm_wday g"]
    by (simp add: read_gmt_def gmt_text_def takeWhile_digits dec_value_two_digits to_string_def Let_def
        timegm_def numeral_eq_Suc)
qed

lemma length_dec_digits: "n < 10 ^ Suc k \<Longrightarrow> length (dec_digits n) \<le> Suc k"
proof (induction k arbitrary: n)
  case 0
  then show ?case by (subst dec_digits.simps) simp
next
  case (Suc k)
  then have "n div 10 < 10 ^ Suc k" by (simp add: less_mult_imp_div_less)
  from Suc.IH [OF this] show ?case by (subst dec_digits.simps) simp
qed

lemma length_to_string: "\<bar>i\<bar> < 10 ^ Suc k \<Longrightarrow> length (to_string i) \<le> Suc (Suc k)"
  using length_dec_digits [of "nat \<bar>i\<bar>" k] by (auto simp: to_string_def nat_less_iff abs_if split: if_splits)

lemma length_gmt_text:
  assumes "proper_tm g" "- (2 ^ 31) \<le> tm_year g" "tm_year g < 2 ^ 31" "length (tm_zone g) = 3"
  shows "length (gmt_text g) < 48"
proof -
  have "\<bar>1900 + tm_year g\<bar> < 10 ^ Suc 9" using assms(2,3) by simp
  from length_to_string [OF this] show ?thesis
    using assms month_name [of "tm_mon g"] day_name [of "tm_wday g"] by (simp add: gmt_text_def proper_tm_def)
qed

lemma broken_down_zone [simp]: "tm_zone (broken_down t z) = z"
  by (simp add: broken_down_def Let_def split: prod.split)

lemma broken_down_year [simp]: "tm_year (broken_down t z) = year_of_day (t div 86400) - 1900"
  by (simp add: broken_down_def Let_def split: prod.split)

text \<open>The buffer is large enough for every year.\<close>

lemma GMTFormatTime_is: "GMTFormatTime t = map_option gmt_text (std_gmtime t)"
proof -
  let ?g = "broken_down t ''GMT''"
  have "length (gmt_text ?g) < 48" if "- (2 ^ 31) \<le> tm_year ?g" "tm_year ?g < 2 ^ 31"
    using length_gmt_text [OF _ that] broken_down_correct by simp
  then show ?thesis
    by (simp add: GMTFormatTime_def std_gmtime_def int_year_def std_strftime_def strftime_gmt del: broken_down_year)
qed

text \<open>
  The date of a header names the time it was made from: whatever the time is, as long as its
  year is one of our era that fits an \<^verbatim>\<open>int\<close>, \<open>GMTFormatTime\<close> gives a text within its buffer, and
  reading the text gives the time back, to the second.
\<close>
theorem gmt_text_reads_back:
  assumes "0 \<le> year_of_day (t div 86400)" "year_of_day (t div 86400) < 2 ^ 31"
  shows "\<exists>s. GMTFormatTime t = Some s \<and> length s < 48 \<and> read_gmt s = Some t"
proof -
  let ?g = "broken_down t ''GMT''"
  have g: "proper_tm ?g" "timegm ?g = t" using broken_down_correct by auto
  have "std_gmtime t = Some ?g" using assms by (simp add: std_gmtime_def int_year_def)
  then show ?thesis
    using g assms read_gmt_text [OF g(1)] length_gmt_text [OF g(1)] by (simp add: GMTFormatTime_is)
qed

theorem gmt_text_reads_back_witness:
  "\<exists>s. GMTFormatTime 951782399 = Some s \<and> length s < 48 \<and> read_gmt s = Some 951782399"
  by (rule gmt_text_reads_back) (simp_all add: year_of_day_def days_before_year_def leap_days_def)

text \<open>The date of the expired cookies of the old version is the time 0.\<close>

lemma expired_date_is_time_0: "GMTFormatTime 0 = Some ''Thu, 01 Jan 1970 00:00:00 GMT''"
  by code_simp

lemma leap_day_text: "GMTFormatTime 951782400 = Some ''Tue, 29 Feb 2000 00:00:00 GMT''"
  by code_simp

text \<open>A year that does not fit an \<^verbatim>\<open>int\<close> makes \<^verbatim>\<open>gmtime\<close> give a null pointer, which is read.\<close>

lemma year_too_large: "GMTFormatTime (2 ^ 56) = None"
  by (simp add: GMTFormatTime_is std_gmtime_def int_year_def year_of_day_def days_before_year_def leap_days_def)

text \<open>A text that is longer than the buffer leaves the buffer undefined.\<close>

lemma long_format_undefined:
  "FormatDateTime (\<lambda>t. (0, ''UTC'')) 0 (dt_fmt_yyyy_mm_dd_hh_mm_ss @ '' '' @ dt_fmt_yyyy_mm_dd_hh_mm_ss @ '' '' @ dt_fmt_yyyy_mm_dd) = None"
  by code_simp

text \<open>A local time has no zone in it, so that two times in the hour that is repeated are one text.\<close>

lemma strftime_without_zone:
  "strftime_text (broken_down t z) dt_fmt_yyyy_mm_dd_hh_mm_ss = strftime_text (broken_down t z2) dt_fmt_yyyy_mm_dd_hh_mm_ss"
proof -
  have z: "broken_down t z = (broken_down t [])\<lparr>tm_zone := z\<rparr>" for z
    by (simp add: broken_down_def Let_def split: prod.split)
  have "strftime_text (g\<lparr>tm_zone := z\<rparr>) dt_fmt_yyyy_mm_dd_hh_mm_ss = strftime_text g dt_fmt_yyyy_mm_dd_hh_mm_ss" for g z
    by (simp add: dt_fmt_yyyy_mm_dd_hh_mm_ss_def strftime_field_def)
  then show ?thesis by (metis z)
qed

lemma repeated_hour_is_one_text:
  assumes "t + fst (Z t) = u + fst (Z u)"
  shows "FormatDateTime Z t dt_fmt_yyyy_mm_dd_hh_mm_ss = FormatDateTime Z u dt_fmt_yyyy_mm_dd_hh_mm_ss"
  using assms strftime_without_zone [of "t + fst (Z t)" "snd (Z t)" "snd (Z u)"]
  by (cases "Z t"; cases "Z u") (simp add: FormatDateTime_def std_localtime_def int_year_def std_strftime_def)

end
