(* ===== verification/ClientSocket.thy ===== *)
theory ClientSocket
  imports Client
begin

text \<open>
  \<^verbatim>\<open>src/net-detail/net_detail_client.cpp\<close>: the sockets of the HTTP client, plain and with TLS.
  What the operations of Boost.Asio give is an argument; the state keeps what they have done to
  the socket and which operation is outstanding.  The calls of the callback of \<open>async_connect\<close> are
  recorded.  Reads and writes only pass on to the stream, and are the completions of \<open>Client\<close>.
\<close>

datatype socket_op = op_connect | op_handshake

record client_socket =
  sk_open :: bool
  sk_connected :: bool
  sk_handshaken :: bool
  sk_verify_none :: bool
  sk_pending :: "socket_op option"
  sk_notified :: "errorcode list"

definition new_socket :: client_socket where
  "new_socket = \<lparr>sk_open = False, sk_connected = False, sk_handshaken = False, sk_verify_none = False,
     sk_pending = None, sk_notified = []\<rparr>"

section \<open>The plain socket\<close>

definition plain_async_connect :: "client_socket \<Rightarrow> client_socket" where
  "plain_async_connect s = s\<lparr>sk_open := True, sk_pending := Some op_connect\<rparr>"

definition plain_connected :: "errorcode \<Rightarrow> client_socket \<Rightarrow> client_socket" where
  "plain_connected ec s =
     s\<lparr>sk_connected := (ec = None), sk_pending := None, sk_notified := sk_notified s @ [ec]\<rparr>"

definition sync_connect :: "errorcode \<Rightarrow> client_socket \<Rightarrow> errorcode \<times> client_socket" where
  "sync_connect ec s = (ec, s\<lparr>sk_open := True, sk_connected := (ec = None)\<rparr>)"

text \<open>The error of \<^verbatim>\<open>shutdown\<close> is overwritten by that of \<^verbatim>\<open>close\<close>.\<close>

definition plain_close :: "errorcode \<Rightarrow> errorcode \<Rightarrow> client_socket \<Rightarrow> errorcode \<times> client_socket" where
  "plain_close shutdown_ec close_ec s = (close_ec, s\<lparr>sk_open := False, sk_connected := False\<rparr>)"

section \<open>The socket with TLS\<close>

definition ssl_async_connect :: "client_socket \<Rightarrow> client_socket" where
  "ssl_async_connect s = s\<lparr>sk_open := True, sk_pending := Some op_connect\<rparr>"

text \<open>The lambda that is called when the connection is made or has failed, and the end of the handshake.\<close>

definition ssl_connected :: "errorcode \<Rightarrow> client_socket \<Rightarrow> client_socket" where
  "ssl_connected ec s =
     (if ec \<noteq> None then s\<lparr>sk_pending := None, sk_notified := sk_notified s @ [ec]\<rparr>
      else s\<lparr>sk_connected := True, sk_verify_none := True, sk_pending := Some op_handshake\<rparr>)"

definition ssl_handshaken :: "errorcode \<Rightarrow> client_socket \<Rightarrow> client_socket" where
  "ssl_handshaken ec s = s\<lparr>sk_handshaken := (ec = None), sk_pending := None, sk_notified := sk_notified s @ [ec]\<rparr>"

definition ssl_complete :: "errorcode \<Rightarrow> client_socket \<Rightarrow> client_socket" where
  "ssl_complete ec s =
     (case sk_pending s of
        None \<Rightarrow> s
      | Some op_connect \<Rightarrow> ssl_connected ec s
      | Some op_handshake \<Rightarrow> ssl_handshaken ec s)"

definition ssl_sync_connect :: "errorcode \<Rightarrow> client_socket \<Rightarrow> errorcode \<times> client_socket" where
  "ssl_sync_connect ec s = (ec, s\<lparr>sk_open := True, sk_connected := (ec = None)\<rparr>)"

text \<open>
  \<^verbatim>\<open>cancel\<close> without an error code throws when it fails, which it does on a socket that is not open:
  then the call has no result.
\<close>

definition ssl_close :: "errorcode \<Rightarrow> errorcode \<Rightarrow> client_socket \<Rightarrow> (errorcode \<times> client_socket) option" where
  "ssl_close shutdown_ec close_ec s =
     (if \<not> sk_open s then None
      else Some (close_ec, s\<lparr>sk_open := False, sk_connected := False, sk_handshaken := False, sk_pending := None\<rparr>))"

section \<open>Properties\<close>

text \<open>The connection of the socket: operations end with the given codes, one after the other.\<close>

inductive ssl_run :: "client_socket \<Rightarrow> client_socket \<Rightarrow> bool" where
  started: "ssl_run s (ssl_async_connect s)"
| completed: "ssl_run s t \<Longrightarrow> sk_pending t \<noteq> None \<Longrightarrow> ssl_run s (ssl_complete ec t)"

text \<open>
  An asynchronous connect notifies once, when nothing is outstanding any more, and with success
  exactly when the connection is made and the handshake done, without a check of the certificate.
\<close>

definition connect_inv :: "client_socket \<Rightarrow> bool" where
  "connect_inv t \<longleftrightarrow>
     (case sk_pending t of
        Some op_connect \<Rightarrow> sk_notified t = [] \<and> \<not> sk_connected t \<and> \<not> sk_handshaken t
      | Some op_handshake \<Rightarrow> sk_notified t = [] \<and> sk_connected t \<and> sk_verify_none t \<and> \<not> sk_handshaken t
      | None \<Rightarrow> \<exists>ec. sk_notified t = [ec] \<and> (ec = None \<longleftrightarrow> sk_connected t \<and> sk_handshaken t) \<and>
                  (ec = None \<longrightarrow> sk_verify_none t))"

lemma async_connect_notifies_once: "ssl_run new_socket t \<Longrightarrow> connect_inv t"
proof (induction "new_socket" t rule: ssl_run.induct)
  case started
  then show ?case by (simp add: connect_inv_def ssl_async_connect_def new_socket_def)
next
  case (completed t ec)
  then show ?case
    by (auto simp: connect_inv_def ssl_complete_def ssl_connected_def ssl_handshaken_def split: option.splits socket_op.splits)
qed

text \<open>At most two operations end, so a connect whose operations end is notified.\<close>

lemma async_connect_ends: "sk_pending (ssl_complete ec2 (ssl_complete ec1 (ssl_async_connect s))) = None"
  by (simp add: ssl_complete_def ssl_connected_def ssl_handshaken_def ssl_async_connect_def)

text \<open>
  The synchronous connect succeeds without a handshake, which nothing else makes: a synchronous
  request over TLS is sent on a stream whose handshake was never done.
\<close>

lemma sync_connect_without_handshake:
  "fst (ssl_sync_connect None new_socket) = None \<and> sk_connected (snd (ssl_sync_connect None new_socket)) \<and>
   \<not> sk_handshaken (snd (ssl_sync_connect None new_socket))"
  by (simp add: ssl_sync_connect_def new_socket_def)

text \<open>Closing a socket that was never opened, or a second time, throws with TLS and does not without.\<close>

lemma close_of_closed_throws: "ssl_close a b new_socket = None" "fst (plain_close a b new_socket) = b"
  by (simp_all add: ssl_close_def plain_close_def new_socket_def)

end
