(* ===== verification/Spec2Isabelle.thy ===== *)
theory Spec2Isabelle
  imports StringUtil HttpUtil Base64 WsFrameProofs RedisClientProofs RouterProofs Url Cookie
    ResponseProofs Intercept Files Render RequestProofs ApplicationProofs HttpUpload WsRegistryProofs StaticFileProofs
    ClientProofs JsonValueProofs TemplatesProofs ServerProofs HttpUrlProofs DigestsProofs
    CharsetProofs RedisPool WsContextList AppSetupProofs TimeText ClientSocket
begin

text \<open>
  A verification library for the da4qi4 web framework (all paths below are under
  \<^verbatim>\<open>src/\<close> of the repository; headers are under \<^verbatim>\<open>include/daqi/\<close>).

  \<^bold>\<open>The program.\<close>  A server accepts connections.  A connection (\<^verbatim>\<open>connection.cpp\<close>) feeds what it
  reads to an HTTP parser whose callbacks fill a request (\<^verbatim>\<open>request.cpp\<close>); when the request is
  complete it looks for the application of the URL (\<^verbatim>\<open>application.cpp\<close>), makes a context
  (\<^verbatim>\<open>context.cpp\<close>) and starts it.  The context runs the chain of intercepters of the application
  around the handler that the routing tables (\<^verbatim>\<open>router.cpp\<close>) give; handler and intercepters
  fill a response (\<^verbatim>\<open>response.cpp\<close>), and the connection writes it, whole or in chunks, and reads
  the next request or closes.  A request for an upgrade turns the connection into a WebSocket
  connection (\<^verbatim>\<open>websocket/\<close>), which is registered with its application.  Beside this there are
  an asynchronous Redis client and its pool (\<^verbatim>\<open>redis-client/\<close>), an HTTP client (\<^verbatim>\<open>client/\<close>), the
  repository of templates (\<^verbatim>\<open>templates.cpp\<close>), the intercepters for sessions and static files
  (\<^verbatim>\<open>intercepters/\<close>), the engine of threads and timers (\<^verbatim>\<open>server.cpp\<close>,
  \<^verbatim>\<open>server_engine.cpp\<close>) and a set of encoders and decoders (\<^verbatim>\<open>utilities/\<close>).

  \<^bold>\<open>Theories.\<close>
  \<^item> \<open>Prelude\<close>, \<open>OrderedMap\<close>: bytes, strings, decimal numerals; \<^verbatim>\<open>std::map\<close> with a comparator as
    a sorted association list.  The locale \<open>strict_total_order\<close> states what a comparator must
    satisfy, and is interpreted for every comparator the code uses.
  \<^item> \<open>StringUtil\<close>, \<open>HttpUtil\<close>, \<open>Base64\<close>, \<open>Files\<close>, \<open>Html\<close>: \<^verbatim>\<open>utilities/string_utilities.cpp\<close>,
    \<^verbatim>\<open>http_utilities.cpp\<close>, \<^verbatim>\<open>base64_utilities.cpp\<close>, \<^verbatim>\<open>file_utilities.cpp\<close>,
    \<^verbatim>\<open>html_utilities.cpp\<close>.
  \<^item> \<open>TimeText\<close>: the times of \<^verbatim>\<open>string_utilities.cpp\<close>, with the Gregorian calendar and the directives of
    \<^verbatim>\<open>strftime\<close> that they use; the dates of headers are read back to the second.
  \<^item> \<open>Digests\<close>, \<open>DigestsProofs\<close>: \<^verbatim>\<open>md5_utilities.cpp\<close>, \<^verbatim>\<open>des3_utilities.cpp\<close>,
    \<^verbatim>\<open>hmac_sha1_utilities.cpp\<close>, over OpenSSL's digest and block cipher as parameters.
  \<^item> \<open>Charset\<close>, \<open>CharsetProofs\<close>: \<^verbatim>\<open>encoding_utilities.cpp\<close>: the loop over \<^verbatim>\<open>iconv\<close>, a parameter
    given by what one call consumes, writes and reports, and the wide strings around it.
  \<^item> \<open>RedisValue\<close>, \<open>RedisParser\<close>, \<open>RedisParserProofs\<close>, \<open>RedisClient\<close>, \<open>RedisClientProofs\<close>:
    \<^verbatim>\<open>redis-client/\<close>; \<open>RedisPool\<close>: \<^verbatim>\<open>rediscli_pool.cpp\<close>, the synchronous functions
    of the client and the client that a context asks for.  The parser is a record of its state and stack of open arrays, stepped over
    the bytes; the client is a record of its queue and flags, and an inductive step relation
    whose steps are the completions of reads and writes and the calls of the user.
  \<^item> \<open>Handler\<close>, \<open>Router\<close>, \<open>RouterProofs\<close>: \<^verbatim>\<open>handler.cpp\<close>, \<^verbatim>\<open>router.cpp\<close>.  The locale \<open>routing_table\<close>
    is the contract of one table, interpreted for the three tables of the code.
  \<^item> \<open>HttpUrl\<close>, \<open>HttpUrlProofs\<close>: \<^verbatim>\<open>llhttp/helper/http_url_def.c\<close>, the automaton that cuts a URL into
    its parts, with positions in 16 bits as in the code.
  \<^item> \<open>Url\<close>, \<open>Cookie\<close>, \<open>Response\<close>, \<open>ResponseProofs\<close>, \<open>Request\<close>, \<open>RequestProofs\<close>: the data of a
    request and of a response, with every setter and every routine that writes or reads a wire
    format.
  \<^item> \<open>Intercept\<close>, \<open>Render\<close>: \<^verbatim>\<open>context.cpp\<close>: the walk over the chain (a fuel-free recursion on
    the decisions left), and the pages of a context with the template engine as a parameter.
  \<^item> \<open>Session\<close>, \<open>SessionProofs\<close>, \<open>StaticFile\<close>, \<open>StaticFileProofs\<close>: \<^verbatim>\<open>intercepters/\<close>: the session
    kept in Redis under the identity that a cookie holds, and the files under a directory with their caching headers.
  \<^item> \<open>JsonValue\<close>, \<open>JsonValueProofs\<close>: \<^verbatim>\<open>def/json_def.cpp\<close>, the conversions of JSON values with
    their defaults.
  \<^item> \<open>Templates\<close>, \<open>TemplatesProofs\<close>: \<^verbatim>\<open>templates.cpp\<close>: the names, the loading and the reloading of
    templates, over a file system as a map from paths.
  \<^item> \<open>Application\<close>, \<open>ApplicationProofs\<close>: \<^verbatim>\<open>application.cpp\<close>: mounting, the application of a URL,
    adding and finding handlers, index pages.
  \<^item> \<open>AppSetup\<close>, \<open>AppSetupProofs\<close>: the constructors and \<open>Init\<close> functions of \<^verbatim>\<open>application.cpp\<close>
    and the loggers of \<^verbatim>\<open>log_def.cpp\<close>, over the same file system.
  \<^item> \<open>Server\<close>, \<open>ServerProofs\<close>: \<^verbatim>\<open>server.cpp\<close>, \<^verbatim>\<open>server_engine.cpp\<close>: the engines, the acceptor and the
    idle timers, with an inductive step relation for the completions of the timers.
  \<^item> \<open>Client\<close>, \<open>ClientProofs\<close>: \<^verbatim>\<open>client/\<close>: requests, the callbacks that build a response, and
    the sequence of connecting, writing and reading; \<open>ClientSocket\<close>: its sockets, plain and with
    TLS (\<^verbatim>\<open>net-detail/net_detail_client.cpp\<close>).
  \<^item> \<open>MultipartParser\<close>, \<open>MultipartParserProofs\<close>, \<open>MultipartBody\<close>: the parser of multipart bodies
    and the theorem that it reads back every written body.
  \<^item> \<open>HttpConn\<close>, \<open>HttpConnProofs\<close>, \<open>HttpMultipart\<close>, \<open>HttpUpload\<close>: \<^verbatim>\<open>connection.cpp\<close>: one operation
    per callback of the HTTP parser and of the multipart parser, the whole of \<open>on_read\<close>, the
    writes and their completions, and an upload from its bytes to the files of the request.
  \<^item> \<open>WriteQueue\<close>, \<open>WsFrame\<close>, \<open>WsFrameProofs\<close>, \<open>WsConnection\<close>, \<open>WsConnectionProofs\<close>,
    \<open>WsRegistry\<close>, \<open>WsRegistryProofs\<close>, \<open>WsContextList\<close>: \<^verbatim>\<open>websocket/\<close>: frames, the
    connection, the connections of an application by URL and identity, and the lists of contexts
    with their iterators.  The locale \<open>write_queue\<close> is the contract of a writer
    with one outstanding write.

  \<^bold>\<open>Conventions.\<close>  A class is a record of its members; a member function takes the record and
  returns it changed.  Failures are values (\<open>None\<close>, an error code, a result with a flag).
  Pointers to shared objects are numbers into a store where aliasing matters.  A piece of code
  outside the repository, or vendored in it (Boost, the generated \<^verbatim>\<open>llhttp.c\<close>, the JSON and
  template libraries, OpenSSL, \<^verbatim>\<open>iconv\<close>, the logging library, the clock, random numbers), is an
  argument of the definitions that use it; the URL helper beside \<^verbatim>\<open>llhttp\<close> and the multipart
  parser are modelled as code of the repository.  Whether the reservation of a length that comes off
  the wire succeeds, and what a file holds after it was written to, are such arguments, and no theorem
  assumes that every reservation or every write succeeds; running out of memory elsewhere is
  not modelled.  Bytes are
  \<open>char\<close> or \<open>8 word\<close>; lengths that the code keeps in 16, 32 or 64 bits are words.

  \<^bold>\<open>What the theorems show.\<close>  Round trips: frames, Redis replies, URLs, Base64, cookies,
  responses, chunks, uploads, wide strings are read back as they were written.  Equivalence: a
  converted text is what the converter gives on the whole text, however small the buffer.
  Refinements: a WebSocket connection is a channel, the registry of connections is one finite map, the chain of
  intercepters is a nesting of calls.  Invariants of every reachable state: one outstanding
  operation per Redis connection, replies in the order of the commands, entries of the registry
  that are their connections' own names or are of connections gone without one, distinct cookies,
  a fresh request after a kept connection.  Functional behaviour on every branch: routing,
  applications, pages, headers and parts that come in any pieces.  Termination: the loops that
  eat a buffer are \<open>function\<close>s with a measure, the one that need not end (\<open>Parse\<close> of frames, whose
  length is cut to 32 bits) takes fuel: \<open>ws_parse_terminates\<close> shows that it either comes to a frame of
  \<open>2 ^ 32\<close> bytes or more on which it stays for ever, or returns with fuel of twice the number of
  bytes plus one.  Where the code does not keep a promise a lemma beside the theorem shows it on a concrete
  run.

  \<^bold>\<open>Not modelled.\<close>  What runs between the steps: threads and their locks, signals, and the
  calls of Boost.Asio themselves (sockets, name resolution, the steps of TLS), of which the model
  keeps the completions.  The logging library with its messages, levels and sinks (the model keeps
  which loggers exist, under which names and in which files).  The text
  dumps for debugging, the built-in default pages, and getters that only return a member.  The
  libraries that are arguments (above).  Vendored code: \<^verbatim>\<open>nlohmann_json\<close>, \<^verbatim>\<open>inja\<close>,
  \<^verbatim>\<open>spdlog\<close> and \<^verbatim>\<open>llhttp.c\<close>, which is most of the lines of the repository, is not the program's own.
\<close>

end
